(* ===== verification/Enigma_Prelude.thy ===== *)
theory Enigma_Prelude
  imports Complex_Main "HOL-Library.Word" "HOL-Library.AList"
begin

unbundle bit_operations_syntax

text \<open>
  What the component theories share: the exceptions of the program as a datatype, results as
  sums, byte strings as lists of \<open>8 word\<close>, Python slices, the \<open>struct\<close> formats
  \<^verbatim>\<open>>H\<close>, \<^verbatim>\<open>>I\<close> and \<^verbatim>\<open>>Q\<close>,
  UTF-8, and the contract of a prefix codec as a locale (an encoder whose output the decoder
  reads back from the front of any byte string).

  Logging is not modelled. Exception texts are dropped, the exception class is kept.
\<close>

named_theorems enigma_simps \<open>unfolding rules of the model's operations\<close>
named_theorems codec_simps \<open>round trips of the wire formats\<close>

section \<open>Exceptions and results\<close>

text \<open>
  The classes of \<^verbatim>\<open>src/exceptions.py\<close> and the built-in and library exceptions the
  source raises or catches by name. \<open>LockoutError\<close> and \<open>SharedSecretDetected\<close> carry their
  two fields.
\<close>

datatype enigma_error =
    ValueError | UnicodeError | StructError | KeyError | TypeError | IndexError
  | ZeroDivisionError | AttributeError | RuntimeError | OSErr | InvalidTag | SqliteError
  | KeyStoreError | LockoutError rat rat
  | EncryptionError | DecryptionError
  | RatchetStateError | RatchetNotFoundError | RatchetInitError | RatchetServiceError
  | TOTPValidationError
  | CryptoTimeoutError | ConcurrencyError
  | TrustChainError | CertificateError | CertificateExpiredError | CertificateRevokedError
  | CertificateSignatureError
  | ShamirError | InsufficientSharesError | InvalidShareError
  | FriendsServiceError | GlobalSecretServiceError | BackupServiceError
  | FileServiceError | SharedSecretDetected "nat list" "8 word list" | HashingError
  | DatabaseError | DatabaseConnectionError | DatabaseIntegrityError
  | DatabaseLockedError | DatabaseCorruptedError

type_synonym 'a res = "enigma_error + 'a"

text \<open>\<^verbatim>\<open>except ValueError\<close> also catches the Unicode errors, which are its
  subclasses; \<^verbatim>\<open>struct.error\<close> and \<^verbatim>\<open>InvalidTag\<close> are not.\<close>

definition is_value_error :: "enigma_error \<Rightarrow> bool" where
  "is_value_error e \<longleftrightarrow> e = ValueError \<or> e = UnicodeError"

fun is_ok :: "'a res \<Rightarrow> bool" where
  "is_ok (Inl e) = False"
| "is_ok (Inr x) = True"

lemma is_ok_iff: "is_ok r \<longleftrightarrow> (\<exists>x. r = Inr x)"
  by (cases r) auto

lemma update_absent: "map_of xs k = None \<Longrightarrow> AList.update k v xs = xs @ [(k, v)]"
  by (induction xs) (auto split: if_splits)

text \<open>Evaluation in sequence: the first exception ends the loop.\<close>

fun map_res :: "('a \<Rightarrow> 'b res) \<Rightarrow> 'a list \<Rightarrow> 'b list res" where
  "map_res f [] = Inr []"
| "map_res f (x # xs) =
     (case f x of Inl e \<Rightarrow> Inl e
      | Inr y \<Rightarrow> (case map_res f xs of Inl e \<Rightarrow> Inl e | Inr ys \<Rightarrow> Inr (y # ys)))"

fun fold_res :: "('a \<Rightarrow> 's \<Rightarrow> 's res) \<Rightarrow> 'a list \<Rightarrow> 's \<Rightarrow> 's res" where
  "fold_res f [] s = Inr s"
| "fold_res f (x # xs) s = (case f x s of Inl e \<Rightarrow> Inl e | Inr s' \<Rightarrow> fold_res f xs s')"

lemma map_res_ok: "(\<And>x. x \<in> set xs \<Longrightarrow> f x = Inr (g x)) \<Longrightarrow> map_res f xs = Inr (map g xs)"
  by (induction xs) auto

lemma map_res_cong [fundef_cong]:
  "xs = ys \<Longrightarrow> (\<And>x. x \<in> set ys \<Longrightarrow> f x = g x) \<Longrightarrow> map_res f xs = map_res g ys"
  by (induction xs arbitrary: ys) (auto split: sum.splits)

lemma map_res_length: "map_res f xs = Inr ys \<Longrightarrow> length ys = length xs"
  by (induction xs arbitrary: ys) (auto split: sum.splits)

lemma fold_res_append:
  "fold_res f (xs @ ys) s = (case fold_res f xs s of Inl e \<Rightarrow> Inl e | Inr s' \<Rightarrow> fold_res f ys s')"
  by (induction xs arbitrary: s) (auto split: sum.splits)

text \<open>An invariant of the state that every step keeps holds at the end of the loop.\<close>

lemma fold_res_invariant:
  assumes "\<And>x s s'. x \<in> set xs \<Longrightarrow> P s \<Longrightarrow> f x s = Inr s' \<Longrightarrow> P s'"
    and "P s" and "fold_res f xs s = Inr s'"
  shows "P s'"
  using assms by (induction xs arbitrary: s) (auto split: sum.splits)

text \<open>
  An operation on a mutable object returns its result and the object's new state, also when it
  raises: what was assigned before the exception stays assigned.
\<close>

fun and_then :: "'a res \<times> 's \<Rightarrow> ('a \<Rightarrow> 's \<Rightarrow> 'b res \<times> 's) \<Rightarrow> 'b res \<times> 's" where
  "and_then (Inl e, s) k = (Inl e, s)"
| "and_then (Inr x, s) k = k x s"

lemma and_then_ok: "and_then r k = (Inr y, s') \<longleftrightarrow> (\<exists>x s. r = (Inr x, s) \<and> k x s = (Inr y, s'))"
  by (cases "(r, k)" rule: and_then.cases) auto

section \<open>Byte strings\<close>

type_synonym byte = "8 word"
type_synonym bytes = "byte list"

text \<open>\<^verbatim>\<open>xs[a:b]\<close> for bounds that are not negative: out of range bounds are clipped.\<close>

definition slice :: "nat \<Rightarrow> nat \<Rightarrow> 'a list \<Rightarrow> 'a list" where
  "slice a b xs = take (b - a) (drop a xs)"

lemma slice_append_left [simp]:
  "length xs = a \<Longrightarrow> slice a (a + length ys) (xs @ ys @ zs) = ys"
  by (simp add: slice_def)

lemma length_slice [simp]: "length (slice a b xs) = min (b - a) (length xs - a)"
  by (simp add: slice_def min.commute)

lemma of_nat_byte_unat [simp]: "n < 256 \<Longrightarrow> unat (of_nat n :: byte) = n"
  by (simp add: unat_of_nat)

lemma unat_byte_less [simp]: "unat (b :: byte) < 256"
  by (rule order_less_le_trans [OF unsigned_less]) simp

subsection \<open>Big-endian integers of the struct module\<close>

text \<open>
  \<^verbatim>\<open>struct.pack(">H", n)\<close> and its 4 and 8 byte companions raise
  \<^verbatim>\<open>struct.error\<close> when the value does not fit; \<^verbatim>\<open>struct.unpack\<close> raises it when
  the buffer does not have exactly the width.
\<close>

fun be_bytes :: "nat \<Rightarrow> nat \<Rightarrow> bytes" where
  "be_bytes 0 n = []"
| "be_bytes (Suc w) n = be_bytes w (n div 256) @ [of_nat (n mod 256)]"

definition be_val :: "bytes \<Rightarrow> nat" where
  "be_val bs = foldl (\<lambda>acc b. acc * 256 + unat b) 0 bs"

definition pack_be :: "nat \<Rightarrow> nat \<Rightarrow> bytes res" where
  "pack_be w n = (if n < 256 ^ w then Inr (be_bytes w n) else Inl StructError)"

definition unpack_be :: "nat \<Rightarrow> bytes \<Rightarrow> nat res" where
  "unpack_be w bs = (if length bs = w then Inr (be_val bs) else Inl StructError)"

abbreviation pack_u16 :: "nat \<Rightarrow> bytes res" where "pack_u16 \<equiv> pack_be 2"
abbreviation pack_u32 :: "nat \<Rightarrow> bytes res" where "pack_u32 \<equiv> pack_be 4"
abbreviation pack_u64 :: "nat \<Rightarrow> bytes res" where "pack_u64 \<equiv> pack_be 8"
abbreviation unpack_u16 :: "bytes \<Rightarrow> nat res" where "unpack_u16 \<equiv> unpack_be 2"
abbreviation unpack_u32 :: "bytes \<Rightarrow> nat res" where "unpack_u32 \<equiv> unpack_be 4"
abbreviation unpack_u64 :: "bytes \<Rightarrow> nat res" where "unpack_u64 \<equiv> unpack_be 8"

lemma length_be_bytes [simp]: "length (be_bytes w n) = w"
  by (induction w arbitrary: n) auto

lemma be_val_snoc: "be_val (bs @ [b]) = be_val bs * 256 + unat b"
  by (simp add: be_val_def)

lemma be_val_be_bytes: "n < 256 ^ w \<Longrightarrow> be_val (be_bytes w n) = n"
proof (induction w arbitrary: n)
  case 0
  then show ?case by (simp add: be_val_def)
next
  case (Suc w)
  then have "n div 256 < 256 ^ w"
    by (simp add: less_mult_imp_div_less mult.commute)
  then have "be_val (be_bytes w (n div 256)) = n div 256" by (rule Suc.IH)
  then show ?case by (simp add: be_val_snoc)
qed

lemma be_val_less: "be_val bs < 256 ^ length bs"
proof (induction bs rule: rev_induct)
  case Nil
  then show ?case by (simp add: be_val_def)
next
  case (snoc b bs)
  have "unat b < 256" by simp
  with snoc have "be_val bs * 256 + unat b < (be_val bs + 1) * 256" by simp
  also have "\<dots> \<le> 256 ^ length bs * 256" using snoc by (intro mult_le_mono1) simp
  finally show ?case by (simp add: be_val_snoc mult.commute)
qed

lemma be_bytes_be_val: "be_bytes (length bs) (be_val bs) = bs"
proof (induction bs rule: rev_induct)
  case Nil
  then show ?case by simp
next
  case (snoc b bs)
  have "unat b < 256" by simp
  with snoc show ?case by (simp add: be_val_snoc)
qed

lemma unpack_pack [codec_simps]: "pack_be w n = Inr bs \<Longrightarrow> unpack_be w bs = Inr n"
  by (auto simp: pack_be_def unpack_be_def be_val_be_bytes split: if_splits)

lemma pack_be_ok [codec_simps]: "n < 256 ^ w \<Longrightarrow> pack_be w n = Inr (be_bytes w n)"
  by (simp add: pack_be_def)

lemma pack_be_length: "pack_be w n = Inr bs \<Longrightarrow> length bs = w"
  by (auto simp: pack_be_def split: if_splits)

lemma unpack_be_bytes [codec_simps]: "n < 256 ^ w \<Longrightarrow> unpack_be w (be_bytes w n) = Inr n"
  by (simp add: unpack_be_def be_val_be_bytes)

lemma pack_be_inj: "pack_be w m = Inr bs \<Longrightarrow> pack_be w n = Inr bs \<Longrightarrow> m = n"
  using unpack_pack [of w m bs] unpack_pack [of w n bs] by simp

section \<open>Prefix codecs\<close>

text \<open>
  The contract the length-prefixed fields of the wire formats share: \<open>enc\<close> may refuse a
  value; what it writes, \<open>dec\<close> reads back from the front of any byte string and hands the
  rest on. Everything proved here holds for every field format that meets it.
\<close>

locale prefix_codec =
  fixes enc :: "'a \<Rightarrow> bytes res"
    and dec :: "bytes \<Rightarrow> ('a \<times> bytes) res"
  assumes dec_enc: "enc x = Inr bs \<Longrightarrow> dec (bs @ rest) = Inr (x, rest)"
begin

lemma dec_enc_nil: "enc x = Inr bs \<Longrightarrow> dec bs = Inr (x, [])"
  using dec_enc [of x bs "[]"] by simp

lemma enc_inj: "enc x = Inr bs \<Longrightarrow> enc y = Inr bs \<Longrightarrow> x = y"
  using dec_enc_nil [of x bs] dec_enc_nil [of y bs] by simp

text \<open>No encoding is a proper prefix of another: a field boundary cannot be moved.\<close>

lemma enc_prefix_free:
  "enc x = Inr bs \<Longrightarrow> enc y = Inr cs \<Longrightarrow> bs @ r = cs @ s \<Longrightarrow> x = y \<and> r = s"
  using dec_enc [of x bs r] dec_enc [of y cs s] by simp

end

definition take_be :: "nat \<Rightarrow> bytes \<Rightarrow> (nat \<times> bytes) res" where
  "take_be w bs =
     (case unpack_be w (take w bs) of Inl e \<Rightarrow> Inl e | Inr n \<Rightarrow> Inr (n, drop w bs))"

interpretation be_codec: prefix_codec "pack_be w" "take_be w" for w
  by unfold_locales
    (auto simp: take_be_def unpack_pack pack_be_length dest: pack_be_length unpack_pack)

section \<open>Unicode strings and UTF-8\<close>

text \<open>A Python \<^verbatim>\<open>str\<close> is the list of its code points.\<close>

type_synonym ustr = "nat list"

definition ustr :: "string \<Rightarrow> ustr" where
  "ustr s = map of_char s"

lemma ustr_eq_iff [simp]: "ustr a = ustr b \<longleftrightarrow> a = b"
  by (simp add: ustr_def inj_map_eq_map [OF inj_of_char])

text \<open>\<^verbatim>\<open>str.encode("utf-8")\<close>: surrogates do not encode.\<close>

definition utf8_char :: "nat \<Rightarrow> bytes res" where
  "utf8_char c =
     (if c < 0x80 then Inr [of_nat c]
      else if c < 0x800 then Inr [of_nat (0xC0 + c div 64), of_nat (0x80 + c mod 64)]
      else if 0xD800 \<le> c \<and> c < 0xE000 then Inl UnicodeError
      else if c < 0x10000 then
        Inr [of_nat (0xE0 + c div 4096), of_nat (0x80 + c div 64 mod 64), of_nat (0x80 + c mod 64)]
      else if c < 0x110000 then
        Inr [of_nat (0xF0 + c div 262144), of_nat (0x80 + c div 4096 mod 64),
             of_nat (0x80 + c div 64 mod 64), of_nat (0x80 + c mod 64)]
      else Inl UnicodeError)"

fun utf8_encode :: "ustr \<Rightarrow> bytes res" where
  "utf8_encode [] = Inr []"
| "utf8_encode (c # cs) =
     (case utf8_char c of Inl e \<Rightarrow> Inl e
      | Inr b \<Rightarrow> (case utf8_encode cs of Inl e \<Rightarrow> Inl e | Inr bs \<Rightarrow> Inr (b @ bs)))"

text \<open>
  \<^verbatim>\<open>bytes.decode("utf-8")\<close>, strict: one code point from the front. Continuation bytes are
  \<open>10xxxxxx\<close>; overlong forms, surrogates and values past U+10FFFF are refused.
\<close>

definition cont :: "nat \<Rightarrow> bool" where
  "cont n \<longleftrightarrow> 0x80 \<le> n \<and> n < 0xC0"

fun utf8_next :: "nat list \<Rightarrow> (nat \<times> nat list) option" where
  "utf8_next [] = None"
| "utf8_next (a # rest) =
     (if a < 0x80 then Some (a, rest)
      else if 0xC2 \<le> a \<and> a < 0xE0 then
        (case rest of
           b # rest' \<Rightarrow> if cont b then Some ((a - 0xC0) * 64 + (b - 0x80), rest') else None
         | _ \<Rightarrow> None)
      else if 0xE0 \<le> a \<and> a < 0xF0 then
        (case rest of
           b # c # rest' \<Rightarrow>
             (let v = (a - 0xE0) * 4096 + (b - 0x80) * 64 + (c - 0x80) in
              if cont b \<and> cont c \<and> 0x800 \<le> v \<and> \<not> (0xD800 \<le> v \<and> v < 0xE000)
              then Some (v, rest') else None)
         | _ \<Rightarrow> None)
      else if 0xF0 \<le> a \<and> a < 0xF5 then
        (case rest of
           b # c # d # rest' \<Rightarrow>
             (let v = (a - 0xF0) * 262144 + (b - 0x80) * 4096 + (c - 0x80) * 64 + (d - 0x80) in
              if cont b \<and> cont c \<and> cont d \<and> 0x10000 \<le> v \<and> v < 0x110000
              then Some (v, rest') else None)
         | _ \<Rightarrow> None)
      else None)"

lemma utf8_next_shorter: "utf8_next bs = Some (c, rest) \<Longrightarrow> length rest < length bs"
  by (cases bs) (auto simp: Let_def split: if_splits list.splits)

function utf8_decode_nat :: "nat list \<Rightarrow> ustr res" where
  "utf8_decode_nat bs =
     (if bs = [] then Inr []
      else case utf8_next bs of None \<Rightarrow> Inl UnicodeError
      | Some (c, rest) \<Rightarrow>
          (case utf8_decode_nat rest of Inl e \<Rightarrow> Inl e | Inr cs \<Rightarrow> Inr (c # cs)))"
  by pat_completeness auto
termination
  by (relation "measure length") (auto simp: utf8_next_shorter)

declare utf8_decode_nat.simps [simp del]

definition utf8_decode :: "bytes \<Rightarrow> ustr res" where
  "utf8_decode bs = utf8_decode_nat (map unat bs)"

text \<open>The digits of a code point in base 64, and what they add up to.\<close>

lemma base64_digits3: "c div 4096 * 4096 + c div 64 mod 64 * 64 + c mod 64 = (c :: nat)"
proof -
  have "c div 4096 = c div 64 div 64" by (simp add: div_mult2_eq [symmetric])
  then have "c div 4096 * 64 + c div 64 mod 64 = c div 64" by simp
  moreover have "c div 64 * 64 + c mod 64 = c" by simp
  ultimately show ?thesis by linarith
qed

lemma base64_digits4:
  "c div 262144 * 262144 + c div 4096 mod 64 * 4096 + c div 64 mod 64 * 64 + c mod 64 = (c :: nat)"
proof -
  have "c div 262144 = c div 4096 div 64" by (simp add: div_mult2_eq [symmetric])
  then have "c div 262144 * 64 + c div 4096 mod 64 = c div 4096" by simp
  moreover have "c div 4096 * 4096 + c div 64 mod 64 * 64 + c mod 64 = c"
    by (rule base64_digits3)
  ultimately show ?thesis by linarith
qed

lemma utf8_next_1: "c < 0x80 \<Longrightarrow> utf8_next (c # rest) = Some (c, rest)"
  by simp

lemma utf8_next_2:
  assumes "0x80 \<le> c" and "c < 0x800"
  shows "utf8_next ((0xC0 + c div 64) # (0x80 + c mod 64) # rest) = Some (c, rest)"
proof -
  have "2 \<le> c div 64" "c div 64 < 32" using assms by auto
  then show ?thesis by (simp add: cont_def)
qed

lemma utf8_next_3:
  assumes "0x800 \<le> c" and "c < 0x10000" and "\<not> (0xD800 \<le> c \<and> c < 0xE000)"
  shows "utf8_next ((0xE0 + c div 4096) # (0x80 + c div 64 mod 64) # (0x80 + c mod 64) # rest)
         = Some (c, rest)"
proof -
  have hi: "c div 4096 < 16" using assms by auto
  have v: "c div 4096 * 4096 + c div 64 mod 64 * 64 + c mod 64 = c"
    by (rule base64_digits3)
  show ?thesis using hi v assms by (simp add: cont_def Let_def)
qed

lemma utf8_next_4:
  assumes "0x10000 \<le> c" and "c < 0x110000"
  shows "utf8_next ((0xF0 + c div 262144) # (0x80 + c div 4096 mod 64) # (0x80 + c div 64 mod 64) # (0x80 + c mod 64) # rest) = Some (c, rest)"
proof -
  have hi: "c div 262144 < 5" using assms by auto
  have v: "c div 262144 * 262144 + c div 4096 mod 64 * 4096 + c div 64 mod 64 * 64 + c mod 64 = c"
    by (rule base64_digits4)
  show ?thesis using hi v assms by (simp add: cont_def Let_def)
qed

lemma utf8_next_char:
  assumes "utf8_char c = Inr b"
  shows "utf8_next (map unat b @ rest) = Some (c, rest)"
proof -
  consider "c < 0x80" | "0x80 \<le> c" "c < 0x800"
    | "0x800 \<le> c" "c < 0x10000" "\<not> (0xD800 \<le> c \<and> c < 0xE000)"
    | "0x10000 \<le> c" "c < 0x110000"
    using assms by (auto simp: utf8_char_def split: if_splits)
  then show ?thesis
  proof cases
    case 1
    then show ?thesis using assms utf8_next_1 by (auto simp: utf8_char_def)
  next
    case 2
    moreover have "0xC0 + c div 64 < 256" "0x80 + c mod 64 < 256" using 2 by auto
    ultimately show ?thesis using assms utf8_next_2 [of c rest]
      by (auto simp: utf8_char_def simp del: utf8_next.simps of_nat_add of_nat_numeral)
  next
    case 3
    moreover have "0xE0 + c div 4096 < 256" "0x80 + c div 64 mod 64 < 256" "0x80 + c mod 64 < 256"
      using 3 by auto
    ultimately show ?thesis using assms utf8_next_3 [of c rest]
      by (auto simp: utf8_char_def simp del: utf8_next.simps of_nat_add of_nat_numeral split: if_splits)
  next
    case 4
    moreover have "0xF0 + c div 262144 < 256" "0x80 + c div 4096 mod 64 < 256"
        "0x80 + c div 64 mod 64 < 256" "0x80 + c mod 64 < 256"
      using 4 by auto
    ultimately show ?thesis using assms utf8_next_4 [of c rest]
      by (auto simp: utf8_char_def simp del: utf8_next.simps of_nat_add of_nat_numeral)
  qed
qed

lemma utf8_char_nonempty: "utf8_char c = Inr b \<Longrightarrow> b \<noteq> []"
  by (auto simp: utf8_char_def split: if_splits)

lemma utf8_decode_step [codec_simps]:
  "utf8_char c = Inr b \<Longrightarrow>
   utf8_decode_nat (map unat b @ rest) =
     (case utf8_decode_nat rest of Inl e \<Rightarrow> Inl e | Inr cs \<Rightarrow> Inr (c # cs))"
  by (subst utf8_decode_nat.simps) (auto simp: utf8_next_char utf8_char_nonempty)

lemma utf8_roundtrip [codec_simps]: "utf8_encode cs = Inr bs \<Longrightarrow> utf8_decode bs = Inr cs"
proof (induction cs arbitrary: bs)
  case Nil
  then show ?case by (simp add: utf8_decode_def utf8_decode_nat.simps)
next
  case (Cons c cs)
  then obtain b bs' where b: "utf8_char c = Inr b" and bs': "utf8_encode cs = Inr bs'"
    and bs: "bs = b @ bs'"
    by (auto split: sum.splits)
  from Cons.IH [OF bs'] b bs show ?case
    by (simp add: utf8_decode_def utf8_decode_step)
qed

lemma utf8_encode_empty: "utf8_encode cs = Inr bs \<Longrightarrow> bs = [] \<longleftrightarrow> cs = []"
  by (cases cs) (auto dest: utf8_char_nonempty split: sum.splits)

lemma utf8_encode_ok: "(\<And>c. c \<in> set cs \<Longrightarrow> c < 0xD800) \<Longrightarrow> is_ok (utf8_encode cs)"
proof (induction cs)
  case (Cons c cs)
  have "is_ok (utf8_char c)" using Cons.prems [of c] by (simp add: utf8_char_def)
  with Cons show ?case by (auto simp: is_ok_iff)
qed simp

lemma ustr_bound: "c \<in> set (ustr s) \<Longrightarrow> c < 256"
  by (auto simp: ustr_def)

text \<open>Strict decoding accepts only the shortest form, so encoding gives the bytes back.\<close>

lemma digit64:
  assumes "c = q * 64 + r" and "r < 64"
  shows "c div 64 = q" and "c mod 64 = (r :: nat)"
  using assms by (simp_all add: mult.commute)

lemma utf8_next_inv2:
  assumes "utf8_next (a # ts) = Some (c, rest)" and "0xC2 \<le> a" "a < 0xE0"
  shows "\<exists>b. utf8_char c = Inr b \<and> a # ts = map unat b @ rest"
proof -
  obtain b where b: "ts = b # rest" "cont b" "c = (a - 0xC0) * 64 + (b - 0x80)"
    using assms by (auto split: list.splits if_splits)
  obtain u where a: "a = 0xC0 + u" using assms(2) nat_le_iff_add [of "0xC0" a] by auto
  obtain v where v: "b = 0x80 + v" "v < 64" using b(2) nat_le_iff_add [of "0x80" b] by (auto simp: cont_def)
  have c: "c = u * 64 + v" "2 \<le> u" "u < 32" using a v b(3) assms(2,3) by auto
  then have "c div 64 = u" "c mod 64 = v" "0x80 \<le> c" "c < 0x800" using v(2) by auto
  then show ?thesis using a v b(1) c by (auto simp: utf8_char_def simp del: of_nat_add of_nat_numeral)
qed

lemma utf8_next_inv3:
  assumes "utf8_next (a # ts) = Some (c, rest)" and "0xE0 \<le> a" "a < 0xF0"
  shows "\<exists>b. utf8_char c = Inr b \<and> a # ts = map unat b @ rest"
proof -
  obtain b d where b: "ts = b # d # rest" "cont b" "cont d"
      "c = (a - 0xE0) * 4096 + (b - 0x80) * 64 + (d - 0x80)"
      "0x800 \<le> c" "\<not> (0xD800 \<le> c \<and> c < 0xE000)"
    using assms by (auto simp: Let_def split: list.splits if_splits)
  obtain u where a: "a = 0xE0 + u" using assms(2) nat_le_iff_add by blast
  obtain v where v: "b = 0x80 + v" "v < 64" using b(2) nat_le_iff_add [of "0x80" b] by (auto simp: cont_def)
  obtain w where w: "d = 0x80 + w" "w < 64" using b(3) nat_le_iff_add [of "0x80" d] by (auto simp: cont_def)
  have c: "c = (u * 64 + v) * 64 + w" "u < 16" using a v w b(4) assms(3) by auto
  then have q: "c div 64 = u * 64 + v" "c mod 64 = w" using digit64 w(2) by blast+
  then have "c div 4096 = u" "c div 64 mod 64 = v" using v(2) div_mult2_eq [of c 64 64] by auto
  moreover have "c < 0x10000" using c v(2) w(2) by simp
  ultimately show ?thesis using a v w b(1,5,6) c(2) q
    by (auto simp: utf8_char_def simp del: of_nat_add of_nat_numeral)
qed

lemma utf8_next_inv4:
  assumes "utf8_next (a # ts) = Some (c, rest)" and "0xF0 \<le> a"
  shows "\<exists>b. utf8_char c = Inr b \<and> a # ts = map unat b @ rest"
proof -
  obtain b d e where b: "ts = b # d # e # rest" "cont b" "cont d" "cont e"
      "c = (a - 0xF0) * 262144 + (b - 0x80) * 4096 + (d - 0x80) * 64 + (e - 0x80)"
      "0x10000 \<le> c" "c < 0x110000" and a5: "a < 0xF5"
    using assms by (auto simp: Let_def split: list.splits if_splits)
  obtain u where a: "a = 0xF0 + u" using assms(2) nat_le_iff_add by blast
  obtain v where v: "b = 0x80 + v" "v < 64" using b(2) nat_le_iff_add [of "0x80" b] by (auto simp: cont_def)
  obtain w where w: "d = 0x80 + w" "w < 64" using b(3) nat_le_iff_add [of "0x80" d] by (auto simp: cont_def)
  obtain z where z: "e = 0x80 + z" "z < 64" using b(4) nat_le_iff_add [of "0x80" e] by (auto simp: cont_def)
  have c: "c = ((u * 64 + v) * 64 + w) * 64 + z" "u < 5" using a v w z b(5) a5 by auto
  then have q: "c div 64 = (u * 64 + v) * 64 + w" "c mod 64 = z" using digit64 z(2) by blast+
  then have q2: "c div 4096 = u * 64 + v" "c div 64 mod 64 = w"
    using digit64 [OF q(1) w(2)] div_mult2_eq [of c 64 64] by simp_all
  then have "c div 262144 = u" "c div 4096 mod 64 = v" using v(2) div_mult2_eq [of c 4096 64] by auto
  then show ?thesis using a v w z b(1,6,7) c(2) q q2
    by (auto simp: utf8_char_def simp del: of_nat_add of_nat_numeral)
qed

lemma utf8_next_inv:
  assumes "utf8_next bs = Some (c, rest)"
  shows "\<exists>b. utf8_char c = Inr b \<and> bs = map unat b @ rest"
proof (cases bs)
  case (Cons a ts)
  consider "a < 0x80" | "0xC2 \<le> a" "a < 0xE0" | "0xE0 \<le> a" "a < 0xF0" | "0xF0 \<le> a"
    using assms Cons by (auto split: if_splits)
  then show ?thesis
  proof cases
    case 1
    with assms Cons show ?thesis by (auto simp: utf8_char_def)
  qed (use assms Cons utf8_next_inv2 utf8_next_inv3 utf8_next_inv4 in \<open>blast+\<close>)
qed (use assms in simp)

lemma utf8_decode_nat_inv:
  "utf8_decode_nat bs = Inr cs \<Longrightarrow> \<exists>out. utf8_encode cs = Inr out \<and> map unat out = bs"
proof (induction bs arbitrary: cs rule: utf8_decode_nat.induct)
  case (1 bs)
  show ?case
  proof (cases "bs = []")
    case True
    with 1 show ?thesis by (simp add: utf8_decode_nat.simps)
  next
    case False
    from "1.prems" False obtain c rest cs' where n: "utf8_next bs = Some (c, rest)"
      and d: "utf8_decode_nat rest = Inr cs'" and cs: "cs = c # cs'"
      by (subst (asm) utf8_decode_nat.simps) (auto split: option.splits sum.splits)
    from utf8_next_inv [OF n] obtain b where
      b: "utf8_char c = Inr b" "bs = map unat b @ rest" by blast
    from "1.IH" [OF False n refl d] obtain out where
      "utf8_encode cs' = Inr out" "map unat out = rest" by auto
    with b cs show ?thesis by auto
  qed
qed

lemma utf8_decode_encode: "utf8_decode bs = Inr cs \<Longrightarrow> utf8_encode cs = Inr bs"
proof -
  assume "utf8_decode bs = Inr cs"
  then obtain out where "utf8_encode cs = Inr out" "map unat out = map unat bs"
    using utf8_decode_nat_inv [of "map unat bs" cs] by (auto simp: utf8_decode_def)
  moreover from this(2) have "out = bs" by (rule map_injective) (rule inj_unsigned)
  ultimately show ?thesis by simp
qed

section \<open>Generic lemmas on lists\<close>

lemma filter_neq_key: "x \<notin> f ` set xs \<Longrightarrow> filter (\<lambda>r. f r \<noteq> x) xs = xs"
  by (induction xs) auto

lemma find_None_filter: "find P xs = None \<longleftrightarrow> filter P xs = []"
  by (induction xs) auto

lemma find_eq_hd_filter: "find P xs = (case filter P xs of [] \<Rightarrow> None | x # _ \<Rightarrow> Some x)"
  by (induction xs) auto

end
