(* ===== verification/GF256.thy ===== *)
theory GF256
  imports Enigma_Prelude
begin

text \<open>
  Arithmetic in GF(256) as \<^verbatim>\<open>services/shamir_service.py\<close> does it: the logarithm and
  exponent tables built on import, and the operations on them. They work on Python integers and
  index tables of 256 and 512 entries, so an operand past 255 raises \<^verbatim>\<open>IndexError\<close>.
  The tables are shown to hold the 255 powers of the generator and their logarithms, which makes
  the bytes under these operations a field: the type \<open>gf256\<close> below is an instance of the
  library's class \<open>field\<close>, so its algebra applies to the code.
\<close>

section \<open>The tables\<close>

definition IRREDUCIBLE :: nat where
  "IRREDUCIBLE = 0x11D"

text \<open>One turn of the doubling: \<^verbatim>\<open>x <<= 1\<close>, reduced when bit 8 comes up.\<close>

definition gf_double :: "nat \<Rightarrow> nat" where
  "gf_double x = (let y = push_bit 1 x in if y AND 0x100 \<noteq> 0 then y XOR IRREDUCIBLE else y)"

fun fill_powers :: "nat list \<Rightarrow> nat \<Rightarrow> nat list \<Rightarrow> nat list \<Rightarrow> nat list \<times> nat list" where
  "fill_powers [] x ex lg = (ex, lg)"
| "fill_powers (i # is) x ex lg = fill_powers is (gf_double x) (ex[i := x]) (lg[x := i])"

fun fill_wrap :: "nat list \<Rightarrow> nat list \<Rightarrow> nat list" where
  "fill_wrap [] ex = ex"
| "fill_wrap (i # is) ex = fill_wrap is (ex[i := ex ! (i - 255)])"

definition build_tables :: "nat list \<times> nat list" where
  "build_tables =
     (case fill_powers [0..<255] 1 (replicate 512 0) (replicate 256 0) of
        (ex, lg) \<Rightarrow> (fill_wrap [255..<512] ex, lg))"

definition GF_EXP :: "nat list" where "GF_EXP = fst build_tables"
definition GF_LOG :: "nat list" where "GF_LOG = snd build_tables"

section \<open>The field operations\<close>

definition gf_add :: "nat \<Rightarrow> nat \<Rightarrow> nat" where
  "gf_add a b = a XOR b"

definition gf_mul :: "nat \<Rightarrow> nat \<Rightarrow> nat res" where
  "gf_mul a b =
     (if a = 0 \<or> b = 0 then Inr 0
      else if a < 256 \<and> b < 256 then Inr (GF_EXP ! (GF_LOG ! a + GF_LOG ! b))
      else Inl IndexError)"

definition gf_pow :: "nat \<Rightarrow> nat \<Rightarrow> nat res" where
  "gf_pow base expo =
     (if expo = 0 then Inr 1
      else if base = 0 then Inr 0
      else if base < 256 then Inr (GF_EXP ! ((GF_LOG ! base * expo) mod 255))
      else Inl IndexError)"

definition gf_inv :: "nat \<Rightarrow> nat res" where
  "gf_inv a =
     (if a = 0 then Inl ZeroDivisionError
      else if a < 256 then Inr (GF_EXP ! (255 - GF_LOG ! a))
      else Inl IndexError)"

section \<open>What the tables hold\<close>

text \<open>The ranges of the loops are kept folded.\<close>

declare upt_rec_numeral [simp del]

definition gf_power :: "nat \<Rightarrow> nat" where
  "gf_power i = (gf_double ^^ i) 1"

lemma gf_power_0 [simp]: "gf_power 0 = 1"
  by (simp add: gf_power_def)

lemma gf_power_Suc [simp]: "gf_power (Suc i) = gf_double (gf_power i)"
  by (simp add: gf_power_def)

subsection \<open>Doubling is linear\<close>

lemma and_256_iff: "(y AND 0x100 \<noteq> 0) \<longleftrightarrow> bit y 8" for y :: nat
  using and_exp_eq_0_iff_not_bit [of y 8] by simp

lemma gf_double_alt: "gf_double x = push_bit 1 x XOR (if bit (push_bit 1 x) 8 then IRREDUCIBLE else 0)"
  unfolding gf_double_def Let_def and_256_iff by (cases "bit (push_bit 1 x) 8") simp_all

lemma gf_double_xor: "gf_double (a XOR b) = gf_double a XOR gf_double b"
  by (auto simp: gf_double_alt push_bit_xor bit_xor_iff ac_simps xor.left_commute)

lemma gf_double_0 [simp]: "gf_double 0 = 0"
  by (simp add: gf_double_alt)

lemma gf_double_pow_0 [simp]: "(gf_double ^^ i) 0 = 0"
  by (induction i) auto

lemma gf_double_pow_xor: "(gf_double ^^ i) (a XOR b) = (gf_double ^^ i) a XOR (gf_double ^^ i) b"
  by (induction i) (auto simp: gf_double_xor)

subsection \<open>The 255 powers of 2\<close>

fun gf_orbit :: "nat \<Rightarrow> nat \<Rightarrow> nat list" where
  "gf_orbit 0 x = []"
| "gf_orbit (Suc n) x = x # gf_orbit n (gf_double x)"

lemma gf_orbit_map: "gf_orbit n x = map (\<lambda>i. (gf_double ^^ i) x) [0..<n]"
proof (induction n arbitrary: x)
  case 0
  then show ?case by simp
next
  case (Suc n)
  have "[0..<Suc n] = 0 # map Suc [0..<n]" by (simp add: map_Suc_upt upt_conv_Cons del: upt_Suc)
  then show ?case by (simp add: Suc.IH funpow_swap1 del: upt_Suc)
qed

lemma gf_orbit_numeral:
  "gf_orbit (numeral k) x = x # gf_orbit (pred_numeral k) (gf_double x)"
  by (simp add: numeral_eq_Suc)

lemma gf_orbit_eval: "distinct (gf_orbit 255 1) \<and> (\<forall>v\<in>set (gf_orbit 255 1). 0 < v \<and> v < 256)"
  by (simp add: gf_orbit_numeral gf_double_def IRREDUCIBLE_def push_bit_eq_mult)

lemma gf_power_255: "gf_power 255 = 1"
proof -
  have "last (gf_orbit 256 1) = 1"
    by (simp add: gf_orbit_numeral gf_double_def IRREDUCIBLE_def push_bit_eq_mult)
  moreover have "last (gf_orbit (Suc n) 1) = gf_power n" for n
    by (simp add: gf_orbit_map gf_power_def)
  from this [of 255] have "last (gf_orbit 256 1) = gf_power 255" by simp
  ultimately show ?thesis by simp
qed

lemma gf_orbit_powers: "gf_orbit n 1 = map gf_power [0..<n]"
  by (simp add: gf_orbit_map gf_power_def)

lemma gf_power_add: "gf_power (i + j) = (gf_double ^^ i) (gf_power j)"
  by (simp add: funpow_add gf_power_def)

lemma gf_power_period: "gf_power (i + 255) = gf_power i"
  using gf_power_add [of i 255] gf_power_add [of i 0] by (simp add: gf_power_255)

lemma gf_power_mod: "gf_power (i mod 255) = gf_power i"
proof (induction i rule: less_induct)
  case (less i)
  show ?case
  proof (cases "i < 255")
    case False
    then have "gf_power (i mod 255) = gf_power ((i - 255) mod 255)" by (simp add: mod_if)
    also have "\<dots> = gf_power (i - 255)" using False by (intro less.IH) simp
    also have "\<dots> = gf_power i" using False gf_power_period [of "i - 255"] by simp
    finally show ?thesis .
  qed simp
qed

lemma gf_power_inj: "i < 255 \<Longrightarrow> j < 255 \<Longrightarrow> gf_power i = gf_power j \<Longrightarrow> i = j"
proof -
  have "inj_on gf_power {0..<255}"
    using gf_orbit_eval unfolding gf_orbit_powers by (simp add: distinct_map)
  then show "i < 255 \<Longrightarrow> j < 255 \<Longrightarrow> gf_power i = gf_power j \<Longrightarrow> i = j"
    by (auto dest: inj_onD)
qed

lemma gf_power_range: "0 < gf_power i \<and> gf_power i < 256"
proof -
  have "\<forall>v\<in>gf_power ` {0..<255}. 0 < v \<and> v < 256"
    using gf_orbit_eval unfolding gf_orbit_powers by simp
  moreover have "gf_power (i mod 255) \<in> gf_power ` {0..<255}" by simp
  ultimately show ?thesis using gf_power_mod by metis
qed

lemma gf_power_surj: "0 < a \<Longrightarrow> a < 256 \<Longrightarrow> \<exists>i<255. gf_power i = a"
proof -
  have "card (gf_power ` {..<255}) = 255"
    by (subst card_image) (auto intro: inj_onI gf_power_inj)
  moreover have "gf_power ` {..<255} \<subseteq> {1..255}" using gf_power_range
    by (force simp: Suc_le_eq less_Suc_eq_le [symmetric])
  ultimately have "gf_power ` {..<255} = {1..255}" by (intro card_subset_eq) auto
  moreover assume "0 < a" "a < 256"
  ultimately have "a \<in> gf_power ` {..<255}" by simp
  then show "\<exists>i<255. gf_power i = a" by auto
qed

subsection \<open>The loops that fill them\<close>

lemma fill_powers_exp:
  "m \<le> n \<Longrightarrow> n \<le> length ex \<Longrightarrow>
   fst (fill_powers [m..<n] (gf_power m) ex lg) = take m ex @ map gf_power [m..<n] @ drop n ex"
proof (induction "n - m" arbitrary: m ex lg)
  case 0
  then show ?case by simp
next
  case (Suc d)
  then have "m < n" by simp
  have "fst (fill_powers [Suc m..<n] (gf_power (Suc m)) (ex[m := gf_power m]) (lg[gf_power m := m]))
        = take (Suc m) (ex[m := gf_power m]) @ map gf_power [Suc m..<n] @ drop n (ex[m := gf_power m])"
    using Suc by (intro Suc.hyps(1)) auto
  then show ?case using Suc.prems \<open>m < n\<close>
    by (simp add: upt_conv_Cons take_Suc_conv_app_nth del: upt_Suc)
qed

lemma fill_powers_log:
  "m \<le> n \<Longrightarrow> n \<le> 255 \<Longrightarrow> length lg = 256 \<Longrightarrow> \<forall>i<m. lg ! gf_power i = i \<Longrightarrow>
   length (snd (fill_powers [m..<n] (gf_power m) ex lg)) = 256 \<and>
   (\<forall>i<n. snd (fill_powers [m..<n] (gf_power m) ex lg) ! gf_power i = i)"
proof (induction "n - m" arbitrary: m ex lg)
  case 0
  then show ?case by simp
next
  case (Suc d)
  then have "m < n" by simp
  have "\<forall>i<Suc m. lg[gf_power m := m] ! gf_power i = i"
  proof (intro allI impI)
    fix i assume "i < Suc m"
    then show "lg[gf_power m := m] ! gf_power i = i"
      using Suc.prems gf_power_range [of m] gf_power_inj [of i m] \<open>m < n\<close>
      by (cases "i = m") (auto simp: nth_list_update)
  qed
  then show ?case
    using Suc.hyps(1) [of "Suc m" "lg[gf_power m := m]" "ex[m := gf_power m]"] Suc.hyps(2) Suc.prems
    by (simp add: upt_conv_Cons \<open>m < n\<close> del: upt_Suc)
qed

lemma fill_wrap_exp:
  "255 \<le> m \<Longrightarrow> m \<le> n \<Longrightarrow> n \<le> length ex \<Longrightarrow> \<forall>i<m. ex ! i = gf_power i \<Longrightarrow>
   \<forall>i<n. fill_wrap [m..<n] ex ! i = gf_power i"
proof (induction "n - m" arbitrary: m ex)
  case 0
  then show ?case by simp
next
  case (Suc d)
  then have "m < n" by simp
  have "ex ! (m - 255) = gf_power m"
    using Suc.prems gf_power_period [of "m - 255"] by simp
  then have "\<forall>i<Suc m. ex[m := ex ! (m - 255)] ! i = gf_power i"
    using Suc.prems \<open>m < n\<close> by (auto simp: nth_list_update less_Suc_eq)
  then show ?case
    using Suc.hyps(1) [of "Suc m" "ex[m := ex ! (m - 255)]"] Suc.hyps(2) Suc.prems
    by (simp add: upt_conv_Cons \<open>m < n\<close> del: upt_Suc)
qed

lemma GF_EXP_nth: "i < 512 \<Longrightarrow> GF_EXP ! i = gf_power i"
proof -
  let ?ex = "fst (fill_powers [0..<255] 1 (replicate 512 0) (replicate 256 0))"
  have ex: "?ex = map gf_power [0..<255] @ replicate 257 0"
    using fill_powers_exp [of 0 255 "replicate 512 0" "replicate 256 0"] by simp
  then have "\<forall>i<512. fill_wrap [255..<512] ?ex ! i = gf_power i"
    by (intro fill_wrap_exp) (auto simp: nth_append)
  moreover have "GF_EXP = fill_wrap [255..<512] ?ex"
    by (simp add: GF_EXP_def build_tables_def case_prod_beta)
  ultimately show "i < 512 \<Longrightarrow> GF_EXP ! i = gf_power i" by simp
qed

lemma GF_LOG_power: "i < 255 \<Longrightarrow> GF_LOG ! gf_power i = i"
  using fill_powers_log [of 0 255 "replicate 256 0" "replicate 512 0"]
  by (simp add: GF_LOG_def build_tables_def case_prod_beta)

lemma GF_LOG_inverse:
  assumes "0 < a" and "a < 256"
  shows "GF_LOG ! a < 255 \<and> gf_power (GF_LOG ! a) = a"
proof -
  from gf_power_surj [OF assms] obtain i where i: "i < 255" "a = gf_power i" by auto
  then show ?thesis using GF_LOG_power [of i] by simp
qed

lemma GF_LOG_gf_power: "GF_LOG ! gf_power k = k mod 255"
  using GF_LOG_power [of "k mod 255"] gf_power_mod [of k] by simp

section \<open>The bytes are a field under these operations\<close>

definition gf_times :: "nat \<Rightarrow> nat \<Rightarrow> nat" where
  "gf_times a b = (if a = 0 \<or> b = 0 then 0 else GF_EXP ! (GF_LOG ! a + GF_LOG ! b))"

definition gf_inverse :: "nat \<Rightarrow> nat" where
  "gf_inverse a = (if a = 0 then 0 else GF_EXP ! (255 - GF_LOG ! a))"

lemma gf_mul_times: "a < 256 \<Longrightarrow> b < 256 \<Longrightarrow> gf_mul a b = Inr (gf_times a b)"
  by (simp add: gf_mul_def gf_times_def)

lemma gf_inv_inverse: "0 < a \<Longrightarrow> a < 256 \<Longrightarrow> gf_inv a = Inr (gf_inverse a)"
  by (simp add: gf_inv_def gf_inverse_def)

lemma gf_times_power: "gf_times (gf_power i) (gf_power j) = gf_power (i + j)"
proof -
  have "gf_times (gf_power i) (gf_power j) = GF_EXP ! (i mod 255 + j mod 255)"
    using gf_power_range [of i] gf_power_range [of j] by (simp add: gf_times_def GF_LOG_gf_power)
  also have "\<dots> = gf_power (i mod 255 + j mod 255)"
  proof (rule GF_EXP_nth)
    have "i mod 255 < 255" "j mod 255 < 255" by auto
    then show "i mod 255 + j mod 255 < 512" by linarith
  qed
  also have "\<dots> = gf_power (i + j)"
    by (metis gf_power_mod mod_add_eq)
  finally show ?thesis .
qed

text \<open>Each nonzero byte is a power of the generator; multiplying by it doubles that often.\<close>

lemma gf_times_double:
  assumes "0 < a" "a < 256" "b < 256"
  shows "gf_times a b = (gf_double ^^ (GF_LOG ! a)) b"
proof (cases "b = 0")
  case False
  from GF_LOG_inverse [of a] GF_LOG_inverse [of b] assms False show ?thesis
    using gf_times_power [of "GF_LOG ! a" "GF_LOG ! b"]
      gf_power_add [of "GF_LOG ! a" "GF_LOG ! b"] by simp
qed (simp add: gf_times_def)

lemma gf_nonzero_power: "0 < a \<Longrightarrow> a < 256 \<Longrightarrow> \<exists>i. a = gf_power i"
  using gf_power_surj by metis

lemma gf_times_0 [simp]: "gf_times 0 b = 0" "gf_times a 0 = 0"
  by (auto simp: gf_times_def)

lemma gf_times_less: "a < 256 \<Longrightarrow> b < 256 \<Longrightarrow> gf_times a b < 256"
  by (cases "a = 0"; cases "b = 0")
    (auto dest!: gf_nonzero_power simp: gf_times_power gf_power_range)

lemma gf_times_comm: "gf_times a b = gf_times b a"
  by (simp add: gf_times_def add.commute)

lemma gf_times_assoc:
  assumes "a < 256" "b < 256" "c < 256"
  shows "gf_times (gf_times a b) c = gf_times a (gf_times b c)"
proof (cases "a = 0 \<or> b = 0 \<or> c = 0")
  case False
  then obtain i j k where "a = gf_power i" "b = gf_power j" "c = gf_power k"
    using assms gf_nonzero_power by (metis gr0I)
  then show ?thesis by (simp add: gf_times_power add.assoc)
qed auto

lemma gf_times_one: "a < 256 \<Longrightarrow> gf_times 1 a = a"
  using gf_times_double [of 1 a] GF_LOG_gf_power [of 0] by simp

lemma xor_byte_less: "a < 256 \<Longrightarrow> b < 256 \<Longrightarrow> (a XOR b :: nat) < 256"
proof -
  assume "a < 256" "b < 256"
  then have "take_bit 8 a = a" "take_bit 8 b = b" by (auto simp: take_bit_nat_eq_self_iff)
  then have "take_bit 8 (a XOR b) = a XOR b" by (simp add: take_bit_xor)
  then show ?thesis using take_bit_nat_eq_self_iff [of 8 "a XOR b"] by simp
qed

lemma gf_times_xor:
  assumes "a < 256" "b < 256" "c < 256"
  shows "gf_times a (b XOR c) = gf_times a b XOR gf_times a c"
proof (cases "a = 0")
  case False
  then show ?thesis using assms
    by (simp add: gf_times_double xor_byte_less gf_double_pow_xor)
qed simp

lemma gf_inverse_less: "a < 256 \<Longrightarrow> gf_inverse a < 256"
  using gf_power_range GF_LOG_inverse [of a] by (auto simp: gf_inverse_def GF_EXP_nth)

lemma gf_times_inverse: "0 < a \<Longrightarrow> a < 256 \<Longrightarrow> gf_times (gf_inverse a) a = 1"
proof -
  assume a: "0 < a" "a < 256"
  let ?l = "GF_LOG ! a"
  have l: "?l < 255" "gf_power ?l = a" using GF_LOG_inverse [OF a] by auto
  have "gf_inverse a = gf_power (255 - ?l)" using a l by (simp add: gf_inverse_def GF_EXP_nth)
  then have "gf_times (gf_inverse a) a = gf_power (255 - ?l + ?l)"
    using gf_times_power [of "255 - ?l" ?l] l by simp
  then show ?thesis using l gf_power_255 by simp
qed

typedef gf256 = "{n :: nat. n < 256}"
  morphisms gf_val gf_of
  by (rule exI [of _ 0]) simp

setup_lifting type_definition_gf256

instantiation gf256 :: field
begin

lift_definition zero_gf256 :: gf256 is 0 by simp
lift_definition one_gf256 :: gf256 is 1 by simp
lift_definition plus_gf256 :: "gf256 \<Rightarrow> gf256 \<Rightarrow> gf256" is "\<lambda>a b. a XOR b" by (rule xor_byte_less)
lift_definition minus_gf256 :: "gf256 \<Rightarrow> gf256 \<Rightarrow> gf256" is "\<lambda>a b. a XOR b" by (rule xor_byte_less)
lift_definition uminus_gf256 :: "gf256 \<Rightarrow> gf256" is "\<lambda>a. a" by simp
lift_definition times_gf256 :: "gf256 \<Rightarrow> gf256 \<Rightarrow> gf256" is gf_times by (rule gf_times_less)
lift_definition inverse_gf256 :: "gf256 \<Rightarrow> gf256" is gf_inverse by (rule gf_inverse_less)

definition divide_gf256 :: "gf256 \<Rightarrow> gf256 \<Rightarrow> gf256" where
  "divide_gf256 a b = a * inverse b"

instance
proof
  fix a b c :: gf256
  show "a + b + c = a + (b + c)" by transfer (simp add: xor.assoc)
  show "a + b = b + a" by transfer (simp add: xor.commute)
  show "0 + a = a" by transfer simp
  show "- a + a = 0" by transfer simp
  show "a - b = a + - b" by transfer simp
  show "a * b * c = a * (b * c)" by transfer (rule gf_times_assoc)
  show "a * b = b * a" by transfer (rule gf_times_comm)
  show "1 * a = a" by transfer (rule gf_times_one)
  show "(a + b) * c = a * c + b * c"
    by transfer (metis gf_times_comm gf_times_xor)
  show "(0 :: gf256) \<noteq> 1" by transfer simp
  show "a \<noteq> 0 \<Longrightarrow> inverse a * a = 1" by transfer (simp add: gf_times_inverse)
  show "a div b = a * inverse b" by (rule divide_gf256_def)
  show "inverse (0 :: gf256) = 0" by transfer (simp add: gf_inverse_def)
qed

end

lemma gf256_add_self [simp]: "a + a = (0 :: gf256)"
  by transfer simp

lemma gf256_minus [simp]: "a - b = a + (b :: gf256)"
  by transfer simp

lemma gf256_add_eq_0: "a + b = 0 \<longleftrightarrow> a = (b :: gf256)"
  using right_minus_eq [of a b] by simp

section \<open>The code's operations, seen in the field\<close>

lemma gf_val_less [simp]: "gf_val a < 256"
  using gf_val [of a] by simp

lemma gf_val_of [simp]: "a < 256 \<Longrightarrow> gf_val (gf_of a) = a"
  by (simp add: gf_of_inverse)

lemma gf_add_val [simp]: "gf_add (gf_val a) (gf_val b) = gf_val (a + b)"
  by (simp add: gf_add_def plus_gf256.rep_eq)

lemma gf_mul_val [simp]: "gf_mul (gf_val a) (gf_val b) = Inr (gf_val (a * b))"
  by (simp add: gf_mul_times times_gf256.rep_eq)

lemma gf_val_0 [simp]: "gf_val 0 = 0" and gf_val_1 [simp]: "gf_val 1 = 1"
  by (simp_all add: zero_gf256.rep_eq one_gf256.rep_eq)

lemma gf_val_eq_0 [simp]: "gf_val a = 0 \<longleftrightarrow> a = 0"
  by (metis gf_val_0 gf_val_inject)

lemma gf_val_pos [simp]: "0 < gf_val a \<longleftrightarrow> a \<noteq> 0"
  using gf_val_eq_0 [of a] by linarith

lemma gf_inv_val: "a \<noteq> 0 \<Longrightarrow> gf_inv (gf_val a) = Inr (gf_val (inverse a))"
  using gf_inv_inverse [of "gf_val a"] by (simp add: inverse_gf256.rep_eq)

lemma gf_inv_val_0: "gf_inv (gf_val 0) = Inl ZeroDivisionError"
  by (simp add: gf_inv_def)

lemma gf_val_power:
  assumes "a \<noteq> 0"
  shows "gf_val (a ^ n) = gf_power (GF_LOG ! gf_val a * n)"
proof (induction n)
  case (Suc n)
  have l: "gf_power (GF_LOG ! gf_val a) = gf_val a"
    using GF_LOG_inverse [of "gf_val a"] assms by simp
  have "gf_val (a ^ Suc n) = gf_times (gf_val a) (gf_val (a ^ n))" by (simp add: times_gf256.rep_eq)
  also have "\<dots> = gf_times (gf_power (GF_LOG ! gf_val a)) (gf_power (GF_LOG ! gf_val a * n))"
    using Suc l by simp
  finally show ?case by (simp add: gf_times_power)
qed simp

lemma gf_pow_val: "gf_pow (gf_val a) n = Inr (gf_val (a ^ n))"
proof (cases "n = 0 \<or> a = 0")
  case False
  have "GF_LOG ! gf_val a * n mod 255 < 512"
    by (rule order_less_trans [of _ 255]) auto
  then show ?thesis using False
    by (simp add: gf_pow_def gf_val_power GF_EXP_nth gf_power_mod)
qed (auto simp: gf_pow_def power_0_left)

end
