(* ===== verification/Interpolation.thy ===== *)
theory Interpolation
  imports Main
begin

text \<open>
  Lagrange interpolation over an arbitrary field, on coefficient lists: a polynomial with fewer
  coefficients than points is recovered from its values at distinct points. This is the reference
  the secret sharing service is compared with; nothing here is specific to GF(256).
\<close>

section \<open>Polynomials as coefficient lists\<close>

fun horner :: "'a::comm_ring_1 list \<Rightarrow> 'a \<Rightarrow> 'a" where
  "horner [] x = 0"
| "horner (c # cs) x = c + x * horner cs x"

text \<open>A function is polynomial of size \<open>n\<close> when \<open>n\<close> coefficients describe it.\<close>

definition poly_size :: "nat \<Rightarrow> ('a::comm_ring_1 \<Rightarrow> 'a) \<Rightarrow> bool" where
  "poly_size n f \<longleftrightarrow> (\<exists>cs. length cs = n \<and> f = horner cs)"

lemma horner_replicate_0 [simp]: "horner (replicate n 0) x = 0"
  by (induction n) auto

lemma horner_pad: "horner (cs @ replicate n 0) x = horner cs x"
  by (induction cs) auto

lemma horner_map2_add:
  "length cs = length ds \<Longrightarrow> horner (map2 (+) cs ds) x = horner cs x + horner ds x"
  by (induction cs ds rule: list_induct2) (auto simp: algebra_simps)

lemma horner_scale: "horner (map ((*) a) cs) x = a * horner cs x"
  by (induction cs) (auto simp: algebra_simps)

lemma poly_size_horner: "length cs \<le> n \<Longrightarrow> poly_size n (horner cs)"
  unfolding poly_size_def
  by (rule exI [of _ "cs @ replicate (n - length cs) 0"]) (auto simp: horner_pad)

lemma poly_size_mono: "poly_size m f \<Longrightarrow> m \<le> n \<Longrightarrow> poly_size n f"
  by (auto simp: poly_size_def intro!: poly_size_horner [unfolded poly_size_def])

lemma poly_size_add: "poly_size n f \<Longrightarrow> poly_size n g \<Longrightarrow> poly_size n (\<lambda>x. f x + g x)"
proof -
  assume "poly_size n f" "poly_size n g"
  then obtain cs ds where "length cs = n" "f = horner cs" "length ds = n" "g = horner ds"
    by (auto simp: poly_size_def)
  then show ?thesis
    unfolding poly_size_def
    by (intro exI [of _ "map2 (+) cs ds"]) (auto simp: horner_map2_add)
qed

lemma poly_size_scale: "poly_size n f \<Longrightarrow> poly_size n (\<lambda>x. a * f x)"
  unfolding poly_size_def by (metis horner_scale length_map ext)

lemma poly_size_sum:
  fixes f :: "'i \<Rightarrow> 'a::comm_ring_1 \<Rightarrow> 'a"
  shows "finite I \<Longrightarrow> (\<And>i. i \<in> I \<Longrightarrow> poly_size n (f i)) \<Longrightarrow> poly_size n (\<lambda>x. \<Sum>i\<in>I. f i x)"
proof (induction I rule: finite_induct)
  case empty
  have "poly_size n (\<lambda>x::'a. 0)"
    unfolding poly_size_def by (rule exI [of _ "replicate n 0"]) auto
  then show ?case by simp
next
  case (insert i I)
  then show ?case by (simp add: poly_size_add)
qed

text \<open>Multiplication by a linear factor adds one coefficient.\<close>

lemma poly_size_linear: "poly_size n f \<Longrightarrow> poly_size (Suc n) (\<lambda>x. (x - a) * f x)"
proof -
  assume "poly_size n f"
  then obtain cs where cs: "length cs = n" "f = horner cs" by (auto simp: poly_size_def)
  have "poly_size (Suc n) (\<lambda>x. horner (0 # cs) x + horner (map ((*) (- a)) cs) x)"
    using cs by (intro poly_size_add poly_size_horner) auto
  moreover have "(\<lambda>x. horner (0 # cs) x + horner (map ((*) (- a)) cs) x) = (\<lambda>x. (x - a) * f x)"
    using cs by (auto simp: fun_eq_iff horner_scale algebra_simps)
  ultimately show ?thesis by simp
qed

lemma poly_size_prod_linear:
  fixes p :: "'i \<Rightarrow> 'a::comm_ring_1"
  shows "finite J \<Longrightarrow> poly_size (Suc (card J)) (\<lambda>x. \<Prod>j\<in>J. (x - p j))"
proof (induction J rule: finite_induct)
  case empty
  have "poly_size 1 (horner [1::'a])" by (rule poly_size_horner) simp
  moreover have "horner [1::'a] = (\<lambda>x. 1)" by auto
  ultimately show ?case by simp
next
  case (insert j J)
  then show ?case by (simp add: poly_size_linear)
qed

section \<open>Few roots\<close>

lemma horner_split_root:
  "\<exists>qs. length qs = length cs - 1 \<and> (\<forall>x. horner cs x = (x - a) * horner qs x + horner cs a)"
proof (induction cs)
  case Nil
  show ?case by (rule exI [of _ "[]"]) simp
next
  case (Cons c cs)
  show ?case
  proof (cases "cs = []")
    case True
    then show ?thesis by (intro exI [of _ "[]"]) simp
  next
    case False
    from Cons.IH obtain qs where len: "length qs = length cs - 1"
      and qs: "\<forall>x. horner cs x = (x - a) * horner qs x + horner cs a" by blast
    have "horner (c # cs) x = (x - a) * horner (horner cs a # qs) x + horner (c # cs) a" for x
    proof -
      have "horner (c # cs) x = c + x * horner cs x" by simp
      also have "horner cs x = (x - a) * horner qs x + horner cs a" using qs by blast
      finally show ?thesis by (simp add: algebra_simps)
    qed
    moreover have "length (horner cs a # qs) = length (c # cs) - 1" using len False by simp
    ultimately show ?thesis by blast
  qed
qed

lemma poly_size_roots:
  fixes f :: "'a::field \<Rightarrow> 'a"
  assumes "poly_size n f" and "finite R" and "card R = n" and "\<And>r. r \<in> R \<Longrightarrow> f r = 0"
  shows "f x = 0"
  using assms
proof (induction n arbitrary: f R x)
  case 0
  then show ?case by (auto simp: poly_size_def)
next
  case (Suc n)
  then obtain a where a: "a \<in> R" by (metis card.empty ex_in_conv nat.distinct(1))
  from Suc.prems(1) obtain cs where cs: "length cs = Suc n" "f = horner cs"
    by (auto simp: poly_size_def)
  from horner_split_root [of cs a] cs Suc.prems(4) [OF a] obtain qs where
    qs: "length qs = n" "\<And>x. f x = (x - a) * horner qs x" by auto
  have "horner qs x = 0" for x
  proof (rule Suc.IH [of "horner qs" "R - {a}"])
    show "poly_size n (horner qs)" using qs(1) by (intro poly_size_horner) simp
    show "finite (R - {a})" "card (R - {a}) = n" using Suc.prems a by auto
    fix r assume "r \<in> R - {a}"
    then show "horner qs r = 0" using qs(2) [of r] Suc.prems(4) [of r] by auto
  qed
  then show ?case using qs(2) by simp
qed

section \<open>Interpolation\<close>

definition lagrange_basis :: "'a::field list \<Rightarrow> nat \<Rightarrow> 'a \<Rightarrow> 'a" where
  "lagrange_basis ps i x = (\<Prod>j\<in>{..<length ps} - {i}. (x - ps ! j) / (ps ! i - ps ! j))"

lemma lagrange_basis_own:
  assumes "distinct ps" and "i < length ps"
  shows "lagrange_basis ps i (ps ! i) = 1"
proof -
  have "ps ! i - ps ! j \<noteq> 0" if "j \<in> {..<length ps} - {i}" for j
    using that assms by (auto simp: nth_eq_iff_index_eq)
  then show ?thesis unfolding lagrange_basis_def by (intro prod.neutral) simp
qed

lemma lagrange_basis_other:
  assumes "i < length ps" and "k < length ps" and "k \<noteq> i"
  shows "lagrange_basis ps i (ps ! k) = 0"
  unfolding lagrange_basis_def using assms by (intro prod_zero) auto

lemma poly_size_lagrange_basis:
  assumes "i < length ps"
  shows "poly_size (length ps) (lagrange_basis ps i)"
proof -
  let ?J = "{..<length ps} - {i}"
  have "card ?J = length ps - 1" using assms by simp
  then have size: "poly_size (length ps) (\<lambda>x. \<Prod>j\<in>?J. (x - ps ! j))"
    using poly_size_prod_linear [of ?J "\<lambda>j. ps ! j"] assms
    by (auto elim: poly_size_mono)
  have "lagrange_basis ps i = (\<lambda>x. inverse (\<Prod>j\<in>?J. (ps ! i - ps ! j)) * (\<Prod>j\<in>?J. (x - ps ! j)))"
    by (simp add: fun_eq_iff lagrange_basis_def prod_dividef) (simp add: divide_inverse mult.commute)
  then show ?thesis using poly_size_scale [OF size] by simp
qed

theorem lagrange_interpolation:
  fixes ps :: "'a::field list"
  assumes dist: "distinct ps" and len: "length cs \<le> length ps"
  shows "horner cs x = (\<Sum>i<length ps. horner cs (ps ! i) * lagrange_basis ps i x)"
proof -
  let ?g = "\<lambda>x. \<Sum>i<length ps. horner cs (ps ! i) * lagrange_basis ps i x"
  let ?d = "\<lambda>x. horner cs x + (- 1) * ?g x"
  have "poly_size (length ps) ?d"
    using len by (intro poly_size_add poly_size_scale poly_size_horner poly_size_sum)
      (auto intro: poly_size_lagrange_basis)
  moreover have "?d r = 0" if "r \<in> set ps" for r
  proof -
    from that obtain k where k: "k < length ps" "r = ps ! k" by (auto simp: in_set_conv_nth)
    have "?g r = (\<Sum>i<length ps. if i = k then horner cs (ps ! k) else 0)"
      using k dist by (intro sum.cong) (auto simp: lagrange_basis_own lagrange_basis_other)
    then show ?thesis using k by simp
  qed
  ultimately have "?d x = 0"
    using poly_size_roots [of "length ps" ?d "set ps" x] dist by (simp add: distinct_card)
  then show ?thesis by simp
qed

text \<open>Values at distinct points can be prescribed, with as many coefficients as points or more.\<close>

theorem interpolant_exists:
  fixes ps :: "'a::field list"
  assumes dist: "distinct ps" and len: "length ps \<le> t"
  shows "\<exists>cs. length cs = t \<and> (\<forall>i<length ps. horner cs (ps ! i) = v (ps ! i))"
proof -
  let ?g = "\<lambda>x. \<Sum>i<length ps. v (ps ! i) * lagrange_basis ps i x"
  have "poly_size (length ps) ?g"
    by (intro poly_size_sum poly_size_scale) (auto intro: poly_size_lagrange_basis)
  then have "poly_size t ?g" using len by (rule poly_size_mono)
  then obtain cs where cs: "length cs = t" "?g = horner cs" by (auto simp: poly_size_def)
  have "horner cs (ps ! k) = v (ps ! k)" if k: "k < length ps" for k
  proof -
    have "?g (ps ! k) = (\<Sum>i<length ps. if i = k then v (ps ! k) else 0)"
      using k dist by (intro sum.cong) (auto simp: lagrange_basis_own lagrange_basis_other)
    also have "\<dots> = v (ps ! k)" using k by simp
    finally show ?thesis using fun_cong [OF cs(2), of "ps ! k"] by simp
  qed
  with cs(1) show ?thesis by blast
qed

end
