(* ===== verification/Shamir.thy ===== *)
theory Shamir
  imports GF256 Interpolation
begin

text \<open>
  The secret sharing service of \<^verbatim>\<open>services/shamir_service.py\<close>: polynomial evaluation,
  splitting a secret byte by byte and reconstructing it from shares. The coefficients drawn by
  \<^verbatim>\<open>secrets.randbelow(256)\<close> are an argument of the split: a function of the position of the byte and of the coefficient. Share indices are natural
  numbers.

  The theorems compare the code with Lagrange interpolation over the field of theory \<open>GF256\<close>.
\<close>

section \<open>Polynomial evaluation\<close>

text \<open>The loop carries the result and the current power of \<open>x\<close>.\<close>

fun eval_poly_loop :: "nat list \<Rightarrow> nat \<Rightarrow> nat \<Rightarrow> nat \<Rightarrow> nat res" where
  "eval_poly_loop [] x pwr result = Inr result"
| "eval_poly_loop (c # cs) x pwr result =
     (case gf_mul c pwr of Inl e \<Rightarrow> Inl e
      | Inr m \<Rightarrow> (case gf_mul pwr x of Inl e \<Rightarrow> Inl e
        | Inr pwr' \<Rightarrow> eval_poly_loop cs x pwr' (gf_add result m)))"

definition eval_poly :: "nat list \<Rightarrow> nat \<Rightarrow> nat res" where
  "eval_poly coeffs x = eval_poly_loop coeffs x 1 0"

section \<open>Splitting\<close>

text \<open>One polynomial per byte: the byte itself and \<open>threshold - 1\<close> random coefficients.\<close>

definition byte_shares :: "nat \<Rightarrow> byte \<Rightarrow> nat list \<Rightarrow> nat list res" where
  "byte_shares num_shares b rnd = map_res (\<lambda>i. eval_poly (unat b # rnd) (i + 1)) [0..<num_shares]"

text \<open>
  The source appends, for every byte of the secret, one value to each of the
  \<open>num_shares\<close> lists; share \<open>i\<close> is the column \<open>i\<close> of the rows computed here.
\<close>

definition split_secret ::
  "bytes \<Rightarrow> nat \<Rightarrow> nat \<Rightarrow> (nat \<Rightarrow> nat \<Rightarrow> byte) \<Rightarrow> (nat \<times> bytes) list res" where
  "split_secret secret num_shares threshold rnd =
     (if secret = [] then Inl ShamirError
      else if threshold < 2 then Inl ShamirError
      else if num_shares < threshold then Inl ShamirError
      else if num_shares > 10 then Inl ShamirError
      else case map_res (\<lambda>k. byte_shares num_shares (secret ! k)
                               (map (\<lambda>c. unat (rnd k c)) [0..<threshold - 1]))
                  [0..<length secret] of
             Inl e \<Rightarrow> Inl e
           | Inr rows \<Rightarrow>
               Inr (map (\<lambda>i. (i + 1, map (\<lambda>row. of_nat (row ! i)) rows)) [0..<num_shares]))"

section \<open>Reconstruction\<close>

text \<open>\<^verbatim>\<open>new_basis\<close>: the coefficients of \<open>basis\<close> times \<open>X + xj\<close>, filled in a loop over \<open>k\<close>.\<close>

fun mul_linear_loop :: "nat \<Rightarrow> nat \<Rightarrow> nat list \<Rightarrow> nat list \<Rightarrow> nat list res" where
  "mul_linear_loop xj k [] nb = Inr nb"
| "mul_linear_loop xj k (c # cs) nb =
     (case gf_mul c xj of Inl e \<Rightarrow> Inl e
      | Inr m \<Rightarrow>
          (let nb1 = nb[k := gf_add (nb ! k) m];
               nb2 = nb1[k + 1 := gf_add (nb1 ! (k + 1)) c]
           in mul_linear_loop xj (k + 1) cs nb2))"

definition mul_linear :: "nat list \<Rightarrow> nat \<Rightarrow> nat list res" where
  "mul_linear basis xj = mul_linear_loop xj 0 basis (replicate (length basis + 1) 0)"

text \<open>The loop over \<open>j\<close>: skips \<open>i\<close>, multiplies the basis and the denominator.\<close>

fun basis_loop :: "nat list \<Rightarrow> nat \<Rightarrow> nat list \<Rightarrow> nat list \<Rightarrow> nat \<Rightarrow> (nat list \<times> nat) res" where
  "basis_loop points i [] basis denom = Inr (basis, denom)"
| "basis_loop points i (j # js) basis denom =
     (if i = j then basis_loop points i js basis denom
      else case mul_linear basis (points ! j) of Inl e \<Rightarrow> Inl e
        | Inr basis' \<Rightarrow>
            (case gf_mul denom (gf_add (points ! i) (points ! j)) of Inl e \<Rightarrow> Inl e
             | Inr denom' \<Rightarrow> basis_loop points i js basis' denom'))"

definition lagrange_coefficient :: "nat \<Rightarrow> nat list \<Rightarrow> nat \<Rightarrow> nat res" where
  "lagrange_coefficient x points i =
     (case basis_loop points i [0..<length points] [1] 1 of Inl e \<Rightarrow> Inl e
      | Inr (basis, denom) \<Rightarrow>
          (case eval_poly basis x of Inl e \<Rightarrow> Inl e
           | Inr val \<Rightarrow> (case gf_inv denom of Inl e \<Rightarrow> Inl e | Inr d \<Rightarrow> gf_mul val d)))"

definition lagrange_coefficients :: "nat \<Rightarrow> nat list \<Rightarrow> nat list res" where
  "lagrange_coefficients x points = map_res (lagrange_coefficient x points) [0..<length points]"

fun combine_loop :: "(nat \<times> nat) list \<Rightarrow> nat \<Rightarrow> nat res" where
  "combine_loop [] val = Inr val"
| "combine_loop ((p, c) # pcs) val =
     (case gf_mul p c of Inl e \<Rightarrow> Inl e | Inr m \<Rightarrow> combine_loop pcs (gf_add val m))"

definition reconstruct_byte :: "nat list \<Rightarrow> nat list \<Rightarrow> byte res" where
  "reconstruct_byte indices points =
     (case lagrange_coefficients 0 indices of Inl e \<Rightarrow> Inl e
      | Inr coeffs \<Rightarrow>
          (case combine_loop (zip points coeffs) 0 of Inl e \<Rightarrow> Inl e | Inr v \<Rightarrow> Inr (of_nat v)))"

definition reconstruct_secret :: "(nat \<times> bytes) list \<Rightarrow> nat \<Rightarrow> bytes res" where
  "reconstruct_secret shares expected_length =
     (if length shares < 2 then Inl InsufficientSharesError
      else if card ((\<lambda>s. length (snd s)) ` set shares) \<noteq> 1 then Inl InvalidShareError
      else if length (snd (hd shares)) \<noteq> expected_length then Inl InvalidShareError
      else map_res
             (\<lambda>byte_idx. reconstruct_byte (map fst shares)
                            (map (\<lambda>s. unat (snd s ! byte_idx)) shares))
             [0..<expected_length])"

section \<open>The operations as field arithmetic\<close>

lemma eval_poly_loop_val:
  "eval_poly_loop (map gf_val cs) (gf_val x) (gf_val p) (gf_val r) = Inr (gf_val (r + p * horner cs x))"
  by (induction cs arbitrary: p r) (simp_all add: algebra_simps)

lemma eval_poly_val: "eval_poly (map gf_val cs) (gf_val x) = Inr (gf_val (horner cs x))"
  using eval_poly_loop_val [of cs x 1 0] by (simp add: eval_poly_def)

lemma horner_update:
  "k < length cs \<Longrightarrow> horner (cs[k := cs ! k + m]) x = horner cs x + x ^ k * m"
proof (induction cs arbitrary: k)
  case (Cons c cs)
  then show ?case by (cases k) (simp_all add: algebra_simps)
qed simp

lemma mul_linear_loop_val:
  assumes "k + length cs < length nb"
  shows "\<exists>ns. mul_linear_loop (gf_val a) k (map gf_val cs) (map gf_val nb) = Inr (map gf_val ns) \<and>
     (\<forall>x. horner ns x = horner nb x + x ^ k * ((x + a) * horner cs x))"
  using assms
proof (induction cs arbitrary: k nb)
  case Nil
  then show ?case by (intro exI [of _ nb]) simp
next
  case (Cons c cs)
  let ?n1 = "nb[k := nb ! k + c * a]"
  let ?n2 = "?n1[Suc k := ?n1 ! Suc k + c]"
  from Cons.prems have "Suc k + length cs < length ?n2" by simp
  from Cons.IH [OF this] obtain ns where
    ns: "mul_linear_loop (gf_val a) (Suc k) (map gf_val cs) (map gf_val ?n2) = Inr (map gf_val ns)"
    and h: "\<forall>x. horner ns x = horner ?n2 x + x ^ Suc k * ((x + a) * horner cs x)" by blast
  have "mul_linear_loop (gf_val a) k (map gf_val (c # cs)) (map gf_val nb)
        = mul_linear_loop (gf_val a) (Suc k) (map gf_val cs) (map gf_val ?n2)"
    using Cons.prems by (simp add: Let_def map_update nth_list_update)
  moreover have "horner ns x = horner nb x + x ^ k * ((x + a) * horner (c # cs) x)" for x
  proof -
    have "horner ?n2 x = horner ?n1 x + x ^ Suc k * c"
      using Cons.prems by (intro horner_update) simp
    also have "horner ?n1 x = horner nb x + x ^ k * (c * a)"
      using Cons.prems by (intro horner_update) simp
    finally show ?thesis using h by (simp add: algebra_simps)
  qed
  ultimately show ?case using ns by auto
qed

lemma mul_linear_val:
  "\<exists>ns. mul_linear (map gf_val bs) (gf_val a) = Inr (map gf_val ns) \<and>
     (\<forall>x. horner ns x = (x + a) * horner bs x)"
proof -
  have "replicate (Suc (length bs)) 0 = map gf_val (replicate (Suc (length bs)) 0)"
    by (simp del: replicate_Suc)
  then show ?thesis
    using mul_linear_loop_val [of 0 bs "replicate (Suc (length bs)) 0" a]
    by (auto simp: mul_linear_def simp del: replicate_Suc)
qed

lemma basis_loop_val:
  assumes "i < length ps" and "\<forall>j\<in>set js. j < length ps"
  shows "\<exists>bs'. basis_loop (map gf_val ps) i js (map gf_val bs) (gf_val d)
      = Inr (map gf_val bs', gf_val (d * prod_list (map (\<lambda>j. ps ! i + ps ! j) (filter (\<lambda>j. j \<noteq> i) js))))
    \<and> (\<forall>x. horner bs' x = horner bs x * prod_list (map (\<lambda>j. x + ps ! j) (filter (\<lambda>j. j \<noteq> i) js)))"
  using assms
proof (induction js arbitrary: bs d)
  case Nil
  then show ?case by auto
next
  case (Cons j js)
  show ?case
  proof (cases "i = j")
    case True
    with Cons show ?thesis by auto
  next
    case False
    obtain ns where ns: "mul_linear (map gf_val bs) (gf_val (ps ! j)) = Inr (map gf_val ns)"
      and h: "\<forall>x. horner ns x = (x + ps ! j) * horner bs x"
      using mul_linear_val by blast
    show ?thesis using Cons.IH [of ns "d * (ps ! i + ps ! j)"] Cons.prems False ns h
      by (auto simp: algebra_simps)
  qed
qed

lemma prod_list_others:
  "prod_list (map f (filter (\<lambda>j. j \<noteq> i) [0..<n])) = (\<Prod>j\<in>{..<n} - {i}. f j)"
proof -
  have "{..<n} - {i} = set (filter (\<lambda>j. j \<noteq> i) [0..<n])" by auto
  then show ?thesis by (simp add: prod.distinct_set_conv_list del: set_filter)
qed

lemma lagrange_coefficient_val:
  assumes "distinct ps" and "i < length ps"
  shows "lagrange_coefficient (gf_val x) (map gf_val ps) i = Inr (gf_val (lagrange_basis ps i x))"
proof -
  let ?J = "{..<length ps} - {i}"
  let ?den = "\<Prod>j\<in>?J. (ps ! i + ps ! j)"
  from basis_loop_val [of i ps "[0..<length ps]" "[1]" 1] assms(2) obtain bs where
    b: "basis_loop (map gf_val ps) i [0..<length ps] [1] 1 = Inr (map gf_val bs, gf_val ?den)"
    and h: "horner bs x = (\<Prod>j\<in>?J. (x + ps ! j))"
    by (auto simp: prod_list_others)
  have "?den \<noteq> 0"
    using assms by (auto simp: nth_eq_iff_index_eq gf256_add_eq_0)
  moreover have "lagrange_basis ps i x = (\<Prod>j\<in>?J. (x + ps ! j)) * inverse ?den"
    by (simp add: lagrange_basis_def prod_dividef) (simp add: divide_gf256_def)
  ultimately show ?thesis
    using b h by (simp add: lagrange_coefficient_def eval_poly_val gf_inv_val)
qed

lemma combine_loop_val:
  "length xs = length ys \<Longrightarrow>
   combine_loop (zip (map gf_val xs) (map gf_val ys)) (gf_val v)
     = Inr (gf_val (v + sum_list (map2 (*) xs ys)))"
  by (induction xs ys arbitrary: v rule: list_induct2) (simp_all add: algebra_simps)

lemma sum_list_map2_nth:
  fixes f :: "'a \<Rightarrow> 'b \<Rightarrow> 'c::comm_monoid_add"
  assumes "length xs = length ys"
  shows "sum_list (map2 f xs ys) = (\<Sum>i<length xs. f (xs ! i) (ys ! i))"
  using assms by (simp add: sum_list_sum_nth atLeast0LessThan)

theorem reconstruct_byte_val:
  assumes "distinct ps" and "length ys = length ps"
  shows "reconstruct_byte (map gf_val ps) (map gf_val ys)
     = Inr (of_nat (gf_val (\<Sum>i<length ps. ys ! i * lagrange_basis ps i 0)))"
proof -
  have "lagrange_coefficients 0 (map gf_val ps)
        = Inr (map gf_val (map (\<lambda>i. lagrange_basis ps i 0) [0..<length ps]))"
    using lagrange_coefficient_val [OF assms(1), of _ 0]
    by (auto simp: lagrange_coefficients_def intro!: map_res_ok)
  then show ?thesis
    using combine_loop_val [of ys "map (\<lambda>i. lagrange_basis ps i 0) [0..<length ps]" 0] assms(2)
    by (simp add: reconstruct_byte_def sum_list_map2_nth)
qed

section \<open>Splitting as polynomial evaluation\<close>

definition gf_byte :: "byte \<Rightarrow> gf256" where
  "gf_byte b = gf_of (unat b)"

lemma gf_val_byte [simp]: "gf_val (gf_byte b) = unat b"
  by (simp add: gf_byte_def)

lemma of_nat_gf_val_byte [simp]: "of_nat (gf_val (gf_byte b)) = b"
  by simp

text \<open>The polynomial of byte \<open>k\<close> of the secret.\<close>

definition share_poly :: "bytes \<Rightarrow> nat \<Rightarrow> (nat \<Rightarrow> nat \<Rightarrow> byte) \<Rightarrow> nat \<Rightarrow> gf256 list" where
  "share_poly secret threshold rnd k =
     gf_byte (secret ! k) # map (\<lambda>c. gf_byte (rnd k c)) [0..<threshold - 1]"

text \<open>Share index \<open>x\<close> holds the values of the polynomials at \<open>x\<close>.\<close>

definition share_at :: "bytes \<Rightarrow> nat \<Rightarrow> (nat \<Rightarrow> nat \<Rightarrow> byte) \<Rightarrow> nat \<Rightarrow> bytes" where
  "share_at secret threshold rnd x =
     map (\<lambda>k. of_nat (gf_val (horner (share_poly secret threshold rnd k) (gf_of x)))) [0..<length secret]"

lemma length_share_poly: "1 \<le> t \<Longrightarrow> length (share_poly secret t rnd k) = t"
  by (simp add: share_poly_def)

lemma byte_shares_val:
  assumes "n \<le> 10"
  shows "byte_shares n (secret ! k) (map (\<lambda>c. unat (rnd k c)) [0..<t - 1])
     = Inr (map (\<lambda>i. gf_val (horner (share_poly secret t rnd k) (gf_of (i + 1)))) [0..<n])"
  unfolding byte_shares_def
proof (rule map_res_ok)
  fix i assume "i \<in> set [0..<n]"
  then have "gf_val (gf_of (i + 1)) = i + 1" using assms by simp
  then show "eval_poly (unat (secret ! k) # map (\<lambda>c. unat (rnd k c)) [0..<t - 1]) (i + 1)
      = Inr (gf_val (horner (share_poly secret t rnd k) (gf_of (i + 1))))"
    using eval_poly_val [of "share_poly secret t rnd k" "gf_of (i + 1)"]
    by (simp add: share_poly_def comp_def)
qed

theorem split_secret_val:
  assumes "secret \<noteq> []" and "2 \<le> t" and "t \<le> n" and "n \<le> 10"
  shows "split_secret secret n t rnd = Inr (map (\<lambda>x. (x, share_at secret t rnd x)) [1..<n + 1])"
proof -
  have rows: "map_res (\<lambda>k. byte_shares n (secret ! k) (map (\<lambda>c. unat (rnd k c)) [0..<t - 1]))
      [0..<length secret]
    = Inr (map (\<lambda>k. map (\<lambda>i. gf_val (horner (share_poly secret t rnd k) (gf_of (i + 1)))) [0..<n])
        [0..<length secret])"
    using assms(4) by (intro map_res_ok byte_shares_val)
  have "[1..<n + 1] = map Suc [0..<n]" by (simp add: map_Suc_upt del: upt_Suc)
  then show ?thesis
    using assms rows by (simp add: split_secret_def share_at_def comp_def)
qed

section \<open>Reconstruction from enough shares\<close>

lemma gf_of_inj: "a < 256 \<Longrightarrow> b < 256 \<Longrightarrow> gf_of a = gf_of b \<longleftrightarrow> a = b"
  by (metis gf_val_of)

text \<open>What the shares of one secret give back, byte by byte.\<close>

lemma reconstruct_byte_share:
  assumes "distinct xs" and "\<forall>x\<in>set xs. x < 256" and "1 \<le> t" and "t \<le> length xs"
    and "k < length secret"
  shows "reconstruct_byte xs (map (\<lambda>x. unat (share_at secret t rnd x ! k)) xs) = Inr (secret ! k)"
proof -
  let ?p = "share_poly secret t rnd k" and ?ps = "map gf_of xs"
  have ps: "map gf_val ?ps = xs" using assms(2) by (simp add: map_idI)
  have dist: "distinct ?ps"
    using assms(1,2) by (auto simp: distinct_map inj_on_def gf_of_inj)
  have ys: "map gf_val (map (horner ?p) ?ps) = map (\<lambda>x. unat (share_at secret t rnd x ! k)) xs"
    using assms(5) by (simp add: share_at_def)
  have "reconstruct_byte (map gf_val ?ps) (map gf_val (map (horner ?p) ?ps))
    = Inr (of_nat (gf_val (\<Sum>i<length ?ps. map (horner ?p) ?ps ! i * lagrange_basis ?ps i 0)))"
    using dist by (intro reconstruct_byte_val) auto
  also have "(\<Sum>i<length ?ps. map (horner ?p) ?ps ! i * lagrange_basis ?ps i 0) = horner ?p 0"
    using lagrange_interpolation [OF dist, of ?p 0] assms(3,4) by (simp add: length_share_poly)
  also have "horner ?p 0 = gf_byte (secret ! k)" by (simp add: share_poly_def)
  finally show ?thesis unfolding ps ys by simp
qed

lemma length_share_at [simp]: "length (share_at secret t rnd x) = length secret"
  by (simp add: share_at_def)

lemma share_lengths:
  "sel \<noteq> [] \<Longrightarrow> \<forall>s\<in>set sel. length (snd s) = n \<Longrightarrow> (\<lambda>s. length (snd s)) ` set sel = {n}"
  by (cases sel) auto

lemma reconstruct_shares:
  assumes sel: "\<forall>s\<in>set sel. snd s = share_at secret t rnd (fst s) \<and> fst s < 256"
    and "distinct (map fst sel)" and "2 \<le> t" and "t \<le> length sel"
  shows "reconstruct_secret sel (length secret) = Inr secret"
proof -
  have "sel \<noteq> []" "length sel \<ge> 2" using assms(3,4) by auto
  have lens: "(\<lambda>s. length (snd s)) ` set sel = {length secret}"
    using sel \<open>sel \<noteq> []\<close> by (intro share_lengths) auto
  have hd: "length (snd (hd sel)) = length secret"
    using sel \<open>sel \<noteq> []\<close> by simp
  have "reconstruct_byte (map fst sel) (map (\<lambda>s. unat (snd s ! k)) sel) = Inr (secret ! k)"
    if "k < length secret" for k
  proof -
    have eq: "map (\<lambda>s. unat (snd s ! k)) sel
        = map (\<lambda>x. unat (share_at secret t rnd x ! k)) (map fst sel)"
      using sel by simp
    show ?thesis unfolding eq
      by (rule reconstruct_byte_share) (use assms that in auto)
  qed
  then have "map_res (\<lambda>k. reconstruct_byte (map fst sel) (map (\<lambda>s. unat (snd s ! k)) sel))
      [0..<length secret] = Inr (map ((!) secret) [0..<length secret])"
    by (intro map_res_ok) simp
  then show ?thesis
    using \<open>length sel \<ge> 2\<close> lens hd by (simp add: reconstruct_secret_def map_nth)
qed

lemma split_secret_params:
  "split_secret secret n t rnd = Inr shares \<Longrightarrow> secret \<noteq> [] \<and> 2 \<le> t \<and> t \<le> n \<and> n \<le> 10"
  by (auto simp: split_secret_def split: if_splits)

lemma split_secret_share:
  assumes "split_secret secret n t rnd = Inr shares" and "s \<in> set shares"
  shows "snd s = share_at secret t rnd (fst s) \<and> 1 \<le> fst s \<and> fst s \<le> n \<and> n \<le> 10"
proof -
  from split_secret_params [OF assms(1)] have p: "secret \<noteq> []" "2 \<le> t" "t \<le> n" "n \<le> 10" by auto
  from split_secret_val [OF p] assms show ?thesis using p by auto
qed

section \<open>Fewer shares than the threshold say nothing\<close>

lemma share_poly_any:
  assumes "finite X" and "card X < t" and X: "\<forall>x\<in>X. 1 \<le> x \<and> x < 256"
  shows "\<exists>r. \<forall>x\<in>X. horner (gf_byte b # map (\<lambda>c. gf_byte (r c)) [0..<t - 1]) (gf_of x) = v (gf_of x)"
proof -
  let ?qs = "map gf_of (sorted_list_of_set X)"
  have "gf_of 0 = 0" by (simp add: zero_gf256_def)
  moreover have "gf_of x \<noteq> gf_of 0" if "x \<in> X" for x using X that by (auto simp: gf_of_inj)
  ultimately have n0: "0 \<notin> set ?qs" using assms(1) by auto
  have "distinct ?qs" using assms(1) X
    by (auto simp: distinct_map inj_on_def gf_of_inj)
  with n0 have "distinct (0 # ?qs)" by simp
  moreover have "length (0 # ?qs) \<le> t" using assms by simp
  ultimately obtain cs where len: "length cs = t"
    and cs: "\<forall>i<length (0 # ?qs). horner cs ((0 # ?qs) ! i) = (v(0 := gf_byte b)) ((0 # ?qs) ! i)"
    using interpolant_exists [of "0 # ?qs" t "v(0 := gf_byte b)"] by blast
  then obtain c0 rest where c: "cs = c0 # rest" using assms(2) by (cases cs) auto
  from cs have "horner cs 0 = gf_byte b" by force
  with c have "c0 = gf_byte b" by simp
  moreover have "rest = map (\<lambda>k. gf_byte (of_nat (gf_val (rest ! k)))) [0..<t - 1]"
    using len c by (intro nth_equalityI) (auto simp: gf_byte_def gf_val_inverse)
  moreover have "horner cs (gf_of x) = v (gf_of x)" if "x \<in> X" for x
  proof -
    have "gf_of x \<in> set ?qs" using that assms(1) by simp
    then obtain i where "i < length ?qs" "?qs ! i = gf_of x" by (auto simp: in_set_conv_nth)
    then show ?thesis using cs [rule_format, of "Suc i"] n0 nth_mem [of i ?qs] by auto
  qed
  ultimately show ?thesis using c
    by (intro exI [of _ "\<lambda>k. of_nat (gf_val (rest ! k))"]) metis
qed

lemma share_at_any:
  assumes "finite X" and "card X < t" and "\<forall>x\<in>X. 1 \<le> x \<and> x < 256" and "length s' = length s"
  shows "\<exists>rnd'. \<forall>x\<in>X. share_at s' t rnd' x = share_at s t rnd x"
proof -
  have "\<forall>k. \<exists>r. \<forall>x\<in>X. horner (gf_byte (s' ! k) # map (\<lambda>c. gf_byte (r c)) [0..<t - 1]) (gf_of x)
      = horner (share_poly s t rnd k) (gf_of x)"
    using share_poly_any [OF assms(1-3)] by blast
  then obtain r where "\<forall>k. \<forall>x\<in>X. horner (gf_byte (s' ! k) # map (\<lambda>c. gf_byte (r k c)) [0..<t - 1]) (gf_of x)
      = horner (share_poly s t rnd k) (gf_of x)" by metis
  then have "\<forall>x\<in>X. share_at s' t r x = share_at s t rnd x"
    using assms(4) by (simp add: share_at_def share_poly_def)
  then show ?thesis by blast
qed

section \<open>Repeated share indices\<close>

lemma lagrange_coefficient_repeated:
  assumes "i < length ps"
  shows "lagrange_coefficient 0 (map gf_val ps) i =
     (if \<exists>j<length ps. j \<noteq> i \<and> ps ! j = ps ! i then Inl ZeroDivisionError
      else Inr (gf_val (lagrange_basis ps i 0)))"
proof -
  let ?J = "{..<length ps} - {i}"
  let ?den = "\<Prod>j\<in>?J. (ps ! i + ps ! j)"
  from basis_loop_val [of i ps "[0..<length ps]" "[1]" 1] assms obtain bs where
    b: "basis_loop (map gf_val ps) i [0..<length ps] [1] 1 = Inr (map gf_val bs, gf_val ?den)"
    and h: "horner bs 0 = (\<Prod>j\<in>?J. (ps ! j))"
    by (auto simp: prod_list_others)
  have e: "eval_poly (map gf_val bs) 0 = Inr (gf_val (horner bs 0))"
    using eval_poly_val [of bs 0] by simp
  have "?den = 0 \<longleftrightarrow> (\<exists>j\<in>?J. ps ! i = ps ! j)" by (simp add: gf256_add_eq_0)
  moreover have "(\<exists>j\<in>?J. ps ! i = ps ! j) \<longleftrightarrow> (\<exists>j<length ps. j \<noteq> i \<and> ps ! j = ps ! i)"
    unfolding Bex_def by (metis Diff_iff insertI1 lessThan_iff singletonD)
  moreover have "lagrange_basis ps i 0 = (\<Prod>j\<in>?J. (ps ! j)) * inverse ?den"
    by (simp add: lagrange_basis_def prod_dividef) (simp add: divide_gf256_def)
  ultimately show ?thesis
    using b h e gf_inv_val_0 gf_inv_val [of ?den]
    by (cases "?den = 0") (simp_all add: lagrange_coefficient_def del: prod_zero_iff)
qed

lemma map_res_error:
  assumes "\<forall>x\<in>set xs. f x = Inl e \<or> is_ok (f x)" and "\<exists>x\<in>set xs. f x = Inl e"
  shows "map_res f xs = Inl e"
  using assms
proof (induction xs)
  case (Cons x xs)
  then show ?case by (cases "f x") auto
qed simp

lemma reconstruct_byte_repeated:
  assumes "\<not> distinct xs" and "\<forall>x\<in>set xs. x < 256"
  shows "reconstruct_byte xs ys = Inl ZeroDivisionError"
proof -
  let ?ps = "map gf_of xs"
  have xs: "map gf_val ?ps = xs" using assms(2) by (simp add: map_idI)
  from assms(1) obtain i j where "i < length xs" "j < length xs" "j \<noteq> i" "xs ! j = xs ! i"
    by (auto simp: distinct_conv_nth)
  then have ij: "i < length ?ps" "j < length ?ps" "j \<noteq> i" "?ps ! j = ?ps ! i" by auto
  have "lagrange_coefficients 0 (map gf_val ?ps) = Inl ZeroDivisionError"
    unfolding lagrange_coefficients_def
  proof (rule map_res_error)
    show "\<forall>k\<in>set [0..<length (map gf_val ?ps)]. lagrange_coefficient 0 (map gf_val ?ps) k
        = Inl ZeroDivisionError \<or> is_ok (lagrange_coefficient 0 (map gf_val ?ps) k)"
      using lagrange_coefficient_repeated [of _ ?ps] by simp
    show "\<exists>k\<in>set [0..<length (map gf_val ?ps)].
        lagrange_coefficient 0 (map gf_val ?ps) k = Inl ZeroDivisionError"
      using lagrange_coefficient_repeated [of i ?ps] ij by (intro bexI [of _ i]) auto
  qed
  then show ?thesis unfolding xs by (simp add: reconstruct_byte_def)
qed

section \<open>Properties\<close>

lemma split_secret_fst_inj:
  assumes "split_secret secret n t rnd = Inr shares" and "set sel \<subseteq> set shares" and "distinct sel"
  shows "distinct (map fst sel)"
proof -
  have "inj_on fst (set shares)"
    using split_secret_share [OF assms(1)] by (intro inj_onI) (metis prod.expand)
  then have "inj_on fst (set sel)" using assms(2) by (rule inj_on_subset)
  then show ?thesis using assms(3) by (simp add: distinct_map)
qed

text \<open>C1. Any \<open>threshold\<close> or more different shares of a split, in any order, reconstruct the
  secret: for every secret, every admissible number of shares and threshold and every random
  coefficients, \<^verbatim>\<open>reconstruct_secret\<close> returns exactly the bytes
  \<^verbatim>\<open>split_secret\<close> was given.\<close>

theorem shamir_roundtrip:
  assumes "split_secret secret n t rnd = Inr shares"
    and "set sel \<subseteq> set shares" and "distinct sel" and "t \<le> length sel"
  shows "reconstruct_secret sel (length secret) = Inr secret"
proof (rule reconstruct_shares)
  show "\<forall>s\<in>set sel. snd s = share_at secret t rnd (fst s) \<and> fst s < 256"
    using split_secret_share [OF assms(1)] assms(2) by fastforce
  show "distinct (map fst sel)" by (rule split_secret_fst_inj [OF assms(1-3)])
  show "2 \<le> t" using split_secret_params [OF assms(1)] by simp
  show "t \<le> length sel" by (rule assms(4))
qed

text \<open>The split of a two-byte secret into three shares, read back from shares 3 and 1.\<close>

theorem shamir_roundtrip_witness:
  "\<exists>shares. split_secret [42, 7] 3 2 (\<lambda>k c. 9) = Inr shares \<and>
     reconstruct_secret [shares ! 2, shares ! 0] 2 = Inr [42, 7]"
proof -
  let ?f = "\<lambda>x. (x, share_at [42, 7] 2 (\<lambda>k c. 9) x)"
  have split: "split_secret [42, 7] 3 2 (\<lambda>k c. 9) = Inr [?f 1, ?f 2, ?f 3]"
  proof -
    have "[1..<3 + 1] = [1, 2, 3 :: nat]" by code_simp
    then show ?thesis using split_secret_val [of "[42, 7]" 2 3 "\<lambda>k c. 9"] by simp
  qed
  have "reconstruct_secret [?f 3, ?f 1] (length [42, 7 :: byte]) = Inr [42, 7]"
    by (rule shamir_roundtrip [OF split]) auto
  with split show ?thesis by (simp add: numeral_2_eq_2)
qed

text \<open>C7. Fewer shares than the threshold carry no information: whatever the secret was, for
  every other secret of the same length there are random coefficients under which the split gives
  the very same values at those share indices.\<close>

theorem shamir_secrecy:
  assumes split: "split_secret secret n t rnd = Inr shares"
    and "length secret' = length secret" and "X \<subseteq> {1..n}" and "card X < t"
  shows "\<exists>rnd' shares'. split_secret secret' n t rnd' = Inr shares' \<and>
           (\<forall>x\<in>X. map_of shares' x = map_of shares x \<and> map_of shares x \<noteq> None)"
proof -
  from split_secret_params [OF split] have p: "secret \<noteq> []" "2 \<le> t" "t \<le> n" "n \<le> 10" by auto
  have "finite X" using assms(3) finite_subset by blast
  moreover have "\<forall>x\<in>X. 1 \<le> x \<and> x < 256" using assms(3) p(4) by force
  ultimately obtain rnd' where r: "\<forall>x\<in>X. share_at secret' t rnd' x = share_at secret t rnd x"
    using share_at_any assms(2,4) by blast
  have p': "secret' \<noteq> []" using p(1) assms(2) by auto
  have m: "map_of (map (\<lambda>x. (x, f x)) [1..<n + 1]) x = Some (f x)" if "x \<in> X" for x and f :: "nat \<Rightarrow> bytes"
    using that assms(3) by (force simp: map_of_map_restrict restrict_map_def simp del: upt_Suc)
  let ?shares' = "map (\<lambda>x. (x, share_at secret' t rnd' x)) [1..<n + 1]"
  have shares: "shares = map (\<lambda>x. (x, share_at secret t rnd x)) [1..<n + 1]"
    using split_secret_val [OF p] split by simp
  have "split_secret secret' n t rnd' = Inr ?shares'" by (rule split_secret_val [OF p' p(2-4)])
  moreover have "map_of ?shares' x = map_of shares x \<and> map_of shares x \<noteq> None" if "x \<in> X" for x
    using m [OF that, of "share_at secret' t rnd'"] m [OF that, of "share_at secret t rnd"] r that
    by (simp add: shares del: upt_Suc)
  ultimately show ?thesis by blast
qed

theorem shamir_secrecy_witness:
  "\<exists>rnd' shares'. split_secret [0, 255] 3 2 rnd' = Inr shares' \<and>
     (\<forall>x\<in>{2}. map_of shares' x =
       map_of (map (\<lambda>x. (x, share_at [42, 7] 2 (\<lambda>k c. 9) x)) [1..<4]) x)"
proof -
  have split: "split_secret [42, 7] 3 2 (\<lambda>k c. 9)
      = Inr (map (\<lambda>x. (x, share_at [42, 7] 2 (\<lambda>k c. 9) x)) [1..<4])"
    using split_secret_val [of "[42, 7]" 2 3 "\<lambda>k c. 9"] by simp
  show ?thesis
    using shamir_secrecy [OF split, of "[0, 255]" "{2}"] by fastforce
qed

text \<open>A share index given twice is not one of the service's own errors: whatever bytes the
  shares hold, reconstruction of a non-empty secret ends in \<^verbatim>\<open>ZeroDivisionError\<close>, because
  a denominator of the Lagrange coefficients is 0.\<close>

theorem reconstruct_repeated_index:
  assumes "\<not> distinct (map fst shares)" and "\<forall>s\<in>set shares. fst s < 256 \<and> length (snd s) = n"
    and "0 < n"
  shows "reconstruct_secret shares n = Inl ZeroDivisionError"
proof -
  have ne: "shares \<noteq> []" and len: "2 \<le> length shares"
    using assms(1) by (auto simp: distinct_conv_nth)
  have lens: "(\<lambda>s. length (snd s)) ` set shares = {n}"
    using assms(2) ne by (intro share_lengths) auto
  have "map_res (\<lambda>k. reconstruct_byte (map fst shares) (map (\<lambda>s. unat (snd s ! k)) shares)) [0..<n]
      = Inl ZeroDivisionError"
    using assms reconstruct_byte_repeated [OF assms(1)] by (intro map_res_error) auto
  then show ?thesis using ne len lens assms(2) by (simp add: reconstruct_secret_def)
qed

theorem reconstruct_repeated_index_witness:
  "reconstruct_secret [(1, [5]), (1, [6])] 1 = Inl ZeroDivisionError"
  by (rule reconstruct_repeated_index) auto

end
