(* ===== verification/Envelope.thy ===== *)
theory Envelope
  imports Enigma_Prelude
begin

text \<open>
  The wire formats of \<^verbatim>\<open>models/envelope.py\<close>: the Double Ratchet envelope, the
  post-quantum envelope and the dispatch on the first byte. The contract both formats meet is the
  locale \<open>envelope_format\<close>: what \<^verbatim>\<open>build\<close> writes \<^verbatim>\<open>parse\<close> reads back, and a
  packet that parses is the one the parsed envelope builds, so no two packets carry one envelope.
\<close>

definition RATCHET_ENVELOPE_MAGIC :: byte where "RATCHET_ENVELOPE_MAGIC = 0xD0"
definition PQC_ENVELOPE_MAGIC :: byte where "PQC_ENVELOPE_MAGIC = 0x50"

section \<open>The Double Ratchet envelope\<close>

record ratchet_envelope =
  env_sender :: ustr
  env_header :: bytes
  env_ciphertext :: bytes

definition ratchet_build :: "ratchet_envelope \<Rightarrow> bytes res" where
  "ratchet_build e =
     (case utf8_encode (env_sender e) of Inl err \<Rightarrow> Inl err
      | Inr name_bytes \<Rightarrow>
          if length name_bytes > 255 then Inl ValueError
          else case pack_u16 (length (env_header e)) of Inl err \<Rightarrow> Inl err
            | Inr hlen \<Rightarrow>
                Inr ([RATCHET_ENVELOPE_MAGIC] @ [of_nat (length name_bytes)] @ name_bytes
                     @ hlen @ env_header e @ env_ciphertext e))"

text \<open>
  The parser's checks in order; a Unicode error and a \<^verbatim>\<open>struct.error\<close> inside the
  \<^verbatim>\<open>try\<close> block are re-raised as \<^verbatim>\<open>ValueError\<close>.
\<close>

definition ratchet_parse :: "bytes \<Rightarrow> ratchet_envelope res" where
  "ratchet_parse packet =
     (if length packet < 4 then Inl ValueError
      else if packet ! 0 \<noteq> RATCHET_ENVELOPE_MAGIC then Inl ValueError
      else let name_len = unat (packet ! 1) in
        if 2 + name_len > length packet then Inl ValueError
        else case utf8_decode (slice 2 (2 + name_len) packet) of Inl _ \<Rightarrow> Inl ValueError
          | Inr sender \<Rightarrow>
              if sender = [] then Inl ValueError
              else let offset = 2 + name_len in
                if offset + 2 > length packet then Inl ValueError
                else case unpack_u16 (slice offset (offset + 2) packet) of Inl _ \<Rightarrow> Inl ValueError
                  | Inr header_len \<Rightarrow>
                      let offset = offset + 2 in
                      if offset + header_len > length packet then Inl ValueError
                      else let header = slice offset (offset + header_len) packet;
                               ciphertext = drop (offset + header_len) packet in
                        if ciphertext = [] then Inl ValueError
                        else Inr \<lparr>env_sender = sender, env_header = header,
                                  env_ciphertext = ciphertext\<rparr>)"

section \<open>The post-quantum envelope\<close>

record pqc_envelope =
  pqc_kem_ct :: bytes
  pqc_nonce :: bytes
  pqc_aes_ct :: bytes

definition NONCE_LENGTH :: nat where "NONCE_LENGTH = 12"

definition pqc_build :: "pqc_envelope \<Rightarrow> bytes res" where
  "pqc_build e =
     (if length (pqc_nonce e) \<noteq> NONCE_LENGTH then Inl ValueError
      else case pack_u16 (length (pqc_kem_ct e)) of Inl err \<Rightarrow> Inl err
        | Inr klen \<Rightarrow> Inr ([PQC_ENVELOPE_MAGIC] @ klen @ pqc_kem_ct e @ pqc_nonce e @ pqc_aes_ct e))"

definition pqc_parse :: "bytes \<Rightarrow> pqc_envelope res" where
  "pqc_parse packet =
     (if length packet < 3 then Inl ValueError
      else if packet ! 0 \<noteq> PQC_ENVELOPE_MAGIC then Inl ValueError
      else case unpack_u16 (slice 1 3 packet) of Inl _ \<Rightarrow> Inl ValueError
        | Inr kem_ct_len \<Rightarrow>
            if 3 + kem_ct_len > length packet then Inl ValueError
            else let offset = 3 + kem_ct_len; nonce_end = offset + NONCE_LENGTH in
              if nonce_end > length packet then Inl ValueError
              else let aes_ciphertext = drop nonce_end packet in
                if length aes_ciphertext < 16 then Inl ValueError
                else Inr \<lparr>pqc_kem_ct = slice 3 offset packet, pqc_nonce = slice offset nonce_end packet,
                          pqc_aes_ct = aes_ciphertext\<rparr>)"

section \<open>Dispatch on the first byte\<close>

definition identify_envelope_type :: "bytes \<Rightarrow> string option" where
  "identify_envelope_type packet =
     (case packet of [] \<Rightarrow> None
      | magic # _ \<Rightarrow>
          if magic = RATCHET_ENVELOPE_MAGIC then Some ''ratchet''
          else if magic = PQC_ENVELOPE_MAGIC then Some ''pqc''
          else None)"

section \<open>The contract of an envelope format\<close>

locale envelope_format =
  fixes build :: "'e \<Rightarrow> bytes res"
    and parse :: "bytes \<Rightarrow> 'e res"
    and valid :: "'e \<Rightarrow> bool"
    and kind :: string
  assumes parse_build: "valid e \<Longrightarrow> build e = Inr p \<Longrightarrow> parse p = Inr e"
    and build_parse: "parse p = Inr e \<Longrightarrow> build e = Inr p \<and> valid e"
    and build_kind: "build e = Inr p \<Longrightarrow> identify_envelope_type p = Some kind"
    and parse_error: "parse p = Inl err \<Longrightarrow> err = ValueError"
begin

lemma parse_iff: "parse p = Inr e \<longleftrightarrow> valid e \<and> build e = Inr p"
  using parse_build build_parse by blast

lemma parse_inj: "parse p = Inr e \<Longrightarrow> parse q = Inr e \<Longrightarrow> p = q"
  using build_parse [of p e] build_parse [of q e] by simp

lemma build_inj: "valid e \<Longrightarrow> valid f \<Longrightarrow> build e = Inr p \<Longrightarrow> build f = Inr p \<Longrightarrow> e = f"
  using parse_build [of e p] parse_build [of f p] by simp

lemma parse_kind: "parse p = Inr e \<Longrightarrow> identify_envelope_type p = Some kind"
  using build_parse build_kind by blast

lemma other_kind_fails:
  "identify_envelope_type p \<noteq> Some kind \<Longrightarrow> parse p = Inl ValueError"
  using parse_kind [of p] parse_error [of p] by (cases "parse p") simp_all

end

section \<open>The two formats meet the contract\<close>

definition ratchet_valid :: "ratchet_envelope \<Rightarrow> bool" where
  "ratchet_valid e \<longleftrightarrow> env_sender e \<noteq> [] \<and> env_ciphertext e \<noteq> []"

definition pqc_valid :: "pqc_envelope \<Rightarrow> bool" where
  "pqc_valid e \<longleftrightarrow> 16 \<le> length (pqc_aes_ct e)"

lemma ratchet_build_parse:
  assumes "ratchet_parse p = Inr e"
  shows "ratchet_build e = Inr p \<and> ratchet_valid e"
proof -
  obtain b0 b1 r where p: "p = b0 # b1 # r"
    using assms by (cases p rule: list.exhaust; cases "tl p") (auto simp: ratchet_parse_def split: if_splits)
  define n where "n = unat b1"
  define nb where "nb = take n r"
  define hl where "hl = take 2 (drop n r)"
  define r2 where "r2 = drop (n + 2) r"
  obtain s h where s: "utf8_decode nb = Inr s" "s \<noteq> []" "unpack_u16 hl = Inr h"
    and le: "n \<le> length r" "2 + n \<le> length r" "h + (n + 2) \<le> length r" "drop h r2 \<noteq> []"
    and b0: "b0 = RATCHET_ENVELOPE_MAGIC"
    and e: "e = \<lparr>env_sender = s, env_header = take h r2, env_ciphertext = drop h r2\<rparr>"
    using assms
    by (auto simp: ratchet_parse_def p Let_def n_def nb_def hl_def r2_def slice_def add.commute
        split: if_splits sum.splits)
  have nb: "utf8_encode s = Inr nb" using s(1) by (rule utf8_decode_encode)
  have len: "length nb = n" "n < 256" "length hl = 2" "length (take h r2) = h"
    using le by (auto simp: nb_def n_def hl_def r2_def)
  have h: "h = be_val hl" using s(3) len(3) by (simp add: unpack_be_def)
  then have "h < 256 ^ 2" using be_val_less [of hl] len(3) by simp
  moreover have "be_bytes 2 h = hl" using be_bytes_be_val [of hl] len(3) h by simp
  ultimately have pk: "pack_u16 h = Inr hl" by (simp add: pack_be_def)
  have "unat b1 \<le> 255" using unat_byte_less [of b1] by linarith
  moreover have "r2 = drop 2 (drop n r)" by (simp add: r2_def add.commute)
  then have "r = nb @ hl @ r2" by (simp only: append_take_drop_id nb_def hl_def)
  ultimately show ?thesis
    using nb len pk le b0 p s(2)
    by (simp add: ratchet_build_def ratchet_valid_def e n_def)
qed

lemma ratchet_parse_build:
  assumes "ratchet_valid e" and "ratchet_build e = Inr p"
  shows "ratchet_parse p = Inr e"
proof -
  obtain nb hl where nb: "utf8_encode (env_sender e) = Inr nb" "length nb \<le> 255"
    and hl: "pack_u16 (length (env_header e)) = Inr hl"
    and p: "p = RATCHET_ENVELOPE_MAGIC # of_nat (length nb) # nb @ hl @ env_header e @ env_ciphertext e"
    using assms(2) by (auto simp: ratchet_build_def split: sum.splits if_splits)
  have n: "unat (of_nat (length nb) :: byte) = length nb" using nb(2) by simp
  have d: "utf8_decode nb = Inr (env_sender e)" "unpack_u16 hl = Inr (length (env_header e))"
      "length hl = 2"
    using nb(1) hl by (auto simp: codec_simps dest: pack_be_length unpack_pack)
  have ne: "env_sender e \<noteq> []" "env_ciphertext e \<noteq> []" using assms(1) by (auto simp: ratchet_valid_def)
  have sl: "slice 2 (2 + length nb) p = nb" "slice (2 + length nb) (2 + length nb + 2) p = hl"
    "slice (2 + length nb + 2) (2 + length nb + 2 + length (env_header e)) p = env_header e"
    "drop (2 + length nb + 2 + length (env_header e)) p = env_ciphertext e"
    using d(3) by (auto simp: slice_def p)
  show ?thesis
    using d ne n sl by (auto simp: ratchet_parse_def Let_def p)
qed

lemma pqc_build_parse:
  assumes "pqc_parse p = Inr e"
  shows "pqc_build e = Inr p \<and> pqc_valid e"
proof -
  obtain b0 r where p: "p = b0 # r"
    using assms by (cases p) (auto simp: pqc_parse_def)
  define kl where "kl = take 2 r"
  define r2 where "r2 = drop 2 r"
  obtain k where k: "unpack_u16 kl = Inr k" and le: "2 + k + 12 + 16 \<le> length r"
    and b0: "b0 = PQC_ENVELOPE_MAGIC"
    and e: "e = \<lparr>pqc_kem_ct = take k r2, pqc_nonce = take 12 (drop k r2),
                 pqc_aes_ct = drop 12 (drop k r2)\<rparr>"
    using assms
    by (auto simp: pqc_parse_def p Let_def kl_def r2_def slice_def NONCE_LENGTH_def add.commute drop_Cons'
        split: if_splits sum.splits)
  have len: "length kl = 2" using le by (simp add: kl_def)
  have kv: "k = be_val kl" using k len by (simp add: unpack_be_def)
  then have "k < 256 ^ 2" "be_bytes 2 k = kl"
    using be_val_less [of kl] be_bytes_be_val [of kl] len by simp_all
  then have pk: "pack_u16 k = Inr kl" by (simp add: pack_be_def)
  have r: "r = kl @ take k r2 @ take 12 (drop k r2) @ drop 12 (drop k r2)"
    by (simp only: append_take_drop_id kl_def r2_def)
  have lk: "length (take k r2) = k" "length (take 12 (drop k r2)) = 12"
      "16 \<le> length (drop 12 (drop k r2))"
    using le by (auto simp: r2_def)
  show ?thesis
    unfolding pqc_build_def pqc_valid_def e using pk lk r b0 p
    by (simp only: pqc_envelope.simps lk NONCE_LENGTH_def sum.case append.simps) simp
qed

lemma pqc_parse_build:
  assumes "pqc_valid e" and "pqc_build e = Inr p"
  shows "pqc_parse p = Inr e"
proof -
  obtain kl where n: "length (pqc_nonce e) = 12" and kl: "pack_u16 (length (pqc_kem_ct e)) = Inr kl"
    and p: "p = PQC_ENVELOPE_MAGIC # kl @ pqc_kem_ct e @ pqc_nonce e @ pqc_aes_ct e"
    using assms(2) by (auto simp: pqc_build_def NONCE_LENGTH_def split: sum.splits if_splits)
  let ?k = "length (pqc_kem_ct e)"
  have d: "unpack_u16 kl = Inr ?k" "length kl = 2"
    using kl by (auto dest: pack_be_length unpack_pack)
  have sl: "slice 1 3 p = kl" "slice 3 (3 + ?k) p = pqc_kem_ct e"
    "slice (3 + ?k) (3 + ?k + 12) p = pqc_nonce e" "drop (3 + ?k + 12) p = pqc_aes_ct e"
    using d(2) n by (auto simp: slice_def p drop_Cons')
  have "16 \<le> length (pqc_aes_ct e)" using assms(1) by (simp add: pqc_valid_def)
  then show ?thesis
    using d n sl by (auto simp: pqc_parse_def Let_def p NONCE_LENGTH_def)
qed

lemma ratchet_build_kind: "ratchet_build e = Inr p \<Longrightarrow> identify_envelope_type p = Some ''ratchet''"
  by (auto simp: ratchet_build_def identify_envelope_type_def split: sum.splits if_splits)

lemma pqc_build_kind: "pqc_build e = Inr p \<Longrightarrow> identify_envelope_type p = Some ''pqc''"
  by (auto simp: pqc_build_def identify_envelope_type_def RATCHET_ENVELOPE_MAGIC_def
      PQC_ENVELOPE_MAGIC_def split: sum.splits if_splits)

lemma ratchet_parse_error: "ratchet_parse p = Inl err \<Longrightarrow> err = ValueError"
  by (auto simp: ratchet_parse_def Let_def split: sum.splits if_splits)

lemma pqc_parse_error: "pqc_parse p = Inl err \<Longrightarrow> err = ValueError"
  by (auto simp: pqc_parse_def Let_def split: sum.splits if_splits)

interpretation ratchet_env: envelope_format ratchet_build ratchet_parse ratchet_valid "''ratchet''"
  by unfold_locales
    (rule ratchet_parse_build ratchet_build_parse ratchet_build_kind ratchet_parse_error; assumption)+

interpretation pqc_env: envelope_format pqc_build pqc_parse pqc_valid "''pqc''"
  by unfold_locales
    (rule pqc_parse_build pqc_build_parse pqc_build_kind pqc_parse_error; assumption)+

text \<open>The ratchet envelope format is canonical: a packet parses to an envelope exactly when that
  envelope has a sender and a ciphertext and builds to this very packet. So parsing inverts
  building, and no byte of a packet, its length fields included, can be changed without changing
  the envelope it is read as.\<close>

theorem ratchet_parse_iff_build:
  "ratchet_parse p = Inr e \<longleftrightarrow>
   (env_sender e \<noteq> [] \<and> env_ciphertext e \<noteq> []) \<and> ratchet_build e = Inr p"
  using ratchet_env.parse_iff [of p e] by (simp only: ratchet_valid_def)

text \<open>The same for the post-quantum envelope, whose payload has at least a 16-byte tag.\<close>

theorem pqc_parse_iff_build:
  "pqc_parse p = Inr e \<longleftrightarrow> 16 \<le> length (pqc_aes_ct e) \<and> pqc_build e = Inr p"
  using pqc_env.parse_iff [of p e] by (simp only: pqc_valid_def)

text \<open>The dispatch on the first byte agrees with the parsers: a packet that one of them
  accepts is identified as its kind, a packet identified as the other kind, or as none, is refused
  with ValueError, and no other exception leaves a parser.\<close>

theorem envelope_dispatch:
  "(case ratchet_parse p of Inr _ \<Rightarrow> identify_envelope_type p = Some ''ratchet'' \<and> pqc_parse p = Inl ValueError
    | Inl e \<Rightarrow> e = ValueError)
   \<and> (case pqc_parse p of Inr _ \<Rightarrow> identify_envelope_type p = Some ''pqc'' \<and> ratchet_parse p = Inl ValueError
    | Inl e \<Rightarrow> e = ValueError)"
proof -
  have excl: False if "ratchet_parse p = Inr x" "pqc_parse p = Inr y" for x y
    using ratchet_env.parse_kind [OF that(1)] pqc_env.parse_kind [OF that(2)] by simp
  then show ?thesis
    by (auto split: sum.splits dest: ratchet_env.parse_kind pqc_env.parse_kind
        ratchet_parse_error pqc_parse_error)
qed

end
