(* ===== verification/XChaCha.thy ===== *)
theory XChaCha
  imports Enigma_Prelude
begin

text \<open>
  \<^verbatim>\<open>services/xchacha20_poly1305.py\<close>: HChaCha20 on 32-bit words and the XChaCha20-Poly1305
  cipher built on it. The inner IETF ChaCha20-Poly1305 comes from the
  \<^verbatim>\<open>cryptography\<close> package and is a parameter; what the program relies on of an authenticated
  cipher is the locale \<open>aead\<close>, and the extended cipher is shown to meet the same contract with
  24-byte nonces.

  The source keeps a word as a Python integer masked with \<^verbatim>\<open>0xFFFFFFFF\<close> after every
  addition and rotation; here it is a \<open>32 word\<close>.
\<close>

type_synonym word32 = "32 word"

section \<open>HChaCha20\<close>

definition rotl32 :: "word32 \<Rightarrow> nat \<Rightarrow> word32" where
  "rotl32 v n = push_bit n v OR drop_bit (32 - n) v"

text \<open>The twelve assignments, in order, on the list of state words.\<close>

definition quarter_round :: "word32 list \<Rightarrow> nat \<Rightarrow> nat \<Rightarrow> nat \<Rightarrow> nat \<Rightarrow> word32 list" where
  "quarter_round s0 a b c d =
     (let s1 = s0[a := s0 ! a + s0 ! b];
          s2 = s1[d := s1 ! d XOR s1 ! a];
          s3 = s2[d := rotl32 (s2 ! d) 16];
          s4 = s3[c := s3 ! c + s3 ! d];
          s5 = s4[b := s4 ! b XOR s4 ! c];
          s6 = s5[b := rotl32 (s5 ! b) 12];
          s7 = s6[a := s6 ! a + s6 ! b];
          s8 = s7[d := s7 ! d XOR s7 ! a];
          s9 = s8[d := rotl32 (s8 ! d) 8];
          s10 = s9[c := s9 ! c + s9 ! d];
          s11 = s10[b := s10 ! b XOR s10 ! c]
      in s11[b := rotl32 (s11 ! b) 7])"

definition CHACHA20_CONSTANTS :: "word32 list" where
  "CHACHA20_CONSTANTS = [0x61707865, 0x3320646E, 0x79622D32, 0x6B206574]"

definition double_round :: "word32 list \<Rightarrow> word32 list" where
  "double_round s =
     (let s = quarter_round s 0 4 8 12;
          s = quarter_round s 1 5 9 13;
          s = quarter_round s 2 6 10 14;
          s = quarter_round s 3 7 11 15;
          s = quarter_round s 0 5 10 15;
          s = quarter_round s 1 6 11 12;
          s = quarter_round s 2 7 8 13
      in quarter_round s 3 4 9 14)"

text \<open>\<^verbatim>\<open>struct\<close> format \<^verbatim>\<open><I\<close>, repeated.\<close>

definition le_word :: "byte \<Rightarrow> byte \<Rightarrow> byte \<Rightarrow> byte \<Rightarrow> word32" where
  "le_word b0 b1 b2 b3 =
     ucast b0 OR push_bit 8 (ucast b1) OR push_bit 16 (ucast b2) OR push_bit 24 (ucast b3)"

fun unpack_le32 :: "bytes \<Rightarrow> word32 list" where
  "unpack_le32 (b0 # b1 # b2 # b3 # rest) = le_word b0 b1 b2 b3 # unpack_le32 rest"
| "unpack_le32 _ = []"

definition le_bytes32 :: "word32 \<Rightarrow> bytes" where
  "le_bytes32 w = [ucast w, ucast (drop_bit 8 w), ucast (drop_bit 16 w), ucast (drop_bit 24 w)]"

definition pack_le32 :: "word32 list \<Rightarrow> bytes" where
  "pack_le32 ws = concat (map le_bytes32 ws)"

definition hchacha20_block :: "bytes \<Rightarrow> bytes \<Rightarrow> bytes res" where
  "hchacha20_block key nonce =
     (if length key \<noteq> 32 then Inl ValueError
      else if length nonce \<noteq> 16 then Inl ValueError
      else let state = CHACHA20_CONSTANTS @ unpack_le32 key @ unpack_le32 nonce;
               state = (double_round ^^ 10) state
           in Inr (pack_le32 (slice 0 4 state @ slice 12 16 state)))"

section \<open>The contract of an authenticated cipher\<close>

text \<open>
  An operation takes the key, the nonce, the data and the associated data
  (\<^verbatim>\<open>None\<close> and the empty byte string are the same to the ciphers used here).
\<close>

type_synonym aead_op = "bytes \<Rightarrow> bytes \<Rightarrow> bytes \<Rightarrow> bytes \<Rightarrow> bytes res"

locale aead =
  fixes nonce_size :: nat
    and enc dec :: aead_op
  assumes enc_total:
      "length k = 32 \<Longrightarrow> length n = nonce_size \<Longrightarrow> length p < 2 ^ 31 \<Longrightarrow> length ad < 2 ^ 31 \<Longrightarrow>
       \<exists>c. enc k n p ad = Inr c"
    and dec_enc: "enc k n p ad = Inr c \<Longrightarrow> dec k n c ad = Inr p"
    and enc_dec: "dec k n c ad = Inr p \<Longrightarrow> enc k n p ad = Inr c"
    and enc_length: "enc k n p ad = Inr c \<Longrightarrow> length c = length p + 16"
begin

text \<open>Under one key, nonce and associated data the ciphertext determines the plaintext, and
  the decryption accepts nothing but ciphertexts.\<close>

lemma enc_inj: "enc k n p ad = Inr c \<Longrightarrow> enc k n q ad = Inr c \<Longrightarrow> p = q"
  using dec_enc [of k n p ad c] dec_enc [of k n q ad c] by simp

lemma dec_iff: "dec k n c ad = Inr p \<longleftrightarrow> enc k n p ad = Inr c"
  using dec_enc enc_dec by blast

lemma dec_short: "length c < 16 \<Longrightarrow> \<exists>e. dec k n c ad = Inl e"
  using enc_length [OF enc_dec] by (cases "dec k n c ad") fastforce+

end

section \<open>The cipher object\<close>

definition XCHACHA20_KEY_SIZE :: nat where "XCHACHA20_KEY_SIZE = 32"
definition XCHACHA20_NONCE_SIZE :: nat where "XCHACHA20_NONCE_SIZE = 24"
definition IETF_NONCE_PREFIX :: bytes where "IETF_NONCE_PREFIX = [0, 0, 0, 0]"

text \<open>The guarded key buffer; \<^verbatim>\<open>close\<close> leaves \<^verbatim>\<open>None\<close>, on which the later
  \<^verbatim>\<open>read\<close> raises \<^verbatim>\<open>AttributeError\<close>.\<close>

record xchacha_cipher =
  key_buf :: "bytes option"

definition xchacha_new :: "bytes \<Rightarrow> xchacha_cipher res" where
  "xchacha_new key =
     (if length key \<noteq> XCHACHA20_KEY_SIZE then Inl ValueError else Inr \<lparr>key_buf = Some key\<rparr>)"

definition xchacha_encrypt :: "aead_op \<Rightarrow> xchacha_cipher \<Rightarrow> bytes \<Rightarrow> bytes \<Rightarrow> bytes \<Rightarrow> bytes res" where
  "xchacha_encrypt inner cipher nonce plaintext associated_data =
     (if length nonce \<noteq> XCHACHA20_NONCE_SIZE then Inl ValueError
      else case key_buf cipher of None \<Rightarrow> Inl AttributeError
        | Some key_bytes \<Rightarrow>
            (case hchacha20_block key_bytes (take 16 nonce) of Inl e \<Rightarrow> Inl e
             | Inr subkey \<Rightarrow>
                 inner subkey (IETF_NONCE_PREFIX @ slice 16 24 nonce) plaintext associated_data))"

definition xchacha_decrypt :: "aead_op \<Rightarrow> xchacha_cipher \<Rightarrow> bytes \<Rightarrow> bytes \<Rightarrow> bytes \<Rightarrow> bytes res" where
  "xchacha_decrypt inner cipher nonce ciphertext associated_data =
     (if length nonce \<noteq> XCHACHA20_NONCE_SIZE then Inl ValueError
      else case key_buf cipher of None \<Rightarrow> Inl AttributeError
        | Some key_bytes \<Rightarrow>
            (case hchacha20_block key_bytes (take 16 nonce) of Inl e \<Rightarrow> Inl e
             | Inr subkey \<Rightarrow>
                 inner subkey (IETF_NONCE_PREFIX @ slice 16 24 nonce) ciphertext associated_data))"

definition xchacha_close :: "xchacha_cipher \<Rightarrow> xchacha_cipher" where
  "xchacha_close cipher = cipher\<lparr>key_buf := None\<rparr>"

text \<open>One use of a fresh object, the way the callers have it:
  \<^verbatim>\<open>XChaCha20Poly1305(key).encrypt(nonce, data, ad)\<close>.\<close>

definition xchacha_seal :: "aead_op \<Rightarrow> aead_op" where
  "xchacha_seal inner k n p ad =
     (case xchacha_new k of Inl e \<Rightarrow> Inl e | Inr c \<Rightarrow> xchacha_encrypt inner c n p ad)"

definition xchacha_open :: "aead_op \<Rightarrow> aead_op" where
  "xchacha_open inner k n ct ad =
     (case xchacha_new k of Inl e \<Rightarrow> Inl e | Inr c \<Rightarrow> xchacha_decrypt inner c n ct ad)"

section \<open>The rounds are permutations of the state\<close>

lemma rotl32_eq_word_rotl: "0 < n \<Longrightarrow> n < 32 \<Longrightarrow> rotl32 v n = word_rotl n v"
proof (rule bit_word_eqI)
  fix i
  assume n: "0 < n" "n < 32" and "i < LENGTH(32)"
  then have i: "i < 32" by simp
  show "bit (rotl32 v n) i = bit (word_rotl n v) i"
  proof (cases "n \<le> i")
    case True
    then obtain j where j: "i = n + j" using nat_le_iff_add by blast
    then have "(i + (32 - n)) mod 32 = j" using n i by simp
    moreover have "\<not> bit v (i + (32 - n))" using True n by (auto dest: bit_imp_le_length)
    ultimately have "bit (word_rotl n v) i = bit v j" "bit (rotl32 v n) i = bit v j"
      using n i j by (simp_all add: rotl32_def bit_push_bit_iff bit_drop_bit_eq bit_or_iff
          bit_word_rotl_iff del: add_diff_assoc add_diff_assoc2 diff_add_inverse2)
        (simp_all add: add.commute)
    then show ?thesis by simp
  next
    case False
    then have "(i + (32 - n)) mod 32 = i + (32 - n)" using n i by simp
    then have "bit (word_rotl n v) i = bit v (i + (32 - n))" "bit (rotl32 v n) i = bit v (i + (32 - n))"
      using n i False by (simp_all add: rotl32_def bit_push_bit_iff bit_drop_bit_eq bit_or_iff
          bit_word_rotl_iff del: add_diff_assoc add_diff_assoc2 diff_add_inverse2)
        (simp_all add: add.commute)
    then show ?thesis by simp
  qed
qed

lemma word_rotl_inject: "word_rotl n v = word_rotl n w \<longleftrightarrow> v = w"
  by (metis word_rot_lr)

lemma xor_right_inject: "(v :: word32) XOR u = w XOR u \<longleftrightarrow> v = w"
  by (metis xor.assoc xor_self_eq xor.right_neutral)

text \<open>A quarter round is four steps of one shape: add, exclusive or, rotate.\<close>

definition arx :: "word32 list \<Rightarrow> nat \<Rightarrow> nat \<Rightarrow> nat \<Rightarrow> nat \<Rightarrow> word32 list" where
  "arx s0 x y z n =
     (let s1 = s0[x := s0 ! x + s0 ! y]; s2 = s1[z := s1 ! z XOR s1 ! x] in s2[z := rotl32 (s2 ! z) n])"

lemma quarter_round_arx:
  "quarter_round s a b c d = arx (arx (arx (arx s a b d 16) c d b 12) a b d 8) c d b 7"
  by (simp only: quarter_round_def arx_def Let_def)

lemma length_arx [simp]: "length (arx s x y z n) = length s"
  by (simp add: arx_def Let_def)

lemma arx_inj:
  assumes idx: "distinct [x, y, z]" "x < 16" "y < 16" "z < 16" and n: "0 < n" "n < 32"
    and len: "length s = 16" "length t = 16" and eq: "arx s x y z n = arx t x y z n"
  shows "s = t"
proof (rule nth_equalityI)
  show "length s = length t" using len by simp
  fix i assume i: "i < length s"
  have at: "arx s x y z n ! j = arx t x y z n ! j" for j by (simp add: eq)
  have y: "s ! y = t ! y" and x: "s ! x = t ! x" and z: "s ! z = t ! z"
    using at [of y] at [of x] at [of z] idx n len
    by (simp_all add: arx_def Let_def rotl32_eq_word_rotl word_rotl_inject xor_right_inject)
  show "s ! i = t ! i"
    using at [of i] x y z i len idx by (simp add: arx_def Let_def nth_list_update split: if_splits)
qed

lemma length_quarter_round [simp]: "length (quarter_round s a b c d) = length s"
  by (simp add: quarter_round_arx)

lemma quarter_round_inj:
  "distinct [a, b, c, d] \<Longrightarrow> a < 16 \<Longrightarrow> b < 16 \<Longrightarrow> c < 16 \<Longrightarrow> d < 16 \<Longrightarrow>
   length s = 16 \<Longrightarrow> length t = 16 \<Longrightarrow> quarter_round s a b c d = quarter_round t a b c d \<Longrightarrow> s = t"
  unfolding quarter_round_arx by (drule arx_inj [rotated -1], simp_all)+

lemma length_double_round [simp]: "length (double_round s) = length s"
  by (simp add: double_round_def Let_def)

lemma double_round_inj:
  "length s = 16 \<Longrightarrow> length t = 16 \<Longrightarrow> double_round s = double_round t \<Longrightarrow> s = t"
  unfolding double_round_def Let_def
  by (drule quarter_round_inj [rotated -1], simp_all)+

lemma length_rounds [simp]: "length ((double_round ^^ n) s) = length s"
  by (induction n) auto

lemma rounds_inj:
  "length s = 16 \<Longrightarrow> length t = 16 \<Longrightarrow> (double_round ^^ n) s = (double_round ^^ n) t \<Longrightarrow> s = t"
proof (induction n)
  case (Suc n)
  then have "double_round ((double_round ^^ n) s) = double_round ((double_round ^^ n) t)"
    by (simp only: funpow.simps comp_apply)
  then have "(double_round ^^ n) s = (double_round ^^ n) t"
    by (rule double_round_inj [rotated 2]) (simp_all only: length_rounds Suc.prems)
  then show ?case by (rule Suc.IH [OF Suc.prems(1,2)])
qed simp

section \<open>Words and bytes\<close>

lemma length_unpack_le32: "length (unpack_le32 bs) = length bs div 4"
  by (induction bs rule: unpack_le32.induct) auto

lemma unpack_pack_le32 [codec_simps]: "unpack_le32 (pack_le32 ws) = ws"
proof (induction ws)
  case (Cons w ws)
  have "le_word (ucast w) (ucast (drop_bit 8 w)) (ucast (drop_bit 16 w)) (ucast (drop_bit 24 w)) = w"
  proof (rule bit_word_eqI)
    fix i assume "i < LENGTH(32)"
    moreover have "24 + (i - 24) = i \<or> i - 16 < 8" by arith
    ultimately show "bit (le_word (ucast w) (ucast (drop_bit 8 w)) (ucast (drop_bit 16 w))
        (ucast (drop_bit 24 w))) i = bit w i"
      by (auto simp: le_word_def bit_simps not_less)
  qed
  with Cons show ?case by (simp add: pack_le32_def le_bytes32_def)
qed (simp add: pack_le32_def)

lemma length_pack_le32 [simp]: "length (pack_le32 ws) = 4 * length ws"
  by (induction ws) (auto simp: pack_le32_def le_bytes32_def)

lemma hchacha20_ok:
  "length k = 32 \<Longrightarrow> length n = 16 \<Longrightarrow> \<exists>s. hchacha20_block k n = Inr s \<and> length s = 32"
  by (simp add: hchacha20_block_def Let_def CHACHA20_CONSTANTS_def length_unpack_le32)


section \<open>Properties of HChaCha20\<close>

text \<open>The twenty rounds of HChaCha20 (any number of double rounds) are a permutation of the
  sixteen-word states: two different keys or nonces never meet in the same final state, and the
  loss of information is only in the choice of the output words.\<close>

theorem hchacha20_rounds_bij:
  "bij_betw (double_round ^^ n) {s. length s = 16} {s. length s = 16}"
proof -
  have fin: "finite {s :: word32 list. length s = 16}"
    using finite_lists_length_eq [of "UNIV :: word32 set" 16] by simp
  have inj: "inj_on (double_round ^^ n) {s. length s = 16}"
    by (rule inj_onI) (simp only: mem_Collect_eq rounds_inj)
  have "(double_round ^^ n) ` {s. length s = 16} \<subseteq> {s. length s = 16}" by auto
  from endo_inj_surj [OF fin this inj] inj show ?thesis by (simp only: bij_betw_def)
qed

text \<open>The quarter round computes the value RFC 8439, section 2.1.1, gives for its test
  vector.\<close>

theorem quarter_round_known_answer:
  "quarter_round [0x11111111, 0x01020304, 0x9b8d6f43, 0x01234567] 0 1 2 3
   = [0xea2a92f4, 0xcb1cf8ce, 0x4581472e, 0x5881c4bb]"
  by code_simp

section \<open>The extended cipher meets the contract\<close>

lemma xchacha_seal_eq:
  "xchacha_seal inner k n p ad =
     (if length k = 32 \<and> length n = 24
      then inner (projr (hchacha20_block k (take 16 n))) (IETF_NONCE_PREFIX @ slice 16 24 n) p ad
      else Inl ValueError)"
  using hchacha20_ok [of k "take 16 n"]
  by (auto simp: xchacha_seal_def xchacha_new_def xchacha_encrypt_def XCHACHA20_KEY_SIZE_def
      XCHACHA20_NONCE_SIZE_def)

lemma xchacha_open_eq:
  "xchacha_open inner k n p ad =
     (if length k = 32 \<and> length n = 24
      then inner (projr (hchacha20_block k (take 16 n))) (IETF_NONCE_PREFIX @ slice 16 24 n) p ad
      else Inl ValueError)"
  using hchacha20_ok [of k "take 16 n"]
  by (auto simp: xchacha_open_def xchacha_new_def xchacha_decrypt_def XCHACHA20_KEY_SIZE_def
      XCHACHA20_NONCE_SIZE_def)

lemma xchacha_subkey_length:
  "length k = 32 \<Longrightarrow> length n = 24 \<Longrightarrow> length (projr (hchacha20_block k (take 16 n))) = 32"
  using hchacha20_ok [of k "take 16 n"] by auto

text \<open>An object that was closed refuses to work.\<close>

lemma xchacha_closed:
  "length n = 24 \<Longrightarrow> xchacha_encrypt inner (xchacha_close c) n p ad = Inl AttributeError"
  "length n = 24 \<Longrightarrow> xchacha_decrypt inner (xchacha_close c) n p ad = Inl AttributeError"
  by (simp_all add: xchacha_encrypt_def xchacha_decrypt_def xchacha_close_def XCHACHA20_NONCE_SIZE_def)

lemma xchacha_seal_aead:
  assumes "aead 12 ienc idec"
  shows "aead 24 (xchacha_seal ienc) (xchacha_open idec)"
proof
  fix k n p ad :: bytes
  assume "length k = 32" "length n = 24" "length p < 2 ^ 31" "length ad < 2 ^ 31"
  then show "\<exists>c. xchacha_seal ienc k n p ad = Inr c"
    using aead.enc_total [OF assms, of _ "IETF_NONCE_PREFIX @ slice 16 24 n" p ad]
    by (simp add: xchacha_seal_eq xchacha_subkey_length IETF_NONCE_PREFIX_def)
next
  fix k n p c ad
  assume "xchacha_seal ienc k n p ad = Inr c"
  then show "xchacha_open idec k n c ad = Inr p" and "length c = length p + 16"
    by (auto simp: xchacha_seal_eq xchacha_open_eq aead.enc_length [OF assms]
        intro: aead.dec_enc [OF assms] split: if_splits)
next
  fix k n p c ad
  assume "xchacha_open idec k n c ad = Inr p"
  then show "xchacha_seal ienc k n p ad = Inr c"
    by (auto simp: xchacha_seal_eq xchacha_open_eq intro: aead.enc_dec [OF assms] split: if_splits)
qed

subsection \<open>A reference cipher\<close>

text \<open>
  A cipher with the laws of the contract, for the examples of the development: the plaintext
  followed by a checksum of everything. It has no secrecy and stands for none of the ciphers of
  the program.
\<close>

definition ref_tag :: "bytes \<Rightarrow> bytes \<Rightarrow> bytes \<Rightarrow> bytes \<Rightarrow> bytes" where
  "ref_tag k n p ad = replicate 16 (foldr (+) (k @ n @ p @ ad) 0)"

definition ref_enc :: "nat \<Rightarrow> aead_op" where
  "ref_enc ns k n p ad =
     (if length k = 32 \<and> length n = ns then Inr (p @ ref_tag k n p ad) else Inl ValueError)"

definition ref_dec :: "nat \<Rightarrow> aead_op" where
  "ref_dec ns k n c ad =
     (if length k = 32 \<and> length n = ns then
        (let p = take (length c - 16) c in
         if 16 \<le> length c \<and> drop (length c - 16) c = ref_tag k n p ad then Inr p else Inl InvalidTag)
      else Inl ValueError)"

lemma ref_aead: "aead ns (ref_enc ns) (ref_dec ns)"
proof
  fix k n c ad p
  assume d: "ref_dec ns k n c ad = Inr p"
  then have "length k = 32" "length n = ns" "p = take (length c - 16) c"
      "drop (length c - 16) c = ref_tag k n p ad"
    by (auto simp: ref_dec_def Let_def split: if_splits)
  moreover from this(3,4) have "p @ ref_tag k n p ad = c"
    using append_take_drop_id [of "length c - 16" c] by simp
  ultimately show "ref_enc ns k n p ad = Inr c" by (simp add: ref_enc_def)
qed (auto simp: ref_enc_def ref_dec_def Let_def ref_tag_def split: if_splits)

interpretation ref: aead ns "ref_enc ns" "ref_dec ns" for ns
  by (rule ref_aead)



end
