(* ===== verification/Double_Ratchet.thy ===== *)
theory Double_Ratchet
  imports XChaCha
begin

text \<open>
  \<^verbatim>\<open>services/double_ratchet.py\<close>: the state of one side of a Double Ratchet conversation and
  its operations. X25519, HKDF-SHA256, HMAC-SHA256 and the inner ChaCha20-Poly1305 come from
  libraries and are the fields of \<open>ratchet_crypto\<close>; keys are their raw bytes. Randomness (a
  fresh X25519 private key, a nonce) is an argument. A guarded buffer is its contents.

  An operation that raises returns the state as it was left by the assignments before the
  exception.
\<close>

record ratchet_crypto =
  dh_public :: "bytes \<Rightarrow> bytes"
  dh_exchange :: "bytes \<Rightarrow> bytes \<Rightarrow> bytes res"
  hkdf64 :: "bytes \<Rightarrow> bytes \<Rightarrow> bytes"
  hmac_sha256 :: "bytes \<Rightarrow> bytes \<Rightarrow> bytes"
  chacha_enc :: aead_op
  chacha_dec :: aead_op

type_synonym skip_key = "bytes \<times> nat"

record ratchet_state =
  dh_priv :: "bytes option"
  dh_pub_remote :: "bytes option"
  root_key :: "bytes option"
  send_chain_key :: "bytes option"
  recv_chain_key :: "bytes option"
  send_msg_num :: nat
  recv_msg_num :: nat
  prev_send_chain_len :: nat
  skipped_keys :: "(skip_key \<times> bytes) list"
  skipped_key_order :: "skip_key list"

definition MAX_SKIPPED_KEYS :: nat where "MAX_SKIPPED_KEYS = 1000"
definition MAX_SKIP_DISTANCE :: nat where "MAX_SKIP_DISTANCE = 1000"

definition new_ratchet_state :: ratchet_state where
  "new_ratchet_state =
     \<lparr>dh_priv = None, dh_pub_remote = None, root_key = None, send_chain_key = None,
      recv_chain_key = None, send_msg_num = 0, recv_msg_num = 0, prev_send_chain_len = 0,
      skipped_keys = [], skipped_key_order = []\<rparr>"

section \<open>Key derivation\<close>

definition hkdf_rk :: "ratchet_crypto \<Rightarrow> bytes \<Rightarrow> bytes \<Rightarrow> bytes \<times> bytes" where
  "hkdf_rk C rk dh_out = (let output = hkdf64 C rk dh_out in (take 32 output, drop 32 output))"

definition hkdf_ck :: "ratchet_crypto \<Rightarrow> bytes \<Rightarrow> bytes \<times> bytes" where
  "hkdf_ck C ck = (let new_ck = hmac_sha256 C ck [2]; mk = hmac_sha256 C ck [1] in (new_ck, mk))"

section \<open>Initialisation and the DH ratchet\<close>

text \<open>\<open>local_priv\<close> is the argument \<^verbatim>\<open>local_dh_priv\<close>, \<open>fresh\<close> the key generated when it
  is absent.\<close>

definition initialize_as_alice ::
  "ratchet_crypto \<Rightarrow> bytes \<Rightarrow> bytes \<Rightarrow> bytes \<Rightarrow> bytes option \<Rightarrow> ratchet_state \<Rightarrow> unit res \<times> ratchet_state"
  where
  "initialize_as_alice C fresh bob_dh_pub shared_secret local_priv st =
     (let priv = (case local_priv of Some p \<Rightarrow> p | None \<Rightarrow> fresh);
          st1 = st\<lparr>dh_priv := Some priv, dh_pub_remote := Some bob_dh_pub\<rparr>
      in case dh_exchange C priv bob_dh_pub of Inl e \<Rightarrow> (Inl e, st1)
        | Inr dh_out \<Rightarrow>
            (let (rk_bytes, sk_bytes) = hkdf_rk C shared_secret dh_out in
             (Inr (), st1\<lparr>root_key := Some rk_bytes, send_chain_key := Some sk_bytes,
                          recv_chain_key := None, send_msg_num := 0, recv_msg_num := 0,
                          prev_send_chain_len := 0\<rparr>)))"

definition initialize_as_bob ::
  "ratchet_crypto \<Rightarrow> bytes \<Rightarrow> bytes \<Rightarrow> bytes \<Rightarrow> bytes option \<Rightarrow> ratchet_state \<Rightarrow> unit res \<times> ratchet_state"
  where
  "initialize_as_bob C fresh alice_dh_pub shared_secret local_priv st =
     (let priv = (case local_priv of Some p \<Rightarrow> p | None \<Rightarrow> fresh);
          st1 = st\<lparr>dh_priv := Some priv, dh_pub_remote := Some alice_dh_pub\<rparr>
      in case dh_exchange C priv alice_dh_pub of Inl e \<Rightarrow> (Inl e, st1)
        | Inr dh_out \<Rightarrow>
            (let (rk_bytes, ck_bytes) = hkdf_rk C shared_secret dh_out in
             (Inr (), st1\<lparr>root_key := Some rk_bytes, recv_chain_key := Some ck_bytes,
                          send_chain_key := None, send_msg_num := 0, recv_msg_num := 0,
                          prev_send_chain_len := 0\<rparr>)))"

definition dh_ratchet_step ::
  "ratchet_crypto \<Rightarrow> bytes \<Rightarrow> bytes \<Rightarrow> ratchet_state \<Rightarrow> unit res \<times> ratchet_state" where
  "dh_ratchet_step C fresh remote_pub st =
     (case dh_priv st of None \<Rightarrow> (Inl AttributeError, st)
      | Some priv \<Rightarrow>
        (case dh_exchange C priv remote_pub of Inl e \<Rightarrow> (Inl e, st)
         | Inr dh_out \<Rightarrow>
           (case root_key st of None \<Rightarrow> (Inl AttributeError, st)
            | Some rk \<Rightarrow>
              (let (rk1, ck1) = hkdf_rk C rk dh_out;
                   st1 = st\<lparr>root_key := Some rk1, recv_chain_key := Some ck1,
                            prev_send_chain_len := send_msg_num st, send_msg_num := 0,
                            recv_msg_num := 0, dh_priv := Some fresh,
                            dh_pub_remote := Some remote_pub\<rparr>
               in case dh_exchange C fresh remote_pub of Inl e \<Rightarrow> (Inl e, st1)
                 | Inr dh_out2 \<Rightarrow>
                     (let (rk2, ck2) = hkdf_rk C rk1 dh_out2 in
                      (Inr (), st1\<lparr>root_key := Some rk2, send_chain_key := Some ck2\<rparr>))))))"

section \<open>Encryption\<close>

text \<open>The first block of \<^verbatim>\<open>encrypt\<close>: a responder that has not sent yet opens its chain.\<close>

definition open_send_chain :: "ratchet_crypto \<Rightarrow> bytes \<Rightarrow> ratchet_state \<Rightarrow> unit res \<times> ratchet_state" where
  "open_send_chain C fresh st =
     (case send_chain_key st of Some _ \<Rightarrow> (Inr (), st)
      | None \<Rightarrow>
        (case dh_pub_remote st of None \<Rightarrow> (Inl ValueError, st)
         | Some remote \<Rightarrow>
           (let st1 = st\<lparr>dh_priv := Some fresh\<rparr> in
            case dh_exchange C fresh remote of Inl e \<Rightarrow> (Inl e, st1)
            | Inr dh_out \<Rightarrow>
              (case root_key st of None \<Rightarrow> (Inl AttributeError, st1)
               | Some rk \<Rightarrow>
                 (let (rk_bytes, ck_bytes) = hkdf_rk C rk dh_out in
                  (Inr (), st1\<lparr>root_key := Some rk_bytes, send_chain_key := Some ck_bytes,
                               prev_send_chain_len := send_msg_num st, send_msg_num := 0\<rparr>))))))"

definition build_header :: "ratchet_crypto \<Rightarrow> ratchet_state \<Rightarrow> bytes res" where
  "build_header C st =
     (case dh_priv st of None \<Rightarrow> Inl AttributeError
      | Some priv \<Rightarrow>
        (case pack_u32 (send_msg_num st) of Inl e \<Rightarrow> Inl e
         | Inr n \<Rightarrow>
           (case pack_u32 (prev_send_chain_len st) of Inl e \<Rightarrow> Inl e
            | Inr p \<Rightarrow> Inr (n @ p @ dh_public C priv))))"

definition ratchet_encrypt ::
  "ratchet_crypto \<Rightarrow> bytes \<Rightarrow> bytes \<Rightarrow> bytes \<Rightarrow> ratchet_state \<Rightarrow> (bytes \<times> bytes) res \<times> ratchet_state"
  where
  "ratchet_encrypt C fresh nonce plaintext st0 =
     and_then (open_send_chain C fresh st0) (\<lambda>_ st.
       case send_chain_key st of None \<Rightarrow> (Inl AttributeError, st)
       | Some ck \<Rightarrow>
         (let (new_ck, message_key) = hkdf_ck C ck;
              st1 = st\<lparr>send_chain_key := Some new_ck\<rparr>
          in case build_header C st1 of Inl e \<Rightarrow> (Inl e, st1)
            | Inr header \<Rightarrow>
              (case xchacha_seal (chacha_enc C) message_key nonce plaintext header of
                 Inl e \<Rightarrow> (Inl e, st1)
               | Inr ct \<Rightarrow>
                   (Inr (header, nonce @ ct), st1\<lparr>send_msg_num := send_msg_num st1 + 1\<rparr>))))"

section \<open>Decryption\<close>

definition store_skipped_key :: "skip_key \<Rightarrow> bytes \<Rightarrow> ratchet_state \<Rightarrow> unit res \<times> ratchet_state" where
  "store_skipped_key key mk st =
     (let add = (\<lambda>s. s\<lparr>skipped_keys := AList.update key mk (skipped_keys s),
                       skipped_key_order := skipped_key_order s @ [key]\<rparr>)
      in if length (skipped_keys st) \<ge> MAX_SKIPPED_KEYS then
           (case skipped_key_order st of [] \<Rightarrow> (Inl IndexError, st)
            | oldest # order \<Rightarrow>
                (Inr (), add (st\<lparr>skipped_keys := AList.delete oldest (skipped_keys st),
                                 skipped_key_order := order\<rparr>)))
         else (Inr (), add st))"

text \<open>The loop \<^verbatim>\<open>while self.recv_msg_num < until\<close> of both callers.\<close>

function skip_until :: "ratchet_crypto \<Rightarrow> bytes \<Rightarrow> nat \<Rightarrow> ratchet_state \<Rightarrow> unit res \<times> ratchet_state" where
  "skip_until C pub until st =
     (if recv_msg_num st < until then
        (case recv_chain_key st of None \<Rightarrow> (Inl AttributeError, st)
         | Some ck \<Rightarrow>
           (let (new_ck, mk) = hkdf_ck C ck;
                st1 = st\<lparr>recv_chain_key := Some new_ck\<rparr>
            in case store_skipped_key (pub, recv_msg_num st) mk st1 of
                 (Inl e, st2) \<Rightarrow> (Inl e, st2)
               | (Inr _, st2) \<Rightarrow> skip_until C pub until (st2\<lparr>recv_msg_num := recv_msg_num st + 1\<rparr>)))
      else (Inr (), st))"
  by pat_completeness auto
termination
  by (relation "measure (\<lambda>(C, pub, until, st). until - recv_msg_num st)") auto

declare skip_until.simps [simp del]

definition skip_recv_chain ::
  "ratchet_crypto \<Rightarrow> bytes \<Rightarrow> nat \<Rightarrow> ratchet_state \<Rightarrow> unit res \<times> ratchet_state" where
  "skip_recv_chain C remote_pub_bytes until st =
     (if recv_chain_key st = None \<or> remote_pub_bytes = [] then (Inr (), st)
      else if int until - int (recv_msg_num st) > int MAX_SKIP_DISTANCE then (Inl ValueError, st)
      else skip_until C remote_pub_bytes until st)"

definition decrypt_with_key :: "ratchet_crypto \<Rightarrow> bytes \<Rightarrow> bytes \<Rightarrow> bytes \<Rightarrow> bytes res" where
  "decrypt_with_key C key data header =
     (if length data < XCHACHA20_NONCE_SIZE then Inl ValueError
      else xchacha_open (chacha_dec C) key (take XCHACHA20_NONCE_SIZE data)
             (drop XCHACHA20_NONCE_SIZE data) header)"

text \<open>From the header check to the DH ratchet step.\<close>

definition enter_chain ::
  "ratchet_crypto \<Rightarrow> bytes \<Rightarrow> bytes \<Rightarrow> nat \<Rightarrow> ratchet_state \<Rightarrow> unit res \<times> ratchet_state" where
  "enter_chain C fresh remote_dh_pub_bytes prev_chain_len st =
     (let current = (case dh_pub_remote st of Some p \<Rightarrow> p | None \<Rightarrow> []) in
      if remote_dh_pub_bytes \<noteq> current then
        and_then (skip_recv_chain C current prev_chain_len st)
          (\<lambda>_ st1. dh_ratchet_step C fresh remote_dh_pub_bytes st1)
      else (Inr (), st))"

text \<open>From the lookup among the skipped keys to the end.\<close>

definition decrypt_in_chain ::
  "ratchet_crypto \<Rightarrow> bytes \<Rightarrow> nat \<Rightarrow> bytes \<Rightarrow> bytes \<Rightarrow> ratchet_state \<Rightarrow> bytes res \<times> ratchet_state" where
  "decrypt_in_chain C remote_dh_pub_bytes msg_num header ciphertext st =
     (case map_of (skipped_keys st) (remote_dh_pub_bytes, msg_num) of
        Some skip_key \<Rightarrow>
          (decrypt_with_key C skip_key ciphertext header,
           st\<lparr>skipped_keys := AList.delete (remote_dh_pub_bytes, msg_num) (skipped_keys st)\<rparr>)
      | None \<Rightarrow>
          if int msg_num - int (recv_msg_num st) > int MAX_SKIP_DISTANCE then (Inl ValueError, st)
          else and_then (skip_until C remote_dh_pub_bytes msg_num st) (\<lambda>_ st1.
            case recv_chain_key st1 of None \<Rightarrow> (Inl AttributeError, st1)
            | Some ck \<Rightarrow>
              (let (new_ck, message_key) = hkdf_ck C ck in
               (decrypt_with_key C message_key ciphertext header,
                st1\<lparr>recv_chain_key := Some new_ck, recv_msg_num := recv_msg_num st1 + 1\<rparr>))))"

definition ratchet_decrypt ::
  "ratchet_crypto \<Rightarrow> bytes \<Rightarrow> bytes \<Rightarrow> bytes \<Rightarrow> ratchet_state \<Rightarrow> bytes res \<times> ratchet_state" where
  "ratchet_decrypt C fresh header ciphertext st =
     (if length header < 40 then (Inl ValueError, st)
      else case unpack_u32 (take 4 header) of Inl e \<Rightarrow> (Inl e, st)
        | Inr msg_num \<Rightarrow>
          (case unpack_u32 (slice 4 8 header) of Inl e \<Rightarrow> (Inl e, st)
           | Inr prev_chain_len \<Rightarrow>
               let remote_dh_pub_bytes = slice 8 40 header in
               and_then (enter_chain C fresh remote_dh_pub_bytes prev_chain_len st)
                 (\<lambda>_ st1. decrypt_in_chain C remote_dh_pub_bytes msg_num header ciphertext st1)))"

definition get_local_dh_public_key :: "ratchet_crypto \<Rightarrow> ratchet_state \<Rightarrow> bytes res" where
  "get_local_dh_public_key C st =
     (case dh_priv st of None \<Rightarrow> Inl ValueError | Some priv \<Rightarrow> Inr (dh_public C priv))"

definition ratchet_wipe :: "ratchet_state \<Rightarrow> ratchet_state" where
  "ratchet_wipe st =
     st\<lparr>root_key := None, send_chain_key := None, recv_chain_key := None, skipped_keys := []\<rparr>"

section \<open>Chains\<close>

text \<open>The \<open>i\<close>-th chain key and message key of a chain that starts at \<open>ck\<close>.\<close>

definition chain_key :: "ratchet_crypto \<Rightarrow> bytes \<Rightarrow> nat \<Rightarrow> bytes" where
  "chain_key C ck i = ((\<lambda>k. hmac_sha256 C k [2]) ^^ i) ck"

definition msg_key :: "ratchet_crypto \<Rightarrow> bytes \<Rightarrow> nat \<Rightarrow> bytes" where
  "msg_key C ck i = hmac_sha256 C (chain_key C ck i) [1]"

lemma chain_key_0 [simp]: "chain_key C ck 0 = ck"
  by (simp add: chain_key_def)

lemma hkdf_ck_chain [simp]:
  "hkdf_ck C (chain_key C ck i) = (chain_key C ck (Suc i), msg_key C ck i)"
  by (simp add: hkdf_ck_def chain_key_def msg_key_def)

lemma delete_absent: "map_of xs k = None \<Longrightarrow> AList.delete k xs = xs"
  by (induction xs) (auto simp: AList.delete_eq split: if_splits)

text \<open>Below the cap the loop stores exactly the keys between the two positions.\<close>

lemma skip_until_spec:
  assumes "recv_chain_key st = Some (chain_key C ck (recv_msg_num st))"
    and "length (skipped_keys st) + (until - recv_msg_num st) \<le> MAX_SKIPPED_KEYS"
    and "\<forall>i \<ge> recv_msg_num st. map_of (skipped_keys st) (pub, i) = None"
  shows "skip_until C pub until st =
    (Inr (), st\<lparr>recv_chain_key := Some (chain_key C ck (max (recv_msg_num st) until)),
                skipped_keys := skipped_keys st @ map (\<lambda>i. ((pub, i), msg_key C ck i)) [recv_msg_num st..<until],
                skipped_key_order := skipped_key_order st @ map (\<lambda>i. (pub, i)) [recv_msg_num st..<until],
                recv_msg_num := max (recv_msg_num st) until\<rparr>)"
  using assms
proof (induction "until - recv_msg_num st" arbitrary: st)
  case 0
  then show ?case by (subst skip_until.simps) (simp add: max_def)
next
  case (Suc n)
  let ?r = "recv_msg_num st"
  let ?st1 = "st\<lparr>recv_chain_key := Some (chain_key C ck (Suc ?r)),
     skipped_keys := skipped_keys st @ [((pub, ?r), msg_key C ck ?r)],
     skipped_key_order := skipped_key_order st @ [(pub, ?r)], recv_msg_num := Suc ?r\<rparr>"
  have lt: "?r < until" and n: "n = until - recv_msg_num ?st1" using Suc.hyps(2) by simp_all
  have p1: "recv_chain_key ?st1 = Some (chain_key C ck (recv_msg_num ?st1))" by simp
  have p2: "length (skipped_keys ?st1) + (until - recv_msg_num ?st1) \<le> MAX_SKIPPED_KEYS"
    using Suc.prems(2) lt by simp
  have p3: "\<forall>i \<ge> recv_msg_num ?st1. map_of (skipped_keys ?st1) (pub, i) = None"
    using Suc.prems(3) by simp
  note IH = Suc.hyps(1) [OF n p1 p2 p3]
  have absent: "map_of (skipped_keys st) (pub, ?r) = None" using Suc.prems(3) by simp
  have room: "\<not> MAX_SKIPPED_KEYS \<le> length (skipped_keys st)" using Suc.prems(2) lt by linarith
  have "skip_until C pub until st = skip_until C pub until ?st1"
    using lt Suc.prems(1) room
    by (subst skip_until.simps) (simp add: store_skipped_key_def Let_def update_absent [OF absent])
  then show ?case
    using IH lt by (cases st) (simp add: upt_conv_Cons max_def)
qed

section \<open>What the ratchet relies on\<close>

text \<open>
  The library functions: Diffie-Hellman on generated keys succeeds and is symmetric, public keys
  have 32 bytes, HKDF gives the 64 bytes asked for, HMAC-SHA256 gives 32, and the inner cipher is an
  authenticated cipher.
\<close>

locale ratchet_laws =
  fixes C :: ratchet_crypto
  assumes dh_total: "length a = 32 \<Longrightarrow> length b = 32 \<Longrightarrow> \<exists>s. dh_exchange C a (dh_public C b) = Inr s"
    and dh_sym: "dh_exchange C a (dh_public C b) = dh_exchange C b (dh_public C a)"
    and public_length: "length (dh_public C a) = 32"
    and hkdf_length: "length (hkdf64 C salt ikm) = 64"
    and hmac_length: "length (hmac_sha256 C k m) = 32"
    and inner_aead: "aead 12 (chacha_enc C) (chacha_dec C)"
begin

text \<open>The message cipher is the extended one, over the inner one.\<close>

lemma message_aead: "aead 24 (xchacha_seal (chacha_enc C)) (xchacha_open (chacha_dec C))"
  by (rule xchacha_seal_aead [OF inner_aead])

lemma msg_key_length [simp]: "length (msg_key C ck i) = 32"
  by (simp add: msg_key_def hmac_length)

lemma seal_ok:
  assumes "length k = 32" "length n = 24" "length p < 2 ^ 31" "length h < 2 ^ 31"
  obtains c where "xchacha_seal (chacha_enc C) k n p h = Inr c"
    and "decrypt_with_key C k (n @ c) h = Inr p"
proof -
  obtain c where c: "xchacha_seal (chacha_enc C) k n p h = Inr c"
    using aead.enc_total [OF message_aead assms] by blast
  have "decrypt_with_key C k (n @ c) h = Inr p"
    using aead.dec_enc [OF message_aead c] assms(2)
    by (simp add: decrypt_with_key_def XCHACHA20_NONCE_SIZE_def)
  with c show thesis by (rule that)
qed

end

text \<open>The packets of a chain: the \<open>i\<close>-th carries its number and is sealed with the \<open>i\<close>-th
  message key under its whole header.\<close>

definition chain_packet ::
  "ratchet_crypto \<Rightarrow> bytes \<Rightarrow> bytes \<Rightarrow> nat \<Rightarrow> nat \<Rightarrow> bytes \<Rightarrow> bytes \<times> bytes \<Rightarrow> bool" where
  "chain_packet C pub ck prev i plaintext packet \<longleftrightarrow>
     i < 2 ^ 32 \<and> prev < 2 ^ 32 \<and> length pub = 32 \<and>
     fst packet = be_bytes 4 i @ be_bytes 4 prev @ pub \<and>
     decrypt_with_key C (msg_key C ck i) (snd packet) (fst packet) = Inr plaintext"

lemma chain_packet_fields:
  assumes "chain_packet C pub ck prev i plaintext packet"
  shows "\<not> length (fst packet) < 40" and "unpack_u32 (take 4 (fst packet)) = Inr i"
    and "unpack_u32 (slice 4 8 (fst packet)) = Inr prev" and "slice 8 40 (fst packet) = pub"
  using assms by (simp_all add: chain_packet_def slice_def unpack_be_bytes)

lemma chain_packet_opens:
  "chain_packet C pub ck prev i plaintext packet \<Longrightarrow>
   decrypt_with_key C (msg_key C ck i) (snd packet) (fst packet) = Inr plaintext"
  unfolding chain_packet_def by blast

lemma decrypt_packet:
  assumes "chain_packet C pub ck prev i plaintext packet"
  shows "ratchet_decrypt C fresh (fst packet) (snd packet) st =
    and_then (enter_chain C fresh pub prev st)
      (\<lambda>_ st1. decrypt_in_chain C pub i (fst packet) (snd packet) st1)"
  using chain_packet_fields [OF assms] by (simp add: ratchet_decrypt_def)

section \<open>Delivery in any order within a chain\<close>

text \<open>
  The receiver of a chain of \<open>n\<close> packets after the packets numbered \<open>S\<close> were delivered: the chain
  key of its position, and the keys of the numbers passed over, each once.
\<close>

definition receiving :: "ratchet_crypto \<Rightarrow> bytes \<Rightarrow> bytes \<Rightarrow> nat \<Rightarrow> nat set \<Rightarrow> ratchet_state \<Rightarrow> bool" where
  "receiving C pub ck n S st \<longleftrightarrow>
     dh_pub_remote st = Some pub \<and> recv_chain_key st = Some (chain_key C ck (recv_msg_num st)) \<and>
     recv_msg_num st \<le> n \<and> S \<subseteq> {..<recv_msg_num st} \<and>
     length (skipped_keys st) + (n - recv_msg_num st) \<le> MAX_SKIPPED_KEYS \<and>
     (\<forall>i. map_of (skipped_keys st) (pub, i) =
        (if i < recv_msg_num st \<and> i \<notin> S then Some (msg_key C ck i) else None))"

lemma length_delete_le: "length (AList.delete k xs) \<le> length xs"
  by (simp add: AList.delete_eq)

lemma map_of_skipped_range:
  "map_of (map (\<lambda>i. ((pub, i), f i)) [a..<b]) (pub, j) = (if a \<le> j \<and> j < b then Some (f j) else None)"
proof -
  have "map_of (map (\<lambda>i. ((pub, i), f i)) xs) (pub, j) = (if j \<in> set xs then Some (f j) else None)" for xs
    by (induction xs) auto
  then show ?thesis by simp
qed

text \<open>One delivery: the packet opens to its plaintext and the receiver stays in step.\<close>

lemma receive_one:
  assumes inv: "receiving C pub ck n S st" and i: "i < n" "i \<notin> S"
    and pk: "chain_packet C pub ck prev i plaintext packet"
  shows "\<exists>st'. ratchet_decrypt C fresh (fst packet) (snd packet) st = (Inr plaintext, st') \<and>
           receiving C pub ck n (insert i S) st'"
proof -
  have here: "ratchet_decrypt C fresh (fst packet) (snd packet) st =
      decrypt_in_chain C pub i (fst packet) (snd packet) st"
    using inv by (simp add: decrypt_packet [OF pk] enter_chain_def receiving_def)
  have dec: "decrypt_with_key C (msg_key C ck i) (snd packet) (fst packet) = Inr plaintext"
    by (rule chain_packet_opens [OF pk])
  show ?thesis
  proof (cases "i < recv_msg_num st")
    case True
    then have "map_of (skipped_keys st) (pub, i) = Some (msg_key C ck i)"
      using inv i by (simp add: receiving_def)
    then show ?thesis
      using inv i True dec length_delete_le [of "(pub, i)" "skipped_keys st"]
      by (auto simp: here decrypt_in_chain_def receiving_def AList.delete_conv')
  next
    case False
    let ?r = "recv_msg_num st"
    have r: "?r \<le> i" using False by simp
    have none: "map_of (skipped_keys st) (pub, i) = None"
      using inv False by (simp add: receiving_def)
    have near: "\<not> int i - int ?r > int MAX_SKIP_DISTANCE"
      using inv i r by (auto simp: receiving_def MAX_SKIPPED_KEYS_def MAX_SKIP_DISTANCE_def)
    have skip: "skip_until C pub i st = (Inr (),
        st\<lparr>recv_chain_key := Some (chain_key C ck i),
           skipped_keys := skipped_keys st @ map (\<lambda>i. ((pub, i), msg_key C ck i)) [?r..<i],
           skipped_key_order := skipped_key_order st @ map (\<lambda>i. (pub, i)) [?r..<i],
           recv_msg_num := i\<rparr>)"
      using inv i r by (subst skip_until_spec [where ck = ck]) (auto simp: receiving_def max_def)
    show ?thesis
      using inv i r dec none near
      by (auto simp: here decrypt_in_chain_def skip receiving_def map_of_append map_add_def
          map_of_skipped_range split: option.splits)
  qed
qed

text \<open>A sender working through a list of (nonce, plaintext) and a receiver working through a
  list of packets.\<close>

fun encrypt_all ::
  "ratchet_crypto \<Rightarrow> bytes \<Rightarrow> (bytes \<times> bytes) list \<Rightarrow> ratchet_state \<Rightarrow> (bytes \<times> bytes) list res \<times> ratchet_state"
  where
  "encrypt_all C fresh [] st = (Inr [], st)"
| "encrypt_all C fresh ((nonce, plaintext) # ms) st =
     and_then (ratchet_encrypt C fresh nonce plaintext st) (\<lambda>packet st1.
       and_then (encrypt_all C fresh ms st1) (\<lambda>packets st2. (Inr (packet # packets), st2)))"

fun decrypt_all ::
  "ratchet_crypto \<Rightarrow> bytes \<Rightarrow> (bytes \<times> bytes) list \<Rightarrow> ratchet_state \<Rightarrow> bytes list res \<times> ratchet_state"
  where
  "decrypt_all C fresh [] st = (Inr [], st)"
| "decrypt_all C fresh ((header, ciphertext) # ps) st =
     and_then (ratchet_decrypt C fresh header ciphertext st) (\<lambda>plaintext st1.
       and_then (decrypt_all C fresh ps st1) (\<lambda>plaintexts st2. (Inr (plaintext # plaintexts), st2)))"

lemma receive_all:
  assumes "receiving C pub ck n S st" and "distinct is" "set is \<subseteq> {..<n}" "set is \<inter> S = {}"
    and "\<And>i. i < n \<Longrightarrow> chain_packet C pub ck prev i (plaintexts ! i) (packets ! i)"
  shows "\<exists>st'. decrypt_all C fresh (map ((!) packets) is) st = (Inr (map ((!) plaintexts) is), st') \<and>
           receiving C pub ck n (S \<union> set is) st'"
  using assms(1-4)
proof (induction "is" arbitrary: S st)
  case (Cons i js)
  have pk: "chain_packet C pub ck prev i (plaintexts ! i) (packets ! i)"
    using assms(5) Cons.prems(3) by simp
  obtain st1 where st1: "ratchet_decrypt C fresh (fst (packets ! i)) (snd (packets ! i)) st
      = (Inr (plaintexts ! i), st1)" and inv: "receiving C pub ck n (insert i S) st1"
    using receive_one [OF Cons.prems(1) _ _ pk, of fresh] Cons.prems by auto
  obtain st2 where "decrypt_all C fresh (map ((!) packets) js) st1 = (Inr (map ((!) plaintexts) js), st2)"
      "receiving C pub ck n (insert i S \<union> set js) st2"
    using Cons.IH [OF inv] Cons.prems by auto
  moreover obtain h c where "packets ! i = (h, c)" by (cases "packets ! i")
  ultimately show ?case using st1 by simp
qed simp

text \<open>A sender at position \<open>m\<close> of the chain that starts at \<open>ck\<close>.\<close>

definition sending :: "ratchet_crypto \<Rightarrow> bytes \<Rightarrow> bytes \<Rightarrow> nat \<Rightarrow> ratchet_state \<Rightarrow> bool" where
  "sending C pub ck m st \<longleftrightarrow>
     send_chain_key st = Some (chain_key C ck m) \<and> send_msg_num st = m \<and>
     (\<exists>a. dh_priv st = Some a \<and> dh_public C a = pub) \<and> prev_send_chain_len st < 2 ^ 32"

definition messages_ok :: "(bytes \<times> bytes) list \<Rightarrow> bool" where
  "messages_ok ms \<longleftrightarrow> (\<forall>(nonce, plaintext) \<in> set ms. length nonce = 24 \<and> length plaintext < 2 ^ 31)"

context ratchet_laws
begin

lemma encrypt_one:
  assumes "sending C pub ck m st" and "m < 2 ^ 32" and "length nonce = 24" "length plaintext < 2 ^ 31"
  shows "\<exists>packet. ratchet_encrypt C fresh nonce plaintext st =
      (Inr packet, st\<lparr>send_chain_key := Some (chain_key C ck (Suc m)), send_msg_num := Suc m\<rparr>) \<and>
      chain_packet C pub ck (prev_send_chain_len st) m plaintext packet"
proof -
  obtain a where a: "dh_priv st = Some a" "dh_public C a = pub" using assms(1) by (auto simp: sending_def)
  let ?h = "be_bytes 4 m @ be_bytes 4 (prev_send_chain_len st) @ pub"
  have pub: "length pub = 32" using a(2) public_length by blast
  have h: "length ?h < 2 ^ 31" using pub by simp
  obtain c where c: "xchacha_seal (chacha_enc C) (msg_key C ck m) nonce plaintext ?h = Inr c"
      "decrypt_with_key C (msg_key C ck m) (nonce @ c) ?h = Inr plaintext"
    using seal_ok [OF msg_key_length assms(3,4) h] by blast
  have "ratchet_encrypt C fresh nonce plaintext st =
      (Inr (?h, nonce @ c), st\<lparr>send_chain_key := Some (chain_key C ck (Suc m)), send_msg_num := Suc m\<rparr>)"
    using assms(1,2) a c(1)
    by (simp add: ratchet_encrypt_def open_send_chain_def sending_def build_header_def pack_be_ok)
  moreover have "chain_packet C pub ck (prev_send_chain_len st) m plaintext (?h, nonce @ c)"
    using assms(1,2) c(2) pub by (simp add: chain_packet_def sending_def)
  ultimately show ?thesis by blast
qed

lemma encrypt_all_ok:
  assumes "sending C pub ck m st" and "m + length ms \<le> 2 ^ 32" and "messages_ok ms"
  shows "\<exists>packets. encrypt_all C fresh ms st =
      (Inr packets, st\<lparr>send_chain_key := Some (chain_key C ck (m + length ms)),
                       send_msg_num := m + length ms\<rparr>) \<and>
      length packets = length ms \<and>
      (\<forall>i < length ms. chain_packet C pub ck (prev_send_chain_len st) (m + i) (snd (ms ! i)) (packets ! i))"
  using assms
proof (induction ms arbitrary: m st)
  case Nil
  then show ?case by (cases st) (simp add: sending_def)
next
  case (Cons nm ms)
  obtain nonce plaintext where nm: "nm = (nonce, plaintext)" by (cases nm)
  let ?st1 = "st\<lparr>send_chain_key := Some (chain_key C ck (Suc m)), send_msg_num := Suc m\<rparr>"
  obtain packet where pk: "ratchet_encrypt C fresh nonce plaintext st = (Inr packet, ?st1)"
      "chain_packet C pub ck (prev_send_chain_len st) m plaintext packet"
    using encrypt_one [OF Cons.prems(1), of nonce plaintext fresh] Cons.prems(2,3) nm by (auto simp: messages_ok_def)
  have "sending C pub ck (Suc m) ?st1" using Cons.prems(1) by (simp add: sending_def)
  from Cons.IH [OF this] Cons.prems(2,3) obtain packets where
    "encrypt_all C fresh ms ?st1 = (Inr packets, ?st1\<lparr>send_chain_key := Some (chain_key C ck (Suc m + length ms)),
        send_msg_num := Suc m + length ms\<rparr>)"
    "length packets = length ms"
    "\<forall>i < length ms. chain_packet C pub ck (prev_send_chain_len st) (Suc m + i) (snd (ms ! i)) (packets ! i)"
    by (auto simp: messages_ok_def)
  with pk nm show ?case
    by (auto simp: nth_Cons' less_Suc_eq_0_disj)
qed

end

section \<open>Conversations\<close>

text \<open>A receiver that gets the packets of a chain one after the other stores no keys.\<close>

lemma receive_in_order:
  assumes "dh_pub_remote st = Some pub" "recv_chain_key st = Some (chain_key C ck m)"
    and "recv_msg_num st = m" "skipped_keys st = []" and "length packets = length ms"
    and "\<forall>i < length ms. chain_packet C pub ck prev (m + i) (snd (ms ! i)) (packets ! i)"
  shows "decrypt_all C fresh packets st =
    (Inr (map snd ms), st\<lparr>recv_chain_key := Some (chain_key C ck (m + length ms)),
                         recv_msg_num := m + length ms\<rparr>)"
  using assms
proof (induction ms arbitrary: m st packets)
  case Nil
  then show ?case by (cases st) simp
next
  case (Cons x ms)
  obtain h c ps where ps: "packets = (h, c) # ps" using Cons.prems(5) by (cases packets) auto
  have pk: "chain_packet C pub ck prev m (snd x) (h, c)"
    using Cons.prems(6) ps by auto
  then have dec: "decrypt_with_key C (msg_key C ck m) c h = Inr (snd x)"
    using chain_packet_opens [OF pk] by simp
  let ?st1 = "st\<lparr>recv_chain_key := Some (chain_key C ck (Suc m)), recv_msg_num := Suc m\<rparr>"
  have one: "ratchet_decrypt C fresh h c st = (Inr (snd x), ?st1)"
    using decrypt_packet [OF pk, of fresh st] Cons.prems(1-4) dec
    by (simp add: enter_chain_def decrypt_in_chain_def skip_until.simps MAX_SKIP_DISTANCE_def)
  have "\<forall>i < length ms. chain_packet C pub ck prev (Suc m + i) (snd (ms ! i)) (ps ! i)"
    using Cons.prems(6) ps by auto
  from Cons.IH [OF _ _ _ _ _ this, of ?st1] Cons.prems ps
  have "decrypt_all C fresh ps ?st1 = (Inr (map snd ms),
      ?st1\<lparr>recv_chain_key := Some (chain_key C ck (Suc m + length ms)), recv_msg_num := Suc m + length ms\<rparr>)"
    by simp
  with one show ?case by (simp add: ps)
qed

text \<open>
  The relation between the side that sends next and the other one, once the sender has opened a
  sending chain against the other's current key: the receiver's next DH ratchet step derives the
  sender's root and chain key.
\<close>

definition ahead :: "ratchet_crypto \<Rightarrow> ratchet_state \<Rightarrow> ratchet_state \<Rightarrow> bool" where
  "ahead C S R \<longleftrightarrow>
     (\<exists>s r rk x ck rk'. dh_priv S = Some s \<and> dh_pub_remote S = Some (dh_public C r) \<and> dh_priv R = Some r \<and>
        length s = 32 \<and> length r = 32 \<and> dh_exchange C s (dh_public C r) = Inr x \<and>
        hkdf_rk C rk x = (rk', ck) \<and> root_key R = Some rk \<and> root_key S = Some rk' \<and>
        send_chain_key S = Some ck \<and> dh_pub_remote R \<noteq> Some (dh_public C s)) \<and>
     send_msg_num S = 0 \<and> prev_send_chain_len S < 2 ^ 32 \<and> send_msg_num R < 2 ^ 32 \<and>
     skipped_keys S = [] \<and> skipped_keys R = [] \<and>
     (recv_chain_key R = None \<or> prev_send_chain_len S \<le> recv_msg_num R) \<and>
     (recv_chain_key S = None \<or> send_msg_num R \<le> recv_msg_num S)"

lemma aheadI:
  assumes "dh_priv S = Some s" "dh_pub_remote S = Some (dh_public C r)" "dh_priv R = Some r"
    and "length s = 32" "length r = 32" "dh_exchange C s (dh_public C r) = Inr x"
    and "hkdf_rk C rk x = (rk', ck)" "root_key R = Some rk" "root_key S = Some rk'"
    and "send_chain_key S = Some ck" "dh_pub_remote R \<noteq> Some (dh_public C s)"
    and "send_msg_num S = 0" "prev_send_chain_len S < 2 ^ 32" "send_msg_num R < 2 ^ 32"
    and "skipped_keys S = []" "skipped_keys R = []"
    and "recv_chain_key R = None \<or> prev_send_chain_len S \<le> recv_msg_num R"
    and "recv_chain_key S = None \<or> send_msg_num R \<le> recv_msg_num S"
  shows "ahead C S R"
  unfolding ahead_def using assms by blast

lemma skip_recv_chain_none:
  "recv_chain_key st = None \<or> until \<le> recv_msg_num st \<Longrightarrow> skip_recv_chain C pub until st = (Inr (), st)"
  by (auto simp: skip_recv_chain_def skip_until.simps)

context ratchet_laws
begin

lemma enter_chain_ahead:
  assumes "ahead C S R" and f: "length f = 32"
  obtains s r rk ck rk2 ck2 y where
    "dh_priv S = Some s" "send_chain_key S = Some ck" "root_key S = Some rk"
    "dh_exchange C f (dh_public C s) = Inr y" "hkdf_rk C rk y = (rk2, ck2)"
    "enter_chain C f (dh_public C s) (prev_send_chain_len S) R =
       (Inr (), R\<lparr>root_key := Some rk2, recv_chain_key := Some ck,
                  prev_send_chain_len := send_msg_num R, send_msg_num := 0, recv_msg_num := 0,
                  dh_priv := Some f, dh_pub_remote := Some (dh_public C s), send_chain_key := Some ck2\<rparr>)"
    "length s = 32" "length r = 32" "dh_pub_remote S = Some (dh_public C r)"
proof -
  obtain s r rk x ck rk' where a: "dh_priv S = Some s" "dh_pub_remote S = Some (dh_public C r)"
    "dh_priv R = Some r" "length s = 32" "length r = 32" "dh_exchange C s (dh_public C r) = Inr x"
    "hkdf_rk C rk x = (rk', ck)" "root_key R = Some rk" "root_key S = Some rk'"
    "send_chain_key S = Some ck" "dh_pub_remote R \<noteq> Some (dh_public C s)"
    "recv_chain_key R = None \<or> prev_send_chain_len S \<le> recv_msg_num R"
    using assms(1) by (auto simp: ahead_def)
  obtain y where y: "dh_exchange C f (dh_public C s) = Inr y" using dh_total [OF f a(4)] by blast
  obtain rk2 ck2 where k: "hkdf_rk C rk' y = (rk2, ck2)" by (cases "hkdf_rk C rk' y")
  have x: "dh_exchange C r (dh_public C s) = Inr x" using a(6) dh_sym [of r s] by simp
  have ne: "dh_public C s \<noteq> (case dh_pub_remote R of Some p \<Rightarrow> p | None \<Rightarrow> [])"
    using a(11) public_length [of s] by (auto split: option.splits)
  have "enter_chain C f (dh_public C s) (prev_send_chain_len S) R =
       (Inr (), R\<lparr>root_key := Some rk2, recv_chain_key := Some ck,
                  prev_send_chain_len := send_msg_num R, send_msg_num := 0, recv_msg_num := 0,
                  dh_priv := Some f, dh_pub_remote := Some (dh_public C s), send_chain_key := Some ck2\<rparr>)"
    using ne a x y k by (simp add: enter_chain_def Let_def skip_recv_chain_none dh_ratchet_step_def)
  with a y k show thesis by (intro that)
qed

lemma turn:
  assumes S: "ahead C S R" and ms: "ms \<noteq> []" "messages_ok ms" "length ms < 2 ^ 32"
    and f: "length f = 32" "dh_pub_remote S \<noteq> Some (dh_public C f)"
  shows "\<exists>packets S' R'. encrypt_all C g ms S = (Inr packets, S') \<and>
    decrypt_all C f packets R = (Inr (map snd ms), R') \<and> ahead C R' S' \<and> dh_priv R' = Some f \<and>
    dh_pub_remote R' = (case dh_priv S of Some s \<Rightarrow> Some (dh_public C s) | None \<Rightarrow> None)"
proof -
  obtain s r rk ck rk2 ck2 y where e: "dh_priv S = Some s" "send_chain_key S = Some ck" "root_key S = Some rk"
    "dh_exchange C f (dh_public C s) = Inr y" "hkdf_rk C rk y = (rk2, ck2)"
    "enter_chain C f (dh_public C s) (prev_send_chain_len S) R =
       (Inr (), R\<lparr>root_key := Some rk2, recv_chain_key := Some ck,
                  prev_send_chain_len := send_msg_num R, send_msg_num := 0, recv_msg_num := 0,
                  dh_priv := Some f, dh_pub_remote := Some (dh_public C s), send_chain_key := Some ck2\<rparr>)"
    (is "_ = (_, ?R1)") "length s = 32" "length r = 32" "dh_pub_remote S = Some (dh_public C r)"
    by (rule enter_chain_ahead [OF S f(1)])
  have inv: "send_msg_num S = 0" "prev_send_chain_len S < 2 ^ 32" "send_msg_num R < 2 ^ 32"
      "skipped_keys S = []" "skipped_keys R = []" "recv_chain_key S = None \<or> send_msg_num R \<le> recv_msg_num S"
    using S by (auto simp: ahead_def)
  let ?S1 = "S\<lparr>send_chain_key := Some (chain_key C ck (length ms)), send_msg_num := length ms\<rparr>"
  have "sending C (dh_public C s) ck 0 S" using e inv by (simp add: sending_def)
  from encrypt_all_ok [OF this, of ms g] ms obtain packets where
    p: "encrypt_all C g ms S = (Inr packets, ?S1)" "length packets = length ms"
      "\<forall>i < length ms. chain_packet C (dh_public C s) ck (prev_send_chain_len S) (0 + i) (snd (ms ! i)) (packets ! i)"
    by auto
  let ?R2 = "?R1\<lparr>recv_chain_key := Some (chain_key C ck (0 + length ms)), recv_msg_num := 0 + length ms\<rparr>"
  have run: "decrypt_all C f packets ?R1 = (Inr (map snd ms), ?R2)"
    by (rule receive_in_order [OF _ _ _ _ p(2,3)]) (simp_all add: inv)
  obtain h c ps where ps: "packets = (h, c) # ps" using p(2) ms(1) by (cases packets) auto
  have pk: "chain_packet C (dh_public C s) ck (prev_send_chain_len S) 0 (snd (ms ! 0)) (h, c)"
    using p(3) ms(1) ps by (cases ms) auto
  have "ratchet_decrypt C f h c R = ratchet_decrypt C f h c ?R1"
    using decrypt_packet [OF pk, of f R] decrypt_packet [OF pk, of f ?R1] e(6)
    by (simp add: enter_chain_def)
  then have dec: "decrypt_all C f packets R = (Inr (map snd ms), ?R2)"
    using run by (simp add: ps)
  have "ahead C ?R2 ?S1"
    by (rule aheadI [where s = f and r = s and x = y and rk = rk and rk' = rk2 and ck = ck2])
      (use e f inv ms(3) in \<open>simp_all\<close>)
  moreover have "dh_pub_remote ?R2 = (case dh_priv S of Some s \<Rightarrow> Some (dh_public C s) | None \<Rightarrow> None)"
    using e(1) by simp
  moreover have "dh_priv ?R2 = Some f" by simp
  ultimately show ?thesis using p(1) dec by blast
qed

end

text \<open>
  A conversation in turns: the side whose turn it is sends some messages, the other side receives
  them, and the roles swap. A turn carries the private key the receiver generates at its next DH
  ratchet step; \<open>g\<close> is the key the responder generates for its first message.
\<close>

type_synonym turn = "bytes \<times> (bytes \<times> bytes) list"

fun converse :: "ratchet_crypto \<Rightarrow> bytes \<Rightarrow> turn list \<Rightarrow> ratchet_state \<Rightarrow> ratchet_state \<Rightarrow> bytes list list res" where
  "converse C g [] S R = Inr []"
| "converse C g ((f, ms) # ts) S R =
     (case encrypt_all C g ms S of
        (Inl e, _) \<Rightarrow> Inl e
      | (Inr packets, S') \<Rightarrow>
          (case decrypt_all C f packets R of
             (Inl e, _) \<Rightarrow> Inl e
           | (Inr plaintexts, R') \<Rightarrow>
               (case converse C g ts R' S' of Inl e \<Rightarrow> Inl e | Inr rest \<Rightarrow> Inr (plaintexts # rest))))"

definition turn_ok :: "turn \<Rightarrow> bool" where
  "turn_ok t \<longleftrightarrow> length (fst t) = 32 \<and> snd t \<noteq> [] \<and> messages_ok (snd t) \<and> length (snd t) < 2 ^ 32"

text \<open>The responder before its first message: no sending chain, and the root keys agree.\<close>

definition unopened :: "ratchet_crypto \<Rightarrow> ratchet_state \<Rightarrow> ratchet_state \<Rightarrow> bool" where
  "unopened C S R \<longleftrightarrow>
     (\<exists>r rk. dh_priv R = Some r \<and> length r = 32 \<and> dh_pub_remote S = Some (dh_public C r) \<and>
        root_key S = Some rk \<and> root_key R = Some rk) \<and>
     send_chain_key S = None \<and> recv_chain_key R = None \<and> send_msg_num S = 0 \<and>
     send_msg_num R < 2 ^ 32 \<and> send_msg_num R \<le> recv_msg_num S \<and>
     skipped_keys S = [] \<and> skipped_keys R = []"

context ratchet_laws
begin

lemma conversation_ahead:
  assumes "ahead C S R" and "dh_priv S = Some s" "dh_pub_remote S = Some q"
    and "list_all turn_ok ts" and "distinct (q # dh_public C s # map (dh_public C \<circ> fst) ts)"
  shows "converse C g ts S R = Inr (map (map snd \<circ> snd) ts)"
  using assms
proof (induction ts arbitrary: S R s q)
  case (Cons t ts)
  obtain f ms where t: "t = (f, ms)" by (cases t)
  have ok: "length f = 32" "ms \<noteq> []" "messages_ok ms" "length ms < 2 ^ 32" "dh_pub_remote S \<noteq> Some (dh_public C f)"
    using Cons.prems(3-5) t by (auto simp: turn_ok_def)
  obtain packets S' R' where st: "encrypt_all C g ms S = (Inr packets, S')"
    "decrypt_all C f packets R = (Inr (map snd ms), R')" "ahead C R' S'" "dh_priv R' = Some f"
    "dh_pub_remote R' = Some (dh_public C s)"
    using turn [OF Cons.prems(1) ok(2,3,4,1,5), of g] Cons.prems(2) by auto
  have "converse C g ts R' S' = Inr (map (map snd \<circ> snd) ts)"
    by (rule Cons.IH [OF st(3,4,5)]) (use Cons.prems(4,5) t in auto)
  with st(1,2) show ?case by (simp add: t)
qed simp

lemma open_chain_ahead:
  assumes "unopened C S R" and g: "length g = 32" "dh_pub_remote R \<noteq> Some (dh_public C g)"
  obtains S1 where "open_send_chain C g S = (Inr (), S1)" "ahead C S1 R" "dh_priv S1 = Some g"
    "dh_pub_remote S1 = dh_pub_remote S" "send_chain_key S1 \<noteq> None"
proof -
  obtain r rk where u: "dh_priv R = Some r" "length r = 32" "dh_pub_remote S = Some (dh_public C r)"
    "root_key S = Some rk" "root_key R = Some rk" "send_chain_key S = None" "recv_chain_key R = None"
    "send_msg_num S = 0" "send_msg_num R < 2 ^ 32" "send_msg_num R \<le> recv_msg_num S"
    "skipped_keys S = []" "skipped_keys R = []"
    using assms(1) by (auto simp: unopened_def)
  obtain x where x: "dh_exchange C g (dh_public C r) = Inr x" using dh_total [OF g(1) u(2)] by blast
  obtain rk1 ck where k: "hkdf_rk C rk x = (rk1, ck)" by (cases "hkdf_rk C rk x")
  let ?S1 = "S\<lparr>dh_priv := Some g, root_key := Some rk1, send_chain_key := Some ck,
               prev_send_chain_len := 0, send_msg_num := 0\<rparr>"
  have "open_send_chain C g S = (Inr (), ?S1)"
    using u x k by (simp add: open_send_chain_def)
  moreover have "ahead C ?S1 R"
    by (rule aheadI [where s = g and r = r and x = x and rk = rk and rk' = rk1 and ck = ck])
      (use u x k g in \<open>simp_all\<close>)
  ultimately show thesis by (intro that [of ?S1]) simp_all
qed

lemma conversation_unopened:
  assumes u: "unopened C S R" and g: "length g = 32" and q: "dh_pub_remote S = Some q" "dh_pub_remote R = Some p"
    and ok: "list_all turn_ok ts"
    and fresh: "distinct (p # q # dh_public C g # map (dh_public C \<circ> fst) ts)"
  shows "converse C g ts S R = Inr (map (map snd \<circ> snd) ts)"
proof (cases ts)
  case (Cons t us)
  obtain f n m ms where t: "t = (f, (n, m) # ms)"
    using ok Cons by (cases t; cases "snd t") (auto simp: turn_ok_def)
  have "dh_pub_remote R \<noteq> Some (dh_public C g)" using fresh q by auto
  then obtain S1 where o: "open_send_chain C g S = (Inr (), S1)" "ahead C S1 R" "dh_priv S1 = Some g"
    "dh_pub_remote S1 = dh_pub_remote S" "send_chain_key S1 \<noteq> None"
    by (rule open_chain_ahead [OF u g])
  have "ratchet_encrypt C g n m S = ratchet_encrypt C g n m S1"
    using o(1,5) by (auto simp: ratchet_encrypt_def open_send_chain_def split: option.splits)
  then have "converse C g ts S R = converse C g ts S1 R" by (simp add: Cons t)
  also have "\<dots> = Inr (map (map snd \<circ> snd) ts)"
    by (rule conversation_ahead [OF o(2,3)]) (use o(4) q ok fresh in auto)
  finally show ?thesis .
qed simp

end

context ratchet_laws
begin

lemma conversation_from_start:
  assumes len: "length a = 32" "length b = 32" "length g = 32"
    and ok: "list_all turn_ok ts"
    and fresh: "distinct (map (dh_public C) (b # a # g # map fst ts))"
  shows "\<exists>A B. initialize_as_alice C x (dh_public C b) secret (Some a) new_ratchet_state = (Inr (), A) \<and>
    initialize_as_bob C y (dh_public C a) secret (Some b) new_ratchet_state = (Inr (), B) \<and>
    converse C g ts A B = Inr (map (map snd \<circ> snd) ts)"
proof -
  obtain z where z: "dh_exchange C a (dh_public C b) = Inr z" "dh_exchange C b (dh_public C a) = Inr z"
    using dh_total [OF len(1,2)] dh_sym [of a b] by auto
  obtain rk ck where k: "hkdf_rk C secret z = (rk, ck)" by (cases "hkdf_rk C secret z")
  let ?A = "\<lparr>dh_priv = Some a, dh_pub_remote = Some (dh_public C b), root_key = Some rk,
      send_chain_key = Some ck, recv_chain_key = None, send_msg_num = 0, recv_msg_num = 0,
      prev_send_chain_len = 0, skipped_keys = [], skipped_key_order = []\<rparr>"
  let ?B = "\<lparr>dh_priv = Some b, dh_pub_remote = Some (dh_public C a), root_key = Some rk,
      send_chain_key = None, recv_chain_key = Some ck, send_msg_num = 0, recv_msg_num = 0,
      prev_send_chain_len = 0, skipped_keys = [], skipped_key_order = []\<rparr>"
  have init: "initialize_as_alice C x (dh_public C b) secret (Some a) new_ratchet_state = (Inr (), ?A)"
    "initialize_as_bob C y (dh_public C a) secret (Some b) new_ratchet_state = (Inr (), ?B)"
    by (simp_all add: initialize_as_alice_def initialize_as_bob_def new_ratchet_state_def z k)
  have "converse C g ts ?A ?B = Inr (map (map snd \<circ> snd) ts)"
  proof (cases ts)
    case (Cons t us)
    obtain f ms where t: "t = (f, ms)" by (cases t)
    have ms: "messages_ok ms" "length ms < 2 ^ 32" using ok Cons t by (auto simp: turn_ok_def)
    have "sending C (dh_public C a) ck 0 ?A" by (simp add: sending_def)
    from encrypt_all_ok [OF this, of ms g] ms obtain packets where
      p: "encrypt_all C g ms ?A = (Inr packets, ?A\<lparr>send_chain_key := Some (chain_key C ck (length ms)), send_msg_num := length ms\<rparr>)"
        (is "_ = (_, ?A1)")
        "length packets = length ms"
        "\<forall>i < length ms. chain_packet C (dh_public C a) ck 0 (0 + i) (snd (ms ! i)) (packets ! i)"
      by auto
    let ?B1 = "?B\<lparr>recv_chain_key := Some (chain_key C ck (0 + length ms)), recv_msg_num := 0 + length ms\<rparr>"
    have r: "decrypt_all C f packets ?B = (Inr (map snd ms), ?B1)"
      by (rule receive_in_order [OF _ _ _ _ p(2,3)]) simp_all
    have u: "unopened C ?B1 ?A1"
      using len ms by (simp add: unopened_def)
    have rest: "converse C g us ?B1 ?A1 = Inr (map (map snd \<circ> snd) us)"
      by (rule conversation_unopened [OF u len(3)]) (use ok fresh Cons t in auto)
    show ?thesis using p(1) r rest by (simp add: Cons t)
  qed simp
  with init show ?thesis by blast
qed

lemma out_of_order:
  assumes S: "sending C pub ck 0 A" and R: "receiving C pub ck (length ms) {} B" "recv_msg_num B = 0"
    and ms: "messages_ok ms" and order: "distinct is" "set is \<subseteq> {..<length ms}"
  shows "\<exists>packets A' B'. encrypt_all C f ms A = (Inr packets, A') \<and>
    decrypt_all C g (map ((!) packets) is) B = (Inr (map (\<lambda>i. snd (ms ! i)) is), B') \<and>
    receiving C pub ck (length ms) (set is) B'"
proof -
  have "0 + length ms \<le> 2 ^ 32" using R by (simp add: receiving_def MAX_SKIPPED_KEYS_def)
  from encrypt_all_ok [OF S this ms, of f] obtain packets where
    p: "encrypt_all C f ms A = (Inr packets, A\<lparr>send_chain_key := Some (chain_key C ck (length ms)), send_msg_num := length ms\<rparr>)"
      "\<forall>i < length ms. chain_packet C pub ck (prev_send_chain_len A) i (snd (ms ! i)) (packets ! i)"
    by auto
  have "\<And>i. i < length ms \<Longrightarrow> chain_packet C pub ck (prev_send_chain_len A) i (map snd ms ! i) (packets ! i)"
    using p(2) by simp
  from receive_all [OF R(1) order _ this, of g] obtain B' where
    d: "decrypt_all C g (map ((!) packets) is) B = (Inr (map ((!) (map snd ms)) is), B')"
      "receiving C pub ck (length ms) (set is) B'" by auto
  have "map ((!) (map snd ms)) is = map (\<lambda>i. snd (ms ! i)) is" using order(2) by auto
  with p(1) d show ?thesis by auto
qed

end

section \<open>A reference instance of the library functions\<close>

text \<open>Functions with the laws above, for the examples: none of them is secure.\<close>

definition ref_hash :: "bytes \<Rightarrow> byte" where
  "ref_hash bs = foldl (\<lambda>acc b. acc * 3 + b) 7 bs"

definition ref_crypto :: ratchet_crypto where
  "ref_crypto =
     \<lparr>dh_public = (\<lambda>a. take 32 (a @ replicate 32 0)),
      dh_exchange = (\<lambda>a p. Inr (map2 (+) (take 32 (a @ replicate 32 0)) p)),
      hkdf64 = (\<lambda>salt ikm. replicate 32 (ref_hash (salt @ ikm)) @ replicate 32 (ref_hash (ikm @ salt) + 1)),
      hmac_sha256 = (\<lambda>k m. replicate 32 (ref_hash (m @ k))),
      chacha_enc = ref_enc 12, chacha_dec = ref_dec 12\<rparr>"

lemma ref_ratchet_laws: "ratchet_laws ref_crypto"
proof (rule ratchet_laws.intro)
  fix a b :: bytes
  show "dh_exchange ref_crypto a (dh_public ref_crypto b) = dh_exchange ref_crypto b (dh_public ref_crypto a)"
    by (simp add: ref_crypto_def, subst zip_commute) (simp add: add.commute case_prod_beta')
qed (simp_all add: ref_crypto_def ref_aead)

interpretation ref_ratchet: ratchet_laws ref_crypto
  by (rule ref_ratchet_laws)

section \<open>Properties\<close>

text \<open>C2. Two sides initialised with one shared secret and each other's public key understand each
  other for ever: whatever the turns of the conversation, every message of every turn decrypts to
  its plaintext on the other side, across all DH ratchet steps. (The keys generated on the way have
  different public keys; a turn has at least one message.)\<close>

theorem double_ratchet_conversation:
  assumes "ratchet_laws C" and "length a = 32" "length b = 32" "length g = 32"
    and "list_all turn_ok ts" and "distinct (map (dh_public C) (b # a # g # map fst ts))"
  shows "\<exists>A B. initialize_as_alice C x (dh_public C b) secret (Some a) new_ratchet_state = (Inr (), A) \<and>
    initialize_as_bob C y (dh_public C a) secret (Some b) new_ratchet_state = (Inr (), B) \<and>
    converse C g ts A B = Inr (map (map snd \<circ> snd) ts)"
  by (rule ratchet_laws.conversation_from_start [OF assms])

theorem double_ratchet_conversation_witness:
  "\<exists>A B. initialize_as_alice ref_crypto [] (dh_public ref_crypto (replicate 32 2)) [9] (Some (replicate 32 1)) new_ratchet_state = (Inr (), A) \<and>
    initialize_as_bob ref_crypto [] (dh_public ref_crypto (replicate 32 1)) [9] (Some (replicate 32 2)) new_ratchet_state = (Inr (), B) \<and>
    converse ref_crypto (replicate 32 3)
      [(replicate 32 4, [(replicate 24 0, [65]), (replicate 24 1, [66])]),
       (replicate 32 5, [(replicate 24 2, [67])]), (replicate 32 6, [(replicate 24 3, [])])] A B
    = Inr [[[65], [66]], [[67]], [[]]]"
proof -
  let ?ts = "[(replicate 32 4, [(replicate 24 0, [65]), (replicate 24 1, [66])]),
       (replicate 32 5, [(replicate 24 2, [67])]), (replicate 32 6, [(replicate 24 3, [])])] :: turn list"
  have "list_all turn_ok ?ts" by (simp add: turn_ok_def messages_ok_def)
  moreover have "distinct (map (dh_public ref_crypto)
      (replicate 32 2 # replicate 32 1 # replicate 32 3 # map fst ?ts))"
    by code_simp
  ultimately show ?thesis
    using double_ratchet_conversation [OF ref_ratchet_laws, of "replicate 32 1" "replicate 32 2"
      "replicate 32 3" ?ts "[]" "[9]" "[]"]
    by simp
qed


text \<open>States at the start of a chain, for the examples.\<close>

definition ref_sender :: ratchet_state where
  "ref_sender = new_ratchet_state\<lparr>dh_priv := Some (replicate 32 1), send_chain_key := Some (replicate 32 7)\<rparr>"

definition ref_receiver :: ratchet_state where
  "ref_receiver = new_ratchet_state\<lparr>dh_priv := Some (replicate 32 2), root_key := Some (replicate 32 8),
     dh_pub_remote := Some (replicate 32 1), recv_chain_key := Some (replicate 32 7)\<rparr>"

lemma ref_sender_sending: "sending ref_crypto (replicate 32 1) (replicate 32 7) 0 ref_sender"
  by (simp add: sending_def ref_sender_def new_ratchet_state_def ref_crypto_def)

lemma ref_receiver_receiving:
  "n \<le> 1000 \<Longrightarrow> receiving ref_crypto (replicate 32 1) (replicate 32 7) n {} ref_receiver"
  by (simp add: receiving_def ref_receiver_def new_ratchet_state_def MAX_SKIPPED_KEYS_def)


text \<open>A packet that was already delivered costs the receiver a key: its second arrival is tried
  with the key of the next expected number, which is then gone and is not among the stored keys, so the
  genuine next packet can no longer be opened.\<close>

theorem ratchet_replay_burns_key:
  assumes "receiving C pub ck n S st" and "i \<in> S" and "chain_packet C pub ck prev i plaintext packet"
  shows "\<exists>st'. ratchet_decrypt C fresh (fst packet) (snd packet) st =
      (decrypt_with_key C (msg_key C ck (recv_msg_num st)) (snd packet) (fst packet), st') \<and>
    recv_msg_num st' = recv_msg_num st + 1 \<and>
    recv_chain_key st' = Some (chain_key C ck (recv_msg_num st + 1)) \<and>
    map_of (skipped_keys st') (pub, recv_msg_num st) = None"
proof -
  have "i < recv_msg_num st" "map_of (skipped_keys st) (pub, i) = None"
    using assms(1,2) by (auto simp: receiving_def)
  moreover have "ratchet_decrypt C fresh (fst packet) (snd packet) st =
      decrypt_in_chain C pub i (fst packet) (snd packet) st"
    using assms(1) by (simp add: decrypt_packet [OF assms(3)] enter_chain_def receiving_def)
  ultimately show ?thesis
    using assms(1) by (simp add: decrypt_in_chain_def skip_until.simps receiving_def)
qed

text \<open>The first packet of the chain above, and the receiver once it was delivered.\<close>

definition ref_packet :: "bytes \<times> bytes" where
  "ref_packet = (case fst (ratchet_encrypt ref_crypto [] (replicate 24 0) [65] ref_sender) of Inr p \<Rightarrow> p | Inl _ \<Rightarrow> ([], []))"

lemma ref_packet_chain:
  "chain_packet ref_crypto (replicate 32 1) (replicate 32 7) 0 0 [65] ref_packet"
  using ref_ratchet.encrypt_one [OF ref_sender_sending, of "replicate 24 0" "[65]" "[]"]
  by (auto simp: ref_packet_def ref_sender_def new_ratchet_state_def)

definition ref_received :: ratchet_state where
  "ref_received = snd (ratchet_decrypt ref_crypto [] (fst ref_packet) (snd ref_packet) ref_receiver)"

lemma ref_received_receiving:
  "receiving ref_crypto (replicate 32 1) (replicate 32 7) 2 {0} ref_received"
proof -
  have "receiving ref_crypto (replicate 32 1) (replicate 32 7) 2 {} ref_receiver"
    by (rule ref_receiver_receiving) simp
  from receive_one [OF this _ _ ref_packet_chain, of "[]"] show ?thesis by (auto simp: ref_received_def)
qed

theorem ratchet_replay_burns_key_witness:
  "\<exists>st'. ratchet_decrypt ref_crypto [] (fst ref_packet) (snd ref_packet) ref_received =
      (decrypt_with_key ref_crypto (msg_key ref_crypto (replicate 32 7) (recv_msg_num ref_received))
         (snd ref_packet) (fst ref_packet), st') \<and>
    recv_msg_num st' = recv_msg_num ref_received + 1 \<and>
    recv_chain_key st' = Some (chain_key ref_crypto (replicate 32 7) (recv_msg_num ref_received + 1)) \<and>
    map_of (skipped_keys st') (replicate 32 1, recv_msg_num ref_received) = None"
  by (rule ratchet_replay_burns_key [OF ref_received_receiving _ ref_packet_chain]) simp

subsection \<open>The store of skipped keys\<close>

lemma length_update_le: "length (AList.update k v xs) \<le> length xs + 1"
  by (induction xs) auto

lemma store_grows:
  "store_skipped_key key mk st = (r, st') \<Longrightarrow> length (skipped_keys st') \<le> length (skipped_keys st) + 1"
  using length_update_le [of key mk "skipped_keys st"]
    length_update_le [of key mk "AList.delete (hd (skipped_key_order st)) (skipped_keys st)"]
    length_delete_le [of "hd (skipped_key_order st)" "skipped_keys st"]
  by (auto simp: store_skipped_key_def Let_def split: if_splits list.splits)

lemma skip_until_grows:
  "skip_until C pub until st = (r, st') \<Longrightarrow>
   length (skipped_keys st') \<le> length (skipped_keys st) + (until - recv_msg_num st)"
proof (induction C pub until st arbitrary: r st' rule: skip_until.induct)
  case (1 C pub until st)
  show ?case
  proof (cases "recv_msg_num st < until \<and> recv_chain_key st \<noteq> None")
    case True
    then obtain ck where ck: "recv_chain_key st = Some ck" by auto
    obtain nck mk where k: "hkdf_ck C ck = (nck, mk)" by (cases "hkdf_ck C ck")
    obtain q st2 where q: "store_skipped_key (pub, recv_msg_num st) mk (st\<lparr>recv_chain_key := Some nck\<rparr>) = (q, st2)"
      by (cases "store_skipped_key (pub, recv_msg_num st) mk (st\<lparr>recv_chain_key := Some nck\<rparr>)")
    have g: "length (skipped_keys st2) \<le> length (skipped_keys st) + 1"
      using store_grows [OF q] by simp
    show ?thesis
    proof (cases q)
      case (Inl e)
      then show ?thesis using "1.prems" True ck k q g by (subst (asm) skip_until.simps) (auto simp: Let_def)
    next
      case (Inr u)
      then have "skip_until C pub until (st2\<lparr>recv_msg_num := recv_msg_num st + 1\<rparr>) = (r, st')"
        using "1.prems" True ck k q by (subst (asm) skip_until.simps) (simp add: Let_def)
      from "1.IH" [OF _ ck refl k [symmetric] refl q [symmetric] Inr this] True g show ?thesis
        by simp
    qed
  next
    case False
    then show ?thesis using "1.prems" by (subst (asm) skip_until.simps) (auto split: option.splits if_splits)
  qed
qed

lemma dh_ratchet_step_skipped:
  "skipped_keys (snd (dh_ratchet_step C fresh pub st)) = skipped_keys st"
  by (auto simp: dh_ratchet_step_def Let_def split: option.splits sum.splits prod.splits)

lemma skip_recv_chain_grows:
  "skip_recv_chain C pub until st = (r, st') \<Longrightarrow>
   length (skipped_keys st') \<le> length (skipped_keys st) + MAX_SKIP_DISTANCE"
  using skip_until_grows [of C pub until st r st']
  by (auto simp: skip_recv_chain_def split: if_splits)

lemma enter_chain_grows:
  "enter_chain C fresh pub prev st = (r, st') \<Longrightarrow>
   length (skipped_keys st') \<le> length (skipped_keys st) + MAX_SKIP_DISTANCE"
proof -
  assume e: "enter_chain C fresh pub prev st = (r, st')"
  let ?c = "case dh_pub_remote st of Some p \<Rightarrow> p | None \<Rightarrow> []"
  obtain q st1 where q: "skip_recv_chain C ?c prev st = (q, st1)" by (cases "skip_recv_chain C ?c prev st")
  have "skipped_keys st' = skipped_keys st1 \<or> skipped_keys st' = skipped_keys st"
    using e q dh_ratchet_step_skipped [of C fresh pub st1]
    by (cases q) (auto simp: enter_chain_def Let_def split: if_splits)
  then show ?thesis using skip_recv_chain_grows [OF q] by auto
qed

lemma decrypt_in_chain_grows:
  "decrypt_in_chain C pub i header ct st = (r, st') \<Longrightarrow>
   length (skipped_keys st') \<le> length (skipped_keys st) + MAX_SKIP_DISTANCE"
proof -
  assume d: "decrypt_in_chain C pub i header ct st = (r, st')"
  show ?thesis
  proof (cases "map_of (skipped_keys st) (pub, i)")
    case None
    obtain q st1 where q: "skip_until C pub i st = (q, st1)" by (cases "skip_until C pub i st")
    show ?thesis
      using d None skip_until_grows [OF q]
      by (cases q) (auto simp: decrypt_in_chain_def q Let_def split: if_splits option.splits prod.splits)
  next
    case (Some k)
    then show ?thesis
      using d length_delete_le [of "(pub, i)" "skipped_keys st"]
      by (auto simp: decrypt_in_chain_def intro: le_trans)
  qed
qed

text \<open>C20. One packet, whatever its header says, makes the receiver store at most twice the maximal
  skip distance of message keys: a thousand of the chain it leaves and a thousand of the chain
  it enters.\<close>

theorem decrypt_skip_bound:
  "length (skipped_keys (snd (ratchet_decrypt C fresh header ct st)))
   \<le> length (skipped_keys st) + 2 * MAX_SKIP_DISTANCE"
proof -
  obtain r st' where d: "ratchet_decrypt C fresh header ct st = (r, st')" by (cases "ratchet_decrypt C fresh header ct st")
  have "length (skipped_keys st') \<le> length (skipped_keys st) + 2 * MAX_SKIP_DISTANCE"
  proof (cases "st' = st")
    case False
    then obtain i prev where "and_then (enter_chain C fresh (slice 8 40 header) prev st)
        (\<lambda>_. decrypt_in_chain C (slice 8 40 header) i header ct) = (r, st')"
      using d by (auto simp: ratchet_decrypt_def Let_def split: if_splits sum.splits)
    moreover obtain q st1 where q: "enter_chain C fresh (slice 8 40 header) prev st = (q, st1)"
      by (cases "enter_chain C fresh (slice 8 40 header) prev st")
    ultimately show ?thesis
      using enter_chain_grows [OF q] decrypt_in_chain_grows [of C "slice 8 40 header" i header ct st1 r st']
      by (cases q) auto
  qed simp
  then show ?thesis by (simp add: d)
qed

text \<open>The cap on the number of stored keys is not a bound: a key that was used stays in the
  eviction queue, and when it is the oldest entry there, storing at the cap evicts nothing and the
  store grows past \<open>MAX_SKIPPED_KEYS\<close>.\<close>

theorem store_skipped_key_exceeds_cap:
  assumes "length (skipped_keys st) = MAX_SKIPPED_KEYS" and "skipped_key_order st = used # order"
    and "map_of (skipped_keys st) used = None" and "map_of (skipped_keys st) key = None"
  shows "\<exists>st'. store_skipped_key key mk st = (Inr (), st') \<and>
    length (skipped_keys st') = MAX_SKIPPED_KEYS + 1"
  using assms by (simp add: store_skipped_key_def update_absent delete_absent)

definition full_store :: ratchet_state where
  "full_store = new_ratchet_state\<lparr>skipped_keys := map (\<lambda>i. (([1], i), [])) [0..<1000], skipped_key_order := [([0], 0)]\<rparr>"

lemma full_store_absent: "map_of (skipped_keys full_store) ([0], i) = None"
  by (auto simp: full_store_def new_ratchet_state_def map_of_eq_None_iff)

theorem store_skipped_key_exceeds_cap_witness:
  "\<exists>st'. store_skipped_key ([0], 7) [] full_store = (Inr (), st') \<and> length (skipped_keys st') = MAX_SKIPPED_KEYS + 1"
  by (rule store_skipped_key_exceeds_cap [OF _ _ full_store_absent full_store_absent])
    (simp_all add: full_store_def MAX_SKIPPED_KEYS_def new_ratchet_state_def)

subsection \<open>A delayed packet of an earlier chain\<close>

text \<open>A delayed packet of an earlier chain, whose key is stored, is decrypted, but only after a
  DH ratchet step to the old public key of its header: the receiver gives up the receiving chain of
  the sender's current key and its own sending chain, and sits on a chain derived from the old key,
  which the sender, who has moved on, does not have.\<close>

theorem delayed_message_reratchets:
  assumes "ratchet_laws C" and "length p = 32" "length fresh = 32" "length old = 32"
    and "dh_pub_remote st = Some cur" "dh_public C old \<noteq> cur" "dh_priv st = Some p" "root_key st = Some rk"
    and "prev \<le> recv_msg_num st" "prev < 2 ^ 32" "i < 2 ^ 32"
    and "header = be_bytes 4 i @ be_bytes 4 prev @ dh_public C old"
    and "map_of (skipped_keys st) (dh_public C old, i) = Some mk"
    and "decrypt_with_key C mk ct header = Inr plaintext"
  shows "\<exists>st' x. ratchet_decrypt C fresh header ct st = (Inr plaintext, st') \<and>
    dh_exchange C p (dh_public C old) = Inr x \<and>
    recv_chain_key st' = Some (snd (hkdf_rk C rk x)) \<and> recv_msg_num st' = 0 \<and>
    dh_pub_remote st' = Some (dh_public C old) \<and> dh_priv st' = Some fresh \<and>
    send_msg_num st' = 0"
proof -
  have len: "length (dh_public C old) = 32" by (rule ratchet_laws.public_length [OF assms(1)])
  obtain x where x: "dh_exchange C p (dh_public C old) = Inr x"
    using ratchet_laws.dh_total [OF assms(1,2,4)] by blast
  obtain y where y: "dh_exchange C fresh (dh_public C old) = Inr y"
    using ratchet_laws.dh_total [OF assms(1,3,4)] by blast
  have f: "unpack_u32 (take 4 header) = Inr i" "unpack_u32 (slice 4 8 header) = Inr prev"
    "slice 8 40 header = dh_public C old" "\<not> length header < 40"
    using assms(10-12) len by (simp_all add: slice_def unpack_be_bytes)
  obtain rk1 ck1 where k1: "hkdf_rk C rk x = (rk1, ck1)" by (cases "hkdf_rk C rk x")
  obtain rk2 ck2 where k2: "hkdf_rk C rk1 y = (rk2, ck2)" by (cases "hkdf_rk C rk1 y")
  let ?st1 = "st\<lparr>root_key := Some rk2, recv_chain_key := Some ck1, prev_send_chain_len := send_msg_num st,
      send_msg_num := 0, recv_msg_num := 0, dh_priv := Some fresh, dh_pub_remote := Some (dh_public C old),
      send_chain_key := Some ck2\<rparr>"
  have "enter_chain C fresh (dh_public C old) prev st = (Inr (), ?st1)"
    using assms(5-9) x y k1 k2
    by (simp add: enter_chain_def skip_recv_chain_none dh_ratchet_step_def)
  then have "ratchet_decrypt C fresh header ct st = decrypt_in_chain C (dh_public C old) i header ct ?st1"
    using f by (simp add: ratchet_decrypt_def Let_def)
  then show ?thesis
    using assms(13,14) x k1 by (simp add: decrypt_in_chain_def)
qed

text \<open>A receiver that has moved on to a new chain and keeps the key of a packet of the old one.\<close>

definition ref_moved_on :: ratchet_state where
  "ref_moved_on = ref_receiver\<lparr>dh_pub_remote := Some (replicate 32 5),
     skipped_keys := [((replicate 32 1, 0), msg_key ref_crypto (replicate 32 7) 0)]\<rparr>"

theorem delayed_message_reratchets_witness:
  "\<exists>st' x. ratchet_decrypt ref_crypto (replicate 32 6) (fst ref_packet) (snd ref_packet) ref_moved_on = (Inr [65], st') \<and>
    dh_exchange ref_crypto (replicate 32 2) (dh_public ref_crypto (replicate 32 1)) = Inr x \<and>
    recv_chain_key st' = Some (snd (hkdf_rk ref_crypto (replicate 32 8) x)) \<and> recv_msg_num st' = 0 \<and>
    dh_pub_remote st' = Some (dh_public ref_crypto (replicate 32 1)) \<and> dh_priv st' = Some (replicate 32 6) \<and>
    send_msg_num st' = 0"
proof (rule delayed_message_reratchets [OF ref_ratchet_laws, where cur = "replicate 32 5" and prev = 0 and i = 0
    and mk = "msg_key ref_crypto (replicate 32 7) 0"])
  have pub: "dh_public ref_crypto (replicate 32 1) = replicate 32 1" by (simp add: ref_crypto_def)
  show "fst ref_packet = be_bytes 4 0 @ be_bytes 4 0 @ dh_public ref_crypto (replicate 32 1)"
    using ref_packet_chain unfolding chain_packet_def pub by blast
  show "decrypt_with_key ref_crypto (msg_key ref_crypto (replicate 32 7) 0) (snd ref_packet) (fst ref_packet) = Inr [65]"
    by (rule chain_packet_opens [OF ref_packet_chain])
  show "map_of (skipped_keys ref_moved_on) (dh_public ref_crypto (replicate 32 1), 0) =
      Some (msg_key ref_crypto (replicate 32 7) 0)"
    by (simp add: pub ref_moved_on_def)
  show "dh_public ref_crypto (replicate 32 1) \<noteq> replicate 32 5"
    by code_simp
qed (simp_all add: ref_moved_on_def ref_receiver_def new_ratchet_state_def)

end
