(* ===== verification/Text_Codec.thy ===== *)
theory Text_Codec
  imports Enigma_Prelude
begin

text \<open>
  The standard library's text encodings the program stores and exchanges keys in:
  \<^verbatim>\<open>bytes.hex\<close> and \<^verbatim>\<open>bytes.fromhex\<close>, decimal integers, and
  \<^verbatim>\<open>base64.b64encode\<close> and \<^verbatim>\<open>base64.b64decode\<close> in its default, lenient
  mode. The contract they share is the locale \<open>text_codec\<close>.
\<close>

locale text_codec =
  fixes encode :: "'a \<Rightarrow> 'b"
    and decode :: "'b \<Rightarrow> 'a res"
  assumes decode_encode: "decode (encode x) = Inr x"
begin

lemma encode_inject: "encode x = encode y \<longleftrightarrow> x = y"
  by (metis decode_encode sum.inject(2))

lemma map_decode_encode: "map_res decode (map encode xs) = Inr xs"
  by (induction xs) (simp_all add: decode_encode)

end

section \<open>Hexadecimal\<close>

definition hex_digit :: "nat \<Rightarrow> nat" where
  "hex_digit n = (if n < 10 then 48 + n else 87 + n)"

definition hex_value :: "nat \<Rightarrow> nat option" where
  "hex_value c =
     (if 48 \<le> c \<and> c \<le> 57 then Some (c - 48)
      else if 97 \<le> c \<and> c \<le> 102 then Some (c - 87)
      else if 65 \<le> c \<and> c \<le> 70 then Some (c - 55)
      else None)"

definition hex :: "bytes \<Rightarrow> ustr" where
  "hex bs = concat (map (\<lambda>b. [hex_digit (unat b div 16), hex_digit (unat b mod 16)]) bs)"

definition is_space :: "nat \<Rightarrow> bool" where
  "is_space c \<longleftrightarrow> c = 32 \<or> (9 \<le> c \<and> c \<le> 13)"

text \<open>White space between two bytes is skipped; anything else that is not a pair of digits raises
  \<^verbatim>\<open>ValueError\<close>.\<close>

fun fromhex :: "ustr \<Rightarrow> bytes res" where
  "fromhex [] = Inr []"
| "fromhex [c] = (if is_space c then Inr [] else Inl ValueError)"
| "fromhex (c # d # cs) =
     (if is_space c then fromhex (d # cs)
      else case (hex_value c, hex_value d) of
        (Some h, Some l) \<Rightarrow>
          (case fromhex cs of Inl e \<Rightarrow> Inl e | Inr bs \<Rightarrow> Inr (of_nat (16 * h + l) # bs))
      | _ \<Rightarrow> Inl ValueError)"

lemma hex_value_digit [simp]: "n < 16 \<Longrightarrow> hex_value (hex_digit n) = Some n"
  by (auto simp: hex_value_def hex_digit_def)

lemma hex_digit_not_space [simp]: "\<not> is_space (hex_digit n)"
  by (simp add: is_space_def hex_digit_def)

lemma fromhex_hex: "fromhex (hex bs) = Inr bs"
proof (induction bs)
  case (Cons b bs)
  have "unat b div 16 < 16" using unat_byte_less [of b] by (simp add: less_mult_imp_div_less)
  moreover have "of_nat (16 * (unat b div 16) + unat b mod 16) = b" by simp
  ultimately show ?case using Cons by (simp add: hex_def del: of_nat_add of_nat_mult)
qed (simp add: hex_def)

interpretation hex_codec: text_codec hex fromhex
  by unfold_locales (rule fromhex_hex)

lemma hex_range: "c \<in> set (hex bs) \<Longrightarrow> 48 \<le> c \<and> c < 103 \<and> c \<noteq> 58"
proof -
  have d: "48 \<le> hex_digit n \<and> hex_digit n < 103 \<and> hex_digit n \<noteq> 58" if "n < 16" for n
    using that by (auto simp: hex_digit_def)
  assume "c \<in> set (hex bs)"
  then have "\<exists>b :: byte. c = hex_digit (unat b div 16) \<or> c = hex_digit (unat b mod 16)"
    by (auto simp: hex_def)
  then obtain b :: byte where "c = hex_digit (unat b div 16) \<or> c = hex_digit (unat b mod 16)" ..
  moreover have "unat b div 16 < 16" using unat_byte_less [of b] by (simp add: less_mult_imp_div_less)
  ultimately show ?thesis using d [of "unat b div 16"] d [of "unat b mod 16"] by auto
qed

lemma hex_eq_Nil [simp]: "hex bs = [] \<longleftrightarrow> bs = []"
  by (cases bs) (auto simp: hex_def)

section \<open>Decimal integers\<close>

text \<open>
  \<^verbatim>\<open>str(n)\<close> of an integer that is not negative, and \<^verbatim>\<open>int(s)\<close> on the texts it
  writes; the other spellings \<^verbatim>\<open>int\<close> takes (signs, spaces, underscores, digits outside
  ASCII) do not occur in what the program writes and are refused here.
\<close>

fun dec :: "nat \<Rightarrow> ustr" where
  "dec n = (if n < 10 then [48 + n] else dec (n div 10) @ [48 + n mod 10])"

declare dec.simps [simp del]

definition is_digit :: "nat \<Rightarrow> bool" where
  "is_digit c \<longleftrightarrow> 48 \<le> c \<and> c \<le> 57"

definition parse_dec :: "ustr \<Rightarrow> nat res" where
  "parse_dec cs =
     (if cs \<noteq> [] \<and> list_all is_digit cs then Inr (foldl (\<lambda>n c. 10 * n + (c - 48)) 0 cs)
      else Inl ValueError)"

lemma dec_digits: "c \<in> set (dec n) \<Longrightarrow> is_digit c"
proof (induction n rule: dec.induct)
  case (1 n)
  then show ?case by (subst (asm) dec.simps) (auto simp: is_digit_def split: if_splits)
qed

lemma foldl_dec: "foldl (\<lambda>n c. 10 * n + (c - 48)) 0 (dec n) = n"
proof (induction n rule: dec.induct)
  case (1 n)
  then show ?case by (subst dec.simps) simp
qed

lemma parse_dec_dec: "parse_dec (dec n) = Inr n"
proof -
  have "dec n \<noteq> []" by (subst dec.simps) simp
  moreover have "list_all is_digit (dec n)" using dec_digits by (simp add: list_all_iff)
  ultimately show ?thesis by (simp add: parse_dec_def foldl_dec)
qed

interpretation dec_codec: text_codec dec parse_dec
  by unfold_locales (rule parse_dec_dec)

section \<open>Stripping and cutting off\<close>

text \<open>\<^verbatim>\<open>str.strip\<close>\<close>

definition str_space :: "nat \<Rightarrow> bool" where
  "str_space c \<longleftrightarrow> (9 \<le> c \<and> c \<le> 13) \<or> (28 \<le> c \<and> c \<le> 32) \<or> c = 0x85 \<or> c = 0xA0 \<or> c = 0x1680 \<or>
     (0x2000 \<le> c \<and> c \<le> 0x200A) \<or> c = 0x2028 \<or> c = 0x2029 \<or> c = 0x202F \<or> c = 0x205F \<or> c = 0x3000"

definition strip :: "ustr \<Rightarrow> ustr" where
  "strip s = rev (dropWhile str_space (rev (dropWhile str_space s)))"

lemma digit_no_space: "is_digit c \<Longrightarrow> \<not> str_space c"
  by (auto simp: is_digit_def str_space_def)

lemma strip_kept:
  assumes "s \<noteq> []" "\<not> str_space (hd s)" "\<not> str_space (last s)"
  shows "strip s = s"
proof -
  have d: "dropWhile str_space xs = xs" if "xs \<noteq> []" "\<not> str_space (hd xs)" for xs
    using that by (cases xs) auto
  show ?thesis using d [of s] d [of "rev s"] assms by (simp add: strip_def hd_rev)
qed

lemma strip_digits: "list_all is_digit s \<Longrightarrow> strip s = s"
  by (cases "s = []") (simp add: strip_def, auto simp: list_all_iff digit_no_space intro!: strip_kept)

text \<open>\<^verbatim>\<open>int(x)\<close> of a number cuts off the fraction.\<close>

definition trunc :: "rat \<Rightarrow> int" where
  "trunc t = (if t < 0 then \<lceil>t\<rceil> else \<lfloor>t\<rfloor>)"

section \<open>Splitting\<close>

text \<open>\<^verbatim>\<open>s.split(sep)\<close> for a separator of one character.\<close>

fun split_on :: "'a \<Rightarrow> 'a list \<Rightarrow> 'a list list" where
  "split_on sep [] = [[]]"
| "split_on sep (c # cs) =
     (if c = sep then [] # split_on sep cs
      else case split_on sep cs of [] \<Rightarrow> [[c]] | x # xs \<Rightarrow> (c # x) # xs)"

lemma split_on_absent: "sep \<notin> set xs \<Longrightarrow> split_on sep xs = [xs]"
  by (induction xs) auto

lemma split_on_append: "sep \<notin> set xs \<Longrightarrow> split_on sep (xs @ sep # ys) = xs # split_on sep ys"
  by (induction xs) auto

section \<open>Base64\<close>

definition b64_char :: "nat \<Rightarrow> nat" where
  "b64_char n =
     (if n < 26 then 65 + n else if n < 52 then 71 + n else if n < 62 then n - 4
      else if n = 62 then 43 else 47)"

definition b64_value :: "nat \<Rightarrow> nat option" where
  "b64_value c =
     (if 65 \<le> c \<and> c \<le> 90 then Some (c - 65)
      else if 97 \<le> c \<and> c \<le> 122 then Some (c - 71)
      else if 48 \<le> c \<and> c \<le> 57 then Some (c + 4)
      else if c = 43 then Some 62 else if c = 47 then Some 63 else None)"

fun b64_groups :: "nat list \<Rightarrow> ustr" where
  "b64_groups (x # y # z # rest) =
     [b64_char (x div 4), b64_char (x mod 4 * 16 + y div 16),
      b64_char (y mod 16 * 4 + z div 64), b64_char (z mod 64)] @ b64_groups rest"
| "b64_groups [x, y] =
     [b64_char (x div 4), b64_char (x mod 4 * 16 + y div 16), b64_char (y mod 16 * 4), 61]"
| "b64_groups [x] = [b64_char (x div 4), b64_char (x mod 4 * 16), 61, 61]"
| "b64_groups [] = []"

definition b64encode :: "bytes \<Rightarrow> ustr" where
  "b64encode bs = b64_groups (map unat bs)"

text \<open>
  The decoder's loop with its state: the position in the group of four, the bits left over, the
  padding signs seen since the last data character. Characters outside the alphabet are skipped; a
  padding sign that completes a group ends the input.
\<close>

fun a2b_base64 :: "nat \<Rightarrow> nat \<Rightarrow> nat \<Rightarrow> ustr \<Rightarrow> nat list res" where
  "a2b_base64 quad_pos leftchar pads [] = (if quad_pos \<noteq> 0 then Inl ValueError else Inr [])"
| "a2b_base64 quad_pos leftchar pads (c # cs) =
     (if c = 61 then
        (if quad_pos \<ge> 2 \<and> quad_pos + (pads + 1) \<ge> 4 then Inr []
         else a2b_base64 quad_pos leftchar (if quad_pos \<ge> 2 then pads + 1 else pads) cs)
      else case b64_value c of None \<Rightarrow> a2b_base64 quad_pos leftchar pads cs
        | Some v \<Rightarrow>
            (if quad_pos = 0 then a2b_base64 1 v 0 cs
             else if quad_pos = 1 then
               (case a2b_base64 2 (v mod 16) 0 cs of Inl e \<Rightarrow> Inl e
                | Inr bs \<Rightarrow> Inr ((leftchar * 4 + v div 16) # bs))
             else if quad_pos = 2 then
               (case a2b_base64 3 (v mod 4) 0 cs of Inl e \<Rightarrow> Inl e
                | Inr bs \<Rightarrow> Inr ((leftchar * 16 + v div 4) # bs))
             else
               (case a2b_base64 0 0 0 cs of Inl e \<Rightarrow> Inl e
                | Inr bs \<Rightarrow> Inr ((leftchar * 64 + v) # bs))))"

definition b64decode :: "ustr \<Rightarrow> bytes res" where
  "b64decode s =
     (if list_all (\<lambda>c. c < 128) s
      then (case a2b_base64 0 0 0 s of Inl e \<Rightarrow> Inl e | Inr ns \<Rightarrow> Inr (map of_nat ns))
      else Inl ValueError)"

lemma b64_value_char [simp]: "n < 64 \<Longrightarrow> b64_value (b64_char n) = Some n"
  by (auto simp: b64_value_def b64_char_def)

lemma b64_char_not_pad [simp]: "n < 64 \<Longrightarrow> b64_char n \<noteq> 61"
  by (auto simp: b64_char_def)

lemma b64_char_ascii [simp]: "n < 64 \<Longrightarrow> b64_char n < 128"
  by (auto simp: b64_char_def)

lemma six_bits:
  assumes "x < 256" "y < 256"
  shows "x div 4 < 64" and "x mod 4 * 16 + y div 16 < (64 :: nat)" and "x mod 16 * 4 + y div 64 < 64"
    and "(x mod 4 * 16 + y div 16) div 16 = x mod 4" and "(x mod 4 * 16 + y div 16) mod 16 = y div 16"
    and "(x mod 16 * 4 + y div 64) div 4 = x mod 16" and "(x mod 16 * 4 + y div 64) mod 4 = y div 64"
    and "y div 16 mod 16 = y div 16" and "x div 16 mod 16 = x div 16"
proof -
  have "y div 16 < 16" "x div 16 < 16" "y div 64 < 4" "x mod 4 < 4" "x mod 16 < 16"
    using assms by (simp_all add: less_mult_imp_div_less)
  then show "x div 4 < 64" "x mod 4 * 16 + y div 16 < 64" "x mod 16 * 4 + y div 64 < 64"
    "(x mod 4 * 16 + y div 16) div 16 = x mod 4" "(x mod 4 * 16 + y div 16) mod 16 = y div 16"
    "(x mod 16 * 4 + y div 64) div 4 = x mod 16" "(x mod 16 * 4 + y div 64) mod 4 = y div 64"
    "y div 16 mod 16 = y div 16" "x div 16 mod 16 = x div 16"
    using assms by (simp_all add: less_mult_imp_div_less)
qed

lemma b64_roundtrip_nat:
  "list_all (\<lambda>x. x < 256) xs \<Longrightarrow> a2b_base64 0 0 0 (b64_groups xs) = Inr xs"
proof (induction xs rule: b64_groups.induct)
  case (1 x y z rest)
  then show ?case using six_bits [of x y] six_bits [of y z] by simp
next
  case (2 x y)
  then show ?case using six_bits [of x y] six_bits [of y 0] by simp
next
  case (3 x)
  then show ?case using six_bits [of x 0] by simp
qed simp

lemma b64_groups_ascii: "list_all (\<lambda>x. x < 256) xs \<Longrightarrow> list_all (\<lambda>c. c < 128) (b64_groups xs)"
proof (induction xs rule: b64_groups.induct)
  case (1 x y z rest)
  then show ?case using six_bits [of x y] six_bits [of y z] by simp
next
  case (2 x y)
  then show ?case using six_bits [of x y] six_bits [of y 0] by simp
next
  case (3 x)
  then show ?case using six_bits [of x 0] by simp
qed simp

lemma b64_roundtrip: "b64decode (b64encode bs) = Inr bs"
proof -
  have "list_all (\<lambda>x. x < 256) (map unat bs)" by (simp add: list_all_iff)
  then show ?thesis
    by (simp add: b64decode_def b64encode_def b64_roundtrip_nat b64_groups_ascii comp_def)
qed

interpretation b64_codec: text_codec b64encode b64decode
  by unfold_locales (rule b64_roundtrip)

lemma b64decode_error: "b64decode s = Inl e \<Longrightarrow> e = ValueError"
proof -
  have "a2b_base64 q l p s = Inl e \<Longrightarrow> e = ValueError" for q l p e
    by (induction q l p s rule: a2b_base64.induct) (auto split: if_splits option.splits sum.splits)
  then show "b64decode s = Inl e \<Longrightarrow> e = ValueError"
    by (auto simp: b64decode_def split: if_splits sum.splits)
qed

lemma fromhex_error: "fromhex s = Inl e \<Longrightarrow> e = ValueError"
  by (induction s rule: fromhex.induct) (auto split: if_splits option.splits sum.splits)

end
