(* ===== verification/Ratchet_Codec.thy ===== *)
theory Ratchet_Codec
  imports Double_Ratchet Text_Codec
begin

text \<open>
  \<^verbatim>\<open>RatchetState.serialize\<close> and \<^verbatim>\<open>deserialize\<close>: the dictionary a ratchet state is
  stored as. Keys are hexadecimal text, a skipped key is stored under the text
  \<^verbatim>\<open><public key>:<number>\<close>.
\<close>

record ratchet_data =
  rd_root_key :: "ustr option"
  rd_send_chain_key :: "ustr option"
  rd_recv_chain_key :: "ustr option"
  rd_send_msg_num :: nat
  rd_recv_msg_num :: nat
  rd_prev_send_chain_len :: nat
  rd_dh_priv_bytes :: "ustr option"
  rd_dh_pub_remote_bytes :: "ustr option"
  rd_skipped_keys :: "(ustr \<times> ustr) list"

text \<open>An empty buffer is false.\<close>

definition hex_if_set :: "bytes option \<Rightarrow> ustr option" where
  "hex_if_set k = (case k of Some b \<Rightarrow> if b \<noteq> [] then Some (hex b) else None | None \<Rightarrow> None)"

definition ratchet_serialize :: "ratchet_state \<Rightarrow> ratchet_data" where
  "ratchet_serialize st =
     \<lparr>rd_root_key = hex_if_set (root_key st),
      rd_send_chain_key = hex_if_set (send_chain_key st),
      rd_recv_chain_key = hex_if_set (recv_chain_key st),
      rd_send_msg_num = send_msg_num st,
      rd_recv_msg_num = recv_msg_num st,
      rd_prev_send_chain_len = prev_send_chain_len st,
      rd_dh_priv_bytes = map_option hex (dh_priv st),
      rd_dh_pub_remote_bytes = map_option hex (dh_pub_remote st),
      rd_skipped_keys = map (\<lambda>(k, v). (hex (fst k) @ [58] @ dec (snd k), hex v)) (skipped_keys st)\<rparr>"

text \<open>\<^verbatim>\<open>GuardedBuffer(32)\<close> filled from text: too much data is refused, the rest of the
  buffer is zero.\<close>

definition read_buffer32 :: "ustr option \<Rightarrow> bytes option res" where
  "read_buffer32 t =
     (case t of None \<Rightarrow> Inr None
      | Some s \<Rightarrow>
          if s = [] then Inr None
          else case fromhex s of Inl e \<Rightarrow> Inl e
            | Inr b \<Rightarrow> if length b > 32 then Inl ValueError
                      else Inr (Some (b @ replicate (32 - length b) 0)))"

text \<open>The X25519 key constructors take exactly 32 bytes.\<close>

definition read_x25519 :: "ustr option \<Rightarrow> bytes option res" where
  "read_x25519 t =
     (case t of None \<Rightarrow> Inr None
      | Some s \<Rightarrow>
          if s = [] then Inr None
          else case fromhex s of Inl e \<Rightarrow> Inl e
            | Inr b \<Rightarrow> if length b \<noteq> 32 then Inl ValueError else Inr (Some b))"

definition read_skip_key :: "ustr \<Rightarrow> skip_key res" where
  "read_skip_key k =
     (case split_on 58 k of
        a # rest \<Rightarrow>
          (case fromhex a of Inl e \<Rightarrow> Inl e
           | Inr pub \<Rightarrow>
               (case rest of [] \<Rightarrow> Inl IndexError
                | b # _ \<Rightarrow> (case parse_dec b of Inl e \<Rightarrow> Inl e | Inr n \<Rightarrow> Inr (pub, n))))
      | [] \<Rightarrow> Inl IndexError)"

definition read_skipped :: "ustr \<times> ustr \<Rightarrow> (skip_key \<times> bytes) list \<Rightarrow> (skip_key \<times> bytes) list res" where
  "read_skipped kv acc =
     (case read_skip_key (fst kv) of Inl e \<Rightarrow> Inl e
      | Inr key \<Rightarrow> (case fromhex (snd kv) of Inl e \<Rightarrow> Inl e | Inr mk \<Rightarrow> Inr (AList.update key mk acc)))"

definition ratchet_deserialize :: "ratchet_data \<Rightarrow> ratchet_state res" where
  "ratchet_deserialize d =
     (case read_buffer32 (rd_root_key d) of Inl e \<Rightarrow> Inl e | Inr rk \<Rightarrow>
      case read_buffer32 (rd_send_chain_key d) of Inl e \<Rightarrow> Inl e | Inr sk \<Rightarrow>
      case read_buffer32 (rd_recv_chain_key d) of Inl e \<Rightarrow> Inl e | Inr ck \<Rightarrow>
      case read_x25519 (rd_dh_priv_bytes d) of Inl e \<Rightarrow> Inl e | Inr priv \<Rightarrow>
      case read_x25519 (rd_dh_pub_remote_bytes d) of Inl e \<Rightarrow> Inl e | Inr pub \<Rightarrow>
      case fold_res read_skipped (rd_skipped_keys d) [] of Inl e \<Rightarrow> Inl e | Inr skipped \<Rightarrow>
        Inr (new_ratchet_state
          \<lparr>root_key := rk, send_chain_key := sk, recv_chain_key := ck,
           send_msg_num := rd_send_msg_num d, recv_msg_num := rd_recv_msg_num d,
           prev_send_chain_len := rd_prev_send_chain_len d, dh_priv := priv, dh_pub_remote := pub,
           skipped_keys := skipped\<rparr>))"

section \<open>Round trip\<close>

definition state_ok :: "ratchet_state \<Rightarrow> bool" where
  "state_ok st \<longleftrightarrow>
     list_all (\<lambda>k. case k of Some b \<Rightarrow> length b = 32 | None \<Rightarrow> True)
       [root_key st, send_chain_key st, recv_chain_key st, dh_priv st, dh_pub_remote st] \<and>
     distinct (map fst (skipped_keys st))"

lemma read_buffer32_hex: "length b = 32 \<Longrightarrow> read_buffer32 (hex_if_set (Some b)) = Inr (Some b)"
  by (auto simp: read_buffer32_def hex_if_set_def fromhex_hex)

lemma read_x25519_hex: "length b = 32 \<Longrightarrow> read_x25519 (Some (hex b)) = Inr (Some b)"
  by (auto simp: read_x25519_def fromhex_hex)

lemma read_skip_key_write: "read_skip_key (hex pub @ [58] @ dec n) = Inr (pub, n)"
proof -
  have "58 \<notin> set (hex pub)" using hex_range [of 58 pub] by auto
  moreover have "58 \<notin> set (dec n)" using dec_digits [of 58 n] by (auto simp: is_digit_def)
  ultimately show ?thesis
    by (simp add: read_skip_key_def split_on_append split_on_absent fromhex_hex parse_dec_dec)
qed

lemma fold_read_skipped:
  "distinct (map fst (acc @ xs)) \<Longrightarrow>
   fold_res read_skipped (map (\<lambda>(k, v). (hex (fst k) @ [58] @ dec (snd k), hex v)) xs) acc = Inr (acc @ xs)"
proof (induction xs arbitrary: acc)
  case (Cons x xs)
  obtain pub n mk where x: "x = ((pub, n), mk)" by (cases x) auto
  have absent: "map_of acc (pub, n) = None" using Cons.prems x by (auto simp: map_of_eq_None_iff)
  have "read_skipped (hex pub @ [58] @ dec n, hex mk) acc = Inr (acc @ [x])"
    by (simp add: read_skipped_def read_skip_key_write [simplified] fromhex_hex update_absent [OF absent] x)
  moreover have "distinct (map fst ((acc @ [x]) @ xs))" using Cons.prems by simp
  ultimately show ?case using Cons.IH [of "acc @ [x]"] by (simp add: x)
qed simp

lemma deserialize_serialize:
  assumes "state_ok st"
  shows "ratchet_deserialize (ratchet_serialize st) = Inr (st\<lparr>skipped_key_order := []\<rparr>)"
proof -
  have buf: "read_buffer32 (hex_if_set k) = Inr k" if "case k of Some b \<Rightarrow> length b = 32 | None \<Rightarrow> True" for k
    using that read_buffer32_hex by (cases k) (auto simp: hex_if_set_def read_buffer32_def)
  have x: "read_x25519 (map_option hex k) = Inr k" if "case k of Some b \<Rightarrow> length b = 32 | None \<Rightarrow> True" for k
    using that read_x25519_hex by (cases k) (auto simp: read_x25519_def)
  have "fold_res read_skipped (rd_skipped_keys (ratchet_serialize st)) [] = Inr (skipped_keys st)"
    using fold_read_skipped [of "[]" "skipped_keys st"] assms by (simp add: ratchet_serialize_def state_ok_def)
  then show ?thesis
    using assms buf x
    by (cases st) (simp add: ratchet_deserialize_def ratchet_serialize_def state_ok_def new_ratchet_state_def)
qed

text \<open>C21. Loading a stored ratchet state restores every key, counter and skipped message key, in
  their order, and nothing else changes but the eviction queue, which is not stored.\<close>

theorem ratchet_state_roundtrip:
  assumes "state_ok st"
  shows "ratchet_deserialize (ratchet_serialize st) = Inr (st\<lparr>skipped_key_order := []\<rparr>)"
  by (rule deserialize_serialize [OF assms])

definition ref_stored :: ratchet_state where
  "ref_stored = ref_receiver\<lparr>skipped_keys := [((replicate 32 1, 0), replicate 32 9), ((replicate 32 1, 12), [255])],
     skipped_key_order := [(replicate 32 1, 0), (replicate 32 1, 12)]\<rparr>"

lemma ref_stored_ok: "state_ok ref_stored"
  by (simp add: state_ok_def ref_stored_def ref_receiver_def new_ratchet_state_def)

theorem ratchet_state_roundtrip_witness:
  "ratchet_deserialize (ratchet_serialize ref_stored) = Inr (ref_stored\<lparr>skipped_key_order := []\<rparr>)"
  by (rule ratchet_state_roundtrip [OF ref_stored_ok])

text \<open>With the queue lost, a reloaded state whose store is full can skip no further message: the
  next store raises IndexError.\<close>

theorem reloaded_full_store_fails:
  assumes "state_ok st" and "length (skipped_keys st) \<ge> MAX_SKIPPED_KEYS"
  shows "\<exists>st'. ratchet_deserialize (ratchet_serialize st) = Inr st' \<and>
    store_skipped_key key mk st' = (Inl IndexError, st')"
  using deserialize_serialize [OF assms(1)] assms(2) by (simp add: store_skipped_key_def)

theorem reloaded_full_store_fails_witness:
  "\<exists>st'. ratchet_deserialize (ratchet_serialize full_store) = Inr st' \<and>
    store_skipped_key ([0], 7) [1] st' = (Inl IndexError, st')"
proof (rule reloaded_full_store_fails)
  show "state_ok full_store"
    by (simp add: state_ok_def full_store_def new_ratchet_state_def distinct_map comp_def inj_on_def)
  show "length (skipped_keys full_store) \<ge> MAX_SKIPPED_KEYS"
    by (simp add: full_store_def MAX_SKIPPED_KEYS_def)
qed

end
