(* ===== verification/Database.thy ===== *)
theory Database
  imports XChaCha Text_Codec
begin

text \<open>
  \<^verbatim>\<open>database.py\<close>: the tables, the encrypted secrets and the database key. A table is the list of
  its rows in the order SQLite returns them. \<^verbatim>\<open>INSERT OR REPLACE\<close> removes the row with the
  same primary key and appends the new one, a plain \<^verbatim>\<open>INSERT\<close> of an existing key is an
  integrity error. The contract of a table with a primary key is the locale \<open>keyed_table\<close>.

  Argon2id, PBKDF2 and AES-GCM are parameters. A JSON text that holds an encrypted secret is the
  dictionary it stands for.
\<close>

section \<open>Tables with a primary key\<close>

definition insert_or_replace :: "('r \<Rightarrow> 'k) \<Rightarrow> 'r \<Rightarrow> 'r list \<Rightarrow> 'r list" where
  "insert_or_replace key r rows = filter (\<lambda>x. key x \<noteq> key r) rows @ [r]"

definition select_key :: "('r \<Rightarrow> 'k) \<Rightarrow> 'k \<Rightarrow> 'r list \<Rightarrow> 'r option" where
  "select_key key k rows = find (\<lambda>x. key x = k) rows"

definition delete_key :: "('r \<Rightarrow> 'k) \<Rightarrow> 'k \<Rightarrow> 'r list \<Rightarrow> 'r list" where
  "delete_key key k rows = filter (\<lambda>x. key x \<noteq> k) rows"

locale keyed_table =
  fixes key :: "'r \<Rightarrow> 'k"
    and put :: "'r \<Rightarrow> 'r list \<Rightarrow> 'r list"
    and get :: "'k \<Rightarrow> 'r list \<Rightarrow> 'r option"
    and del :: "'k \<Rightarrow> 'r list \<Rightarrow> 'r list"
    and unique :: "'r list \<Rightarrow> bool"
  assumes get_put: "get k (put r rows) = (if k = key r then Some r else get k rows)"
    and get_del: "get k (del j rows) = (if k = j then None else get k rows)"
    and unique_put: "unique rows \<Longrightarrow> unique (put r rows)"
    and unique_del: "unique rows \<Longrightarrow> unique (del k rows)"
    and get_key: "get k rows = Some r \<Longrightarrow> key r = k \<and> r \<in> set rows"
    and get_unique: "unique rows \<Longrightarrow> r \<in> set rows \<Longrightarrow> get (key r) rows = Some r"
begin

text \<open>What a sequence of writes leaves under a key is the last row written there.\<close>

lemma get_fold_put:
  "get k (fold put rs rows) =
     (case find (\<lambda>r. key r = k) (rev rs) of Some r \<Rightarrow> Some r | None \<Rightarrow> get k rows)"
proof (induction rs arbitrary: rows)
  case (Cons r rs)
  have "find P (xs @ ys) = (case find P xs of Some x \<Rightarrow> Some x | None \<Rightarrow> find P ys)" for P :: "'r \<Rightarrow> bool" and xs ys
    by (induction xs) auto
  with Cons show ?case by (auto simp: get_put split: option.splits)
qed simp

lemma unique_fold_put: "unique rows \<Longrightarrow> unique (fold put rs rows)"
  by (induction rs arbitrary: rows) (simp_all add: unique_put)

lemma member_iff: "unique rows \<Longrightarrow> r \<in> set rows \<longleftrightarrow> get (key r) rows = Some r"
  using get_key get_unique by blast

end

lemma find_filter_other:
  "(\<And>x. P x \<Longrightarrow> Q x) \<Longrightarrow> find P (filter Q rows) = find P rows"
  by (induction rows) auto

lemma find_append: "find P (xs @ ys) = (case find P xs of Some x \<Rightarrow> Some x | None \<Rightarrow> find P ys)"
  by (induction xs) auto

lemma find_filter_none: "(\<And>x. P x \<Longrightarrow> \<not> Q x) \<Longrightarrow> find P (filter Q rows) = None"
  by (induction rows) auto

lemma find_unique: "distinct (map key rows) \<Longrightarrow> r \<in> set rows \<Longrightarrow> find (\<lambda>x. key x = key r) rows = Some r"
  by (induction rows) (auto simp: rev_image_eqI)

lemma table_laws:
  "keyed_table key (insert_or_replace key) (select_key key) (delete_key key) (\<lambda>rows. distinct (map key rows))"
proof
  fix k r rows
  show "select_key key k (insert_or_replace key r rows) = (if k = key r then Some r else select_key key k rows)"
  proof (cases "k = key r")
    case True
    then show ?thesis by (simp add: select_key_def insert_or_replace_def find_append find_filter_none)
  next
    case False
    then have "find (\<lambda>x. key x = k) (filter (\<lambda>x. key x \<noteq> key r) rows) = find (\<lambda>x. key x = k) rows"
      by (intro find_filter_other) auto
    with False show ?thesis
      by (simp add: select_key_def insert_or_replace_def find_append split: option.splits)
  qed
next
  fix k j rows
  show "select_key key k (delete_key key j rows) = (if k = j then None else select_key key k rows)"
    by (cases "k = j") (auto simp: select_key_def delete_key_def find_filter_none intro!: find_filter_other)
next
  fix k r rows
  show "select_key key k rows = Some r \<Longrightarrow> key r = k \<and> r \<in> set rows"
    by (auto simp: select_key_def find_Some_iff)
qed (auto simp: insert_or_replace_def delete_key_def select_key_def find_unique distinct_map
    inj_on_def)

section \<open>Errors\<close>

datatype sqlite_class = SqlIntegrity | SqlOperational | SqlDatabase | SqlOther

text \<open>\<^verbatim>\<open>"..." in msg\<close>\<close>

fun starts_with :: "'a list \<Rightarrow> 'a list \<Rightarrow> bool" where
  "starts_with [] s = True"
| "starts_with (p # ps) [] = False"
| "starts_with (p # ps) (c # cs) \<longleftrightarrow> p = c \<and> starts_with ps cs"

fun contains :: "'a list \<Rightarrow> 'a list \<Rightarrow> bool" where
  "contains p [] \<longleftrightarrow> p = []"
| "contains p (c # cs) \<longleftrightarrow> starts_with p (c # cs) \<or> contains p cs"

text \<open>The message is taken in lower case already.\<close>

definition classify_sqlite_error :: "sqlite_class \<Rightarrow> ustr \<Rightarrow> enigma_error" where
  "classify_sqlite_error exc msg =
     (case exc of
        SqlIntegrity \<Rightarrow> DatabaseIntegrityError
      | SqlOperational \<Rightarrow>
          if contains (ustr ''locked'') msg \<or> contains (ustr ''busy'') msg then DatabaseLockedError
          else if contains (ustr ''corrupt'') msg \<or> contains (ustr ''malformed'') msg
               \<or> contains (ustr ''not a database'') msg then DatabaseCorruptedError
          else DatabaseError
      | SqlDatabase \<Rightarrow>
          if contains (ustr ''corrupt'') msg \<or> contains (ustr ''malformed'') msg
          then DatabaseCorruptedError else DatabaseError
      | SqlOther \<Rightarrow> DatabaseError)"

section \<open>Encrypted secrets\<close>

record db_crypto =
  argon2id :: "bytes \<Rightarrow> bytes \<Rightarrow> bytes"
  pbkdf2 :: "bytes \<Rightarrow> bytes \<Rightarrow> bytes"
  aes_enc :: aead_op
  aes_dec :: aead_op

text \<open>The dictionary \<^verbatim>\<open>encrypt_secret\<close> returns; a legacy one has no \<^verbatim>\<open>kdf\<close> entry.\<close>

record enc_dict =
  enc_kdf :: "string option"
  enc_salt :: ustr
  enc_nonce :: ustr
  enc_ct :: ustr

definition derive_key_argon2id :: "db_crypto \<Rightarrow> bytes \<Rightarrow> bytes \<Rightarrow> bytes" where
  "derive_key_argon2id D password salt = argon2id D password salt"

definition encrypt_secret :: "db_crypto \<Rightarrow> bytes \<Rightarrow> bytes \<Rightarrow> bytes \<Rightarrow> bytes \<Rightarrow> enc_dict res" where
  "encrypt_secret D salt nonce plain_bytes password =
     (case aes_enc D (derive_key_argon2id D password salt) nonce plain_bytes [] of Inl e \<Rightarrow> Inl e
      | Inr ct \<Rightarrow>
          Inr \<lparr>enc_kdf = Some ''argon2id'', enc_salt = b64encode salt, enc_nonce = b64encode nonce,
               enc_ct = b64encode ct\<rparr>)"

definition decrypt_secret :: "db_crypto \<Rightarrow> enc_dict \<Rightarrow> bytes \<Rightarrow> bytes res" where
  "decrypt_secret D d password =
     (let kdf_type = (case enc_kdf d of Some k \<Rightarrow> k | None \<Rightarrow> ''pbkdf2'') in
      case b64decode (enc_salt d) of Inl e \<Rightarrow> Inl e | Inr salt \<Rightarrow>
      case b64decode (enc_nonce d) of Inl e \<Rightarrow> Inl e | Inr nonce \<Rightarrow>
      case b64decode (enc_ct d) of Inl e \<Rightarrow> Inl e | Inr ct \<Rightarrow>
        let key = (if kdf_type = ''argon2id'' then derive_key_argon2id D password salt
                   else pbkdf2 D password salt)
        in aes_dec D key nonce ct [])"

text \<open>What the program relies on: keys of 32 bytes and an authenticated cipher.\<close>

locale db_laws =
  fixes D :: db_crypto
  assumes argon_length: "length (argon2id D pw salt) = 32"
    and pbkdf2_length: "length (pbkdf2 D pw salt) = 32"
    and aes: "aead 12 (aes_enc D) (aes_dec D)"
begin

lemma encrypt_total:
  assumes "length nonce = 12" "length plain < 2 ^ 31"
  shows "\<exists>d. encrypt_secret D salt nonce plain pw = Inr d"
  using aead.enc_total [OF aes argon_length [of pw salt] assms, of "[]"]
  by (auto simp: encrypt_secret_def derive_key_argon2id_def)

lemma decrypt_encrypt: "encrypt_secret D salt nonce plain pw = Inr d \<Longrightarrow> decrypt_secret D d pw = Inr plain"
  by (auto simp: encrypt_secret_def decrypt_secret_def b64_roundtrip aead.dec_enc [OF aes]
      split: sum.splits)

lemma encrypt_kdf: "encrypt_secret D salt nonce plain pw = Inr d \<Longrightarrow> enc_kdf d = Some ''argon2id''"
  by (auto simp: encrypt_secret_def split: sum.splits)

end

section \<open>The tables\<close>

text \<open>A setting is plain text, the text of a number, the JSON of an encrypted secret, or the JSON of
  the lockout state (its two entries). The capabilities of a friend are a dictionary of flags.\<close>

datatype setting = Text ustr | Number rat | Secret enc_dict | LockoutData nat rat

type_synonym capabilities = "(ustr \<times> bool) list"

record friend_row =
  fr_name :: ustr
  fr_public_key_pem :: ustr
  fr_has_shared_secret :: bool
  fr_shared_secret_encrypted :: "enc_dict option"
  fr_x25519_public_key_b64 :: "ustr option"
  fr_ecdh_priv_encrypted :: "enc_dict option"
  fr_ratchet_state_json :: "ustr option"
  fr_capabilities_json :: "capabilities option"
  fr_pqc_combined_pub_b64 :: "ustr option"
  fr_hybrid_sig_pub_b64 :: "ustr option"

record cert_row =
  cr_cert_id :: ustr
  cr_subject_name :: ustr
  cr_subject_pub_b64 :: ustr
  cr_issuer_name :: ustr
  cr_issuer_pub_b64 :: ustr
  cr_cert_type :: ustr
  cr_not_before :: rat
  cr_not_after :: rat
  cr_signature_b64 :: ustr
  cr_revoked :: bool
  cr_revocation_reason :: ustr
  cr_received_from :: ustr
  cr_created_at :: rat

record recovery_row =
  rs_share_id :: ustr
  rs_owner_name :: ustr
  rs_share_index :: nat
  rs_total_shares :: nat
  rs_threshold :: nat
  rs_encrypted_share_b64 :: ustr
  rs_holder_name :: ustr
  rs_holder_pub_b64 :: ustr
  rs_created_at :: rat

record held_row =
  hs_share_id :: ustr
  hs_owner_name :: ustr
  hs_holder_name :: ustr
  hs_share_index :: nat
  hs_total_shares :: nat
  hs_threshold :: nat
  hs_plaintext_share_b64 :: ustr
  hs_created_at :: rat

record db =
  settings :: "(ustr \<times> setting) list"
  friends_tab :: "friend_row list"
  trust_certificates :: "cert_row list"
  recovery_shares :: "recovery_row list"
  held_shares :: "held_row list"

text \<open>The schema \<^verbatim>\<open>init_db\<close> creates, empty.\<close>

definition empty_db :: db where
  "empty_db = \<lparr>settings = [], friends_tab = [], trust_certificates = [], recovery_shares = [], held_shares = []\<rparr>"

interpretation settings_table:
  keyed_table fst "insert_or_replace fst" "select_key fst" "delete_key fst" "\<lambda>rows. distinct (map fst rows)"
  by (rule table_laws)

interpretation cert_table:
  keyed_table cr_cert_id "insert_or_replace cr_cert_id" "select_key cr_cert_id" "delete_key cr_cert_id"
    "\<lambda>rows. distinct (map cr_cert_id rows)"
  by (rule table_laws)

interpretation held_table:
  keyed_table hs_share_id "insert_or_replace hs_share_id" "select_key hs_share_id" "delete_key hs_share_id"
    "\<lambda>rows. distinct (map hs_share_id rows)"
  by (rule table_laws)

interpretation friend_table:
  keyed_table fr_name "insert_or_replace fr_name" "select_key fr_name" "delete_key fr_name"
    "\<lambda>rows. distinct (map fr_name rows)"
  by (rule table_laws)

definition get_setting :: "ustr \<Rightarrow> db \<Rightarrow> setting option" where
  "get_setting k d = map_option snd (select_key fst k (settings d))"

definition put_setting :: "ustr \<Rightarrow> setting \<Rightarrow> db \<Rightarrow> db" where
  "put_setting k v d = d\<lparr>settings := insert_or_replace fst (k, v) (settings d)\<rparr>"

definition update_setting :: "ustr \<Rightarrow> setting \<Rightarrow> db \<Rightarrow> db" where
  "update_setting k v d = d\<lparr>settings := map (\<lambda>x. if fst x = k then (k, v) else x) (settings d)\<rparr>"

definition delete_setting :: "ustr \<Rightarrow> db \<Rightarrow> db" where
  "delete_setting k d = d\<lparr>settings := delete_key fst k (settings d)\<rparr>"

lemma get_update_setting [simp]:
  "get_setting k (update_setting j v d) =
     (if k = j \<and> get_setting j d \<noteq> None then Some v else get_setting k d)"
proof -
  have "find (\<lambda>x. fst x = k) (map (\<lambda>x. if fst x = j then (j, v) else x) rows) =
      (if k = j then map_option (\<lambda>_. (j, v)) (find (\<lambda>x. fst x = k) rows) else find (\<lambda>x. fst x = k) rows)"
    for rows by (induction rows) auto
  then show ?thesis
    by (cases "find (\<lambda>x. fst x = j) (settings d)")
      (simp_all add: get_setting_def update_setting_def select_key_def)
qed

lemma get_delete_setting [simp]:
  "get_setting k (delete_setting j d) = (if k = j then None else get_setting k d)"
  by (simp add: get_setting_def delete_setting_def settings_table.get_del)

lemma setting_updates_tables [simp]:
  "friends_tab (put_setting k v d) = friends_tab d" "friends_tab (update_setting k v d) = friends_tab d"
  "friends_tab (delete_setting k d) = friends_tab d"
  "trust_certificates (put_setting k v d) = trust_certificates d"
  "trust_certificates (update_setting k v d) = trust_certificates d"
  "trust_certificates (delete_setting k d) = trust_certificates d"
  "held_shares (put_setting k v d) = held_shares d" "held_shares (update_setting k v d) = held_shares d"
  "held_shares (delete_setting k d) = held_shares d"
  by (simp_all add: put_setting_def update_setting_def delete_setting_def)

lemma get_setting_friends [simp]: "get_setting k (d\<lparr>friends_tab := f\<rparr>) = get_setting k d"
  by (simp add: get_setting_def)

lemma get_put_setting [simp]:
  "get_setting k (put_setting j v d) = (if k = j then Some v else get_setting k d)"
  by (simp add: get_setting_def put_setting_def settings_table.get_put)

subsection \<open>Certificates\<close>

definition save_trust_certificate :: "cert_row \<Rightarrow> db \<Rightarrow> db" where
  "save_trust_certificate c d = d\<lparr>trust_certificates := insert_or_replace cr_cert_id c (trust_certificates d)\<rparr>"

text \<open>A filter that is \<^verbatim>\<open>None\<close> or empty is no filter.\<close>

definition get_trust_certificates_for :: "ustr option \<Rightarrow> ustr option \<Rightarrow> db \<Rightarrow> cert_row list" where
  "get_trust_certificates_for issuer subject d =
     filter (\<lambda>c. (case issuer of Some n \<Rightarrow> n = [] \<or> cr_issuer_name c = n | None \<Rightarrow> True) \<and>
                 (case subject of Some n \<Rightarrow> n = [] \<or> cr_subject_name c = n | None \<Rightarrow> True))
       (trust_certificates d)"

definition get_revoked_cert_ids :: "db \<Rightarrow> ustr set" where
  "get_revoked_cert_ids d = set (map cr_cert_id (filter cr_revoked (trust_certificates d)))"

subsection \<open>Recovery shares\<close>

definition save_recovery_share :: "recovery_row \<Rightarrow> db \<Rightarrow> db res" where
  "save_recovery_share r d =
     (if rs_share_id r \<in> rs_share_id ` set (recovery_shares d) then Inl SqliteError
      else Inr (d\<lparr>recovery_shares := recovery_shares d @ [r]\<rparr>))"

definition get_recovery_shares_for :: "ustr \<Rightarrow> db \<Rightarrow> recovery_row list" where
  "get_recovery_shares_for owner d = filter (\<lambda>r. rs_owner_name r = owner) (recovery_shares d)"

definition delete_recovery_shares_for :: "ustr \<Rightarrow> db \<Rightarrow> db" where
  "delete_recovery_shares_for owner d =
     d\<lparr>recovery_shares := filter (\<lambda>r. rs_owner_name r \<noteq> owner) (recovery_shares d)\<rparr>"

definition save_held_share :: "held_row \<Rightarrow> db \<Rightarrow> db" where
  "save_held_share r d = d\<lparr>held_shares := insert_or_replace hs_share_id r (held_shares d)\<rparr>"

definition get_all_held_shares :: "db \<Rightarrow> held_row list" where
  "get_all_held_shares d = held_shares d"

definition delete_held_share :: "ustr \<Rightarrow> db \<Rightarrow> db" where
  "delete_held_share i d = d\<lparr>held_shares := delete_key hs_share_id i (held_shares d)\<rparr>"

text \<open>The invariant of the primary keys, which every writing operation keeps.\<close>

definition db_ok :: "db \<Rightarrow> bool" where
  "db_ok d \<longleftrightarrow>
     distinct (map fst (settings d)) \<and> distinct (map fr_name (friends_tab d)) \<and>
     distinct (map cr_cert_id (trust_certificates d)) \<and>
     distinct (map rs_share_id (recovery_shares d)) \<and> distinct (map hs_share_id (held_shares d))"

lemma db_ok_ops:
  "db_ok empty_db"
  "db_ok d \<Longrightarrow> db_ok (put_setting k v d)"
  "db_ok d \<Longrightarrow> db_ok (save_trust_certificate c d)"
  "db_ok d \<Longrightarrow> save_recovery_share r d = Inr d' \<Longrightarrow> db_ok d'"
  "db_ok d \<Longrightarrow> db_ok (delete_recovery_shares_for n d)"
  "db_ok d \<Longrightarrow> db_ok (save_held_share h d)"
  "db_ok d \<Longrightarrow> db_ok (delete_held_share i d)"
proof -
  show "db_ok empty_db" by (simp add: db_ok_def empty_db_def)
  show "db_ok d \<Longrightarrow> db_ok (put_setting k v d)"
    using settings_table.unique_put [of "settings d"] by (simp add: db_ok_def put_setting_def)
  show "db_ok d \<Longrightarrow> db_ok (save_trust_certificate c d)"
    using cert_table.unique_put [of "trust_certificates d"] by (simp add: db_ok_def save_trust_certificate_def)
  show "db_ok d \<Longrightarrow> save_recovery_share r d = Inr d' \<Longrightarrow> db_ok d'"
    by (auto simp: db_ok_def save_recovery_share_def split: if_splits)
  show "db_ok d \<Longrightarrow> db_ok (delete_recovery_shares_for n d)"
    by (auto simp: db_ok_def delete_recovery_shares_for_def distinct_map inj_on_def)
  show "db_ok d \<Longrightarrow> db_ok (save_held_share h d)"
    using held_table.unique_put [of "held_shares d"] by (simp add: db_ok_def save_held_share_def)
  show "db_ok d \<Longrightarrow> db_ok (delete_held_share i d)"
    using held_table.unique_del [of "held_shares d"] by (simp add: db_ok_def delete_held_share_def)
qed

section \<open>The database key\<close>

definition DB_KEY_SETTING_KEY :: ustr where "DB_KEY_SETTING_KEY = ustr ''sqlcipher_db_key''"

text \<open>
  The password of \<^verbatim>\<open>_derive_key_argon2id\<close>: with no master password set it is the text of
  \<^verbatim>\<open>None\<close>.
\<close>

definition master_bytes :: "bytes option \<Rightarrow> bytes" where
  "master_bytes master = (case master of Some pw \<Rightarrow> pw | None \<Rightarrow> map of_nat (ustr ''None''))"

text \<open>
  \<open>readable\<close> tells whether SQLite can read the file, \<open>has_table\<close> whether the settings table
  exists; \<open>fresh\<close> is the new key with the salt and the nonce of its encryption.
\<close>

definition derive_db_key ::
  "db_crypto \<Rightarrow> bytes \<times> bytes \<times> bytes \<Rightarrow> bytes option \<Rightarrow> bool \<Rightarrow> bool \<Rightarrow> db \<Rightarrow> bytes option res \<times> db" where
  "derive_db_key D fresh master readable has_table d =
     (if \<not> readable then
        (if master = None then (Inr None, d) else (Inl DatabaseConnectionError, d))
      else if \<not> has_table then (Inr None, d)
      else case get_setting DB_KEY_SETTING_KEY d of
        Some row \<Rightarrow>
          (case row of Secret e \<Rightarrow>
               (case b64decode (enc_salt e) of Inl _ \<Rightarrow> (Inl DatabaseConnectionError, d) | Inr salt \<Rightarrow>
                case b64decode (enc_nonce e) of Inl _ \<Rightarrow> (Inl DatabaseConnectionError, d) | Inr nonce \<Rightarrow>
                case b64decode (enc_ct e) of Inl _ \<Rightarrow> (Inl DatabaseConnectionError, d) | Inr ct \<Rightarrow>
                case aes_dec D (derive_key_argon2id D (master_bytes master) salt) nonce ct [] of
                  Inl _ \<Rightarrow> (Inl DatabaseConnectionError, d)
                | Inr key \<Rightarrow> (Inr (Some key), d))
           | _ \<Rightarrow> (Inl DatabaseConnectionError, d))
      | None \<Rightarrow>
          (case master of None \<Rightarrow> (Inr None, d)
           | Some pw \<Rightarrow>
               (case fresh of (new_db_key, salt, nonce) \<Rightarrow>
                  (case encrypt_secret D salt nonce new_db_key pw of Inl e \<Rightarrow> (Inl e, d)
                   | Inr enc \<Rightarrow> (Inr (Some new_db_key), put_setting DB_KEY_SETTING_KEY (Secret enc) d)))))"

section \<open>Migration of legacy secrets\<close>

definition migrate_one :: "db_crypto \<Rightarrow> bytes \<times> bytes \<Rightarrow> bytes \<Rightarrow> enc_dict \<Rightarrow> enc_dict res" where
  "migrate_one D rnd password e =
     (case decrypt_secret D e password of Inl err \<Rightarrow> Inl err
      | Inr plain \<Rightarrow> encrypt_secret D (fst rnd) (snd rnd) plain password)"

definition caught :: "enigma_error \<Rightarrow> bool" where
  "caught err \<longleftrightarrow> is_value_error err \<or> err = TypeError"

text \<open>One optional secret of a friend: migrated, kept when the failure is caught, or the exception.\<close>

definition migrate_field ::
  "db_crypto \<Rightarrow> (nat \<Rightarrow> bytes \<times> bytes) \<Rightarrow> bytes \<Rightarrow> enc_dict option \<Rightarrow> nat \<Rightarrow> (enc_dict option \<times> nat) res" where
  "migrate_field D rnd password f n =
     (case f of None \<Rightarrow> Inr (None, n)
      | Some e \<Rightarrow>
          if enc_kdf e = Some ''argon2id'' then Inr (Some e, n)
          else case migrate_one D (rnd n) password e of
            Inr e' \<Rightarrow> Inr (Some e', n + 1)
          | Inl err \<Rightarrow> if caught err then Inr (Some e, n) else Inl err)"

fun migrate_friends ::
  "db_crypto \<Rightarrow> (nat \<Rightarrow> bytes \<times> bytes) \<Rightarrow> bytes \<Rightarrow> friend_row list \<Rightarrow> nat \<Rightarrow> (friend_row list \<times> nat) res" where
  "migrate_friends D rnd password [] n = Inr ([], n)"
| "migrate_friends D rnd password (r # rs) n =
     (if fr_has_shared_secret r \<and> fr_shared_secret_encrypted r \<noteq> None then
        (case migrate_field D rnd password (fr_shared_secret_encrypted r) n of Inl e \<Rightarrow> Inl e
         | Inr (s, n1) \<Rightarrow>
           (case migrate_field D rnd password (fr_ecdh_priv_encrypted r) n1 of Inl e \<Rightarrow> Inl e
            | Inr (x, n2) \<Rightarrow>
              (case migrate_friends D rnd password rs n2 of Inl e \<Rightarrow> Inl e
               | Inr (rs', n') \<Rightarrow>
                   Inr (r\<lparr>fr_shared_secret_encrypted := s, fr_ecdh_priv_encrypted := x\<rparr> # rs', n'))))
      else case migrate_friends D rnd password rs n of Inl e \<Rightarrow> Inl e
        | Inr (rs', n') \<Rightarrow> Inr (r # rs', n'))"

text \<open>
  The transaction is committed at the end; an exception the function does not catch leaves the
  database as it was, one it catches on the global secret ends the migration.
\<close>

definition migrate_secrets_to_argon2id ::
  "db_crypto \<Rightarrow> (nat \<Rightarrow> bytes \<times> bytes) \<Rightarrow> bytes \<Rightarrow> db \<Rightarrow> nat res \<times> db" where
  "migrate_secrets_to_argon2id D rnd password d =
     (let global =
        (case get_setting (ustr ''global_secret'') d of
           Some (Secret e) \<Rightarrow>
             if enc_kdf e = Some ''argon2id'' then Inr (d, 0)
             else (case migrate_one D (rnd 0) password e of Inl err \<Rightarrow> Inl err
                   | Inr e' \<Rightarrow> Inr (put_setting (ustr ''global_secret'') (Secret e') d, 1))
         | Some (Text _) \<Rightarrow> Inl ValueError
         | Some (Number _) \<Rightarrow> Inl AttributeError
         | Some (LockoutData _ _) \<Rightarrow> Inl KeyError
         | None \<Rightarrow> Inr (d, 0))
      in case global of Inl err \<Rightarrow> if caught err then (Inr 0, d) else (Inl err, d)
         | Inr (d1, n) \<Rightarrow>
             (case migrate_friends D rnd password (friends_tab d1) n of
                Inl err \<Rightarrow> if caught err then (Inr n, d) else (Inl err, d)
              | Inr (rows, n') \<Rightarrow> (Inr n', d1\<lparr>friends_tab := rows\<rparr>)))"

subsection \<open>What migration keeps\<close>

text \<open>Two optional secrets that open to the same bytes under the password, where the first opens.\<close>

definition same_secret :: "db_crypto \<Rightarrow> bytes \<Rightarrow> enc_dict option \<Rightarrow> enc_dict option \<Rightarrow> bool" where
  "same_secret D pw a b \<longleftrightarrow>
     (case (a, b) of (None, None) \<Rightarrow> True
      | (Some x, Some y) \<Rightarrow> x = y \<or> (\<exists>p. decrypt_secret D x pw = Inr p \<and> decrypt_secret D y pw = Inr p)
      | _ \<Rightarrow> False)"

definition same_friend :: "db_crypto \<Rightarrow> bytes \<Rightarrow> friend_row \<Rightarrow> friend_row \<Rightarrow> bool" where
  "same_friend D pw r r' \<longleftrightarrow>
     same_secret D pw (fr_shared_secret_encrypted r) (fr_shared_secret_encrypted r') \<and>
     same_secret D pw (fr_ecdh_priv_encrypted r) (fr_ecdh_priv_encrypted r') \<and>
     r' = r\<lparr>fr_shared_secret_encrypted := fr_shared_secret_encrypted r',
           fr_ecdh_priv_encrypted := fr_ecdh_priv_encrypted r'\<rparr>"

lemma same_friend_refl: "same_friend D pw r r"
  by (auto simp: same_friend_def same_secret_def split: option.splits)

context db_laws
begin

lemma migrate_one_same:
  "migrate_one D rnd pw e = Inr e' \<Longrightarrow> \<exists>p. decrypt_secret D e pw = Inr p \<and> decrypt_secret D e' pw = Inr p"
  by (auto simp: migrate_one_def decrypt_encrypt split: sum.splits)

lemma migrate_field_same:
  "migrate_field D rnd pw f n = Inr (f', n') \<Longrightarrow> same_secret D pw f f'"
  by (auto simp: migrate_field_def same_secret_def dest: migrate_one_same
      split: option.splits sum.splits if_splits)

lemma migrate_friends_same:
  "migrate_friends D rnd pw rs n = Inr (rs', n') \<Longrightarrow> list_all2 (same_friend D pw) rs rs'"
proof (induction rs arbitrary: n rs' n')
  case (Cons r rs)
  show ?case
  proof (cases "fr_has_shared_secret r \<and> fr_shared_secret_encrypted r \<noteq> None")
    case True
    with Cons.prems obtain s n1 x n2 rs2 n3 where
      s: "migrate_field D rnd pw (fr_shared_secret_encrypted r) n = Inr (s, n1)"
      and x: "migrate_field D rnd pw (fr_ecdh_priv_encrypted r) n1 = Inr (x, n2)"
      and rs2: "migrate_friends D rnd pw rs n2 = Inr (rs2, n3)"
      and rs': "rs' = r\<lparr>fr_shared_secret_encrypted := s, fr_ecdh_priv_encrypted := x\<rparr> # rs2"
      by (auto split: sum.splits)
    have "same_friend D pw r (r\<lparr>fr_shared_secret_encrypted := s, fr_ecdh_priv_encrypted := x\<rparr>)"
      using migrate_field_same [OF s] migrate_field_same [OF x] by (simp add: same_friend_def)
    with Cons.IH [OF rs2] rs' show ?thesis by simp
  next
    case False
    with Cons show ?thesis by (auto simp: same_friend_refl split: sum.splits)
  qed
qed simp

end

section \<open>Properties\<close>

definition ref_db_crypto :: db_crypto where
  "ref_db_crypto =
     \<lparr>argon2id = (\<lambda>pw salt. take 32 (pw @ salt @ replicate 32 0)), pbkdf2 = (\<lambda>pw salt. take 32 (salt @ pw @ replicate 32 1)),
      aes_enc = ref_enc 12, aes_dec = ref_dec 12\<rparr>"

lemma ref_db_laws: "db_laws ref_db_crypto"
  by (rule db_laws.intro) (simp_all add: ref_db_crypto_def ref_aead)

interpretation ref_db: db_laws ref_db_crypto
  by (rule ref_db_laws)

text \<open>C14. The database key fails closed: when a wrapped key is stored and the file is readable, the
  database is never opened without a key. The key is the one AES-GCM authenticates under the master
  password, or the connection is refused; the stored settings do not change either way.\<close>

theorem db_key_fail_closed:
  assumes "get_setting DB_KEY_SETTING_KEY d = Some row"
  shows "case derive_db_key D fresh master True True d of
      (Inl e, d') \<Rightarrow> e = DatabaseConnectionError \<and> d' = d
    | (Inr None, d') \<Rightarrow> False
    | (Inr (Some key), d') \<Rightarrow> d' = d \<and>
        (\<exists>e salt nonce ct. row = Secret e \<and> b64decode (enc_salt e) = Inr salt \<and>
           b64decode (enc_nonce e) = Inr nonce \<and> b64decode (enc_ct e) = Inr ct \<and>
           aes_dec D (argon2id D (master_bytes master) salt) nonce ct [] = Inr key)"
  using assms
  by (auto simp: derive_db_key_def derive_key_argon2id_def split: setting.splits sum.splits option.splits)

theorem db_key_fail_closed_witness:
  "case derive_db_key ref_db_crypto ([], [], []) None True True (put_setting DB_KEY_SETTING_KEY (Text []) empty_db) of
      (Inl e, d') \<Rightarrow> e = DatabaseConnectionError \<and> d' = put_setting DB_KEY_SETTING_KEY (Text []) empty_db
    | (Inr None, d') \<Rightarrow> False
    | (Inr (Some key), d') \<Rightarrow> d' = put_setting DB_KEY_SETTING_KEY (Text []) empty_db \<and>
        (\<exists>e salt nonce ct. Text [] = Secret e \<and> b64decode (enc_salt e) = Inr salt \<and>
           b64decode (enc_nonce e) = Inr nonce \<and> b64decode (enc_ct e) = Inr ct \<and>
           aes_dec ref_db_crypto (argon2id ref_db_crypto (master_bytes None) salt) nonce ct [] = Inr key)"
  by (rule db_key_fail_closed) simp

text \<open>The database key is generated once: the first connection after a login stores a new
  random key under the master password, and every later connection with that password gets the same
  key back.\<close>

theorem db_key_stable:
  assumes "db_laws D" and "get_setting DB_KEY_SETTING_KEY d = None"
    and "length nonce = 12" "length key < 2 ^ 31"
  shows "\<exists>d'. derive_db_key D (key, salt, nonce) (Some pw) True True d = (Inr (Some key), d') \<and>
    derive_db_key D fresh (Some pw) True True d' = (Inr (Some key), d')"
proof -
  obtain e where e: "encrypt_secret D salt nonce key pw = Inr e"
    using db_laws.encrypt_total [OF assms(1,3,4)] by blast
  moreover from db_laws.decrypt_encrypt [OF assms(1) e] db_laws.encrypt_kdf [OF assms(1) e]
  have "derive_db_key D fresh (Some pw) True True (put_setting DB_KEY_SETTING_KEY (Secret e) d)
      = (Inr (Some key), put_setting DB_KEY_SETTING_KEY (Secret e) d)"
    by (auto simp: derive_db_key_def decrypt_secret_def master_bytes_def split: sum.splits)
  ultimately show ?thesis using assms(2) by (simp add: derive_db_key_def)
qed

theorem db_key_stable_witness:
  "\<exists>d'. derive_db_key ref_db_crypto ([1, 2, 3], [9], replicate 12 0) (Some [65]) True True empty_db = (Inr (Some [1, 2, 3]), d') \<and>
    derive_db_key ref_db_crypto ([4], [], []) (Some [65]) True True d' = (Inr (Some [1, 2, 3]), d')"
  by (rule db_key_stable [OF ref_db_laws]) (simp_all add: get_setting_def empty_db_def select_key_def)

text \<open>The migration to Argon2id loses no secret: whenever it returns, every friend's secrets open
  under the password to the bytes they opened to before, and no other column changes; an exception
  leaves the database untouched.\<close>

theorem migration_preserves_secrets:
  assumes "db_laws D"
  shows "case migrate_secrets_to_argon2id D rnd pw d of
      (Inl e, d') \<Rightarrow> d' = d
    | (Inr n, d') \<Rightarrow> list_all2 (same_friend D pw) (friends_tab d) (friends_tab d') \<and>
        trust_certificates d' = trust_certificates d \<and> held_shares d' = held_shares d"
proof -
  have refl: "list_all2 (same_friend D pw) rows rows" for rows
    by (simp add: list_all2_same same_friend_refl)
  show ?thesis
    using db_laws.migrate_friends_same [OF assms]
    by (auto simp: migrate_secrets_to_argon2id_def Let_def refl put_setting_def
        split: option.splits setting.splits sum.splits if_splits)
qed

definition legacy_friend :: friend_row where
  "legacy_friend = \<lparr>fr_name = ustr ''bob'', fr_public_key_pem = [], fr_has_shared_secret = True,
     fr_shared_secret_encrypted = Some \<lparr>enc_kdf = None, enc_salt = [], enc_nonce = [], enc_ct = []\<rparr>,
     fr_x25519_public_key_b64 = None, fr_ecdh_priv_encrypted = None, fr_ratchet_state_json = None,
     fr_capabilities_json = None, fr_pqc_combined_pub_b64 = None, fr_hybrid_sig_pub_b64 = None\<rparr>"

theorem migration_preserves_secrets_witness:
  "case migrate_secrets_to_argon2id ref_db_crypto (\<lambda>n. ([], replicate 12 0)) [65] (empty_db\<lparr>friends_tab := [legacy_friend]\<rparr>) of
      (Inl e, d') \<Rightarrow> d' = empty_db\<lparr>friends_tab := [legacy_friend]\<rparr>
    | (Inr n, d') \<Rightarrow> list_all2 (same_friend ref_db_crypto [65]) (friends_tab (empty_db\<lparr>friends_tab := [legacy_friend]\<rparr>)) (friends_tab d') \<and>
        trust_certificates d' = trust_certificates (empty_db\<lparr>friends_tab := [legacy_friend]\<rparr>) \<and>
        held_shares d' = held_shares (empty_db\<lparr>friends_tab := [legacy_friend]\<rparr>)"
  by (rule migration_preserves_secrets [OF ref_db_laws])

end
