(* ===== verification/State_Machine.thy ===== *)
theory State_Machine
  imports Enigma_Prelude
begin

text \<open>
  The contract of a component with a state: where it starts, what its operations may do, and an
  invariant. The states a component can be in are those its operations reach; what holds at the
  start and is kept by every step holds in all of them.
\<close>

inductive reachable :: "('s \<Rightarrow> bool) \<Rightarrow> ('s \<Rightarrow> 's \<Rightarrow> bool) \<Rightarrow> 's \<Rightarrow> bool"
  for init :: "'s \<Rightarrow> bool" and step :: "'s \<Rightarrow> 's \<Rightarrow> bool" where
  start: "init s \<Longrightarrow> reachable init step s"
| next_state: "reachable init step s \<Longrightarrow> step s t \<Longrightarrow> reachable init step t"

locale state_machine =
  fixes init :: "'s \<Rightarrow> bool"
    and step :: "'s \<Rightarrow> 's \<Rightarrow> bool"
    and invariant :: "'s \<Rightarrow> bool"
  assumes init_invariant: "init s \<Longrightarrow> invariant s"
    and step_invariant: "invariant s \<Longrightarrow> step s t \<Longrightarrow> invariant t"
begin

lemma reachable_invariant: "reachable init step s \<Longrightarrow> invariant s"
  by (induction rule: reachable.induct) (auto intro: init_invariant step_invariant)

lemma steps_invariant: "step\<^sup>*\<^sup>* s t \<Longrightarrow> invariant s \<Longrightarrow> invariant t"
  by (induction rule: rtranclp_induct) (auto intro: step_invariant)

end

end
