(* ===== verification/Lockout.thy ===== *)
theory Lockout
  imports Database State_Machine
begin

text \<open>
  Authentication attempts: \<^verbatim>\<open>security/lockout.py\<close>, \<^verbatim>\<open>KeyStore.verify_password\<close> and the
  second implementation of both in \<^verbatim>\<open>services/auth_manager.py\<close>. The current time is an
  argument; \<open>io_ok\<close> tells whether the database can be used (errors of SQLite are caught and the
  defaults are taken).
\<close>

definition BACKOFF_TABLE :: "nat list" where
  "BACKOFF_TABLE = [0, 0, 0, 0, 0, 5, 10, 30, 60, 120, 300, 600, 1800, 3600]"
definition HARD_LOCKOUT_THRESHOLD :: nat where "HARD_LOCKOUT_THRESHOLD = 15"
definition HARD_LOCKOUT_DURATION :: rat where "HARD_LOCKOUT_DURATION = 3600"

section \<open>The lockout state\<close>

record lockout =
  failed_attempts :: nat
  locked_until :: rat

definition lockout_key :: ustr where "lockout_key = ustr ''lockout_data''"

text \<open>\<^verbatim>\<open>_load_state\<close>: what cannot be read or is not the JSON that was written counts as
  no failures.\<close>

definition load_state :: "bool \<Rightarrow> db \<Rightarrow> lockout" where
  "load_state io_ok d =
     (if \<not> io_ok then \<lparr>failed_attempts = 0, locked_until = 0\<rparr>
      else case get_setting lockout_key d of
        Some (LockoutData n t) \<Rightarrow> \<lparr>failed_attempts = n, locked_until = t\<rparr>
      | _ \<Rightarrow> \<lparr>failed_attempts = 0, locked_until = 0\<rparr>)"

definition save_state :: "bool \<Rightarrow> lockout \<Rightarrow> db \<Rightarrow> db" where
  "save_state io_ok l d =
     (if io_ok then put_setting lockout_key (LockoutData (failed_attempts l) (locked_until l)) d else d)"

definition get_delay :: "rat \<Rightarrow> lockout \<Rightarrow> rat" where
  "get_delay now l =
     (if locked_until l > now then locked_until l - now
      else of_nat (BACKOFF_TABLE ! min (failed_attempts l) (length BACKOFF_TABLE - 1)))"

definition record_failure :: "bool \<Rightarrow> rat \<Rightarrow> lockout \<Rightarrow> db \<Rightarrow> lockout \<times> db" where
  "record_failure io_ok now l d =
     (let l1 = l\<lparr>failed_attempts := failed_attempts l + 1\<rparr>;
          l2 = (if failed_attempts l1 \<ge> HARD_LOCKOUT_THRESHOLD
                then l1\<lparr>locked_until := now + HARD_LOCKOUT_DURATION\<rparr> else l1)
      in (l2, save_state io_ok l2 d))"

definition reset :: "bool \<Rightarrow> lockout \<Rightarrow> db \<Rightarrow> lockout \<times> db" where
  "reset io_ok l d =
     (let l1 = l\<lparr>failed_attempts := 0, locked_until := 0\<rparr> in (l1, save_state io_ok l1 d))"

section \<open>Verifying a password\<close>

record auth =
  au_lockout :: lockout
  au_duress_mode :: bool
  au_db :: db

text \<open>Both verifiers; a setting that is not the JSON of a secret ends the loading.\<close>

definition load_verifiers :: "bool \<Rightarrow> db \<Rightarrow> enc_dict option \<times> enc_dict option" where
  "load_verifiers io_ok d =
     (if \<not> io_ok then (None, None)
      else let duress = (case get_setting (ustr ''duress_verifier'') d of Some (Secret e) \<Rightarrow> Some e | _ \<Rightarrow> None)
           in case get_setting (ustr ''global_secret'') d of
                Some (Secret e) \<Rightarrow> (Some e, duress)
              | Some _ \<Rightarrow> (None, None)
              | None \<Rightarrow> (None, duress))"

definition opens :: "db_crypto \<Rightarrow> bytes \<Rightarrow> enc_dict option \<Rightarrow> bool" where
  "opens D password v = (case v of None \<Rightarrow> False | Some e \<Rightarrow> is_ok (decrypt_secret D e password))"

text \<open>\<^verbatim>\<open>KeyStore.verify_password\<close>\<close>

definition verify_password :: "db_crypto \<Rightarrow> bool \<Rightarrow> rat \<Rightarrow> bytes \<Rightarrow> auth \<Rightarrow> bool res \<times> auth" where
  "verify_password D io_ok now password a =
     (let delay = get_delay now (au_lockout a) in
      if delay > 0 then (Inl (LockoutError delay (locked_until (au_lockout a))), a)
      else let (master_enc, duress_enc) = load_verifiers io_ok (au_db a);
               master_ok = opens D password master_enc;
               duress_ok = opens D password duress_enc
        in if master_ok then
             (let (l, d) = reset io_ok (au_lockout a) (au_db a) in
              (Inr True, \<lparr>au_lockout = l, au_duress_mode = False, au_db = d\<rparr>))
           else if duress_ok then
             (let (l, d) = reset io_ok (au_lockout a) (au_db a) in
              (Inr True, \<lparr>au_lockout = l, au_duress_mode = True, au_db = d\<rparr>))
           else
             (let (l, d) = record_failure io_ok now (au_lockout a) (au_db a) in
              (Inr False, a\<lparr>au_lockout := l, au_db := d\<rparr>)))"

text \<open>
  \<^verbatim>\<open>AuthManager.verify_password\<close>: it sleeps through the delay, so the rest runs at the later
  time. The result is (valid, duress) and the time at which the call returns.
\<close>

definition manager_verify_password ::
  "db_crypto \<Rightarrow> bool \<Rightarrow> rat \<Rightarrow> bytes \<Rightarrow> auth \<Rightarrow> (bool \<times> bool) \<times> rat \<times> auth" where
  "manager_verify_password D io_ok now password a =
     (let delay = get_delay now (au_lockout a);
          now = (if delay > 0 then now + delay else now);
          (master_enc, duress_enc) = load_verifiers io_ok (au_db a);
          master_ok = opens D password master_enc;
          duress_ok = opens D password duress_enc
      in if master_ok then
           (let (l, d) = reset io_ok (au_lockout a) (au_db a) in
            ((True, False), now, \<lparr>au_lockout = l, au_duress_mode = False, au_db = d\<rparr>))
         else if duress_ok then
           (let (l, d) = reset io_ok (au_lockout a) (au_db a) in
            ((True, True), now, \<lparr>au_lockout = l, au_duress_mode = True, au_db = d\<rparr>))
         else
           (let (l, d) = record_failure io_ok now (au_lockout a) (au_db a) in
            ((False, False), now, a\<lparr>au_lockout := l, au_db := d\<rparr>)))"

section \<open>Attempts as a state machine\<close>

text \<open>The program starts with the state it finds in the database of a new installation; a step is one
  attempt, at any time, with any password.\<close>

definition auth_init :: "auth \<Rightarrow> bool" where
  "auth_init a \<longleftrightarrow> au_lockout a = load_state True (au_db a) \<and> get_setting lockout_key (au_db a) = None"

inductive auth_step :: "db_crypto \<Rightarrow> auth \<Rightarrow> auth \<Rightarrow> bool" for D :: db_crypto where
  attempt: "verify_password D io_ok now password a = (r, a') \<Longrightarrow> auth_step D a a'"
| restart: "auth_step D a (a\<lparr>au_lockout := load_state io_ok (au_db a), au_duress_mode := False\<rparr>)"

inductive_cases auth_stepE: "auth_step D a a'"

definition auth_inv :: "auth \<Rightarrow> bool" where
  "auth_inv a \<longleftrightarrow>
     failed_attempts (au_lockout a) \<le> 5 \<and> locked_until (au_lockout a) = 0 \<and>
     (case get_setting lockout_key (au_db a) of
        Some (LockoutData n t) \<Rightarrow> n \<le> 5 \<and> t = 0 | _ \<Rightarrow> True)"

lemma get_save_state [simp]:
  "get_setting lockout_key (save_state io_ok l d) =
     (if io_ok then Some (LockoutData (failed_attempts l) (locked_until l)) else get_setting lockout_key d)"
  by (simp add: save_state_def)

lemma load_save_state: "load_state True (save_state True l d) = l"
  by (simp add: load_state_def)

lemma backoff_last: "length BACKOFF_TABLE - Suc 0 = 13"
  by (simp add: BACKOFF_TABLE_def)

lemma delay_positive:
  assumes "5 \<le> failed_attempts l"
  shows "get_delay now l > 0"
proof -
  have idx: "min (failed_attempts l) 13 \<in> {5, 6, 7, 8, 9, 10, 11, 12, 13}" using assms by auto
  have "BACKOFF_TABLE ! i > 0" if "i \<in> {5, 6, 7, 8, 9, 10, 11, 12, 13}" for i
    using that by (auto simp: BACKOFF_TABLE_def)
  from this [OF idx] show ?thesis by (simp add: get_delay_def backoff_last)
qed

lemma no_delay:
  assumes "failed_attempts l < 5" "locked_until l \<le> now"
  shows "get_delay now l = 0"
proof -
  have "failed_attempts l \<in> {0, 1, 2, 3, 4}" using assms(1) by auto
  then have "BACKOFF_TABLE ! failed_attempts l = 0" by (auto simp: BACKOFF_TABLE_def)
  moreover have "min (failed_attempts l) 13 = failed_attempts l" using assms(1) by simp
  ultimately show ?thesis using assms(2) by (simp add: get_delay_def backoff_last)
qed

lemma verify_password_inv:
  assumes "auth_inv a" and "verify_password D io_ok now password a = (r, a')"
  shows "auth_inv a'"
proof (cases "5 \<le> failed_attempts (au_lockout a)")
  case True
  then show ?thesis using assms delay_positive [OF True, of now] by (simp add: verify_password_def)
next
  case False
  then show ?thesis
    using assms
    by (auto simp: verify_password_def Let_def auth_inv_def reset_def record_failure_def
        HARD_LOCKOUT_THRESHOLD_def split: if_splits prod.splits)
qed

interpretation attempts: state_machine auth_init "auth_step D" auth_inv for D
proof
  fix a
  assume "auth_init a"
  then show "auth_inv a" by (simp add: auth_init_def auth_inv_def load_state_def)
next
  fix a a'
  assume "auth_inv a" "auth_step D a a'"
  then show "auth_inv a'"
    by (auto elim!: auth_stepE dest: verify_password_inv)
      (auto simp: auth_inv_def load_state_def split: option.splits setting.splits)
qed

section \<open>Properties\<close>


definition locked_out :: auth where
  "locked_out = \<lparr>au_lockout = \<lparr>failed_attempts = 5, locked_until = 0\<rparr>, au_duress_mode = False, au_db = empty_db\<rparr>"


text \<open>In every state the program reaches by attempts and restarts, at most five failures are
  recorded and no hard lockout is set: the threshold of fifteen and the longer delays of the table are
  never reached.\<close>

theorem hard_lockout_unreachable:
  assumes "reachable auth_init (auth_step D) a"
  shows "failed_attempts (au_lockout a) \<le> 5 \<and> locked_until (au_lockout a) = 0"
  using attempts.reachable_invariant [OF assms] by (simp add: auth_inv_def)

definition first_run :: auth where
  "first_run = \<lparr>au_lockout = \<lparr>failed_attempts = 0, locked_until = 0\<rparr>, au_duress_mode = False, au_db = empty_db\<rparr>"

lemma first_run_init: "auth_init first_run"
  by (simp add: auth_init_def first_run_def load_state_def get_setting_def select_key_def empty_db_def)

theorem hard_lockout_unreachable_witness:
  "failed_attempts (au_lockout (snd (verify_password ref_db_crypto True 7 [65] first_run))) \<le> 5 \<and>
   locked_until (au_lockout (snd (verify_password ref_db_crypto True 7 [65] first_run))) = 0"
proof (rule hard_lockout_unreachable)
  show "reachable auth_init (auth_step ref_db_crypto) (snd (verify_password ref_db_crypto True 7 [65] first_run))"
    by (rule next_state, rule start, rule first_run_init, rule attempt, rule surjective_pairing)
qed

text \<open>A password that opens neither verifier is refused and counted, also in the database.\<close>

lemma verify_password_refuses:
  assumes "failed_attempts (au_lockout a) < 5" "locked_until (au_lockout a) \<le> now"
    and "load_verifiers True (au_db a) = (m, r)" "\<not> opens D wrong m" "\<not> opens D wrong r"
  shows "\<exists>a'. verify_password D True now wrong a = (Inr False, a') \<and>
    failed_attempts (au_lockout a') = failed_attempts (au_lockout a) + 1 \<and>
    load_state True (au_db a') = au_lockout a'"
  using no_delay [OF assms(1,2)] assms(3-5) assms(1)
  by (simp add: verify_password_def record_failure_def load_save_state Let_def HARD_LOCKOUT_THRESHOLD_def)

text \<open>With fewer than five recorded failures the master password is accepted: the failures are
  forgotten, also in the database, and the session is a real one, whatever the duress password
  is.\<close>

theorem verify_password_accepts:
  assumes "db_laws D" and "failed_attempts (au_lockout a) < 5" "locked_until (au_lockout a) \<le> now"
    and "encrypt_secret D salt nonce secret password = Inr e"
    and "get_setting (ustr ''global_secret'') (au_db a) = Some (Secret e)"
  shows "\<exists>a'. verify_password D True now password a = (Inr True, a') \<and> \<not> au_duress_mode a' \<and>
    au_lockout a' = \<lparr>failed_attempts = 0, locked_until = 0\<rparr> \<and> load_state True (au_db a') = au_lockout a'"
  using no_delay [OF assms(2,3)] db_laws.decrypt_encrypt [OF assms(1,4)] assms(5)
  by (cases "au_lockout a")
    (simp add: verify_password_def load_verifiers_def opens_def reset_def load_save_state Let_def)

definition master_verifier :: enc_dict where
  "master_verifier = projr (encrypt_secret ref_db_crypto [1] (replicate 12 0) [42] [65])"

theorem verify_password_accepts_witness:
  "\<exists>a'. verify_password ref_db_crypto True 100 [65]
      (first_run\<lparr>au_lockout := \<lparr>failed_attempts = 3, locked_until = 0\<rparr>,
         au_db := put_setting (ustr ''global_secret'') (Secret master_verifier) empty_db\<rparr>) = (Inr True, a') \<and>
    \<not> au_duress_mode a' \<and> au_lockout a' = \<lparr>failed_attempts = 0, locked_until = 0\<rparr> \<and>
    load_state True (au_db a') = au_lockout a'"
proof (rule verify_password_accepts [OF ref_db_laws])
  show "encrypt_secret ref_db_crypto [1] (replicate 12 0) [42] [65] = Inr master_verifier"
    using ref_db.encrypt_total [of "replicate 12 0" "[42]" "[1]" "[65]"] by (auto simp: master_verifier_def)
qed simp_all

end
