(* ===== verification/Hybrid_Signer.thy ===== *)
theory Hybrid_Signer
  imports Enigma_Prelude
begin

text \<open>
  \<^verbatim>\<open>services/pqc_signatures.py\<close>: hybrid signatures. Ed25519 and Dilithium3 (or ML-DSA-65) come from
  libraries and are the fields of \<open>sig_crypto\<close>; a key is its raw bytes. The contract of a
  signature scheme is the locale \<open>signature_scheme\<close>; the hybrid scheme meets it when its two parts
  do.
\<close>

record sig_crypto =
  ed_public :: "bytes \<Rightarrow> bytes"
  ed_sign :: "bytes \<Rightarrow> bytes \<Rightarrow> bytes"
  ed_verify :: "bytes \<Rightarrow> bytes \<Rightarrow> bytes \<Rightarrow> bool"
  dil_sign :: "bytes \<Rightarrow> bytes \<Rightarrow> bytes res"
  dil_verify :: "bytes \<Rightarrow> bytes \<Rightarrow> bytes \<Rightarrow> bool res"
  oqs_available :: bool
  oqs_enabled :: "string list"
  oqs_probe :: "string \<Rightarrow> bool"

definition SIG_ALGORITHM_CANDIDATES :: "string list" where
  "SIG_ALGORITHM_CANDIDATES = [''Dilithium3'', ''ML-DSA-65'']"

text \<open>\<open>cached\<close> is the module variable \<^verbatim>\<open>SIG_ALGORITHM\<close>; the result is also its new value
  when an algorithm is found.\<close>

definition resolve_sig_algorithm :: "sig_crypto \<Rightarrow> string option \<Rightarrow> string option" where
  "resolve_sig_algorithm G cached =
     (case cached of Some a \<Rightarrow> Some a
      | None \<Rightarrow>
          if \<not> oqs_available G then None
          else case find (\<lambda>c. c \<in> set (oqs_enabled G)) SIG_ALGORITHM_CANDIDATES of
            Some a \<Rightarrow> Some a
          | None \<Rightarrow> find (oqs_probe G) SIG_ALGORITHM_CANDIDATES)"

definition sig_available :: "sig_crypto \<Rightarrow> bool" where
  "sig_available G \<longleftrightarrow> resolve_sig_algorithm G None \<noteq> None"

section \<open>The operations\<close>

definition combine_pub :: "bytes \<Rightarrow> bytes \<Rightarrow> bytes res" where
  "combine_pub ed_pub_bytes dil_pub_bytes =
     (case pack_u16 (length ed_pub_bytes) of Inl e \<Rightarrow> Inl e
      | Inr a \<Rightarrow> (case pack_u16 (length dil_pub_bytes) of Inl e \<Rightarrow> Inl e
                 | Inr b \<Rightarrow> Inr (a @ ed_pub_bytes @ b @ dil_pub_bytes)))"

record hybrid_keys =
  hk_ed_priv :: bytes
  hk_ed_pub_bytes :: bytes
  hk_dil_priv :: bytes
  hk_dil_pub_bytes :: bytes
  hk_combined_pub :: bytes

text \<open>\<open>ed_priv\<close> is the generated Ed25519 key, \<open>keypair\<close> what liboqs generates (public,
  secret); any exception of liboqs becomes \<^verbatim>\<open>RuntimeError\<close>.\<close>

definition generate_hybrid_keys :: "sig_crypto \<Rightarrow> bytes \<Rightarrow> (bytes \<times> bytes) res \<Rightarrow> hybrid_keys res" where
  "generate_hybrid_keys G ed_priv keypair =
     (if \<not> sig_available G then Inl RuntimeError
      else case keypair of Inl _ \<Rightarrow> Inl RuntimeError
        | Inr (dil_pub_bytes, dil_priv) \<Rightarrow>
            (case combine_pub (ed_public G ed_priv) dil_pub_bytes of Inl e \<Rightarrow> Inl e
             | Inr combined_pub \<Rightarrow>
                 Inr \<lparr>hk_ed_priv = ed_priv, hk_ed_pub_bytes = ed_public G ed_priv, hk_dil_priv = dil_priv,
                      hk_dil_pub_bytes = dil_pub_bytes, hk_combined_pub = combined_pub\<rparr>))"

definition hybrid_sign :: "sig_crypto \<Rightarrow> bytes \<Rightarrow> bytes \<Rightarrow> bytes \<Rightarrow> bytes res" where
  "hybrid_sign G message ed_priv dil_priv =
     (let ed_sig = ed_sign G ed_priv message in
      if \<not> sig_available G then Inl RuntimeError
      else case dil_sign G dil_priv message of Inl e \<Rightarrow> Inl e
        | Inr dil_sig \<Rightarrow>
            (case pack_u16 (length ed_sig) of Inl e \<Rightarrow> Inl e
             | Inr n \<Rightarrow> Inr (n @ ed_sig @ dil_sig)))"

definition hybrid_verify :: "sig_crypto \<Rightarrow> bytes \<Rightarrow> bytes \<Rightarrow> bytes \<Rightarrow> bytes \<Rightarrow> bool" where
  "hybrid_verify G message signature ed_pub dil_pub =
     (if length signature < 2 then False
      else case unpack_u16 (take 2 signature) of Inl _ \<Rightarrow> False
        | Inr ed_len \<Rightarrow>
            if length signature < 2 + ed_len then False
            else let ed_sig = slice 2 (2 + ed_len) signature; dil_sig = drop (2 + ed_len) signature in
              if dil_sig = [] then False
              else let ed_ok = ed_verify G ed_pub ed_sig message;
                       dil_ok = (if \<not> sig_available G then False
                                 else case dil_verify G message dil_sig dil_pub of
                                   Inl _ \<Rightarrow> False | Inr b \<Rightarrow> b)
                in ed_ok \<and> dil_ok)"

text \<open>The slices are lenient: a length that runs past the end is not noticed.\<close>

definition parse_combined_pub :: "bytes \<Rightarrow> (bytes \<times> bytes) res" where
  "parse_combined_pub combined_pub =
     (case unpack_u16 (slice 0 2 combined_pub) of Inl e \<Rightarrow> Inl e
      | Inr ed_len \<Rightarrow>
          (let ed_pub_bytes = slice 2 (2 + ed_len) combined_pub; offset = 2 + ed_len in
           case unpack_u16 (slice offset (offset + 2) combined_pub) of Inl e \<Rightarrow> Inl e
           | Inr dil_len \<Rightarrow> Inr (ed_pub_bytes, slice (offset + 2) (offset + 2 + dil_len) combined_pub)))"

definition load_ed_public_key :: "bytes \<Rightarrow> bytes res" where
  "load_ed_public_key b = (if length b = 32 then Inr b else Inl ValueError)"

lemma parse_combine:
  assumes "combine_pub a b = Inr c"
  shows "parse_combined_pub c = Inr (a, b)"
proof -
  obtain x y where xy: "pack_u16 (length a) = Inr x" "pack_u16 (length b) = Inr y" and c: "c = x @ a @ y @ b"
    using assms by (auto simp: combine_pub_def split: sum.splits)
  have "length x = 2" "length y = 2" "unpack_u16 x = Inr (length a)" "unpack_u16 y = Inr (length b)"
    using xy by (auto dest: pack_be_length unpack_pack)
  moreover from this have "slice 0 2 c = x" "slice 2 (2 + length a) c = a"
      "slice (2 + length a) (2 + length a + 2) c = y"
      "slice (2 + length a + 2) (2 + length a + 2 + length b) c = b"
    by (auto simp: c slice_def)
  ultimately show ?thesis by (simp add: parse_combined_pub_def Let_def)
qed

section \<open>The contract of a signature scheme\<close>

locale signature_scheme =
  fixes sign :: "'sk \<Rightarrow> bytes \<Rightarrow> bytes res"
    and verify :: "'pk \<Rightarrow> bytes \<Rightarrow> bytes \<Rightarrow> bool"
    and pair :: "'sk \<Rightarrow> 'pk \<Rightarrow> bool"
  assumes sign_verify: "pair sk pk \<Longrightarrow> sign sk m = Inr s \<Longrightarrow> verify pk s m"
    and sign_nonempty: "sign sk m = Inr s \<Longrightarrow> s \<noteq> []"
begin

lemma signed_list: "pair sk pk \<Longrightarrow> map_res (sign sk) ms = Inr ss \<Longrightarrow> list_all2 (verify pk) ss ms"
  by (induction ms arbitrary: ss) (auto simp: sign_verify split: sum.splits)

end

definition dil_pair :: "sig_crypto \<Rightarrow> bytes \<Rightarrow> bytes \<Rightarrow> bool" where
  "dil_pair G sk pk \<longleftrightarrow> (\<forall>m s. dil_sign G sk m = Inr s \<longrightarrow> dil_verify G m s pk = Inr True)"

text \<open>The laws of the libraries: an Ed25519 signature verifies and has 64 bytes, a
  Dilithium signature under a generated pair verifies and is not empty.\<close>

locale sig_laws =
  fixes G :: sig_crypto
  assumes ed_correct: "ed_verify G (ed_public G k) (ed_sign G k m) m"
    and ed_sign_length: "length (ed_sign G k m) = 64"
    and ed_public_length: "length (ed_public G k) = 32"
    and dil_nonempty: "dil_sign G sk m = Inr s \<Longrightarrow> s \<noteq> []"
    and available: "sig_available G"
begin

lemma hybrid_sign_shape:
  assumes "hybrid_sign G m ed dil = Inr s"
  obtains d where "dil_sign G dil m = Inr d" "s = be_bytes 2 64 @ ed_sign G ed m @ d"
  using assms by (auto simp: hybrid_sign_def Let_def ed_sign_length pack_be_ok split: if_splits sum.splits)

lemma hybrid_sign_nonempty: "hybrid_sign G m ed dil = Inr s \<Longrightarrow> s \<noteq> []"
  by (erule hybrid_sign_shape) (auto simp: numeral_2_eq_2)

lemma hybrid_sign_verify:
  assumes "hybrid_sign G m ed dil = Inr s" and "dil_pair G dil pk"
  shows "hybrid_verify G m s (ed_public G ed) pk"
proof -
  obtain d where d: "dil_sign G dil m = Inr d" and s: "s = be_bytes 2 64 @ ed_sign G ed m @ d"
    by (rule hybrid_sign_shape [OF assms(1)])
  have "take 2 s = be_bytes 2 64" "slice 2 (2 + 64) s = ed_sign G ed m" "drop (2 + 64) s = d"
    using s ed_sign_length [of ed m] by (simp_all add: slice_def)
  moreover have "unpack_u16 (be_bytes 2 64) = Inr 64" by (rule unpack_be_bytes) simp
  moreover have "length s = 66 + length d" using s ed_sign_length by simp
  moreover have "dil_verify G m d pk = Inr True" using assms(2) d by (simp add: dil_pair_def)
  ultimately show ?thesis
    using ed_correct available dil_nonempty [OF d] by (simp add: hybrid_verify_def Let_def)
qed

end

text \<open>The hybrid scheme is a signature scheme for the pairs (Ed25519, Dilithium).\<close>

sublocale sig_laws \<subseteq> hybrid: signature_scheme
  "\<lambda>(ed, dil) m. hybrid_sign G m ed dil" "\<lambda>(ed, dil) s m. hybrid_verify G m s ed dil"
  "\<lambda>(ed, dil) (epk, dpk). epk = ed_public G ed \<and> dil_pair G dil dpk"
  by unfold_locales (auto simp: hybrid_sign_verify dest: hybrid_sign_nonempty)

section \<open>A reference instance\<close>

text \<open>Keyed checksums in the place of the two schemes, for the examples.\<close>

definition ref_sig :: "nat \<Rightarrow> bytes \<Rightarrow> bytes \<Rightarrow> bytes" where
  "ref_sig n k m = replicate n (foldr (+) (k @ m) 1)"

definition ref_sig_crypto :: sig_crypto where
  "ref_sig_crypto =
     \<lparr>ed_public = (\<lambda>k. take 32 (k @ replicate 32 0)),
      ed_sign = (\<lambda>k m. ref_sig 64 (take 32 (k @ replicate 32 0)) m),
      ed_verify = (\<lambda>p s m. s = ref_sig 64 p m),
      dil_sign = (\<lambda>k m. Inr (ref_sig 70 k m)), dil_verify = (\<lambda>m s p. Inr (s = ref_sig 70 p m)),
      oqs_available = True, oqs_enabled = [''ML-DSA-65''], oqs_probe = (\<lambda>_. False)\<rparr>"

lemma ref_sig_available: "sig_available ref_sig_crypto"
  by (simp add: sig_available_def resolve_sig_algorithm_def ref_sig_crypto_def SIG_ALGORITHM_CANDIDATES_def)

lemma ref_sig_laws: "sig_laws ref_sig_crypto"
proof
  show "sig_available ref_sig_crypto" by (rule ref_sig_available)
qed (auto simp: ref_sig_crypto_def ref_sig_def)

interpretation ref_sig: sig_laws ref_sig_crypto
  by (rule ref_sig_laws)

section \<open>Properties\<close>

text \<open>C22. A hybrid signature verifies exactly when both of its parts do: it splits into a length, an
  Ed25519 signature of that length and a non-empty Dilithium signature, Ed25519 accepts the first,
  and liboqs is available and accepts the second. An attacker has to forge both.\<close>

theorem hybrid_verify_iff:
  "hybrid_verify G m s ed_pub dil_pub \<longleftrightarrow>
   (\<exists>ed_sig dil_sig. length ed_sig < 65536 \<and> dil_sig \<noteq> [] \<and> s = be_bytes 2 (length ed_sig) @ ed_sig @ dil_sig \<and>
      ed_verify G ed_pub ed_sig m \<and> sig_available G \<and> dil_verify G m dil_sig dil_pub = Inr True)"
  (is "?L \<longleftrightarrow> ?R")
proof
  assume L: ?L
  define n where "n = be_val (take 2 s)"
  have len: "2 \<le> length s" "2 + n \<le> length s" and ne: "drop (2 + n) s \<noteq> []"
    and ok: "ed_verify G ed_pub (slice 2 (2 + n) s) m" "sig_available G" "dil_verify G m (drop (2 + n) s) dil_pub = Inr True"
    using L by (auto simp: hybrid_verify_def unpack_be_def Let_def n_def split: if_splits sum.splits)
  have n: "n < 65536" "be_bytes 2 n = take 2 s"
    using be_val_less [of "take 2 s"] be_bytes_be_val [of "take 2 s"] len(1) by (simp_all add: n_def)
  have "length (slice 2 (2 + n) s) = n" using len by simp
  moreover have "s = take 2 s @ take n (drop 2 s) @ drop n (drop 2 s)"
    by (simp only: append_take_drop_id)
  ultimately have "s = be_bytes 2 (length (slice 2 (2 + n) s)) @ slice 2 (2 + n) s @ drop (2 + n) s"
    using n(2) by (simp add: slice_def add.commute)
  then show ?R using n ne ok \<open>length (slice 2 (2 + n) s) = n\<close>
    by (intro exI [of _ "slice 2 (2 + n) s"] exI [of _ "drop (2 + n) s"]) simp
next
  assume ?R
  then obtain ed_sig dil_sig where r: "length ed_sig < 65536" "dil_sig \<noteq> []" "s = be_bytes 2 (length ed_sig) @ ed_sig @ dil_sig"
    "ed_verify G ed_pub ed_sig m" "sig_available G" "dil_verify G m dil_sig dil_pub = Inr True" by blast
  have "unpack_u16 (be_bytes 2 (length ed_sig)) = Inr (length ed_sig)" by (rule unpack_be_bytes) (use r(1) in simp)
  moreover have "take 2 s = be_bytes 2 (length ed_sig)" "slice 2 (2 + length ed_sig) s = ed_sig"
      "drop (2 + length ed_sig) s = dil_sig" "length s = 2 + length ed_sig + length dil_sig"
    using r(3) by (simp_all add: slice_def)
  ultimately show ?L using r by (simp add: hybrid_verify_def Let_def)
qed

text \<open>What is signed with a generated key pair verifies under the combined public key that was
  published for it.\<close>

theorem hybrid_sign_verifies:
  assumes "sig_laws G" and "generate_hybrid_keys G ed (Inr (dil_pub, dil_priv)) = Inr keys"
    and "dil_pair G dil_priv dil_pub" and "hybrid_sign G m (hk_ed_priv keys) (hk_dil_priv keys) = Inr s"
  shows "\<exists>ed_pub. parse_combined_pub (hk_combined_pub keys) = Inr (ed_pub, dil_pub) \<and>
    load_ed_public_key ed_pub = Inr ed_pub \<and> hybrid_verify G m s ed_pub dil_pub"
proof -
  have k: "hk_ed_priv keys = ed" "hk_dil_priv keys = dil_priv" "combine_pub (ed_public G ed) dil_pub = Inr (hk_combined_pub keys)"
    using assms(2) by (auto simp: generate_hybrid_keys_def split: if_splits sum.splits)
  have "parse_combined_pub (hk_combined_pub keys) = Inr (ed_public G ed, dil_pub)"
    by (rule parse_combine [OF k(3)])
  moreover have "load_ed_public_key (ed_public G ed) = Inr (ed_public G ed)"
    by (simp add: load_ed_public_key_def sig_laws.ed_public_length [OF assms(1)])
  moreover have "hybrid_verify G m s (ed_public G ed) dil_pub"
    using sig_laws.hybrid_sign_verify [OF assms(1) _ assms(3)] assms(4) k by simp
  ultimately show ?thesis by blast
qed

theorem hybrid_sign_verifies_witness:
  "\<exists>ed_pub. parse_combined_pub (hk_combined_pub (projr (generate_hybrid_keys ref_sig_crypto (replicate 32 5) (Inr ([7], [7])))))
      = Inr (ed_pub, [7]) \<and> load_ed_public_key ed_pub = Inr ed_pub \<and>
    hybrid_verify ref_sig_crypto [1, 2] (projr (hybrid_sign ref_sig_crypto [1, 2] (replicate 32 5) [7])) ed_pub [7]"
proof (rule hybrid_sign_verifies [OF ref_sig_laws])
  show "dil_pair ref_sig_crypto [7] [7]" by (simp add: dil_pair_def ref_sig_crypto_def)
qed (simp_all add: generate_hybrid_keys_def hybrid_sign_def ref_sig_available combine_pub_def pack_be_def
    ref_sig.ed_sign_length ref_sig.ed_public_length Let_def, simp_all add: ref_sig_crypto_def ref_sig_def pack_be_def)

end
