(* ===== verification/Key_Store.thy ===== *)
theory Key_Store
  imports Lockout Hybrid_Signer
begin

text \<open>
  \<^verbatim>\<open>KeyStore\<close> of \<^verbatim>\<open>key_manager.py\<close>: the keys in memory, their loading from the database, the
  friends, key rotation, password change, recovery, duress mode and wiping. PEM handling, RSA and
  HKDF come from the \<^verbatim>\<open>cryptography\<close> package and are the fields of \<open>key_env\<close>; an RSA
  key is an opaque byte string. A guarded buffer is its contents. Dictionaries are association
  lists in insertion order.

  Operations return the memory and the database they leave, also when they raise. A database
  transaction that is not committed leaves the database as it was.
\<close>

record key_env =
  ke_db :: db_crypto
  pem_to_pubkey :: "ustr \<Rightarrow> bytes res"
  pubkey_to_pem :: "bytes \<Rightarrow> ustr"
  pem_to_privkey :: "ustr \<Rightarrow> bytes \<Rightarrow> bytes res"
  privkey_to_encrypted_pem :: "bytes \<Rightarrow> bytes \<Rightarrow> ustr res"
  public_key :: "bytes \<Rightarrow> bytes"
  get_rsa_key_size :: "bytes \<Rightarrow> nat"
  hkdf_ratchet :: "bytes \<Rightarrow> bytes \<Rightarrow> bytes"
  sha256_hex :: "ustr \<Rightarrow> ustr"
  hybrid_sig_available :: bool

type_synonym friend = "ustr \<times> bytes \<times> bytes option"

record pqc_bundle =
  pb_x25519_priv :: bytes
  pb_kyber_priv :: bytes
  pb_combined_pub :: bytes

record key_store =
  my_pub :: "bytes option"
  my_priv :: "bytes option"
  legacy_priv :: "bytes option"
  global_secret :: "bytes option"
  friends :: "friend list"
  friends_x25519 :: "(ustr \<times> ustr) list"
  friends_ecdh_priv :: "(ustr \<times> bytes) list"
  friends_capabilities :: "(ustr \<times> capabilities) list"
  friends_pqc_combined_pub :: "(ustr \<times> bytes) list"
  my_kyber_priv :: "bytes option"
  my_pqc_combined_pub :: "bytes option"
  cached_pqc_bundle :: "pqc_bundle option"
  my_ed_priv :: "bytes option"
  my_dil_priv :: "bytes option"
  my_hybrid_sig_combined_pub :: "bytes option"
  friends_hybrid_sig_pubs :: "(ustr \<times> bytes \<times> bytes) list"
  ratchet_storage_key :: "bytes option"
  duress_mode :: bool
  needs_rotation :: bool

definition new_key_store :: key_store where
  "new_key_store =
     \<lparr>my_pub = None, my_priv = None, legacy_priv = None, global_secret = None, friends = [],
      friends_x25519 = [], friends_ecdh_priv = [], friends_capabilities = [],
      friends_pqc_combined_pub = [], my_kyber_priv = None, my_pqc_combined_pub = None,
      cached_pqc_bundle = None, my_ed_priv = None, my_dil_priv = None,
      my_hybrid_sig_combined_pub = None, friends_hybrid_sig_pubs = [], ratchet_storage_key = None,
      duress_mode = False, needs_rotation = False\<rparr>"

definition MIN_RSA_KEY_SIZE :: nat where "MIN_RSA_KEY_SIZE = 4096"
definition LEGACY_KEY_RETENTION_DAYS :: nat where "LEGACY_KEY_RETENTION_DAYS = 30"

text \<open>\<^verbatim>\<open>if x:\<close> for an optional text or byte string.\<close>

definition given :: "'a list option \<Rightarrow> bool" where
  "given x \<longleftrightarrow> (case x of Some y \<Rightarrow> y \<noteq> [] | None \<Rightarrow> False)"

section \<open>Friends\<close>

text \<open>The part of \<^verbatim>\<open>save_friend\<close> that prepares the encrypted columns; \<open>rnd\<close> supplies salts and
  nonces.\<close>

definition encrypt_columns ::
  "key_env \<Rightarrow> (nat \<Rightarrow> bytes \<times> bytes) \<Rightarrow> bytes \<Rightarrow> bytes option \<Rightarrow> bytes option \<Rightarrow>
   (enc_dict option \<times> enc_dict option) res" where
  "encrypt_columns E rnd password shared_secret ecdh_priv_bytes =
     (let enc = (\<lambda>i b. encrypt_secret (ke_db E) (fst (rnd i)) (snd (rnd i)) b password);
          sec = (if given shared_secret then
                   (if password = [] then Inl ValueError
                    else case enc 0 (the shared_secret) of Inl e \<Rightarrow> Inl e | Inr x \<Rightarrow> Inr (Some x))
                 else Inr None)
      in case sec of Inl e \<Rightarrow> Inl e
         | Inr s \<Rightarrow>
             (case ecdh_priv_bytes of None \<Rightarrow> Inr (s, None)
              | Some b \<Rightarrow>
                  if password = [] then Inl ValueError
                  else case enc 1 b of Inl e \<Rightarrow> Inl e | Inr x \<Rightarrow> Inr (s, Some x)))"

definition set_or_pop :: "'k \<Rightarrow> 'v option \<Rightarrow> ('k \<times> 'v) list \<Rightarrow> ('k \<times> 'v) list" where
  "set_or_pop k v m = (case v of Some x \<Rightarrow> AList.update k x m | None \<Rightarrow> AList.delete k m)"

text \<open>The last block of \<^verbatim>\<open>save_friend\<close> and of the loading of a friend: the hybrid signing
  key. A combined key that is too short raises \<^verbatim>\<open>struct.error\<close>, which is not caught.\<close>

definition store_hybrid_pub ::
  "key_env \<Rightarrow> ustr \<Rightarrow> ustr option \<Rightarrow> key_store \<Rightarrow> unit res \<times> key_store" where
  "store_hybrid_pub E name hybrid_sig_pub_b64 k =
     (if given hybrid_sig_pub_b64 \<and> hybrid_sig_available E then
        (case b64decode (the hybrid_sig_pub_b64) of
           Inl _ \<Rightarrow> (Inr (), k\<lparr>friends_hybrid_sig_pubs := AList.delete name (friends_hybrid_sig_pubs k)\<rparr>)
         | Inr combined \<Rightarrow>
             (case parse_combined_pub combined of
                Inl e \<Rightarrow> if is_value_error e \<or> e = TypeError
                        then (Inr (), k\<lparr>friends_hybrid_sig_pubs := AList.delete name (friends_hybrid_sig_pubs k)\<rparr>)
                        else (Inl e, k)
              | Inr p \<Rightarrow> (Inr (), k\<lparr>friends_hybrid_sig_pubs := AList.update name p (friends_hybrid_sig_pubs k)\<rparr>)))
      else (Inr (), k\<lparr>friends_hybrid_sig_pubs := AList.delete name (friends_hybrid_sig_pubs k)\<rparr>))"

record friend_args =
  fa_name :: ustr
  fa_pem :: ustr
  fa_shared_secret :: "bytes option"
  fa_x25519_pub_b64 :: "ustr option"
  fa_capabilities :: "capabilities option"
  fa_pqc_combined_pub_b64 :: "ustr option"
  fa_hybrid_sig_pub_b64 :: "ustr option"
  fa_ecdh_priv_bytes :: "bytes option"

text \<open>The columns the row gets: the ratchet state is carried over from the row that is replaced.\<close>

definition friend_row_of :: "friend_args \<Rightarrow> enc_dict option \<Rightarrow> enc_dict option \<Rightarrow> friend_row list \<Rightarrow> friend_row" where
  "friend_row_of f sec ecdh rows =
     \<lparr>fr_name = fa_name f, fr_public_key_pem = fa_pem f, fr_has_shared_secret = (sec \<noteq> None),
      fr_shared_secret_encrypted = sec, fr_x25519_public_key_b64 = fa_x25519_pub_b64 f,
      fr_ecdh_priv_encrypted = ecdh,
      fr_ratchet_state_json =
        (case select_key fr_name (fa_name f) rows of Some r \<Rightarrow> fr_ratchet_state_json r | None \<Rightarrow> None),
      fr_capabilities_json = (if given (fa_capabilities f) then fa_capabilities f else None),
      fr_pqc_combined_pub_b64 = fa_pqc_combined_pub_b64 f, fr_hybrid_sig_pub_b64 = fa_hybrid_sig_pub_b64 f\<rparr>"

definition save_friend ::
  "key_env \<Rightarrow> (nat \<Rightarrow> bytes \<times> bytes) \<Rightarrow> bytes \<Rightarrow> friend_args \<Rightarrow> key_store \<times> db \<Rightarrow> unit res \<times> (key_store \<times> db)" where
  "save_friend E rnd password f s =
     (case s of (k, d) \<Rightarrow>
      case encrypt_columns E rnd password (fa_shared_secret f) (fa_ecdh_priv_bytes f) of
        Inl e \<Rightarrow> (Inl e, (k, d))
      | Inr (sec, ecdh) \<Rightarrow>
          (let name = fa_name f;
               d1 = d\<lparr>friends_tab := insert_or_replace fr_name (friend_row_of f sec ecdh (friends_tab d)) (friends_tab d)\<rparr>
           in case pem_to_pubkey E (fa_pem f) of Inl e \<Rightarrow> (Inl e, (k, d1))
              | Inr pub \<Rightarrow>
                  (let secret = (if given (fa_shared_secret f) then fa_shared_secret f else None);
                       k1 = k\<lparr>friends := filter (\<lambda>(n, _, _). n \<noteq> name) (friends k) @ [(name, pub, secret)],
                              friends_x25519 := set_or_pop name
                                (if given (fa_x25519_pub_b64 f) then fa_x25519_pub_b64 f else None) (friends_x25519 k),
                              friends_ecdh_priv := set_or_pop name (fa_ecdh_priv_bytes f) (friends_ecdh_priv k),
                              friends_capabilities := set_or_pop name
                                (if given (fa_capabilities f) then fa_capabilities f else None) (friends_capabilities k),
                              friends_pqc_combined_pub := set_or_pop name
                                (if given (fa_pqc_combined_pub_b64 f)
                                 then (case b64decode (the (fa_pqc_combined_pub_b64 f)) of Inl _ \<Rightarrow> None | Inr b \<Rightarrow> Some b)
                                 else None) (friends_pqc_combined_pub k)\<rparr>;
                       (r, k2) = store_hybrid_pub E name (fa_hybrid_sig_pub_b64 f) k1
                   in (r, (k2, d1)))))"

definition remove_friend :: "ustr \<Rightarrow> key_store \<times> db \<Rightarrow> key_store \<times> db" where
  "remove_friend name s =
     (case s of (k, d) \<Rightarrow>
        (k\<lparr>friends := filter (\<lambda>(n, _, _). n \<noteq> name) (friends k),
           friends_x25519 := AList.delete name (friends_x25519 k),
           friends_ecdh_priv := AList.delete name (friends_ecdh_priv k),
           friends_capabilities := AList.delete name (friends_capabilities k),
           friends_pqc_combined_pub := AList.delete name (friends_pqc_combined_pub k),
           friends_hybrid_sig_pubs := AList.delete name (friends_hybrid_sig_pubs k)\<rparr>,
         d\<lparr>friends_tab := delete_key fr_name name (friends_tab d)\<rparr>))"

definition get_friend_secret :: "ustr \<Rightarrow> key_store \<Rightarrow> bytes option" where
  "get_friend_secret name k =
     (case find (\<lambda>(n, _, _). n = name) (friends k) of Some (_, _, s) \<Rightarrow> s | None \<Rightarrow> None)"

definition get_friend_ecdh_priv :: "ustr \<Rightarrow> key_store \<Rightarrow> bytes option" where
  "get_friend_ecdh_priv name k = map_of (friends_ecdh_priv k) name"

definition update_global_secret ::
  "key_env \<Rightarrow> bytes \<times> bytes \<Rightarrow> bytes \<Rightarrow> bytes \<Rightarrow> key_store \<times> db \<Rightarrow> unit res \<times> (key_store \<times> db)" where
  "update_global_secret E rnd new_secret password s =
     (case s of (k, d) \<Rightarrow>
      case encrypt_secret (ke_db E) (fst rnd) (snd rnd) new_secret password of Inl e \<Rightarrow> (Inl e, (k, d))
      | Inr enc \<Rightarrow> (Inr (), (k\<lparr>global_secret := Some new_secret\<rparr>,
                              update_setting (ustr ''global_secret'') (Secret enc) d)))"

text \<open>\<open>io_ok\<close>: whether SQLite can be read.\<close>

definition my_name :: "key_env \<Rightarrow> bool \<Rightarrow> key_store \<times> db \<Rightarrow> ustr" where
  "my_name E io_ok s =
     (case s of (k, d) \<Rightarrow>
      let fallback = (case my_pub k of
            Some pub \<Rightarrow> ustr ''user-'' @ take 8 (sha256_hex E (pubkey_to_pem E pub))
          | None \<Rightarrow> ustr ''anonymous'')
      in if \<not> io_ok then fallback
         else case get_setting (ustr ''my_name'') d of
           Some (Text n) \<Rightarrow> if n \<noteq> [] then n else fallback
         | _ \<Rightarrow> fallback)"

definition set_my_name :: "ustr \<Rightarrow> db \<Rightarrow> db" where
  "set_my_name name d = put_setting (ustr ''my_name'') (Text name) d"

definition get_decryption_snapshot ::
  "key_store \<Rightarrow> bytes option \<times> friend list \<times> bytes list \<times> bytes option" where
  "get_decryption_snapshot k =
     (let friends_for_crypto = friends k @ (case my_pub k of Some p \<Rightarrow> [(ustr ''myself'', p, None)] | None \<Rightarrow> []);
          secrets_to_try = (case global_secret k of Some g \<Rightarrow> [g] | None \<Rightarrow> []) @
            List.map_filter (\<lambda>(_, _, s). s) (friends k)
      in (my_priv k, friends_for_crypto, secrets_to_try, legacy_priv k))"

text \<open>\<^verbatim>\<open>wipe\<close>: the legacy key, the flags and the friends' public keys stay.\<close>

definition ks_wipe :: "key_store \<Rightarrow> key_store" where
  "ks_wipe k =
     k\<lparr>global_secret := None, ratchet_storage_key := None,
       friends := map (\<lambda>(n, p, _). (n, p, None)) (friends k),
       friends_x25519 := [], friends_ecdh_priv := [], friends_capabilities := [],
       friends_pqc_combined_pub := [], my_kyber_priv := None, my_pqc_combined_pub := None,
       my_dil_priv := None, my_ed_priv := None, my_hybrid_sig_combined_pub := None,
       friends_hybrid_sig_pubs := [], my_priv := None, my_pub := None, cached_pqc_bundle := None\<rparr>"

section \<open>Loading\<close>

text \<open>
  \<^verbatim>\<open>load\<close> in the order of its blocks. A block continues with \<open>Inr True\<close> and makes the
  method return \<^verbatim>\<open>False\<close> with \<open>Inr False\<close>.
\<close>

type_synonym load_state = "key_store \<times> db"

definition load_then ::
  "bool res \<times> load_state \<Rightarrow> (load_state \<Rightarrow> bool res \<times> load_state) \<Rightarrow> bool res \<times> load_state" where
  "load_then r f = (case r of (Inr True, s) \<Rightarrow> f s | (x, s) \<Rightarrow> (x, s))"

definition text_setting :: "string \<Rightarrow> db \<Rightarrow> ustr option" where
  "text_setting key d = (case get_setting (ustr key) d of Some (Text t) \<Rightarrow> Some t | _ \<Rightarrow> None)"

definition secret_setting :: "string \<Rightarrow> db \<Rightarrow> enc_dict option" where
  "secret_setting key d = (case get_setting (ustr key) d of Some (Secret e) \<Rightarrow> Some e | _ \<Rightarrow> None)"

text \<open>The legacy private key: loaded until its expiry, then removed from the database.\<close>

definition load_legacy :: "key_env \<Rightarrow> bytes \<Rightarrow> rat \<Rightarrow> load_state \<Rightarrow> bool res \<times> load_state" where
  "load_legacy E password now s =
     (case s of (k, d) \<Rightarrow>
      let k = k\<lparr>legacy_priv := None\<rparr> in
      case text_setting ''legacy_private_key_encrypted'' d of None \<Rightarrow> (Inr True, (k, d))
      | Some pem \<Rightarrow>
          (let expiry = (case get_setting (ustr ''legacy_key_expiry'') d of
                           None \<Rightarrow> Inr 0 | Some (Number x) \<Rightarrow> Inr x | Some _ \<Rightarrow> Inl ValueError)
           in case expiry of Inl e \<Rightarrow> (Inr True, (k, d))
              | Inr x \<Rightarrow>
                  if now < x then
                    (case pem_to_privkey E pem password of
                       Inr p \<Rightarrow> (Inr True, (k\<lparr>legacy_priv := Some p\<rparr>, d))
                     | Inl e \<Rightarrow> if caught e then (Inr True, (k, d)) else (Inl e, (k, d)))
                  else (Inr True, (k, delete_setting (ustr ''legacy_key_expiry'')
                          (delete_setting (ustr ''legacy_private_key_encrypted'') d)))))"

definition load_rsa :: "key_env \<Rightarrow> bytes \<Rightarrow> rat \<Rightarrow> load_state \<Rightarrow> bool res \<times> load_state" where
  "load_rsa E password now s =
     (case s of (k, d) \<Rightarrow>
      case text_setting ''public_key'' d of None \<Rightarrow> (Inl KeyStoreError, (k, d))
      | Some pub_pem \<Rightarrow>
        (case pem_to_pubkey E pub_pem of Inl e \<Rightarrow> (Inl e, (k, d))
         | Inr pub \<Rightarrow>
           (let k = k\<lparr>my_pub := Some pub, needs_rotation := (get_rsa_key_size E pub < MIN_RSA_KEY_SIZE)\<rparr>
            in case text_setting ''private_key_encrypted'' d of None \<Rightarrow> (Inl KeyStoreError, (k, d))
               | Some priv_pem \<Rightarrow>
                 (case pem_to_privkey E priv_pem password of
                    Inl e \<Rightarrow> if caught e then (Inr False, (k, d)) else (Inl e, (k, d))
                  | Inr priv \<Rightarrow> load_legacy E password now (k\<lparr>my_priv := Some priv\<rparr>, d)))))"

definition load_global :: "key_env \<Rightarrow> bytes \<Rightarrow> load_state \<Rightarrow> bool res \<times> load_state" where
  "load_global E password s =
     (case s of (k, d) \<Rightarrow>
      case secret_setting ''global_secret'' d of None \<Rightarrow> (Inr True, (k\<lparr>global_secret := None\<rparr>, d))
      | Some e \<Rightarrow>
        (case decrypt_secret (ke_db E) e password of
           Inr g \<Rightarrow> (Inr True, (k\<lparr>global_secret := Some g\<rparr>, d))
         | Inl err \<Rightarrow> if caught err then (Inr False, (k, d)) else (Inl err, (k, d))))"

definition load_kyber :: "key_env \<Rightarrow> bytes \<Rightarrow> load_state \<Rightarrow> bool res \<times> load_state" where
  "load_kyber E password s =
     (case s of (k, d) \<Rightarrow>
      let k = k\<lparr>my_kyber_priv := None, my_pqc_combined_pub := None\<rparr> in
      case secret_setting ''kyber_priv_encrypted'' d of None \<Rightarrow> (Inr True, (k, d))
      | Some e \<Rightarrow>
        (case decrypt_secret (ke_db E) e password of
           Inr p \<Rightarrow> (Inr True, (k\<lparr>my_kyber_priv := Some p\<rparr>, d))
         | Inl err \<Rightarrow> if caught err then (Inr True, (k, d)) else (Inl err, (k, d))))"

definition load_bundle :: "key_env \<Rightarrow> bytes \<Rightarrow> load_state \<Rightarrow> bool res \<times> load_state" where
  "load_bundle E password s =
     (case s of (k, d) \<Rightarrow>
      let k = (case text_setting ''pqc_combined_pub_b64'' d of
                 Some t \<Rightarrow> if given (my_kyber_priv k)
                           then (case b64decode t of Inr b \<Rightarrow> k\<lparr>my_pqc_combined_pub := Some b\<rparr> | Inl _ \<Rightarrow> k) else k
               | None \<Rightarrow> k);
          k = k\<lparr>cached_pqc_bundle := None\<rparr>
      in if given (my_kyber_priv k) \<and> given (my_pqc_combined_pub k) then
           (case secret_setting ''pqc_x25519_priv_encrypted'' d of None \<Rightarrow> (Inr True, (k, d))
            | Some e \<Rightarrow>
              (case decrypt_secret (ke_db E) e password of
                 Inl err \<Rightarrow> if caught err then (Inr True, (k, d)) else (Inl err, (k, d))
               | Inr x \<Rightarrow>
                   if length x = 32 then
                     (Inr True, (k\<lparr>cached_pqc_bundle := Some \<lparr>pb_x25519_priv = x, pb_kyber_priv = the (my_kyber_priv k),
                                   pb_combined_pub = the (my_pqc_combined_pub k)\<rparr>\<rparr>, d))
                   else (Inr True, (k, d))))
         else (Inr True, (k, d)))"

text \<open>The hybrid signing keys: the Ed25519 key is kept even when the Dilithium key does not load.\<close>

definition load_hybrid :: "key_env \<Rightarrow> bytes \<Rightarrow> load_state \<Rightarrow> bool res \<times> load_state" where
  "load_hybrid E password s =
     (case s of (k, d) \<Rightarrow>
      let k = k\<lparr>my_ed_priv := None, my_dil_priv := None, my_hybrid_sig_combined_pub := None\<rparr>;
          with_pub = (\<lambda>k. case text_setting ''hybrid_sig_combined_pub_b64'' d of
                        Some t \<Rightarrow> (case b64decode t of Inr b \<Rightarrow> k\<lparr>my_hybrid_sig_combined_pub := Some b\<rparr> | Inl _ \<Rightarrow> k)
                      | None \<Rightarrow> k)
      in if \<not> hybrid_sig_available E then (Inr True, (k, d))
         else case (secret_setting ''ed25519_priv_encrypted'' d, secret_setting ''dilithium_priv_encrypted'' d) of
           (Some ed, Some dil) \<Rightarrow>
             (case decrypt_secret (ke_db E) ed password of
                Inl err \<Rightarrow> if caught err then (Inr True, (with_pub k, d)) else (Inl err, (k, d))
              | Inr ed_priv \<Rightarrow>
                  if length ed_priv \<noteq> 32 then (Inr True, (with_pub k, d))
                  else let k = k\<lparr>my_ed_priv := Some ed_priv\<rparr> in
                    (case decrypt_secret (ke_db E) dil password of
                       Inl err \<Rightarrow> if caught err then (Inr True, (with_pub k, d)) else (Inl err, (k, d))
                     | Inr dil_priv \<Rightarrow> (Inr True, (with_pub (k\<lparr>my_dil_priv := Some dil_priv\<rparr>), d))))
         | _ \<Rightarrow> (Inr True, (with_pub k, d)))"

text \<open>An optional secret column of a friend: absent, opened, skipped with a warning, or an exception.\<close>

definition open_column :: "key_env \<Rightarrow> bytes \<Rightarrow> enc_dict option \<Rightarrow> bytes option res" where
  "open_column E password c =
     (case c of None \<Rightarrow> Inr None
      | Some e \<Rightarrow> (case decrypt_secret (ke_db E) e password of
                    Inr b \<Rightarrow> Inr (Some b)
                  | Inl err \<Rightarrow> if caught err then Inr None else Inl err))"

definition update_given :: "'k \<Rightarrow> 'v option \<Rightarrow> ('k \<times> 'v) list \<Rightarrow> ('k \<times> 'v) list" where
  "update_given k v m = (case v of Some x \<Rightarrow> AList.update k x m | None \<Rightarrow> m)"

definition load_friend :: "key_env \<Rightarrow> bytes \<Rightarrow> friend_row \<Rightarrow> key_store \<Rightarrow> unit res \<times> key_store" where
  "load_friend E password r k =
     (let name = fr_name r in
      case pem_to_pubkey E (fr_public_key_pem r) of Inl e \<Rightarrow> (Inl e, k) | Inr pub \<Rightarrow>
      case (if fr_has_shared_secret r then open_column E password (fr_shared_secret_encrypted r) else Inr None) of
        Inl e \<Rightarrow> (Inl e, k)
      | Inr secret \<Rightarrow>
        let k1 = k\<lparr>friends := friends k @ [(name, pub, secret)],
                   friends_x25519 := update_given name
                     (if given (fr_x25519_public_key_b64 r) then fr_x25519_public_key_b64 r else None) (friends_x25519 k)\<rparr>
        in case open_column E password (fr_ecdh_priv_encrypted r) of Inl e \<Rightarrow> (Inl e, k1) | Inr ecdh \<Rightarrow>
        let pqc = (if given (fr_pqc_combined_pub_b64 r)
                   then (case b64decode (the (fr_pqc_combined_pub_b64 r)) of Inr b \<Rightarrow> Some b | Inl _ \<Rightarrow> None) else None);
            k2 = k1\<lparr>friends_ecdh_priv := update_given name ecdh (friends_ecdh_priv k1),
                   friends_capabilities := AList.update name
                     (case fr_capabilities_json r of Some c \<Rightarrow> c | None \<Rightarrow> []) (friends_capabilities k1),
                   friends_pqc_combined_pub := update_given name pqc (friends_pqc_combined_pub k1)\<rparr>
        in if given (fr_hybrid_sig_pub_b64 r) \<and> hybrid_sig_available E then
             (case b64decode (the (fr_hybrid_sig_pub_b64 r)) of Inl _ \<Rightarrow> (Inr (), k2)
              | Inr combined \<Rightarrow>
                  (case parse_combined_pub combined of
                     Inl e \<Rightarrow> (if caught e then Inr () else Inl e, k2)
                   | Inr p \<Rightarrow> (Inr (), k2\<lparr>friends_hybrid_sig_pubs := AList.update name p (friends_hybrid_sig_pubs k2)\<rparr>)))
           else (Inr (), k2))"

fun load_friend_rows :: "key_env \<Rightarrow> bytes \<Rightarrow> friend_row list \<Rightarrow> key_store \<Rightarrow> unit res \<times> key_store" where
  "load_friend_rows E password [] k = (Inr (), k)"
| "load_friend_rows E password (r # rs) k =
     and_then (load_friend E password r k) (\<lambda>_ k'. load_friend_rows E password rs k')"

definition load_friends :: "key_env \<Rightarrow> bytes \<Rightarrow> load_state \<Rightarrow> bool res \<times> load_state" where
  "load_friends E password s =
     (case s of (k, d) \<Rightarrow>
      let k = k\<lparr>friends := [], friends_x25519 := [], friends_ecdh_priv := [], friends_capabilities := [],
                friends_pqc_combined_pub := [], friends_hybrid_sig_pubs := []\<rparr>
      in case load_friend_rows E password (friends_tab d) k of
           (Inl e, k') \<Rightarrow> (Inl e, (k', d)) | (Inr _, k') \<Rightarrow> (Inr True, (k', d)))"

subsection \<open>The ratchet storage key\<close>

text \<open>One blob: plain JSON (it starts with a brace) and blobs that do not decrypt are left alone.\<close>

definition migrate_blob :: "key_env \<Rightarrow> bytes \<Rightarrow> bytes \<Rightarrow> bytes \<Rightarrow> ustr \<Rightarrow> ustr option" where
  "migrate_blob E old_key new_key new_nonce blob =
     (if blob = [] \<or> hd blob = 123 then None
      else case b64decode blob of Inl _ \<Rightarrow> None
        | Inr raw \<Rightarrow>
          (case aes_dec (ke_db E) old_key (take 12 raw) (drop 12 raw) [] of Inl _ \<Rightarrow> None
           | Inr plaintext \<Rightarrow>
             (case aes_enc (ke_db E) new_key new_nonce plaintext [] of Inl _ \<Rightarrow> None
              | Inr ct \<Rightarrow> Some (b64encode (new_nonce @ ct)))))"

fun migrate_ratchet_blobs ::
  "key_env \<Rightarrow> (nat \<Rightarrow> bytes) \<Rightarrow> bytes \<Rightarrow> bytes \<Rightarrow> friend_row list \<Rightarrow> nat \<Rightarrow> friend_row list \<times> nat" where
  "migrate_ratchet_blobs E nonce old_key new_key [] n = ([], n)"
| "migrate_ratchet_blobs E nonce old_key new_key (r # rs) n =
     (case fr_ratchet_state_json r of None \<Rightarrow>
        (let (rs', n') = migrate_ratchet_blobs E nonce old_key new_key rs n in (r # rs', n'))
      | Some blob \<Rightarrow>
        (case migrate_blob E old_key new_key (nonce n) blob of None \<Rightarrow>
           (let (rs', n') = migrate_ratchet_blobs E nonce old_key new_key rs n in (r # rs', n'))
         | Some blob' \<Rightarrow>
           (let (rs', n') = migrate_ratchet_blobs E nonce old_key new_key rs (n + 1)
            in (r\<lparr>fr_ratchet_state_json := Some blob'\<rparr> # rs', n'))))"

record load_rnd =
  lr_ratchet_key :: bytes
  lr_salt :: bytes
  lr_nonce :: bytes
  lr_blob_nonce :: "nat \<Rightarrow> bytes"

text \<open>
  The last block of \<^verbatim>\<open>load\<close>. Value and type errors wipe the keys and make it return
  \<^verbatim>\<open>False\<close>; \<^verbatim>\<open>InvalidTag\<close> is neither and is raised.
\<close>

definition load_ratchet_key :: "key_env \<Rightarrow> load_rnd \<Rightarrow> bytes \<Rightarrow> load_state \<Rightarrow> bool res \<times> load_state" where
  "load_ratchet_key E rnd password s =
     (case s of (k, d) \<Rightarrow>
      let fail = (\<lambda>e. if caught e then (Inr False, (ks_wipe k, d)) else (Inl e, (k, d))) in
      case secret_setting ''ratchet_storage_key'' d of
        Some w \<Rightarrow>
          (case decrypt_secret (ke_db E) w password of Inl e \<Rightarrow> fail e
           | Inr key \<Rightarrow> (Inr True, (k\<lparr>ratchet_storage_key := Some key\<rparr>, d)))
      | None \<Rightarrow>
          (let key = lr_ratchet_key rnd;
               d1 = (case text_setting ''ratchet_hkdf_salt'' d of None \<Rightarrow> Inr d
                     | Some t \<Rightarrow>
                       (case b64decode t of Inl e \<Rightarrow> Inl e
                        | Inr salt \<Rightarrow>
                            Inr (d\<lparr>friends_tab := fst (migrate_ratchet_blobs E (lr_blob_nonce rnd)
                                     (hkdf_ratchet E salt password) key (friends_tab d) 0)\<rparr>)))
           in case d1 of Inl e \<Rightarrow> fail e
              | Inr d1 \<Rightarrow>
                (case encrypt_secret (ke_db E) (lr_salt rnd) (lr_nonce rnd) key password of Inl e \<Rightarrow> fail e
                 | Inr w \<Rightarrow>
                     (Inr True, (k\<lparr>ratchet_storage_key := Some key\<rparr>,
                        delete_setting (ustr ''ratchet_hkdf_salt'')
                          (put_setting (ustr ''ratchet_storage_key'') (Secret w) d1))))))"

text \<open>The first \<^verbatim>\<open>try\<close> block turns every exception into \<^verbatim>\<open>KeyStoreError\<close>.\<close>

definition keystore_error :: "bool res \<times> load_state \<Rightarrow> bool res \<times> load_state" where
  "keystore_error r = (case r of (Inl _, s) \<Rightarrow> (Inl KeyStoreError, s) | (Inr b, s) \<Rightarrow> (Inr b, s))"

definition load :: "key_env \<Rightarrow> load_rnd \<Rightarrow> bytes \<Rightarrow> rat \<Rightarrow> load_state \<Rightarrow> bool res \<times> load_state" where
  "load E rnd password now s =
     load_then
       (keystore_error
         (load_then (load_rsa E password now s) (\<lambda>s.
          load_then (load_global E password s) (\<lambda>s.
          load_then (load_kyber E password s) (\<lambda>s.
          load_then (load_bundle E password s) (\<lambda>s.
          load_then (load_hybrid E password s) (\<lambda>s.
          load_friends E password s)))))))
       (load_ratchet_key E rnd password)"

section \<open>Post-quantum keys\<close>

text \<open>\<open>keys\<close> is what \<^verbatim>\<open>HybridKEM.generate_keys\<close> returns: the bundle and whether liboqs is
  available.\<close>

definition ensure_pqc_keys ::
  "key_env \<Rightarrow> bool \<Rightarrow> pqc_bundle res \<Rightarrow> bytes \<times> bytes \<Rightarrow> bytes \<Rightarrow> load_state \<Rightarrow> unit res \<times> load_state" where
  "ensure_pqc_keys E available keys rnd password s =
     (case s of (k, d) \<Rightarrow>
      if my_kyber_priv k \<noteq> None \<and> my_pqc_combined_pub k \<noteq> None then (Inr (), (k, d))
      else if \<not> available then (Inl KeyStoreError, (k, d))
      else case keys of Inl e \<Rightarrow> (Inl (if caught e then KeyStoreError else e), (k, d))
        | Inr b \<Rightarrow>
          (case encrypt_secret (ke_db E) (fst rnd) (snd rnd) (pb_kyber_priv b) password of
             Inl e \<Rightarrow> (Inl (if caught e then KeyStoreError else e), (k, d))
           | Inr w \<Rightarrow>
               (Inr (), (k\<lparr>my_kyber_priv := Some (pb_kyber_priv b), my_pqc_combined_pub := Some (pb_combined_pub b)\<rparr>,
                  put_setting (ustr ''pqc_combined_pub_b64'') (Text (b64encode (pb_combined_pub b)))
                    (put_setting (ustr ''kyber_priv_encrypted'') (Secret w) d)))))"

definition load_pqc_bundle :: "key_env \<Rightarrow> bytes \<Rightarrow> load_state \<Rightarrow> pqc_bundle option res \<times> load_state" where
  "load_pqc_bundle E password s =
     (case s of (k, d) \<Rightarrow>
      let fail = (\<lambda>e. (if caught e then Inr None else Inl e, (k, d))) in
      case (secret_setting ''kyber_priv_encrypted'' d, secret_setting ''pqc_x25519_priv_encrypted'' d,
            text_setting ''pqc_combined_pub_b64'' d) of
        (Some ky, Some x, Some pub) \<Rightarrow>
          (case decrypt_secret (ke_db E) ky password of Inl e \<Rightarrow> fail e | Inr kyber \<Rightarrow>
           case decrypt_secret (ke_db E) x password of Inl e \<Rightarrow> fail e | Inr x_priv \<Rightarrow>
           case b64decode pub of Inl e \<Rightarrow> fail e | Inr combined \<Rightarrow>
             if length x_priv \<noteq> 32 then fail ValueError
             else (Inr (Some \<lparr>pb_x25519_priv = x_priv, pb_kyber_priv = kyber, pb_combined_pub = combined\<rparr>),
                   (k\<lparr>my_kyber_priv := Some kyber, my_pqc_combined_pub := Some combined\<rparr>, d)))
      | _ \<Rightarrow> (Inr None, (k, d)))"

definition ensure_pqc_keys_full ::
  "key_env \<Rightarrow> bool \<Rightarrow> pqc_bundle res \<Rightarrow> (nat \<Rightarrow> bytes \<times> bytes) \<Rightarrow> bytes \<Rightarrow> load_state \<Rightarrow>
   pqc_bundle option res \<times> load_state" where
  "ensure_pqc_keys_full E available keys rnd password s =
     (case s of (k, d) \<Rightarrow>
      let stored = (case (my_kyber_priv k, my_pqc_combined_pub k, secret_setting ''pqc_x25519_priv_encrypted'' d) of
            (Some ky, Some pub, Some w) \<Rightarrow>
              (case decrypt_secret (ke_db E) w password of
                 Inr x \<Rightarrow> if length x = 32
                          then Inr (Some \<lparr>pb_x25519_priv = x, pb_kyber_priv = ky, pb_combined_pub = pub\<rparr>) else Inr None
               | Inl e \<Rightarrow> if caught e then Inr None else Inl e)
          | _ \<Rightarrow> Inr None);
          fail = (\<lambda>e. (if caught e then Inr None else Inl e, (k, d)));
          enc = (\<lambda>i b. encrypt_secret (ke_db E) (fst (rnd i)) (snd (rnd i)) b password)
      in if \<not> available then (Inr None, (k, d))
         else case stored of Inl e \<Rightarrow> (Inl e, (k, d)) | Inr (Some b) \<Rightarrow> (Inr (Some b), (k, d))
         | Inr None \<Rightarrow>
             (case keys of Inl e \<Rightarrow> fail e | Inr b \<Rightarrow>
              case enc 0 (pb_kyber_priv b) of Inl e \<Rightarrow> fail e | Inr wk \<Rightarrow>
              case enc 1 (pb_x25519_priv b) of Inl e \<Rightarrow> fail e | Inr wx \<Rightarrow>
                (Inr (Some b),
                 (k\<lparr>my_kyber_priv := Some (pb_kyber_priv b), my_pqc_combined_pub := Some (pb_combined_pub b)\<rparr>,
                  put_setting (ustr ''pqc_combined_pub_b64'') (Text (b64encode (pb_combined_pub b)))
                   (put_setting (ustr ''pqc_x25519_priv_encrypted'') (Secret wx)
                    (put_setting (ustr ''kyber_priv_encrypted'') (Secret wk) d))))))"

end
