(* ===== verification/Password_Change.thy ===== *)
theory Password_Change
  imports Key_Store
begin

text \<open>
  The operations of \<^verbatim>\<open>KeyStore\<close> that replace keys or passwords: rotation of the RSA key, change
  of the master password (and its second implementation in \<^verbatim>\<open>services/auth_manager.py\<close>),
  recovery, and duress mode. Everything random is an argument. The statements of one method form one
  transaction: the database the model returns on an exception is the one before the call, unless the
  method had committed. Names of friends are unique, so that \<^verbatim>\<open>UPDATE ... WHERE name\<close> changes the
  row it was computed from.
\<close>

text \<open>The exception handlers of these methods: \<^verbatim>\<open>ValueError\<close> and \<^verbatim>\<open>TypeError\<close> become
  \<^verbatim>\<open>KeyStoreError\<close>; anything else, \<^verbatim>\<open>InvalidTag\<close> included, passes.\<close>

definition as_keystore_error :: "enigma_error \<Rightarrow> enigma_error" where
  "as_keystore_error e = (if caught e then KeyStoreError else e)"

section \<open>Rotation of the RSA key\<close>

definition rotate_rsa_key ::
  "key_env \<Rightarrow> bytes \<Rightarrow> bytes \<Rightarrow> rat \<Rightarrow> load_state \<Rightarrow> unit res \<times> load_state" where
  "rotate_rsa_key E new_priv password now s =
     (case s of (k, d) \<Rightarrow>
      case secret_setting ''global_secret'' d of None \<Rightarrow> (Inl KeyStoreError, (k, d)) | Some w \<Rightarrow>
      case decrypt_secret (ke_db E) w password of Inl e \<Rightarrow> (Inl (as_keystore_error e), (k, d)) | Inr _ \<Rightarrow>
      case text_setting ''private_key_encrypted'' d of None \<Rightarrow> (Inl KeyStoreError, (k, d)) | Some current_pem \<Rightarrow>
      case privkey_to_encrypted_pem E new_priv password of Inl e \<Rightarrow> (Inl (as_keystore_error e), (k, d)) | Inr new_pem \<Rightarrow>
        (let new_pub = public_key E new_priv;
             d1 = update_setting (ustr ''private_key_encrypted'') (Text new_pem)
                   (update_setting (ustr ''public_key'') (Text (pubkey_to_pem E new_pub))
                     (put_setting (ustr ''legacy_key_expiry'')
                        (Number (now + of_nat (LEGACY_KEY_RETENTION_DAYS * 86400)))
                       (put_setting (ustr ''legacy_private_key_encrypted'') (Text current_pem) d)));
             k1 = k\<lparr>my_priv := Some new_priv, my_pub := Some new_pub\<rparr>
         in case pem_to_privkey E current_pem password of
              Inl e \<Rightarrow> (Inl (as_keystore_error e), (k1, d1))
            | Inr old_priv \<Rightarrow> (Inr (), (k1\<lparr>legacy_priv := Some old_priv, needs_rotation := False\<rparr>, d1))))"

section \<open>Change of the master password\<close>

record change_rnd =
  cr_global :: "bytes \<times> bytes"
  cr_totp :: "bytes \<times> bytes"
  cr_ratchet :: "bytes \<times> bytes"
  cr_friend :: "nat \<Rightarrow> bytes \<times> bytes"

text \<open>One encrypted column of a friend: the new wrapper with the plaintext, the old wrapper when a
  value or type error is caught, or the exception.\<close>

definition change_column ::
  "key_env \<Rightarrow> bytes \<times> bytes \<Rightarrow> bytes \<Rightarrow> bytes \<Rightarrow> enc_dict option \<Rightarrow> (enc_dict option \<times> bytes option) res" where
  "change_column E rnd old_password new_password c =
     (case c of None \<Rightarrow> Inr (None, None)
      | Some w \<Rightarrow>
          (let fail = (\<lambda>e. if caught e then Inr (Some w, None) else Inl e) in
           case decrypt_secret (ke_db E) w old_password of Inl e \<Rightarrow> fail e | Inr plain \<Rightarrow>
           case encrypt_secret (ke_db E) (fst rnd) (snd rnd) plain new_password of Inl e \<Rightarrow> fail e
           | Inr w' \<Rightarrow> Inr (Some w', Some plain)))"

text \<open>The loop over the friends with a shared secret; the second result is \<^verbatim>\<open>friend_updates\<close>.\<close>

fun change_friends ::
  "key_env \<Rightarrow> (nat \<Rightarrow> bytes \<times> bytes) \<Rightarrow> bytes \<Rightarrow> bytes \<Rightarrow> friend_row list \<Rightarrow> nat \<Rightarrow>
   (friend_row list \<times> (ustr \<times> bytes) list) res" where
  "change_friends E rnd old_password new_password [] n = Inr ([], [])"
| "change_friends E rnd old_password new_password (r # rs) n =
     (if fr_has_shared_secret r \<and> fr_shared_secret_encrypted r \<noteq> None then
        (case change_column E (rnd n) old_password new_password (fr_shared_secret_encrypted r) of
           Inl e \<Rightarrow> Inl e | Inr (sec, plain) \<Rightarrow>
         case change_column E (rnd (n + 1)) old_password new_password (fr_ecdh_priv_encrypted r) of
           Inl e \<Rightarrow> Inl e | Inr (ecdh, _) \<Rightarrow>
         case change_friends E rnd old_password new_password rs (n + 2) of
           Inl e \<Rightarrow> Inl e | Inr (rs', updates) \<Rightarrow>
             Inr (r\<lparr>fr_shared_secret_encrypted := sec, fr_ecdh_priv_encrypted := ecdh\<rparr> # rs',
                  (case plain of Some p \<Rightarrow> [(fr_name r, p)] | None \<Rightarrow> []) @ updates))
      else case change_friends E rnd old_password new_password rs n of
           Inl e \<Rightarrow> Inl e | Inr (rs', updates) \<Rightarrow> Inr (r # rs', updates))"

text \<open>The optional TOTP secret is decrypted before anything is re-encrypted.\<close>

definition open_totp :: "key_env \<Rightarrow> bytes \<Rightarrow> db \<Rightarrow> bytes option res" where
  "open_totp E old_password d = open_column E old_password (secret_setting ''totp_secret_encrypted'' d)"

text \<open>The settings that are re-encrypted: the global secret, the RSA key, the TOTP secret and the
  ratchet storage key, in this order.\<close>

definition rewrap_settings ::
  "key_env \<Rightarrow> change_rnd \<Rightarrow> bytes \<Rightarrow> bytes \<Rightarrow> bytes \<Rightarrow> bytes option \<Rightarrow> bytes option \<Rightarrow> db \<Rightarrow> db res" where
  "rewrap_settings E rnd new_password gs_plain priv_key totp_plain ratchet_key d =
     (let enc = (\<lambda>r b. encrypt_secret (ke_db E) (fst r) (snd r) b new_password) in
      case enc (cr_global rnd) gs_plain of Inl e \<Rightarrow> Inl e | Inr new_gs \<Rightarrow>
      case privkey_to_encrypted_pem E priv_key new_password of Inl e \<Rightarrow> Inl e | Inr new_pk_pem \<Rightarrow>
        let d1 = update_setting (ustr ''private_key_encrypted'') (Text new_pk_pem)
                   (update_setting (ustr ''global_secret'') (Secret new_gs) d);
            d2 = (case totp_plain of None \<Rightarrow> Inr d1
                  | Some t \<Rightarrow> (case enc (cr_totp rnd) t of Inl e \<Rightarrow> Inl e
                              | Inr w \<Rightarrow> Inr (update_setting (ustr ''totp_secret_encrypted'') (Secret w) d1)))
        in case d2 of Inl e \<Rightarrow> Inl e
           | Inr d2 \<Rightarrow>
             (case ratchet_key of None \<Rightarrow> Inr d2
              | Some key \<Rightarrow> (case enc (cr_ratchet rnd) key of Inl e \<Rightarrow> Inl e
                            | Inr w \<Rightarrow> Inr (put_setting (ustr ''ratchet_storage_key'') (Secret w) d2))))"

definition update_friend_secrets :: "(ustr \<times> bytes) list \<Rightarrow> friend list \<Rightarrow> friend list" where
  "update_friend_secrets updates fs =
     map (\<lambda>(n, p, s). (n, p, case map_of updates n of Some b \<Rightarrow> Some b | None \<Rightarrow> s)) fs"

definition change_password ::
  "key_env \<Rightarrow> change_rnd \<Rightarrow> bytes \<Rightarrow> bytes \<Rightarrow> load_state \<Rightarrow> bool res \<times> load_state" where
  "change_password E rnd old_password new_password s =
     (case s of (k, d) \<Rightarrow>
      let fail = (\<lambda>e. (Inl (as_keystore_error e), (k, d))) in
      case secret_setting ''global_secret'' d of None \<Rightarrow> fail KeyStoreError | Some w \<Rightarrow>
      case decrypt_secret (ke_db E) w old_password of Inl e \<Rightarrow> fail e | Inr gs_plain \<Rightarrow>
      case text_setting ''private_key_encrypted'' d of None \<Rightarrow> fail KeyStoreError | Some pem \<Rightarrow>
      case pem_to_privkey E pem old_password of Inl e \<Rightarrow> fail e | Inr priv_key \<Rightarrow>
      case change_friends E (cr_friend rnd) old_password new_password (friends_tab d) 0 of
        Inl e \<Rightarrow> fail e | Inr (rows, updates) \<Rightarrow>
      case open_totp E old_password d of Inl e \<Rightarrow> fail e | Inr totp_plain \<Rightarrow>
      case rewrap_settings E rnd new_password gs_plain priv_key totp_plain (ratchet_storage_key k)
             (d\<lparr>friends_tab := rows\<rparr>) of
        Inl e \<Rightarrow> fail e
      | Inr d' \<Rightarrow>
          (Inr True, (k\<lparr>global_secret := Some gs_plain, my_priv := Some priv_key,
                        friends := update_friend_secrets updates (friends k)\<rparr>, d')))"

text \<open>
  \<^verbatim>\<open>AuthManager.change_password\<close>: every failure to decrypt a friend's secret is skipped, nothing
  but the global secret, the RSA key, the shared secrets and the TOTP secret is re-encrypted, and every
  exception becomes \<^verbatim>\<open>KeyStoreError\<close>. \<open>encodable\<close>: both passwords have a method
  \<^verbatim>\<open>encode\<close> (they are \<^verbatim>\<open>str\<close> or \<^verbatim>\<open>SecureString\<close>, not \<^verbatim>\<open>bytes\<close>).
\<close>

fun open_friend_secrets :: "key_env \<Rightarrow> bytes \<Rightarrow> friend_row list \<Rightarrow> (ustr \<times> bytes) list" where
  "open_friend_secrets E old_password [] = []"
| "open_friend_secrets E old_password (r # rs) =
     (let rest = open_friend_secrets E old_password rs in
      if fr_has_shared_secret r then
        (case fr_shared_secret_encrypted r of None \<Rightarrow> rest
         | Some w \<Rightarrow> (case decrypt_secret (ke_db E) w old_password of
                       Inr plain \<Rightarrow> (fr_name r, plain) # rest | Inl _ \<Rightarrow> rest))
      else rest)"

fun rewrap_friend_secrets ::
  "key_env \<Rightarrow> (nat \<Rightarrow> bytes \<times> bytes) \<Rightarrow> bytes \<Rightarrow> (ustr \<times> bytes) list \<Rightarrow> nat \<Rightarrow> friend_row list \<Rightarrow> friend_row list res" where
  "rewrap_friend_secrets E rnd new_password [] n rows = Inr rows"
| "rewrap_friend_secrets E rnd new_password ((name, plain) # rest) n rows =
     (case encrypt_secret (ke_db E) (fst (rnd n)) (snd (rnd n)) plain new_password of Inl e \<Rightarrow> Inl e
      | Inr w \<Rightarrow> rewrap_friend_secrets E rnd new_password rest (n + 1)
          (map (\<lambda>r. if fr_name r = name then r\<lparr>fr_shared_secret_encrypted := Some w\<rparr> else r) rows))"

definition manager_open_totp :: "key_env \<Rightarrow> bytes \<Rightarrow> db \<Rightarrow> bytes option" where
  "manager_open_totp E old_password d =
     (case secret_setting ''totp_secret_encrypted'' d of None \<Rightarrow> None
      | Some t \<Rightarrow> (case decrypt_secret (ke_db E) t old_password of Inr p \<Rightarrow> Some p | Inl _ \<Rightarrow> None))"

definition manager_change_password ::
  "key_env \<Rightarrow> change_rnd \<Rightarrow> bool \<Rightarrow> bytes \<Rightarrow> bytes \<Rightarrow> load_state \<Rightarrow> unit res \<times> load_state" where
  "manager_change_password E rnd encodable old_password new_password s =
     (case s of (k, d) \<Rightarrow>
      let fail = (Inl KeyStoreError, (k, d)) in
      case secret_setting ''global_secret'' d of None \<Rightarrow> fail | Some w \<Rightarrow>
      case decrypt_secret (ke_db E) w old_password of Inl _ \<Rightarrow> fail | Inr gs_plain \<Rightarrow>
      case text_setting ''private_key_encrypted'' d of None \<Rightarrow> fail | Some pem \<Rightarrow>
      case (if encodable then pem_to_privkey E pem old_password else Inl AttributeError) of
        Inl _ \<Rightarrow> fail | Inr priv_key \<Rightarrow>
      let friend_secrets = open_friend_secrets E old_password (friends_tab d);
          totp_plain = manager_open_totp E old_password d
      in case rewrap_friend_secrets E (cr_friend rnd) new_password friend_secrets 0 (friends_tab d) of
           Inl _ \<Rightarrow> fail
         | Inr rows \<Rightarrow>
           (case rewrap_settings E rnd new_password gs_plain priv_key totp_plain None (d\<lparr>friends_tab := rows\<rparr>) of
              Inl _ \<Rightarrow> fail
            | Inr d' \<Rightarrow>
                (Inr (), (k\<lparr>global_secret := Some gs_plain, my_priv := Some priv_key,
                            friends := update_friend_secrets friend_secrets (friends k)\<rparr>, d'))))"

section \<open>Recovery\<close>

text \<open>What \<^verbatim>\<open>reset_with_recovery_key\<close> draws: keys, salts and nonces, and the hybrid keys it
  generates (an exception when generation fails).\<close>

record reset_rnd =
  rr_priv :: bytes
  rr_global :: bytes
  rr_ratchet :: bytes
  rr_hybrid :: "hybrid_keys res"
  rr_salts :: "nat \<Rightarrow> bytes \<times> bytes"

text \<open>The block of the hybrid keys: every exception in it is caught, and what was written before it
  stays in the transaction.\<close>

definition reset_hybrid :: "key_env \<Rightarrow> reset_rnd \<Rightarrow> bytes \<Rightarrow> db \<Rightarrow> db" where
  "reset_hybrid E rnd new_password d =
     (let enc = (\<lambda>i b. encrypt_secret (ke_db E) (fst (rr_salts rnd i)) (snd (rr_salts rnd i)) b new_password) in
      if \<not> hybrid_sig_available E then d
      else case rr_hybrid rnd of Inl _ \<Rightarrow> d
      | Inr hk \<Rightarrow>
        (case enc 1 (hk_ed_priv hk) of Inl _ \<Rightarrow> d
         | Inr ed \<Rightarrow>
           (let d1 = put_setting (ustr ''ed25519_priv_encrypted'') (Secret ed) d in
            case enc 2 (hk_dil_priv hk) of Inl _ \<Rightarrow> d1
            | Inr dil \<Rightarrow>
                put_setting (ustr ''hybrid_sig_combined_pub_b64'') (Text (b64encode (hk_combined_pub hk)))
                  (put_setting (ustr ''dilithium_priv_encrypted'') (Secret dil) d1))))"

definition clear_friend :: "friend_row \<Rightarrow> friend_row" where
  "clear_friend r = r\<lparr>fr_has_shared_secret := False, fr_shared_secret_encrypted := None,
                      fr_ecdh_priv_encrypted := None, fr_ratchet_state_json := None\<rparr>"

definition reset_memory :: "key_env \<Rightarrow> reset_rnd \<Rightarrow> key_store \<Rightarrow> key_store" where
  "reset_memory E rnd k =
     (let k1 = (ks_wipe k)\<lparr>my_pub := Some (public_key E (rr_priv rnd)), my_priv := Some (rr_priv rnd),
                 legacy_priv := None, global_secret := Some (rr_global rnd), duress_mode := False,
                 needs_rotation := False, ratchet_storage_key := Some (rr_ratchet rnd)\<rparr>;
          k2 = (if hybrid_sig_available E then
                  (case rr_hybrid rnd of Inl _ \<Rightarrow> k1
                   | Inr hk \<Rightarrow> k1\<lparr>my_ed_priv := Some (hk_ed_priv hk), my_dil_priv := Some (hk_dil_priv hk),
                                 my_hybrid_sig_combined_pub := Some (hk_combined_pub hk)\<rparr>)
                else k1)
      in k2\<lparr>friends := map (\<lambda>(n, p, _). (n, p, None)) (friends k2), friends_ecdh_priv := []\<rparr>)"

text \<open>The last component of the state is the master password of \<^verbatim>\<open>database.py\<close>.\<close>

definition reset_with_recovery_key ::
  "key_env \<Rightarrow> reset_rnd \<Rightarrow> bytes \<Rightarrow> load_state \<times> bytes option \<Rightarrow> bool res \<times> (load_state \<times> bytes option)" where
  "reset_with_recovery_key E rnd new_password s =
     (case s of ((k, d), master) \<Rightarrow>
      let enc = (\<lambda>i b. encrypt_secret (ke_db E) (fst (rr_salts rnd i)) (snd (rr_salts rnd i)) b new_password);
          fail = (Inl KeyStoreError, ((k, d), master))
      in case privkey_to_encrypted_pem E (rr_priv rnd) new_password of Inl _ \<Rightarrow> fail | Inr encrypted_priv \<Rightarrow>
         case enc 0 (rr_global rnd) of Inl _ \<Rightarrow> fail | Inr enc_gs \<Rightarrow>
         case enc 3 (rr_ratchet rnd) of Inl _ \<Rightarrow> fail | Inr enc_rs \<Rightarrow>
           let d1 = update_setting (ustr ''private_key_encrypted'') (Text encrypted_priv)
                      (update_setting (ustr ''public_key'') (Text (pubkey_to_pem E (public_key E (rr_priv rnd)))) d);
               d2 = delete_setting (ustr ''legacy_key_expiry'')
                      (delete_setting (ustr ''legacy_private_key_encrypted'') d1);
               d3 = reset_hybrid E rnd new_password (update_setting (ustr ''global_secret'') (Secret enc_gs) d2);
               d4 = delete_setting (ustr ''duress_verifier'')
                      (delete_setting (ustr ''totp_enabled'')
                        (delete_setting (ustr ''totp_setup_complete'')
                          (delete_setting (ustr ''totp_secret_encrypted'') d3)));
               d5 = delete_setting (ustr ''ratchet_hkdf_salt'')
                      (put_setting (ustr ''ratchet_storage_key'') (Secret enc_rs) d4);
               d6 = d5\<lparr>friends_tab := map clear_friend (friends_tab d5)\<rparr>
           in (Inr True, ((reset_memory E rnd k, d6), Some new_password)))"

section \<open>Duress mode\<close>

definition set_duress_password ::
  "key_env \<Rightarrow> bytes \<times> bytes \<times> bytes \<Rightarrow> bytes \<Rightarrow> bytes \<Rightarrow> load_state \<Rightarrow> unit res \<times> load_state" where
  "set_duress_password E dummy decoy_priv duress_password s =
     (case s of (k, d) \<Rightarrow>
      case dummy of (secret, salt, nonce) \<Rightarrow>
      case encrypt_secret (ke_db E) salt nonce secret duress_password of Inl e \<Rightarrow> (Inl e, (k, d)) | Inr enc \<Rightarrow>
      case privkey_to_encrypted_pem E decoy_priv duress_password of Inl e \<Rightarrow> (Inl e, (k, d)) | Inr decoy_pem \<Rightarrow>
        (Inr (), (k, put_setting (ustr ''duress_decoy_privkey'') (Text decoy_pem)
                       (put_setting (ustr ''duress_verifier'') (Secret enc) d))))"

text \<open>\<open>fresh_priv\<close> is the key that is generated when no stored decoy key opens, \<open>token\<close> the random
  global secret.\<close>

definition load_duress_decoy ::
  "key_env \<Rightarrow> bytes \<Rightarrow> bytes \<Rightarrow> bytes option \<Rightarrow> load_state \<Rightarrow> bool \<times> load_state" where
  "load_duress_decoy E fresh_priv token password s =
     (case s of (k, d) \<Rightarrow>
      let k1 = ks_wipe k;
          stored = (case password of None \<Rightarrow> None
                    | Some pw \<Rightarrow> (case text_setting ''duress_decoy_privkey'' d of None \<Rightarrow> None
                                 | Some pem \<Rightarrow> (case pem_to_privkey E pem pw of Inr p \<Rightarrow> Some p | Inl _ \<Rightarrow> None)));
          (decoy_priv, d1) = (case stored of Some p \<Rightarrow> (p, d)
             | None \<Rightarrow> (fresh_priv,
                 case password of None \<Rightarrow> d
                 | Some pw \<Rightarrow> (case privkey_to_encrypted_pem E fresh_priv pw of Inl _ \<Rightarrow> d
                              | Inr pem \<Rightarrow> put_setting (ustr ''duress_decoy_privkey'') (Text pem) d)))
      in (True, (k1\<lparr>my_priv := Some decoy_priv, my_pub := Some (public_key E decoy_priv),
                    global_secret := Some token, duress_mode := True\<rparr>, d1)))"

end
