(* ===== verification/Key_Invariant.thy ===== *)
theory Key_Invariant
  imports Password_Change
begin

text \<open>
  The key store as a state machine over its operations, and the invariant that ties its list of
  friends, its dictionaries and the table of friends together.
\<close>

section \<open>The invariant\<close>

text \<open>The names the dictionaries of friends know.\<close>

definition dict_names :: "key_store \<Rightarrow> ustr set" where
  "dict_names k = fst ` (set (friends_x25519 k)) \<union> fst ` set (friends_ecdh_priv k) \<union>
     fst ` set (friends_capabilities k) \<union> fst ` set (friends_pqc_combined_pub k) \<union>
     fst ` set (friends_hybrid_sig_pubs k)"

text \<open>The invariant: a friend is listed once, the dictionaries speak of listed friends only, and every
  listed friend has a row; names are unique in the table.\<close>

definition friends_inv :: "load_state \<Rightarrow> bool" where
  "friends_inv s \<longleftrightarrow>
     distinct (map fst (friends (fst s))) \<and> dict_names (fst s) \<subseteq> fst ` set (friends (fst s)) \<and>
     fst ` set (friends (fst s)) \<subseteq> fr_name ` set (friends_tab (snd s)) \<and>
     distinct (map fr_name (friends_tab (snd s)))"

text \<open>Most operations keep the names and may only empty dictionaries.\<close>

definition frame :: "load_state \<Rightarrow> load_state \<Rightarrow> bool" where
  "frame s t \<longleftrightarrow>
     map fst (friends (fst t)) = map fst (friends (fst s)) \<and> dict_names (fst t) \<subseteq> dict_names (fst s) \<and>
     map fr_name (friends_tab (snd t)) = map fr_name (friends_tab (snd s))"

lemma frame_refl [simp]: "frame s s"
  by (simp add: frame_def)

lemma frame_trans: "frame s t \<Longrightarrow> frame t u \<Longrightarrow> frame s u"
  by (auto simp: frame_def)

lemma frame_inv: "friends_inv s \<Longrightarrow> frame s t \<Longrightarrow> friends_inv t"
  unfolding friends_inv_def frame_def by (metis list.set_map order_trans)

lemma dict_names_updates [simp]:
  "dict_names (k\<lparr>my_pub := a\<rparr>) = dict_names k" "dict_names (k\<lparr>my_priv := a\<rparr>) = dict_names k"
  "dict_names (k\<lparr>legacy_priv := a\<rparr>) = dict_names k" "dict_names (k\<lparr>global_secret := a\<rparr>) = dict_names k"
  "dict_names (k\<lparr>friends := fs\<rparr>) = dict_names k" "dict_names (k\<lparr>my_kyber_priv := a\<rparr>) = dict_names k"
  "dict_names (k\<lparr>my_pqc_combined_pub := a\<rparr>) = dict_names k"
  "dict_names (k\<lparr>cached_pqc_bundle := b\<rparr>) = dict_names k"
  "dict_names (k\<lparr>my_ed_priv := a\<rparr>) = dict_names k" "dict_names (k\<lparr>my_dil_priv := a\<rparr>) = dict_names k"
  "dict_names (k\<lparr>my_hybrid_sig_combined_pub := a\<rparr>) = dict_names k"
  "dict_names (k\<lparr>ratchet_storage_key := a\<rparr>) = dict_names k"
  "dict_names (k\<lparr>duress_mode := c\<rparr>) = dict_names k" "dict_names (k\<lparr>needs_rotation := c\<rparr>) = dict_names k"
  by (simp_all add: dict_names_def)

lemma wipe_frame: "frame (k, d) (ks_wipe k, d)"
  by (auto simp: frame_def ks_wipe_def dict_names_def)

subsection \<open>Loading\<close>

lemma load_then_frame:
  "frame s (snd r) \<Longrightarrow> (\<And>t. frame t (snd (f t))) \<Longrightarrow> frame s (snd (load_then r f))"
  by (auto simp: load_then_def split: prod.splits sum.splits bool.splits intro: frame_trans)

lemma load_legacy_frame: "frame (k, d) (snd (load_legacy E password now (k, d)))"
  by (simp add: load_legacy_def frame_def Let_def split: option.split sum.split setting.split)

lemma load_rsa_frame: "frame s (snd (load_rsa E password now s))"
proof (cases s)
  case (Pair k d)
  have "frame (k, d) (snd (load_legacy E password now (k\<lparr>my_pub := a, needs_rotation := b, my_priv := c\<rparr>, d)))" for a b c
    using load_legacy_frame [of "k\<lparr>my_pub := a, needs_rotation := b, my_priv := c\<rparr>" d E password now]
    by (simp add: frame_def)
  with Pair show ?thesis
    by (simp add: load_rsa_def frame_def Let_def split: option.split sum.split)
qed

lemma load_global_frame: "frame s (snd (load_global E password s))"
  by (simp add: load_global_def frame_def split: prod.split option.split sum.split)

lemma load_kyber_frame: "frame s (snd (load_kyber E password s))"
  by (simp add: load_kyber_def frame_def Let_def split: prod.split option.split sum.split)

lemma load_bundle_frame: "frame s (snd (load_bundle E password s))"
  by (cases s) (simp add: load_bundle_def frame_def Let_def split: option.split sum.split)

lemma load_hybrid_frame: "frame s (snd (load_hybrid E password s))"
  by (cases s) (simp add: load_hybrid_def frame_def Let_def split: option.split sum.split)

lemma migrate_ratchet_blobs_names:
  "map fr_name (fst (migrate_ratchet_blobs E nonce a b rows n)) = map fr_name rows"
  by (induction rows arbitrary: n) (simp_all add: split_beta Let_def split: option.split)

lemma load_ratchet_key_frame: "frame s (snd (load_ratchet_key E rnd password s))"
proof (cases s)
  case (Pair k d)
  have "frame (k, d) (ks_wipe k, d)" by (rule wipe_frame)
  with Pair show ?thesis
    by (simp add: load_ratchet_key_def frame_def Let_def migrate_ratchet_blobs_names
        split: option.split sum.split)
qed

text \<open>Loading a friend appends its name, and only its name, to the list and to the dictionaries.\<close>

definition adds_name :: "ustr \<Rightarrow> key_store \<Rightarrow> key_store \<Rightarrow> bool" where
  "adds_name n k k' \<longleftrightarrow> map fst (friends k') = map fst (friends k) @ [n] \<and> dict_names k' \<subseteq> insert n (dict_names k)"

lemma update_given_names: "fst ` set (update_given n v m) \<subseteq> insert n (fst ` set m)"
  by (simp add: update_given_def dom_update subset_insertI split: option.split)

lemma dict_names_loaded:
  "dict_names (k\<lparr>friends := f, friends_x25519 := update_given n a (friends_x25519 k),
     friends_ecdh_priv := update_given n b (friends_ecdh_priv k),
     friends_capabilities := AList.update n c (friends_capabilities k),
     friends_pqc_combined_pub := update_given n d (friends_pqc_combined_pub k)\<rparr>) \<subseteq> insert n (dict_names k)"
  using update_given_names [of n a "friends_x25519 k"] update_given_names [of n b "friends_ecdh_priv k"]
    update_given_names [of n d "friends_pqc_combined_pub k"]
  by (auto simp: dict_names_def dom_update)

lemma dict_names_loaded_hybrid:
  "dict_names (k\<lparr>friends := f, friends_x25519 := update_given n a (friends_x25519 k),
     friends_ecdh_priv := update_given n b (friends_ecdh_priv k),
     friends_capabilities := AList.update n c (friends_capabilities k),
     friends_pqc_combined_pub := update_given n d (friends_pqc_combined_pub k),
     friends_hybrid_sig_pubs := AList.update n e (friends_hybrid_sig_pubs k)\<rparr>) \<subseteq> insert n (dict_names k)"
  using update_given_names [of n a "friends_x25519 k"] update_given_names [of n b "friends_ecdh_priv k"]
    update_given_names [of n d "friends_pqc_combined_pub k"]
  by (auto simp: dict_names_def dom_update)

lemma dict_names_loaded_x25519:
  "dict_names (k\<lparr>friends := f, friends_x25519 := update_given n a (friends_x25519 k)\<rparr>) \<subseteq> insert n (dict_names k)"
  using update_given_names [of n a "friends_x25519 k"] by (auto simp: dict_names_def)

lemmas dict_names_load = dict_names_loaded dict_names_loaded_hybrid dict_names_loaded_x25519

lemma load_friend_names:
  "snd (load_friend E password r k) = k \<and> \<not> is_ok (fst (load_friend E password r k)) \<or>
   adds_name (fr_name r) k (snd (load_friend E password r k))"
proof (cases "pem_to_pubkey E (fr_public_key_pem r)")
  case (Inr pub)
  note pub = this
  show ?thesis
  proof (cases "if fr_has_shared_secret r then open_column E password (fr_shared_secret_encrypted r) else Inr None")
    case (Inr secret)
    note secret = this
    show ?thesis
    proof (cases "open_column E password (fr_ecdh_priv_encrypted r)")
      case (Inr ecdh)
      note facts = pub secret this
      show ?thesis
      proof (cases "given (fr_hybrid_sig_pub_b64 r) \<and> hybrid_sig_available E")
        case True
        then show ?thesis
          using facts by (cases "b64decode (the (fr_hybrid_sig_pub_b64 r))")
            (simp_all add: load_friend_def Let_def adds_name_def dict_names_load split: sum.split)
      next
        case False
        then show ?thesis
          using facts by (simp add: load_friend_def Let_def adds_name_def dict_names_load del: de_Morgan_conj)
      qed
    qed (use pub secret in \<open>simp add: load_friend_def Let_def adds_name_def dict_names_load\<close>)
  qed (use pub in \<open>simp add: load_friend_def Let_def\<close>)
qed (simp add: load_friend_def Let_def)

text \<open>The part of the invariant that speaks of the memory alone, and the names that may still come.\<close>

definition memory_inv :: "key_store \<Rightarrow> bool" where
  "memory_inv k \<longleftrightarrow> distinct (map fst (friends k)) \<and> dict_names k \<subseteq> fst ` set (friends k)"

lemma adds_name_inv:
  assumes "adds_name n k k'" "memory_inv k" "n \<notin> fst ` set (friends k)"
  shows "memory_inv k'" "fst ` set (friends k') = insert n (fst ` set (friends k))"
proof -
  have names: "map fst (friends k') = map fst (friends k) @ [n]" and dict: "dict_names k' \<subseteq> insert n (dict_names k)"
    using assms(1) by (auto simp: adds_name_def)
  from arg_cong [OF names, of set] show set: "fst ` set (friends k') = insert n (fst ` set (friends k))" by simp
  from names assms(2,3) have "distinct (map fst (friends k'))" by (simp add: memory_inv_def)
  moreover have "dict_names k' \<subseteq> fst ` set (friends k')"
    using dict assms(2) set unfolding memory_inv_def by blast
  ultimately show "memory_inv k'" by (simp add: memory_inv_def)
qed

lemma load_friend_rows_inv:
  assumes "memory_inv k" "distinct (map fr_name rows)" "fst ` set (friends k) \<inter> fr_name ` set rows = {}"
  shows "memory_inv (snd (load_friend_rows E password rows k)) \<and>
    fst ` set (friends (snd (load_friend_rows E password rows k))) \<subseteq> fst ` set (friends k) \<union> fr_name ` set rows"
  using assms
proof (induction rows arbitrary: k)
  case (Cons r rows)
  obtain res k' where load: "load_friend E password r k = (res, k')" by fastforce
  show ?case
  proof (cases res)
    case (Inl e)
    with load have rows: "snd (load_friend_rows E password (r # rows) k) = k'" by simp
    show ?thesis
    proof (cases "k' = k")
      case False
      with load_friend_names [of E password r k] load have add: "adds_name (fr_name r) k k'" by simp
      show ?thesis using adds_name_inv [OF add Cons.prems(1)] Cons.prems(3)
        unfolding rows by auto
    qed (use Cons.prems in \<open>auto simp: rows simp del: load_friend_rows.simps\<close>)
  next
    case (Inr u)
    with load_friend_names [of E password r k] load have add: "adds_name (fr_name r) k k'" by simp
    have new: "memory_inv k'" "fst ` set (friends k') = insert (fr_name r) (fst ` set (friends k))"
      using adds_name_inv [OF add Cons.prems(1)] Cons.prems(3) by simp_all
    have "fst ` set (friends k') \<inter> fr_name ` set rows = {}"
      using Cons.prems(2,3) new(2) by auto
    from Cons.IH [OF new(1) _ this] Cons.prems(2) load Inr new(2) show ?thesis by auto
  qed
qed simp

lemma load_friends_inv:
  assumes "friends_inv s"
  shows "friends_inv (snd (load_friends E password s))"
proof -
  obtain k d where s: "s = (k, d)" by fastforce
  let ?k = "k\<lparr>friends := [], friends_x25519 := [], friends_ecdh_priv := [], friends_capabilities := [],
                friends_pqc_combined_pub := [], friends_hybrid_sig_pubs := []\<rparr>"
  obtain res k' where load: "load_friend_rows E password (friends_tab d) ?k = (res, k')" by fastforce
  have "memory_inv ?k" by (simp add: memory_inv_def dict_names_def)
  then have "memory_inv k' \<and> fst ` set (friends k') \<subseteq> fr_name ` set (friends_tab d)"
    using load_friend_rows_inv [of ?k "friends_tab d" E password] assms load s by (simp add: friends_inv_def)
  moreover have "snd (load_friends E password s) = (k', d)"
    using load s by (cases res) (simp_all add: load_friends_def Let_def)
  ultimately show ?thesis using assms s by (simp add: friends_inv_def memory_inv_def)
qed

text \<open>Blocks that keep the invariant, run one after the other, keep it.\<close>

lemma load_then_inv:
  "friends_inv (snd r) \<Longrightarrow> (\<And>t. friends_inv t \<Longrightarrow> friends_inv (snd (f t))) \<Longrightarrow> friends_inv (snd (load_then r f))"
  by (auto simp: load_then_def split: prod.splits sum.splits bool.splits)

lemma keystore_error_snd [simp]: "snd (keystore_error r) = snd r"
  by (simp add: keystore_error_def split: prod.split sum.split)

lemma load_inv: "friends_inv s \<Longrightarrow> friends_inv (snd (load E rnd password now s))"
  unfolding load_def
  by (intro load_then_inv, simp only: keystore_error_snd, intro load_then_inv)
    (auto intro: load_friends_inv frame_inv load_rsa_frame load_global_frame load_kyber_frame
      load_bundle_frame load_hybrid_frame load_ratchet_key_frame)

subsection \<open>Friends\<close>

lemma delete_names: "fst ` set (AList.delete n m) = fst ` set m - {n}"
  by (force simp: AList.delete_eq)

lemma insert_or_replace_keys: "key ` set (insert_or_replace key r rows) = insert (key r) (key ` set rows)"
  by (auto simp: insert_or_replace_def)

lemma set_or_pop_names: "fst ` set (set_or_pop n v m) \<subseteq> insert n (fst ` set m)"
  by (auto simp: set_or_pop_def dom_update delete_names split: option.splits)

lemma store_hybrid_pub_fields:
  "friends (snd (store_hybrid_pub E n h k)) = friends k"
  "dict_names (snd (store_hybrid_pub E n h k)) \<subseteq> insert n (dict_names k)"
proof -
  have "dict_names (k\<lparr>friends_hybrid_sig_pubs := AList.update n p (friends_hybrid_sig_pubs k)\<rparr>) \<subseteq> insert n (dict_names k)"
    "dict_names (k\<lparr>friends_hybrid_sig_pubs := AList.delete n (friends_hybrid_sig_pubs k)\<rparr>) \<subseteq> insert n (dict_names k)" for p
    by (auto simp: dict_names_def dom_update delete_names)
  then show "dict_names (snd (store_hybrid_pub E n h k)) \<subseteq> insert n (dict_names k)"
    by (simp add: store_hybrid_pub_def subset_insertI split: sum.split)
qed (simp add: store_hybrid_pub_def split: sum.split)

lemma dict_names_saved:
  "dict_names (k\<lparr>friends := f, friends_x25519 := set_or_pop n a (friends_x25519 k),
     friends_ecdh_priv := set_or_pop n b (friends_ecdh_priv k),
     friends_capabilities := set_or_pop n c (friends_capabilities k),
     friends_pqc_combined_pub := set_or_pop n d (friends_pqc_combined_pub k)\<rparr>) \<subseteq> insert n (dict_names k)"
  using set_or_pop_names [of n a "friends_x25519 k"] set_or_pop_names [of n b "friends_ecdh_priv k"]
    set_or_pop_names [of n c "friends_capabilities k"] set_or_pop_names [of n d "friends_pqc_combined_pub k"]
  by (auto simp: dict_names_def)

lemma filter_other_names: "fst ` set (filter (\<lambda>(n, _, _). n \<noteq> name) fs) = fst ` set fs - {name}"
  by force

lemma filter_names: "map fst (filter (\<lambda>(n, _, _). n \<noteq> name) fs) = filter (\<lambda>n. n \<noteq> name) (map fst fs)"
  by (induction fs) auto

text \<open>The three outcomes of \<^verbatim>\<open>save_friend\<close>: nothing changed, only the row was written, or the
  friend was replaced in memory as well.\<close>

lemma save_friend_cases:
  obtains (unchanged) e where "save_friend E rnd password f (k, d) = (Inl e, (k, d))"
  | (row_only) e r where "fr_name r = fa_name f" "pem_to_pubkey E (fa_pem f) = Inl e"
      "save_friend E rnd password f (k, d) =
         (Inl e, (k, d\<lparr>friends_tab := insert_or_replace fr_name r (friends_tab d)\<rparr>))"
  | (saved) res r k' x where "fr_name r = fa_name f" 
      "friends k' = filter (\<lambda>(n, _, _). n \<noteq> fa_name f) (friends k) @ [(fa_name f, x)]"
      "dict_names k' \<subseteq> insert (fa_name f) (dict_names k)"
      "save_friend E rnd password f (k, d) =
         (res, (k', d\<lparr>friends_tab := insert_or_replace fr_name r (friends_tab d)\<rparr>))"
proof (cases "encrypt_columns E rnd password (fa_shared_secret f) (fa_ecdh_priv_bytes f)")
  case (Inl e)
  then show thesis by (intro unchanged) (simp add: save_friend_def)
next
  case (Inr p)
  obtain sec ecdh where p: "p = (sec, ecdh)" by fastforce
  let ?r = "friend_row_of f sec ecdh (friends_tab d)"
  have name: "fr_name ?r = fa_name f" by (simp add: friend_row_of_def)
  show thesis
  proof (cases "pem_to_pubkey E (fa_pem f)")
    case (Inl e)
    with Inr p show thesis by (intro row_only [OF name]) (simp_all add: save_friend_def Let_def)
  next
    case (Inr pub)
    show thesis
      by (rule saved [OF name])
        (use Inr \<open>encrypt_columns _ _ _ _ _ = Inr p\<close> p in
          \<open>auto simp: save_friend_def Let_def split_beta store_hybrid_pub_fields
            intro!: prod_eqI dest!: subsetD [OF store_hybrid_pub_fields(2)] subsetD [OF dict_names_saved]\<close>)
  qed
qed

lemma save_friend_inv:
  assumes "friends_inv s"
  shows "friends_inv (snd (save_friend E rnd password f s))"
proof -
  obtain k d where s: "s = (k, d)" by fastforce
  show ?thesis
  proof (rule save_friend_cases [of E rnd password f k d])
    fix e r assume "fr_name r = fa_name f"
      "save_friend E rnd password f (k, d) =
         (Inl e, (k, d\<lparr>friends_tab := insert_or_replace fr_name r (friends_tab d)\<rparr>))"
    with assms s friend_table.unique_put [of "friends_tab d" r] show ?thesis
      by (auto simp: friends_inv_def insert_or_replace_keys)
  next
    fix res r k' x assume r: "fr_name r = fa_name f"
      and fs: "friends k' = filter (\<lambda>(n, _, _). n \<noteq> fa_name f) (friends k) @ [(fa_name f, x)]"
      and dict: "dict_names k' \<subseteq> insert (fa_name f) (dict_names k)"
      and save: "save_friend E rnd password f (k, d) =
         (res, (k', d\<lparr>friends_tab := insert_or_replace fr_name r (friends_tab d)\<rparr>))"
    have names: "fst ` set (friends k') = insert (fa_name f) (fst ` set (friends k))"
      using filter_other_names [of "fa_name f" "friends k"] by (simp add: fs)
    have "distinct (map fst (friends k'))"
      using assms s by (simp add: fs filter_names friends_inv_def)
    moreover have "dict_names k' \<subseteq> fst ` set (friends k')"
      using dict names assms s unfolding friends_inv_def by auto
    moreover have "fst ` set (friends k') \<subseteq> fr_name ` set (insert_or_replace fr_name r (friends_tab d))"
      using names assms s r by (auto simp: friends_inv_def insert_or_replace_keys)
    ultimately show ?thesis
      using friend_table.unique_put [of "friends_tab d" r] assms s save by (simp add: friends_inv_def)
  qed (use assms s in simp)
qed

lemma remove_friend_inv:
  assumes "friends_inv s"
  shows "friends_inv (remove_friend name s)"
proof -
  obtain k d where s: "s = (k, d)" by fastforce
  let ?t = "remove_friend name s"
  have dict: "dict_names (fst ?t) = dict_names k - {name}"
    by (simp add: s remove_friend_def dict_names_def delete_names Un_Diff)
  have fs: "fst ` set (friends (fst ?t)) = fst ` set (friends k) - {name}"
    "map fst (friends (fst ?t)) = filter (\<lambda>n. n \<noteq> name) (map fst (friends k))"
    using filter_other_names [of name "friends k"] by (simp_all add: s remove_friend_def filter_names)
  have tab: "fr_name ` set (friends_tab (snd ?t)) = fr_name ` set (friends_tab d) - {name}"
    by (auto simp: s remove_friend_def delete_key_def)
  have "distinct (map fr_name (friends_tab (snd ?t)))"
    using friend_table.unique_del [of "friends_tab d" name] assms by (simp add: s remove_friend_def friends_inv_def)
  moreover have "dict_names k \<subseteq> fst ` set (friends k)" "fst ` set (friends k) \<subseteq> fr_name ` set (friends_tab d)"
    "distinct (map fst (friends k))"
    using assms by (simp_all add: s friends_inv_def)
  ultimately show ?thesis unfolding friends_inv_def dict fs tab by auto
qed

subsection \<open>The other operations\<close>

lemma update_global_secret_frame: "frame s (snd (update_global_secret E rnd new_secret password s))"
  by (cases s) (simp add: update_global_secret_def frame_def split: sum.split)

lemma set_my_name_frame: "frame (k, d) (k, set_my_name n d)"
  by (simp add: set_my_name_def frame_def)

lemma ensure_pqc_keys_frame: "frame s (snd (ensure_pqc_keys E available keys r password s))"
  by (cases s) (simp add: ensure_pqc_keys_def frame_def split: sum.split)

lemma load_pqc_bundle_frame: "frame s (snd (load_pqc_bundle E password s))"
  by (cases s) (simp add: load_pqc_bundle_def frame_def Let_def split: sum.split option.split)

lemma ensure_pqc_keys_full_frame: "frame s (snd (ensure_pqc_keys_full E available keys rnd password s))"
  by (cases s) (simp add: ensure_pqc_keys_full_def frame_def Let_def split: sum.split option.split)

lemma rotate_rsa_key_frame: "frame s (snd (rotate_rsa_key E new_priv password now s))"
  by (cases s) (simp add: rotate_rsa_key_def frame_def Let_def split: sum.split option.split)

lemma change_friends_names:
  "change_friends E rnd old new rows n = Inr (rows', u) \<Longrightarrow> map fr_name rows' = map fr_name rows"
  by (induction rows arbitrary: n rows' u) (auto split: if_splits sum.splits)

lemma rewrap_settings_tab:
  "rewrap_settings E rnd new gs p t key d = Inr d' \<Longrightarrow> friends_tab d' = friends_tab d"
  by (auto simp: rewrap_settings_def Let_def split: sum.splits option.splits)

lemma update_friend_secrets_names [simp]: "map fst (update_friend_secrets u fs) = map fst fs"
  by (simp add: update_friend_secrets_def split_beta)

text \<open>What a successful change of the password consists of.\<close>

lemma change_passwordE:
  assumes "change_password E rnd old new (k, d) = (Inr b, (k', d'))"
  obtains w gs pem priv rows updates totp where
    "secret_setting ''global_secret'' d = Some w" "decrypt_secret (ke_db E) w old = Inr gs"
    "text_setting ''private_key_encrypted'' d = Some pem" "pem_to_privkey E pem old = Inr priv"
    "change_friends E (cr_friend rnd) old new (friends_tab d) 0 = Inr (rows, updates)"
    "open_totp E old d = Inr totp"
    "rewrap_settings E rnd new gs priv totp (ratchet_storage_key k) (d\<lparr>friends_tab := rows\<rparr>) = Inr d'"
    "k' = k\<lparr>global_secret := Some gs, my_priv := Some priv, friends := update_friend_secrets updates (friends k)\<rparr>"
  using assms by (auto simp: change_password_def Let_def split: option.splits sum.splits)

lemma change_password_error:
  assumes "change_password E rnd old new (k, d) = (Inl e, s')"
  shows "s' = (k, d)"
  using assms by (auto simp: change_password_def Let_def split: option.splits sum.splits)

lemma change_password_frame: "frame s (snd (change_password E rnd old new s))"
proof -
  obtain k d where s: "s = (k, d)" by fastforce
  obtain res k' d' where c: "change_password E rnd old new (k, d) = (res, (k', d'))"
    by (metis prod.exhaust)
  show ?thesis
  proof (cases res)
    case (Inl e)
    with change_password_error [of E rnd old new k d e "(k', d')"] c s show ?thesis by simp
  next
    case (Inr b)
    with c have "change_password E rnd old new (k, d) = (Inr b, (k', d'))" by simp
    then show ?thesis
      by (rule change_passwordE) (simp add: c s frame_def rewrap_settings_tab change_friends_names)
  qed
qed

lemma rewrap_friend_secrets_names:
  "rewrap_friend_secrets E rnd new secrets n rows = Inr rows' \<Longrightarrow> map fr_name rows' = map fr_name rows"
proof (induction secrets arbitrary: n rows)
  case (Cons x xs)
  have "map fr_name (map (\<lambda>r. if fr_name r = fst x then r\<lparr>fr_shared_secret_encrypted := w\<rparr> else r) rows) = map fr_name rows" for w
    by simp
  with Cons show ?case by (cases x) (auto split: sum.splits)
qed simp

lemma manager_change_password_frame: "frame s (snd (manager_change_password E rnd encodable old new s))"
  by (cases s) (simp add: manager_change_password_def frame_def Let_def rewrap_settings_tab
      rewrap_friend_secrets_names split: sum.split option.split)

lemma reset_hybrid_tab [simp]: "friends_tab (reset_hybrid E rnd new d) = friends_tab d"
  by (simp add: reset_hybrid_def Let_def split: sum.split)

lemma reset_memory_frame:
  "map fst (friends (reset_memory E rnd k)) = map fst (friends k)" "dict_names (reset_memory E rnd k) = {}"
  by (simp_all add: reset_memory_def Let_def ks_wipe_def dict_names_def split_beta split: sum.split)

lemma reset_frame: "frame s (fst (snd (reset_with_recovery_key E rnd new (s, m))))"
  by (cases s) (simp add: reset_with_recovery_key_def frame_def Let_def reset_memory_frame clear_friend_def
      split: sum.split)

lemma set_duress_password_frame: "frame s (snd (set_duress_password E dummy decoy pw s))"
  by (cases s) (simp add: set_duress_password_def frame_def split: sum.split prod.split)

lemma load_duress_decoy_frame: "frame s (snd (load_duress_decoy E fresh token pw s))"
proof (cases s)
  case (Pair k d)
  with wipe_frame [of k d] show ?thesis
    by (simp add: load_duress_decoy_def frame_def Let_def split: sum.split option.split prod.split)
qed

lemmas operation_frames =
  update_global_secret_frame set_my_name_frame ensure_pqc_keys_frame load_pqc_bundle_frame
  ensure_pqc_keys_full_frame rotate_rsa_key_frame change_password_frame manager_change_password_frame
  reset_frame set_duress_password_frame load_duress_decoy_frame wipe_frame

subsection \<open>The state machine\<close>

text \<open>A step is any operation that writes the store or the database, with any arguments and with
  whatever result, exceptions included.\<close>

inductive key_step :: "key_env \<Rightarrow> load_state \<Rightarrow> load_state \<Rightarrow> bool" for E :: key_env where
  save: "key_step E s (snd (save_friend E rnds password f s))"
| remove: "key_step E s (remove_friend name s)"
| load: "key_step E s (snd (load E lrnd password now s))"
| wipe: "key_step E (k, d) (ks_wipe k, d)"
| rename: "key_step E (k, d) (k, set_my_name name d)"
| global: "key_step E s (snd (update_global_secret E rnd secret password s))"
| pqc: "key_step E s (snd (ensure_pqc_keys E available keys rnd password s))"
| pqc_full: "key_step E s (snd (ensure_pqc_keys_full E available keys rnds password s))"
| pqc_load: "key_step E s (snd (load_pqc_bundle E password s))"
| rotate: "key_step E s (snd (rotate_rsa_key E new_priv password now s))"
| change: "key_step E s (snd (change_password E crnd old_password new_password s))"
| manager_change: "key_step E s (snd (manager_change_password E crnd encodable old_password new_password s))"
| recover: "key_step E s (fst (snd (reset_with_recovery_key E rrnd new_password (s, master))))"
| set_duress: "key_step E s (snd (set_duress_password E dummy decoy_priv password s))"
| duress: "key_step E s (snd (load_duress_decoy E fresh token pw s))"

definition key_init :: "load_state \<Rightarrow> bool" where
  "key_init s \<longleftrightarrow> fst s = new_key_store \<and> db_ok (snd s)"

interpretation key_machine: state_machine key_init "key_step E" friends_inv for E
proof
  fix s assume "key_init s"
  then show "friends_inv s" by (simp add: key_init_def friends_inv_def new_key_store_def dict_names_def db_ok_def)
next
  fix s t assume "friends_inv s" "key_step E s t"
  from this(2,1) show "friends_inv t"
    by (cases rule: key_step.cases)
      (auto intro: save_friend_inv remove_friend_inv load_inv frame_inv operation_frames)
qed

end
