(* ===== verification/Friend_View.thy ===== *)
theory Friend_View
  imports Key_Invariant
begin

text \<open>
  What the key store relies on (the laws of PEM texts and of the cipher, with a reference instance),
  and everything it knows of one friend: what \<^verbatim>\<open>save_friend\<close> leaves in memory and in the row, and
  what loading the row gives back.
\<close>

text \<open>A load that succeeds, in its stages.\<close>

lemma load_then_ok: "load_then r f = (Inr True, t) \<longleftrightarrow> (\<exists>s. r = (Inr True, s) \<and> f s = (Inr True, t))"
  by (auto simp: load_then_def split: prod.splits sum.splits bool.splits)

lemma keystore_error_ok: "keystore_error r = (Inr True, t) \<longleftrightarrow> r = (Inr True, t)"
  by (auto simp: keystore_error_def split: prod.splits sum.splits)

section \<open>What the store relies on\<close>

text \<open>PEM texts read back; an encrypted PEM opens with its password. The cipher is that of
  \<^verbatim>\<open>database.py\<close>.\<close>

locale key_laws =
  fixes E :: key_env
  assumes db: "db_laws (ke_db E)"
    and pem_pub: "pem_to_pubkey E (pubkey_to_pem E p) = Inr p"
    and pem_priv: "privkey_to_encrypted_pem E p pw = Inr pem \<Longrightarrow> pem_to_privkey E pem pw = Inr p"
begin

lemma open_encrypted:
  "encrypt_secret (ke_db E) salt nonce b pw = Inr w \<Longrightarrow> decrypt_secret (ke_db E) w pw = Inr b"
  by (rule db_laws.decrypt_encrypt [OF db])

lemma encrypt_columns_open:
  assumes "encrypt_columns E rnd pw secret ecdh = Inr (s, x)"
  shows "open_column E pw s = Inr (if given secret then secret else None)"
    and "open_column E pw x = Inr ecdh" and "s \<noteq> None \<longleftrightarrow> given secret"
  using assms by (auto simp: encrypt_columns_def open_column_def given_def Let_def open_encrypted
      split: option.splits sum.splits if_splits)

text \<open>A column that is re-encrypted opens to the same bytes under the new password.\<close>

lemma change_column_opens:
  assumes "change_column E rnd old new c = Inr (c', p)"
  shows "c' = c \<and> p = None \<or>
    (\<exists>w w' b. c = Some w \<and> c' = Some w' \<and> p = Some b \<and>
       decrypt_secret (ke_db E) w old = Inr b \<and> decrypt_secret (ke_db E) w' new = Inr b)"
  using assms by (auto simp: change_column_def Let_def open_encrypted split: option.splits sum.splits if_splits)

end

definition ref_key_env :: key_env where
  "ref_key_env =
     \<lparr>ke_db = ref_db_crypto,
      pem_to_pubkey = (\<lambda>pem. if pem \<noteq> [] \<and> hd pem = 80 then Inr (map of_nat (List.tl pem)) else Inl ValueError),
      pubkey_to_pem = (\<lambda>p. 80 # map unat p),
      pem_to_privkey = (\<lambda>pem pw. if pem \<noteq> [] \<and> take (hd pem) (List.tl pem) = map unat pw
                                 then Inr (map of_nat (drop (hd pem) (List.tl pem))) else Inl ValueError),
      privkey_to_encrypted_pem = (\<lambda>p pw. if pw = [] then Inl ValueError else Inr (length pw # map unat (pw @ p))),
      public_key = (\<lambda>p. p), get_rsa_key_size = (\<lambda>p. 4096), hkdf_ratchet = (\<lambda>salt pw. take 32 (pw @ salt @ replicate 32 0)),
      sha256_hex = (\<lambda>x. x), hybrid_sig_available = True\<rparr>"

lemma ref_key_laws: "key_laws ref_key_env"
proof (rule key_laws.intro)
  show "db_laws (ke_db ref_key_env)" by (simp add: ref_key_env_def ref_db_laws)
  have "map (of_nat \<circ> unat) (p :: bytes) = p" for p by (simp add: comp_def)
  then show "pem_to_pubkey ref_key_env (pubkey_to_pem ref_key_env p) = Inr p" for p
    by (simp add: ref_key_env_def)
  show "privkey_to_encrypted_pem ref_key_env p pw = Inr pem \<Longrightarrow> pem_to_privkey ref_key_env pem pw = Inr p" for p pw pem
    by (auto simp: ref_key_env_def comp_def split: if_splits)
qed

interpretation ref_keys: key_laws ref_key_env
  by (rule ref_key_laws)

section \<open>Friends across a restart\<close>

text \<open>Everything the store knows of a friend; no capabilities and an empty dictionary are the same to
  every reader.\<close>

definition friend_view :: "ustr \<Rightarrow> key_store \<Rightarrow>
    friend option \<times> ustr option \<times> bytes option \<times> capabilities \<times> bytes option \<times> (bytes \<times> bytes) option" where
  "friend_view n k =
     (find (\<lambda>(m, _, _). m = n) (friends k), map_of (friends_x25519 k) n, map_of (friends_ecdh_priv k) n,
      (case map_of (friends_capabilities k) n of Some c \<Rightarrow> c | None \<Rightarrow> []),
      map_of (friends_pqc_combined_pub k) n, map_of (friends_hybrid_sig_pubs k) n)"

lemma map_of_update_given: "map_of (update_given n v m) n = (case v of Some x \<Rightarrow> Some x | None \<Rightarrow> map_of m n)"
  by (simp add: update_given_def update_conv' split: option.split)

lemma map_of_set_or_pop: "map_of (set_or_pop n v m) n = v"
  by (simp add: set_or_pop_def update_conv' delete_conv' split: option.split)

lemma find_name_append:
  "n \<notin> fst ` set fs \<Longrightarrow> find (\<lambda>(m, _, _). m = n) (fs @ [(n, x)]) = Some (n, x)"
  by (induction fs) (auto simp: split_beta)

lemma and_then_assoc: "and_then (and_then r f) g = and_then r (\<lambda>x s. and_then (f x s) g)"
  by (cases "(r, f)" rule: and_then.cases) simp_all

lemma load_friend_rows_append:
  "load_friend_rows E pw (xs @ ys) k =
     and_then (load_friend_rows E pw xs k) (\<lambda>_ k'. load_friend_rows E pw ys k')"
proof (induction xs arbitrary: k)
  case (Cons x xs)
  then have "load_friend_rows E pw (xs @ ys) =
      (\<lambda>k. and_then (load_friend_rows E pw xs k) (\<lambda>_ k'. load_friend_rows E pw ys k'))"
    by (simp add: fun_eq_iff)
  then show ?case by (simp add: and_then_assoc)
qed simp

lemma unknown_friend_view:
  assumes "memory_inv k" "n \<notin> fst ` set (friends k)"
  shows "map_of (friends_x25519 k) n = None" "map_of (friends_ecdh_priv k) n = None"
    "map_of (friends_capabilities k) n = None" "map_of (friends_pqc_combined_pub k) n = None"
    "map_of (friends_hybrid_sig_pubs k) n = None"
  using assms by (auto simp: memory_inv_def dict_names_def map_of_eq_None_iff)

text \<open>What the two sides do with the hybrid signing key of a friend.\<close>

definition hybrid_pub_of :: "key_env \<Rightarrow> ustr option \<Rightarrow> (bytes \<times> bytes) option" where
  "hybrid_pub_of E h =
     (if given h \<and> hybrid_sig_available E then
        (case b64decode (the h) of Inl _ \<Rightarrow> None
         | Inr c \<Rightarrow> (case parse_combined_pub c of Inl _ \<Rightarrow> None | Inr p \<Rightarrow> Some p))
      else None)"

definition pqc_pub_of :: "ustr option \<Rightarrow> bytes option" where
  "pqc_pub_of p = (if given p then (case b64decode (the p) of Inl _ \<Rightarrow> None | Inr b \<Rightarrow> Some b) else None)"

lemma store_hybrid_pub_keeps:
  "friends_x25519 (snd (store_hybrid_pub E n h k)) = friends_x25519 k"
  "friends_ecdh_priv (snd (store_hybrid_pub E n h k)) = friends_ecdh_priv k"
  "friends_capabilities (snd (store_hybrid_pub E n h k)) = friends_capabilities k"
  "friends_pqc_combined_pub (snd (store_hybrid_pub E n h k)) = friends_pqc_combined_pub k"
  by (simp_all add: store_hybrid_pub_def split: sum.split)

lemma store_hybrid_pub_ok:
  assumes "fst (store_hybrid_pub E n h k) = Inr ()"
  shows "map_of (friends_hybrid_sig_pubs (snd (store_hybrid_pub E n h k))) n = hybrid_pub_of E h"
  using assms by (auto simp: store_hybrid_pub_def hybrid_pub_of_def update_conv' delete_conv' split: sum.splits if_splits)

definition given_or_none :: "'a list option \<Rightarrow> 'a list option" where
  "given_or_none x = (if given x then x else None)"

lemma saved_friend_view:
  assumes save: "save_friend E rnd pw f (k, d) = (Inr (), (k', d'))"
  obtains pub sec ecdh where
    "encrypt_columns E rnd pw (fa_shared_secret f) (fa_ecdh_priv_bytes f) = Inr (sec, ecdh)"
    "pem_to_pubkey E (fa_pem f) = Inr pub"
    "friends_tab d' = filter (\<lambda>r. fr_name r \<noteq> fa_name f) (friends_tab d) @ [friend_row_of f sec ecdh (friends_tab d)]"
    "friend_view (fa_name f) k' =
       (Some (fa_name f, pub, given_or_none (fa_shared_secret f)), given_or_none (fa_x25519_pub_b64 f),
        fa_ecdh_priv_bytes f, (case given_or_none (fa_capabilities f) of Some c \<Rightarrow> c | None \<Rightarrow> []),
        pqc_pub_of (fa_pqc_combined_pub_b64 f), hybrid_pub_of E (fa_hybrid_sig_pub_b64 f))"
proof (cases "encrypt_columns E rnd pw (fa_shared_secret f) (fa_ecdh_priv_bytes f)")
  case (Inr p)
  obtain sec ecdh where p: "p = (sec, ecdh)" by fastforce
  show thesis
  proof (cases "pem_to_pubkey E (fa_pem f)")
    case (Inr pub)
    note facts = \<open>encrypt_columns _ _ _ _ _ = Inr p\<close> [unfolded p] Inr
    define k1 where "k1 = k\<lparr>friends := filter (\<lambda>(n, _, _). n \<noteq> fa_name f) (friends k) @ [(fa_name f, pub, given_or_none (fa_shared_secret f))],
       friends_x25519 := set_or_pop (fa_name f) (given_or_none (fa_x25519_pub_b64 f)) (friends_x25519 k),
       friends_ecdh_priv := set_or_pop (fa_name f) (fa_ecdh_priv_bytes f) (friends_ecdh_priv k),
       friends_capabilities := set_or_pop (fa_name f) (given_or_none (fa_capabilities f)) (friends_capabilities k),
       friends_pqc_combined_pub := set_or_pop (fa_name f) (pqc_pub_of (fa_pqc_combined_pub_b64 f)) (friends_pqc_combined_pub k)\<rparr>"
    have k1: "friends k1 = filter (\<lambda>(n, _, _). n \<noteq> fa_name f) (friends k) @ [(fa_name f, pub, given_or_none (fa_shared_secret f))]"
      "map_of (friends_x25519 k1) (fa_name f) = given_or_none (fa_x25519_pub_b64 f)"
      "map_of (friends_ecdh_priv k1) (fa_name f) = fa_ecdh_priv_bytes f"
      "map_of (friends_capabilities k1) (fa_name f) = given_or_none (fa_capabilities f)"
      "map_of (friends_pqc_combined_pub k1) (fa_name f) = pqc_pub_of (fa_pqc_combined_pub_b64 f)"
      by (simp_all add: k1_def map_of_set_or_pop)
    have stored: "store_hybrid_pub E (fa_name f) (fa_hybrid_sig_pub_b64 f) k1 = (Inr (), k')"
      and d': "d' = d\<lparr>friends_tab := insert_or_replace fr_name (friend_row_of f sec ecdh (friends_tab d)) (friends_tab d)\<rparr>"
      using save facts
      by (simp_all add: save_friend_def Let_def split_beta prod_eq_iff k1_def given_or_none_def pqc_pub_of_def)
    have name: "fr_name (friend_row_of f sec ecdh (friends_tab d)) = fa_name f" by (simp add: friend_row_of_def)
    show thesis
    proof (rule that [OF facts])
      show "friend_view (fa_name f) k' =
       (Some (fa_name f, pub, given_or_none (fa_shared_secret f)), given_or_none (fa_x25519_pub_b64 f),
        fa_ecdh_priv_bytes f, (case given_or_none (fa_capabilities f) of Some c \<Rightarrow> c | None \<Rightarrow> []),
        pqc_pub_of (fa_pqc_combined_pub_b64 f), hybrid_pub_of E (fa_hybrid_sig_pub_b64 f))"
        using store_hybrid_pub_keeps [of E "fa_name f" "fa_hybrid_sig_pub_b64 f" k1]
          store_hybrid_pub_fields(1) [of E "fa_name f" "fa_hybrid_sig_pub_b64 f" k1]
          store_hybrid_pub_ok [of E "fa_name f" "fa_hybrid_sig_pub_b64 f" k1]
          filter_other_names [of "fa_name f" "friends k"]
        by (simp add: stored friend_view_def k1 find_name_append)
    qed (simp add: d' insert_or_replace_def name)
  qed (use save Inr p in \<open>simp add: save_friend_def Let_def\<close>)
qed (use save in \<open>simp add: save_friend_def\<close>)

lemma loaded_friend_view:
  assumes load: "load_friend E pw r k = (Inr (), k')" and known: "memory_inv k" "fr_name r \<notin> fst ` set (friends k)"
    and pub: "pem_to_pubkey E (fr_public_key_pem r) = Inr pub"
    and secret: "(if fr_has_shared_secret r then open_column E pw (fr_shared_secret_encrypted r) else Inr None) = Inr secret"
    and ecdh: "open_column E pw (fr_ecdh_priv_encrypted r) = Inr ecdh"
  shows "friend_view (fr_name r) k' =
    (Some (fr_name r, pub, secret), given_or_none (fr_x25519_public_key_b64 r), ecdh,
     (case fr_capabilities_json r of Some c \<Rightarrow> c | None \<Rightarrow> []),
     pqc_pub_of (fr_pqc_combined_pub_b64 r), hybrid_pub_of E (fr_hybrid_sig_pub_b64 r))"
proof -
  define k2 where "k2 = k\<lparr>friends := friends k @ [(fr_name r, pub, secret)],
    friends_x25519 := update_given (fr_name r) (given_or_none (fr_x25519_public_key_b64 r)) (friends_x25519 k),
    friends_ecdh_priv := update_given (fr_name r) ecdh (friends_ecdh_priv k),
    friends_capabilities := AList.update (fr_name r) (case fr_capabilities_json r of Some c \<Rightarrow> c | None \<Rightarrow> []) (friends_capabilities k),
    friends_pqc_combined_pub := update_given (fr_name r) (pqc_pub_of (fr_pqc_combined_pub_b64 r)) (friends_pqc_combined_pub k)\<rparr>"
  have k': "k' = (case hybrid_pub_of E (fr_hybrid_sig_pub_b64 r) of None \<Rightarrow> k2
       | Some p \<Rightarrow> k2\<lparr>friends_hybrid_sig_pubs := AList.update (fr_name r) p (friends_hybrid_sig_pubs k2)\<rparr>)"
  proof (cases "given (fr_hybrid_sig_pub_b64 r) \<and> hybrid_sig_available E")
    case True
    with load pub secret ecdh show ?thesis
      by (cases "b64decode (the (fr_hybrid_sig_pub_b64 r))")
        (auto simp: load_friend_def Let_def k2_def hybrid_pub_of_def given_or_none_def pqc_pub_of_def split: sum.splits if_splits)
  next
    case False
    with load pub secret ecdh show ?thesis
      by (auto simp: load_friend_def Let_def k2_def hybrid_pub_of_def given_or_none_def pqc_pub_of_def)
  qed
  have "friend_view (fr_name r) k2 =
    (Some (fr_name r, pub, secret), given_or_none (fr_x25519_public_key_b64 r), ecdh,
     (case fr_capabilities_json r of Some c \<Rightarrow> c | None \<Rightarrow> []), pqc_pub_of (fr_pqc_combined_pub_b64 r), None)"
    using unknown_friend_view [OF known] known(2)
    by (simp add: friend_view_def k2_def map_of_update_given update_conv' find_name_append split: option.split)
  then show ?thesis
    unfolding k' by (cases "hybrid_pub_of E (fr_hybrid_sig_pub_b64 r)") (simp_all add: friend_view_def update_conv')
qed

section \<open>A friend for the examples\<close>

definition bob_args :: friend_args where
  "bob_args = \<lparr>fa_name = ustr ''bob'', fa_pem = [80, 1, 2], fa_shared_secret = Some [7, 8], fa_x25519_pub_b64 = Some (ustr ''eA==''),
     fa_capabilities = Some [(ustr ''pqc'', True)], fa_pqc_combined_pub_b64 = None, fa_hybrid_sig_pub_b64 = None,
     fa_ecdh_priv_bytes = Some [9]\<rparr>"

definition some_rnd :: "nat \<Rightarrow> bytes \<times> bytes" where
  "some_rnd i = ([of_nat i], replicate 12 (of_nat i))"

definition bob_saved :: load_state where
  "bob_saved = snd (save_friend ref_key_env some_rnd [65] bob_args (new_key_store, empty_db))"

lemma bob_saved_ok: "fst (save_friend ref_key_env some_rnd [65] bob_args (new_key_store, empty_db)) = Inr ()"
  by code_simp

end
