(* ===== verification/Key_Safety.thy ===== *)
theory Key_Safety
  imports Friend_View
begin

text \<open>
  What the operations of the key store promise: friends survive a restart, a change of the password
  carries over the secrets it re-encrypts; and the cases in which they do not: keys that are left
  behind, a friend that blocks every login, contacts that stay visible in duress mode.
\<close>

section \<open>What a change of the password carries over\<close>

text \<open>An encrypted value that opens with the old password opens with the new one to the same bytes.\<close>

definition carries :: "key_env \<Rightarrow> bytes \<Rightarrow> bytes \<Rightarrow> enc_dict option \<Rightarrow> enc_dict option \<Rightarrow> bool" where
  "carries E old new c c' \<longleftrightarrow>
     (\<forall>w b. c = Some w \<longrightarrow> decrypt_secret (ke_db E) w old = Inr b \<longrightarrow> length b < 2 ^ 31 \<longrightarrow>
        (\<exists>w'. c' = Some w' \<and> decrypt_secret (ke_db E) w' new = Inr b))"

definition carries_pem :: "key_env \<Rightarrow> bytes \<Rightarrow> bytes \<Rightarrow> ustr option \<Rightarrow> ustr option \<Rightarrow> bool" where
  "carries_pem E old new t t' \<longleftrightarrow>
     (\<forall>pem p. t = Some pem \<longrightarrow> pem_to_privkey E pem old = Inr p \<longrightarrow>
        (\<exists>pem'. t' = Some pem' \<and> pem_to_privkey E pem' new = Inr p))"

text \<open>A friend keeps the name and the plain columns; with a shared secret, both secrets are carried.\<close>

definition carries_friend :: "key_env \<Rightarrow> bytes \<Rightarrow> bytes \<Rightarrow> friend_row \<Rightarrow> friend_row \<Rightarrow> bool" where
  "carries_friend E old new r r' \<longleftrightarrow>
     r' = r\<lparr>fr_shared_secret_encrypted := fr_shared_secret_encrypted r', fr_ecdh_priv_encrypted := fr_ecdh_priv_encrypted r'\<rparr> \<and>
     (fr_has_shared_secret r \<and> fr_shared_secret_encrypted r \<noteq> None \<longrightarrow>
        carries E old new (fr_shared_secret_encrypted r) (fr_shared_secret_encrypted r') \<and>
        carries E old new (fr_ecdh_priv_encrypted r) (fr_ecdh_priv_encrypted r'))"

text \<open>The settings a change of the password writes.\<close>

definition rewrapped_keys :: "ustr set" where
  "rewrapped_keys = {ustr ''global_secret'', ustr ''private_key_encrypted'', ustr ''totp_secret_encrypted'',
     ustr ''ratchet_storage_key''}"

lemma rewrap_settings_other:
  "rewrap_settings E rnd new gs priv totp key d = Inr d' \<Longrightarrow> n \<notin> rewrapped_keys \<Longrightarrow> get_setting n d' = get_setting n d"
  by (auto simp: rewrap_settings_def rewrapped_keys_def Let_def split: sum.splits option.splits)

context key_laws
begin

lemma change_column_carries:
  assumes "change_column E rnd old new c = Inr (c', p)" "length (snd rnd) = 12"
  shows "carries E old new c c'"
proof -
  have "\<exists>w'. c' = Some w' \<and> decrypt_secret (ke_db E) w' new = Inr b"
    if c: "c = Some w" "decrypt_secret (ke_db E) w old = Inr b" and len: "length b < 2 ^ 31" for w b
  proof -
    obtain w' where "encrypt_secret (ke_db E) (fst rnd) (snd rnd) b new = Inr w'"
      using db_laws.encrypt_total [OF db assms(2) len, of "fst rnd" new] by blast
    with open_encrypted [OF this] show ?thesis using assms(1) c by (auto simp: change_column_def Let_def)
  qed
  then show ?thesis by (simp add: carries_def)
qed

lemma change_friends_carries:
  assumes "change_friends E rnd old new rows n = Inr (rows', u)" "\<And>i. length (snd (rnd i)) = 12"
  shows "list_all2 (carries_friend E old new) rows rows'"
  using assms(1)
proof (induction rows arbitrary: n rows' u)
  case (Cons r rows)
  show ?case
  proof (cases "fr_has_shared_secret r \<and> fr_shared_secret_encrypted r \<noteq> None")
    case True
    with Cons.prems obtain s p x q rs v where
      cols: "change_column E (rnd n) old new (fr_shared_secret_encrypted r) = Inr (s, p)"
        "change_column E (rnd (n + 1)) old new (fr_ecdh_priv_encrypted r) = Inr (x, q)"
      and rest: "change_friends E rnd old new rows (n + 2) = Inr (rs, v)"
      and rows': "rows' = r\<lparr>fr_shared_secret_encrypted := s, fr_ecdh_priv_encrypted := x\<rparr> # rs"
      by (auto split: sum.splits)
    have "carries_friend E old new r (r\<lparr>fr_shared_secret_encrypted := s, fr_ecdh_priv_encrypted := x\<rparr>)"
      using change_column_carries [OF cols(1) assms(2)] change_column_carries [OF cols(2) assms(2)]
      by (simp add: carries_friend_def)
    with Cons.IH [OF rest] rows' show ?thesis by simp
  next
    case False
    with Cons show ?thesis by (auto simp: carries_friend_def split: sum.splits)
  qed
qed simp

lemma rewrap_settings_opens:
  assumes rewrap: "rewrap_settings E rnd new gs priv totp key d = Inr d'"
    and "secret_setting ''global_secret'' d = Some w" "text_setting ''private_key_encrypted'' d = Some pem"
    and totp: "totp \<noteq> None \<Longrightarrow> secret_setting ''totp_secret_encrypted'' d \<noteq> None"
  shows "\<exists>w'. secret_setting ''global_secret'' d' = Some w' \<and> decrypt_secret (ke_db E) w' new = Inr gs"
    and "\<exists>pem'. text_setting ''private_key_encrypted'' d' = Some pem' \<and> pem_to_privkey E pem' new = Inr priv"
    and "totp = Some t \<Longrightarrow> \<exists>w'. secret_setting ''totp_secret_encrypted'' d' = Some w' \<and> decrypt_secret (ke_db E) w' new = Inr t"
    and "key = Some x \<Longrightarrow> \<exists>w'. secret_setting ''ratchet_storage_key'' d' = Some w' \<and> decrypt_secret (ke_db E) w' new = Inr x"
proof -
  show "\<exists>w'. secret_setting ''global_secret'' d' = Some w' \<and> decrypt_secret (ke_db E) w' new = Inr gs"
    using assms(1,2) by (auto simp: rewrap_settings_def Let_def secret_setting_def open_encrypted split: sum.splits option.splits)
  show "\<exists>pem'. text_setting ''private_key_encrypted'' d' = Some pem' \<and> pem_to_privkey E pem' new = Inr priv"
    using assms(1,3) by (auto simp: rewrap_settings_def Let_def text_setting_def pem_priv split: sum.splits option.splits)
  show "totp = Some t \<Longrightarrow> \<exists>w'. secret_setting ''totp_secret_encrypted'' d' = Some w' \<and> decrypt_secret (ke_db E) w' new = Inr t"
    using assms(1,4) by (auto simp: rewrap_settings_def Let_def secret_setting_def open_encrypted split: sum.splits option.splits)
  show "key = Some x \<Longrightarrow> \<exists>w'. secret_setting ''ratchet_storage_key'' d' = Some w' \<and> decrypt_secret (ke_db E) w' new = Inr x"
    using assms(1) by (auto simp: rewrap_settings_def Let_def secret_setting_def open_encrypted split: sum.splits option.splits)
qed

end

subsection \<open>Loading stops at a wrapper that does not authenticate\<close>

lemma load_legacy_keeps:
  assumes "load_legacy E pw now (k, d) = (r, (k', d'))" "n \<notin> {''legacy_key_expiry'', ''legacy_private_key_encrypted''}"
  shows "get_setting (ustr n) d' = get_setting (ustr n) d" "friends_tab d' = friends_tab d"
  using assms by (auto simp: load_legacy_def Let_def split: option.splits sum.splits setting.splits if_splits)

lemma load_rsa_keeps:
  assumes "load_rsa E pw now (k, d) = (r, (k', d'))" "n \<notin> {''legacy_key_expiry'', ''legacy_private_key_encrypted''}"
  shows "get_setting (ustr n) d' = get_setting (ustr n) d" "friends_tab d' = friends_tab d"
  using assms by (auto simp: load_rsa_def Let_def dest: load_legacy_keeps split: option.splits sum.splits if_splits)

text \<open>The stages of a successful login; only the first changes the database before the last.\<close>

lemma load_stages:
  assumes "fst (load E rnd pw now (k, d)) = Inr True"
  obtains k1 k2 k3 k4 k5 k6 d1 where "load_rsa E pw now (k, d) = (Inr True, (k1, d1))"
    "load_global E pw (k1, d1) = (Inr True, (k2, d1))" "load_kyber E pw (k2, d1) = (Inr True, (k3, d1))"
    "load_bundle E pw (k3, d1) = (Inr True, (k4, d1))" "load_hybrid E pw (k4, d1) = (Inr True, (k5, d1))"
    "load_friends E pw (k5, d1) = (Inr True, (k6, d1))"
proof -
  from assms obtain t where "load E rnd pw now (k, d) = (Inr True, t)" by (metis prod.collapse)
  then obtain k1 d1 k2 d2 k3 d3 k4 d4 k5 d5 k6 d6 where stages: "load_rsa E pw now (k, d) = (Inr True, (k1, d1))"
    "load_global E pw (k1, d1) = (Inr True, (k2, d2))" "load_kyber E pw (k2, d2) = (Inr True, (k3, d3))"
    "load_bundle E pw (k3, d3) = (Inr True, (k4, d4))" "load_hybrid E pw (k4, d4) = (Inr True, (k5, d5))"
    "load_friends E pw (k5, d5) = (Inr True, (k6, d6))"
    by (auto simp: load_def load_then_ok keystore_error_ok)
  have "d2 = d1" using stages(2) by (auto simp: load_global_def split: option.splits sum.splits if_splits)
  moreover have "d3 = d2" using stages(3) by (auto simp: load_kyber_def Let_def split: option.splits sum.splits if_splits)
  moreover have "d4 = d3" using stages(4) by (auto simp: load_bundle_def Let_def split: option.splits sum.splits if_splits)
  moreover have "d5 = d4" using stages(5) by (auto simp: load_hybrid_def Let_def split: option.splits sum.splits if_splits)
  moreover have "d6 = d5" using stages(6) by (auto simp: load_friends_def Let_def split: prod.splits sum.splits)
  ultimately show thesis using stages that by simp
qed

lemma load_needs_kyber:
  assumes "secret_setting ''kyber_priv_encrypted'' d = Some w" "decrypt_secret (ke_db E) w pw = Inl e" "\<not> caught e"
  shows "fst (load E rnd pw now (k, d)) \<noteq> Inr True"
proof
  assume "fst (load E rnd pw now (k, d)) = Inr True"
  then obtain k1 k2 k3 d1 where rsa: "load_rsa E pw now (k, d) = (Inr True, (k1, d1))"
    and kyber: "load_kyber E pw (k2, d1) = (Inr True, (k3, d1))"
    by (rule load_stages)
  have "secret_setting ''kyber_priv_encrypted'' d1 = Some w"
    using load_rsa_keeps(1) [OF rsa, of "''kyber_priv_encrypted''"] assms(1) by (simp add: secret_setting_def)
  with kyber assms(2,3) show False by (simp add: load_kyber_def Let_def)
qed

lemma load_friend_rows_bad_pem:
  "r \<in> set rows \<Longrightarrow> pem_to_pubkey E (fr_public_key_pem r) = Inl e \<Longrightarrow> fst (load_friend_rows E pw rows k) \<noteq> Inr ()"
proof (induction rows arbitrary: k)
  case (Cons x rows)
  show ?case
  proof (cases "x = r")
    case False
    obtain res k' where "load_friend E pw x k = (res, k')" by fastforce
    with Cons False show ?thesis by (cases res) auto
  qed (use Cons.prems in \<open>simp add: load_friend_def Let_def\<close>)
qed simp

lemma load_needs_pem:
  assumes "r \<in> set (friends_tab d)" "pem_to_pubkey E (fr_public_key_pem r) = Inl e"
  shows "fst (load E rnd pw now (k, d)) \<noteq> Inr True"
proof
  assume "fst (load E rnd pw now (k, d)) = Inr True"
  then obtain k1 k5 k6 d1 where rsa: "load_rsa E pw now (k, d) = (Inr True, (k1, d1))"
    and fs: "load_friends E pw (k5, d1) = (Inr True, (k6, d1))"
    by (rule load_stages)
  have "friends_tab d1 = friends_tab d" using load_rsa_keeps(2) [OF rsa, of "[]"] by simp
  moreover obtain k0 where "load_friend_rows E pw (friends_tab d1) k0 = (Inr (), k6)"
    using fs by (auto simp: load_friends_def Let_def split: prod.splits sum.splits)
  ultimately show False using load_friend_rows_bad_pem [OF assms, of pw k0] by simp
qed

section \<open>Properties\<close>

text \<open>C5. In every state the operations of the key store reach, errors included, each friend is listed
  once, the dictionaries of X25519, ECDH, capability, post-quantum and signature keys mention listed
  friends only, every listed friend has a row in the database, and the names of the rows are
  unique.\<close>

theorem key_store_invariant:
  assumes "reachable key_init (key_step E) s"
  shows "friends_inv s"
  by (rule key_machine.reachable_invariant [OF assms])

theorem key_store_invariant_witness:
  "friends_inv (snd (save_friend ref_key_env some_rnd [65] bob_args (new_key_store, empty_db)))"
  by (rule key_store_invariant [of ref_key_env], rule next_state, rule start)
    (auto simp: key_init_def db_ok_ops intro: save)

text \<open>C16. A friend that was saved is the same friend after the application is restarted: when the
  table loads with the password the friend was saved under, the store has the same public key, shared
  secret, X25519 key, ECDH key, capabilities, post-quantum key and signing keys for the name.\<close>

theorem friend_survives_restart:
  assumes laws: "key_laws E" and unique: "distinct (map fr_name (friends_tab d))"
    and save: "save_friend E rnd pw f (k, d) = (Inr (), (k', d'))"
    and load: "load_friends E pw (k0, d') = (Inr True, (k2, d2))"
  shows "friend_view (fa_name f) k2 = friend_view (fa_name f) k'"
proof -
  obtain pub sec ecdh where enc: "encrypt_columns E rnd pw (fa_shared_secret f) (fa_ecdh_priv_bytes f) = Inr (sec, ecdh)"
    and pub: "pem_to_pubkey E (fa_pem f) = Inr pub"
    and tab: "friends_tab d' = filter (\<lambda>r. fr_name r \<noteq> fa_name f) (friends_tab d) @ [friend_row_of f sec ecdh (friends_tab d)]"
    and view: "friend_view (fa_name f) k' =
       (Some (fa_name f, pub, given_or_none (fa_shared_secret f)), given_or_none (fa_x25519_pub_b64 f),
        fa_ecdh_priv_bytes f, (case given_or_none (fa_capabilities f) of Some c \<Rightarrow> c | None \<Rightarrow> []),
        pqc_pub_of (fa_pqc_combined_pub_b64 f), hybrid_pub_of E (fa_hybrid_sig_pub_b64 f))"
    by (rule saved_friend_view [OF save])
  define r where "r = friend_row_of f sec ecdh (friends_tab d)"
  define empty where "empty = k0\<lparr>friends := [], friends_x25519 := [], friends_ecdh_priv := [], friends_capabilities := [],
      friends_pqc_combined_pub := [], friends_hybrid_sig_pubs := []\<rparr>"
  let ?others = "filter (\<lambda>r. fr_name r \<noteq> fa_name f) (friends_tab d)"
  have "load_friend_rows E pw (?others @ [r]) empty = (Inr (), k2)"
    using load by (auto simp: load_friends_def Let_def tab r_def empty_def split: prod.splits sum.splits)
  then obtain k1 where others: "load_friend_rows E pw ?others empty = (Inr (), k1)" and last: "load_friend E pw r k1 = (Inr (), k2)"
    by (auto simp: load_friend_rows_append and_then_ok)
  have "memory_inv empty" "friends empty = []" by (simp_all add: empty_def memory_inv_def dict_names_def)
  moreover have "distinct (map fr_name ?others)" using unique by (simp add: distinct_map inj_on_def)
  ultimately have k1: "memory_inv k1" "fst ` set (friends k1) \<subseteq> fr_name ` set ?others"
    using load_friend_rows_inv [of empty ?others E pw] others by simp_all
  have fields: "fr_name r = fa_name f" "fr_public_key_pem r = fa_pem f" "fr_has_shared_secret r \<longleftrightarrow> sec \<noteq> None"
    "fr_shared_secret_encrypted r = sec" "fr_ecdh_priv_encrypted r = ecdh"
    "fr_x25519_public_key_b64 r = fa_x25519_pub_b64 f" "fr_capabilities_json r = given_or_none (fa_capabilities f)"
    "fr_pqc_combined_pub_b64 r = fa_pqc_combined_pub_b64 f" "fr_hybrid_sig_pub_b64 r = fa_hybrid_sig_pub_b64 f"
    by (simp_all add: r_def friend_row_of_def given_or_none_def)
  note opened = key_laws.encrypt_columns_open [OF laws enc, folded given_or_none_def]
  have "fr_name r \<notin> fst ` set (friends k1)" using k1(2) fields(1) by auto
  from loaded_friend_view [OF last k1(1) this, of pub "given_or_none (fa_shared_secret f)" "fa_ecdh_priv_bytes f"]
  show ?thesis using pub opened by (auto simp: fields view given_or_none_def)
qed

lemma bob_loads: "fst (load_friends ref_key_env [65] (new_key_store, snd bob_saved)) = Inr True"
  by code_simp

theorem friend_survives_restart_witness:
  "friend_view (ustr ''bob'') (fst (snd (load_friends ref_key_env [65] (new_key_store, snd bob_saved)))) =
   friend_view (ustr ''bob'') (fst bob_saved)"
proof -
  have save: "save_friend ref_key_env some_rnd [65] bob_args (new_key_store, empty_db) = (Inr (), (fst bob_saved, snd bob_saved))"
    using bob_saved_ok by (simp add: bob_saved_def prod_eq_iff)
  obtain k2 d2 where load: "load_friends ref_key_env [65] (new_key_store, snd bob_saved) = (Inr True, (k2, d2))"
    using bob_loads by (metis prod.collapse)
  have "friend_view (fa_name bob_args) k2 = friend_view (fa_name bob_args) (fst bob_saved)"
    by (rule friend_survives_restart [OF ref_key_laws _ save load]) (simp add: empty_db_def)
  then show ?thesis by (simp add: load bob_args_def)
qed

text \<open>C13. A successful change of the password moves the secrets to the new password: the global secret,
  the RSA key, the TOTP secret, the key of the ratchet store and both secrets of every friend with a
  shared secret open with the new password to what they were; nothing else of a friend changes.\<close>

theorem change_password_keeps_secrets:
  assumes laws: "key_laws E" and nonces: "\<And>i. length (snd (cr_friend rnd i)) = 12"
    and change: "change_password E rnd old new (k, d) = (Inr True, (k', d'))"
  shows "carries E old new (secret_setting ''global_secret'' d) (secret_setting ''global_secret'' d') \<and>
    carries_pem E old new (text_setting ''private_key_encrypted'' d) (text_setting ''private_key_encrypted'' d') \<and>
    carries E old new (secret_setting ''totp_secret_encrypted'' d) (secret_setting ''totp_secret_encrypted'' d') \<and>
    (\<forall>key. ratchet_storage_key k = Some key \<longrightarrow>
       (\<exists>w. secret_setting ''ratchet_storage_key'' d' = Some w \<and> decrypt_secret (ke_db E) w new = Inr key)) \<and>
    list_all2 (carries_friend E old new) (friends_tab d) (friends_tab d')"
proof -
  obtain w gs pem priv rows updates totp where
    gs: "secret_setting ''global_secret'' d = Some w" "decrypt_secret (ke_db E) w old = Inr gs"
    and pem: "text_setting ''private_key_encrypted'' d = Some pem" "pem_to_privkey E pem old = Inr priv"
    and rows: "change_friends E (cr_friend rnd) old new (friends_tab d) 0 = Inr (rows, updates)"
    and totp: "open_totp E old d = Inr totp"
    and rewrap: "rewrap_settings E rnd new gs priv totp (ratchet_storage_key k) (d\<lparr>friends_tab := rows\<rparr>) = Inr d'"
    by (rule change_passwordE [OF change])
  have same: "secret_setting s (d\<lparr>friends_tab := rows\<rparr>) = secret_setting s d" "text_setting s (d\<lparr>friends_tab := rows\<rparr>) = text_setting s d" for s
    by (simp_all add: secret_setting_def text_setting_def)
  have stored: "totp \<noteq> None \<Longrightarrow> secret_setting ''totp_secret_encrypted'' (d\<lparr>friends_tab := rows\<rparr>) \<noteq> None"
    using totp by (auto simp: same open_totp_def open_column_def split: option.splits)
  note opens = key_laws.rewrap_settings_opens [OF laws rewrap gs(1) [folded same(1)] pem(1) [folded same(2)] stored]
  have "carries E old new (secret_setting ''global_secret'' d) (secret_setting ''global_secret'' d')"
    using opens(1) gs by (simp add: carries_def)
  moreover have "carries_pem E old new (text_setting ''private_key_encrypted'' d) (text_setting ''private_key_encrypted'' d')"
    using opens(2) pem by (simp add: carries_pem_def)
  moreover have "carries E old new (secret_setting ''totp_secret_encrypted'' d) (secret_setting ''totp_secret_encrypted'' d')"
    using opens(3) totp by (auto simp: carries_def open_totp_def open_column_def)
  moreover have "list_all2 (carries_friend E old new) (friends_tab d) (friends_tab d')"
    using key_laws.change_friends_carries [OF laws rows nonces] rewrap_settings_tab [OF rewrap] by simp
  ultimately show ?thesis using opens(4) by blast
qed

definition some_change_rnd :: change_rnd where
  "some_change_rnd = \<lparr>cr_global = some_rnd 1, cr_totp = some_rnd 2, cr_ratchet = some_rnd 3, cr_friend = some_rnd\<rparr>"

definition wrap :: "nat \<Rightarrow> bytes \<Rightarrow> bytes \<Rightarrow> setting" where
  "wrap i b pw = Secret (projr (encrypt_secret ref_db_crypto (fst (some_rnd i)) (snd (some_rnd i)) b pw))"

text \<open>A store with a friend, a Kyber key and the password \<^verbatim>\<open>A\<close>.\<close>

definition set_up :: load_state where
  "set_up = (fst bob_saved,
     put_setting (ustr ''kyber_priv_encrypted'') (wrap 5 [44] [65])
      (put_setting (ustr ''global_secret'') (wrap 4 [42] [65])
       (put_setting (ustr ''private_key_encrypted'') (Text [1, 65, 9, 9])
        (put_setting (ustr ''public_key'') (Text [80, 9, 9]) (snd bob_saved)))))"

definition changed :: load_state where
  "changed = snd (change_password ref_key_env some_change_rnd [65] [66] set_up)"

lemma changed_ok: "fst (change_password ref_key_env some_change_rnd [65] [66] set_up) = Inr True"
  by code_simp

lemma change_set_up:
  "change_password ref_key_env some_change_rnd [65] [66] (fst set_up, snd set_up) = (Inr True, (fst changed, snd changed))"
  using changed_ok by (simp add: changed_def prod_eq_iff)

theorem change_password_keeps_secrets_witness:
  "carries ref_key_env [65] [66] (secret_setting ''global_secret'' (snd set_up)) (secret_setting ''global_secret'' (snd changed)) \<and>
   list_all2 (carries_friend ref_key_env [65] [66]) (friends_tab (snd set_up)) (friends_tab (snd changed))"
  using change_password_keeps_secrets [OF ref_key_laws _ change_set_up]
  by (simp add: some_change_rnd_def some_rnd_def)

text \<open>The change of the password leaves keys behind: a stored Kyber key keeps its old wrapper, so
  that after the change, when the wrapper does not authenticate under the new password, no login with the
  new password succeeds.\<close>

theorem change_password_strands_keys:
  assumes change: "change_password E rnd old new (k, d) = (Inr True, (k', d'))"
    and kyber: "secret_setting ''kyber_priv_encrypted'' d = Some w"
    and tag: "decrypt_secret (ke_db E) w new = Inl InvalidTag"
  shows "fst (load E lrnd new now (k2, d')) \<noteq> Inr True"
proof -
  obtain gs priv rows totp where rewrap:
      "rewrap_settings E rnd new gs priv totp (ratchet_storage_key k) (d\<lparr>friends_tab := rows\<rparr>) = Inr d'"
    by (rule change_passwordE [OF change])
  have "get_setting (ustr ''kyber_priv_encrypted'') d' = get_setting (ustr ''kyber_priv_encrypted'') d"
    using rewrap_settings_other [OF rewrap] by (simp add: rewrapped_keys_def)
  with kyber have "secret_setting ''kyber_priv_encrypted'' d' = Some w" by (simp add: secret_setting_def)
  from load_needs_kyber [OF this tag] show ?thesis by (simp add: caught_def is_value_error_def)
qed

lemma set_up_kyber: "secret_setting ''kyber_priv_encrypted'' (snd set_up) = Some (case wrap 5 [44] [65] of Secret w \<Rightarrow> w)"
  by code_simp

lemma set_up_kyber_tag: "decrypt_secret (ke_db ref_key_env) (case wrap 5 [44] [65] of Secret w \<Rightarrow> w) [66] = Inl InvalidTag"
  by code_simp

definition some_load_rnd :: load_rnd where
  "some_load_rnd = \<lparr>lr_ratchet_key = replicate 32 7, lr_salt = [1], lr_nonce = replicate 12 1, lr_blob_nonce = (\<lambda>i. replicate 12 (of_nat i))\<rparr>"

theorem change_password_strands_keys_witness:
  "fst (load ref_key_env some_load_rnd [66] 0 (new_key_store, snd changed)) \<noteq> Inr True \<and>
   fst (load ref_key_env some_load_rnd [65] 0 (new_key_store, snd set_up)) = Inr True"
proof
  show "fst (load ref_key_env some_load_rnd [66] 0 (new_key_store, snd changed)) \<noteq> Inr True"
    by (rule change_password_strands_keys [OF change_set_up set_up_kyber set_up_kyber_tag])
  show "fst (load ref_key_env some_load_rnd [65] 0 (new_key_store, snd set_up)) = Inr True"
    by code_simp
qed

text \<open>A friend whose PEM text is not a public key is written to the database although
  \<^verbatim>\<open>save_friend\<close> raises, and from then on no login succeeds with that database.\<close>

theorem invalid_pem_blocks_login:
  assumes "pem_to_pubkey E (fa_pem f) = Inl e"
    and "encrypt_columns E rnd pw (fa_shared_secret f) (fa_ecdh_priv_bytes f) = Inr c"
    and "save_friend E rnd pw f (k, d) = (r, (k', d'))"
  shows "r = Inl e \<and> fst (load E lrnd password now (k2, d')) \<noteq> Inr True"
proof -
  obtain sec ecdh where "c = (sec, ecdh)" by fastforce
  with assms have r: "r = Inl e" and d': "friends_tab d' = insert_or_replace fr_name (friend_row_of f sec ecdh (friends_tab d)) (friends_tab d)"
    by (auto simp: save_friend_def Let_def)
  have "friend_row_of f sec ecdh (friends_tab d) \<in> set (friends_tab d')"
    by (simp add: d' insert_or_replace_def)
  moreover have "pem_to_pubkey E (fr_public_key_pem (friend_row_of f sec ecdh (friends_tab d))) = Inl e"
    using assms(1) by (simp add: friend_row_of_def)
  ultimately show ?thesis using r load_needs_pem by blast
qed

definition mallory_args :: friend_args where
  "mallory_args = bob_args\<lparr>fa_name := ustr ''mallory'', fa_pem := ustr ''nonsense'', fa_shared_secret := None, fa_ecdh_priv_bytes := None\<rparr>"

theorem invalid_pem_blocks_login_witness:
  "fst (load ref_key_env some_load_rnd [65] 0 (new_key_store, snd (snd (save_friend ref_key_env some_rnd [65] mallory_args set_up)))) \<noteq> Inr True"
  using invalid_pem_blocks_login [of ref_key_env mallory_args ValueError some_rnd "[65]" "(None, None)" "fst set_up" "snd set_up"
    "fst (save_friend ref_key_env some_rnd [65] mallory_args set_up)"
    "fst (snd (save_friend ref_key_env some_rnd [65] mallory_args set_up))"
    "snd (snd (save_friend ref_key_env some_rnd [65] mallory_args set_up))" some_load_rnd "[65]" 0 new_key_store]
  by (simp add: mallory_args_def bob_args_def ref_key_env_def encrypt_columns_def given_def ustr_def)

text \<open>Duress mode shows the real contacts: \<^verbatim>\<open>load_duress_decoy\<close> keeps the name and the public
  key of every friend that was loaded, and the legacy private key, although the list is meant to be
  empty.\<close>

theorem duress_keeps_contacts:
  "map (\<lambda>(n, p, s). (n, p)) (friends (fst (snd (load_duress_decoy E fresh token pw (k, d))))) = map (\<lambda>(n, p, s). (n, p)) (friends k) \<and>
   legacy_priv (fst (snd (load_duress_decoy E fresh token pw (k, d)))) = legacy_priv k"
  by (simp add: load_duress_decoy_def ks_wipe_def Let_def split_beta)

end
