(* ===== verification/Trust_Chain.thy ===== *)
theory Trust_Chain
  imports Key_Store "HOL-Library.Log_Nat" "HOL-Library.List_Lexorder"
begin

text \<open>
  The data of \<^verbatim>\<open>models/trust_chain.py\<close>: certificates, their dictionaries and rows, their
  status, the trust level, recovery shares; and the bytes a certificate signature covers. Time stamps
  are the rational values of Python's floats; \<^verbatim>\<open>struct.pack(">d", x)\<close> is their IEEE 754
  encoding.
\<close>

section \<open>Doubles\<close>

text \<open>The exponent of a positive rational, the scaling by a power of two, rounding half to even.\<close>

definition rat_exponent :: "rat \<Rightarrow> int" where
  "rat_exponent x =
     (case quotient_of x of (p, q) \<Rightarrow>
        let e = bitlen p - bitlen q in
        if (if 0 \<le> e then 2 ^ nat e * q \<le> p else q \<le> 2 ^ nat (- e) * p) then e else e - 1)"

definition scale2 :: "rat \<Rightarrow> int \<Rightarrow> rat" where
  "scale2 x k = (if 0 \<le> k then x * 2 ^ nat k else x / 2 ^ nat (- k))"

definition round_half_even :: "rat \<Rightarrow> int" where
  "round_half_even y =
     (let f = \<lfloor>y\<rfloor>; r = y - of_int f in
      if r < 1 / 2 then f else if 1 / 2 < r then f + 1 else if even f then f else f + 1)"

definition be_bytes8 :: "int \<Rightarrow> bytes" where
  "be_bytes8 n = map (\<lambda>i. of_int (n div 256 ^ i)) [7, 6, 5, 4, 3, 2, 1, 0]"

definition pack_double :: "rat \<Rightarrow> bytes" where
  "pack_double x =
     (if x = 0 then be_bytes8 0
      else let sign = (if x < 0 then 2 ^ 63 else 0);
               e = max (- 1022) (rat_exponent \<bar>x\<bar>);
               m = round_half_even (scale2 \<bar>x\<bar> (52 - e));
               (e, m) = (if m = 2 ^ 53 then (e + 1, 2 ^ 52) else (e, m));
               biased = (if m < 2 ^ 52 then 0 else e + 1023)
           in be_bytes8 (sign + biased * 2 ^ 52 + m mod 2 ^ 52))"

lemma length_be_bytes8: "length (be_bytes8 n) = 8"
  by (simp add: be_bytes8_def)

lemma length_pack_double [simp]: "length (pack_double x) = 8"
  unfolding pack_double_def Let_def split_beta by (simp only: length_be_bytes8 split: if_split) simp

lemma pack_double_examples:
  "pack_double 1 = [0x3F, 0xF0, 0, 0, 0, 0, 0, 0]"
  "pack_double (- 5 / 2) = [0xC0, 0x04, 0, 0, 0, 0, 0, 0]"
  "pack_double 1700000000 = [0x41, 0xD9, 0x54, 0xFC, 0x40, 0, 0, 0]"
  by code_simp+

section \<open>Certificates\<close>

datatype cert_type = Identity | Recovery | Delegation

definition cert_value :: "cert_type \<Rightarrow> string" where
  "cert_value t = (case t of Identity \<Rightarrow> ''identity'' | Recovery \<Rightarrow> ''recovery'' | Delegation \<Rightarrow> ''delegation'')"

text \<open>\<^verbatim>\<open>CertificateType(value)\<close>\<close>

definition certificate_type :: "ustr \<Rightarrow> cert_type res" where
  "certificate_type v =
     (if v = ustr ''identity'' then Inr Identity else if v = ustr ''recovery'' then Inr Recovery
      else if v = ustr ''delegation'' then Inr Delegation else Inl ValueError)"

datatype trust_level = TL_None | TL_Basic | TL_Verified | TL_Trusted

datatype revocation_status = Valid | Revoked | Expired

record trust_certificate =
  tc_cert_id :: ustr
  tc_subject_name :: ustr
  tc_subject_pub :: bytes
  tc_issuer_name :: ustr
  tc_issuer_pub :: bytes
  tc_cert_type :: cert_type
  tc_not_before :: rat
  tc_not_after :: rat
  tc_signature :: bytes
  tc_revoked :: bool
  tc_revocation_reason :: ustr
  tc_received_from :: ustr
  tc_created_at :: rat

definition is_expired :: "rat \<Rightarrow> trust_certificate \<Rightarrow> bool" where
  "is_expired now c \<longleftrightarrow> now > tc_not_after c"

definition status :: "rat \<Rightarrow> trust_certificate \<Rightarrow> revocation_status" where
  "status now c = (if tc_revoked c then Revoked else if is_expired now c then Expired else Valid)"

text \<open>The dictionary of a certificate; a missing entry is \<open>None\<close>. Its entries have the JSON types
  \<^verbatim>\<open>to_dict\<close> gives them.\<close>

record cert_dict =
  cd_cert_id :: "ustr option"
  cd_subject_name :: "ustr option"
  cd_subject_pub_b64 :: "ustr option"
  cd_issuer_name :: "ustr option"
  cd_issuer_pub_b64 :: "ustr option"
  cd_cert_type :: "ustr option"
  cd_not_before :: "rat option"
  cd_not_after :: "rat option"
  cd_signature_b64 :: "ustr option"
  cd_revoked :: "bool option"
  cd_revocation_reason :: "ustr option"
  cd_received_from :: "ustr option"
  cd_created_at :: "rat option"

definition to_dict :: "trust_certificate \<Rightarrow> cert_dict" where
  "to_dict c =
     \<lparr>cd_cert_id = Some (tc_cert_id c), cd_subject_name = Some (tc_subject_name c),
      cd_subject_pub_b64 = Some (b64encode (tc_subject_pub c)), cd_issuer_name = Some (tc_issuer_name c),
      cd_issuer_pub_b64 = Some (b64encode (tc_issuer_pub c)), cd_cert_type = Some (ustr (cert_value (tc_cert_type c))),
      cd_not_before = Some (tc_not_before c), cd_not_after = Some (tc_not_after c),
      cd_signature_b64 = Some (b64encode (tc_signature c)), cd_revoked = Some (tc_revoked c),
      cd_revocation_reason = Some (tc_revocation_reason c), cd_received_from = Some (tc_received_from c),
      cd_created_at = Some (tc_created_at c)\<rparr>"

text \<open>\<^verbatim>\<open>d["key"]\<close> and \<^verbatim>\<open>d.get("key", default)\<close>.\<close>

definition item :: "'a option \<Rightarrow> 'a res" where
  "item x = (case x of Some v \<Rightarrow> Inr v | None \<Rightarrow> Inl KeyError)"

definition get_default :: "'a option \<Rightarrow> 'a \<Rightarrow> 'a" where
  "get_default x v = (case x of Some y \<Rightarrow> y | None \<Rightarrow> v)"

definition b64_item :: "ustr option \<Rightarrow> bytes res" where
  "b64_item x = (case item x of Inl e \<Rightarrow> Inl e | Inr t \<Rightarrow> b64decode t)"

definition from_dict :: "cert_dict \<Rightarrow> trust_certificate res" where
  "from_dict d =
     (case item (cd_cert_type d) of Inl e \<Rightarrow> Inl e | Inr type_value \<Rightarrow>
     (case certificate_type type_value of Inl e \<Rightarrow> Inl e | Inr cert_type \<Rightarrow>
     (case item (cd_cert_id d) of Inl e \<Rightarrow> Inl e | Inr cert_id \<Rightarrow>
     (case item (cd_subject_name d) of Inl e \<Rightarrow> Inl e | Inr subject_name \<Rightarrow>
     (case b64_item (cd_subject_pub_b64 d) of Inl e \<Rightarrow> Inl e | Inr subject_pub \<Rightarrow>
     (case item (cd_issuer_name d) of Inl e \<Rightarrow> Inl e | Inr issuer_name \<Rightarrow>
     (case b64_item (cd_issuer_pub_b64 d) of Inl e \<Rightarrow> Inl e | Inr issuer_pub \<Rightarrow>
     (case item (cd_not_before d) of Inl e \<Rightarrow> Inl e | Inr not_before \<Rightarrow>
     (case item (cd_not_after d) of Inl e \<Rightarrow> Inl e | Inr not_after \<Rightarrow>
     (case b64_item (cd_signature_b64 d) of Inl e \<Rightarrow> Inl e | Inr signature \<Rightarrow>
        Inr \<lparr>tc_cert_id = cert_id, tc_subject_name = subject_name, tc_subject_pub = subject_pub,
             tc_issuer_name = issuer_name, tc_issuer_pub = issuer_pub, tc_cert_type = cert_type,
             tc_not_before = not_before, tc_not_after = not_after, tc_signature = signature,
             tc_revoked = get_default (cd_revoked d) False,
             tc_revocation_reason = get_default (cd_revocation_reason d) [],
             tc_received_from = get_default (cd_received_from d) [],
             tc_created_at = get_default (cd_created_at d) 0\<rparr>))))))))))"

text \<open>The row \<^verbatim>\<open>save_trust_certificate(cert.to_dict())\<close> writes, and the dictionary of a row.\<close>

definition cert_row_of :: "trust_certificate \<Rightarrow> cert_row" where
  "cert_row_of c =
     \<lparr>cr_cert_id = tc_cert_id c, cr_subject_name = tc_subject_name c, cr_subject_pub_b64 = b64encode (tc_subject_pub c),
      cr_issuer_name = tc_issuer_name c, cr_issuer_pub_b64 = b64encode (tc_issuer_pub c),
      cr_cert_type = ustr (cert_value (tc_cert_type c)), cr_not_before = tc_not_before c, cr_not_after = tc_not_after c,
      cr_signature_b64 = b64encode (tc_signature c), cr_revoked = tc_revoked c,
      cr_revocation_reason = tc_revocation_reason c, cr_received_from = tc_received_from c,
      cr_created_at = tc_created_at c\<rparr>"

definition row_dict :: "cert_row \<Rightarrow> cert_dict" where
  "row_dict r =
     \<lparr>cd_cert_id = Some (cr_cert_id r), cd_subject_name = Some (cr_subject_name r),
      cd_subject_pub_b64 = Some (cr_subject_pub_b64 r), cd_issuer_name = Some (cr_issuer_name r),
      cd_issuer_pub_b64 = Some (cr_issuer_pub_b64 r), cd_cert_type = Some (cr_cert_type r),
      cd_not_before = Some (cr_not_before r), cd_not_after = Some (cr_not_after r),
      cd_signature_b64 = Some (cr_signature_b64 r), cd_revoked = Some (cr_revoked r),
      cd_revocation_reason = Some (cr_revocation_reason r), cd_received_from = Some (cr_received_from r),
      cd_created_at = Some (cr_created_at r)\<rparr>"

definition compute_trust_level :: "rat \<Rightarrow> trust_certificate list \<Rightarrow> trust_level" where
  "compute_trust_level now certs =
     (let valid_count = length (filter (\<lambda>c. status now c = Valid) certs) in
      if valid_count \<ge> 3 then TL_Trusted else if valid_count = 2 then TL_Verified
      else if valid_count = 1 then TL_Basic else TL_None)"

section \<open>Recovery shares\<close>

record recovery_share =
  sh_share_id :: ustr
  sh_owner_name :: ustr
  sh_share_index :: int
  sh_total_shares :: int
  sh_threshold :: int
  sh_encrypted_share :: bytes
  sh_holder_name :: ustr
  sh_holder_pub_b64 :: ustr
  sh_created_at :: rat

record share_dict =
  sd_share_id :: "ustr option"
  sd_owner_name :: "ustr option"
  sd_share_index :: "int option"
  sd_total_shares :: "int option"
  sd_threshold :: "int option"
  sd_encrypted_share :: "ustr option"
  sd_holder_name :: "ustr option"
  sd_holder_pub_b64 :: "ustr option"
  sd_created_at :: "rat option"

definition share_to_dict :: "recovery_share \<Rightarrow> share_dict" where
  "share_to_dict s =
     \<lparr>sd_share_id = Some (sh_share_id s), sd_owner_name = Some (sh_owner_name s),
      sd_share_index = Some (sh_share_index s), sd_total_shares = Some (sh_total_shares s),
      sd_threshold = Some (sh_threshold s), sd_encrypted_share = Some (b64encode (sh_encrypted_share s)),
      sd_holder_name = Some (sh_holder_name s), sd_holder_pub_b64 = Some (sh_holder_pub_b64 s),
      sd_created_at = Some (sh_created_at s)\<rparr>"

definition share_from_dict :: "share_dict \<Rightarrow> recovery_share res" where
  "share_from_dict d =
     (case item (sd_share_id d) of Inl e \<Rightarrow> Inl e | Inr share_id \<Rightarrow>
     (case item (sd_owner_name d) of Inl e \<Rightarrow> Inl e | Inr owner_name \<Rightarrow>
     (case item (sd_share_index d) of Inl e \<Rightarrow> Inl e | Inr share_index \<Rightarrow>
     (case item (sd_total_shares d) of Inl e \<Rightarrow> Inl e | Inr total_shares \<Rightarrow>
     (case item (sd_threshold d) of Inl e \<Rightarrow> Inl e | Inr threshold \<Rightarrow>
     (case b64_item (sd_encrypted_share d) of Inl e \<Rightarrow> Inl e | Inr encrypted_share \<Rightarrow>
     (case item (sd_holder_name d) of Inl e \<Rightarrow> Inl e | Inr holder_name \<Rightarrow>
     (case item (sd_holder_pub_b64 d) of Inl e \<Rightarrow> Inl e | Inr holder_pub_b64 \<Rightarrow>
     (case item (sd_created_at d) of Inl e \<Rightarrow> Inl e | Inr created_at \<Rightarrow>
        Inr \<lparr>sh_share_id = share_id, sh_owner_name = owner_name, sh_share_index = share_index,
             sh_total_shares = total_shares, sh_threshold = threshold, sh_encrypted_share = encrypted_share,
             sh_holder_name = holder_name, sh_holder_pub_b64 = holder_pub_b64, sh_created_at = created_at\<rparr>)))))))))"

section \<open>Round trips\<close>

lemma certificate_type_value [simp]: "certificate_type (ustr (cert_value t)) = Inr t"
  by (cases t) (simp_all add: certificate_type_def cert_value_def)

lemma from_to_dict [simp, codec_simps]: "from_dict (to_dict c) = Inr c"
  by (simp add: from_dict_def to_dict_def item_def b64_item_def get_default_def b64_roundtrip)

lemma row_dict_of [simp]: "row_dict (cert_row_of c) = to_dict c"
  by (simp add: row_dict_def cert_row_of_def to_dict_def)

lemma share_from_to_dict [simp, codec_simps]: "share_from_dict (share_to_dict s) = Inr s"
  by (simp add: share_from_dict_def share_to_dict_def item_def b64_item_def b64_roundtrip)

text \<open>Certificates as dictionaries, certificates as rows and shares as dictionaries are codecs.\<close>

interpretation cert_codec: text_codec to_dict from_dict
  by unfold_locales simp

interpretation row_codec: text_codec cert_row_of "\<lambda>r. from_dict (row_dict r)"
  by unfold_locales simp

interpretation share_codec: text_codec share_to_dict share_from_dict
  by unfold_locales simp

section \<open>What a signature covers\<close>

definition signed_data :: "bytes \<Rightarrow> cert_type \<Rightarrow> rat \<Rightarrow> rat \<Rightarrow> bytes" where
  "signed_data subject_pub t not_before not_after =
     subject_pub @ map of_nat (ustr (cert_value t)) @ pack_double not_before @ pack_double not_after"

definition cert_data :: "trust_certificate \<Rightarrow> bytes" where
  "cert_data c = signed_data (tc_subject_pub c) (tc_cert_type c) (tc_not_before c) (tc_not_after c)"

text \<open>The bytes determine the key, the type and the encoded times: no name of a type is the end of
  another.\<close>

lemma signed_data_inject:
  "signed_data p t a b = signed_data p' t' a' b' \<longleftrightarrow>
     p = p' \<and> t = t' \<and> pack_double a = pack_double a' \<and> pack_double b = pack_double b'"
proof
  let ?v = "\<lambda>t. map of_nat (ustr (cert_value t)) :: bytes"
  assume "signed_data p t a b = signed_data p' t' a' b'"
  then have eq: "(p @ ?v t @ pack_double a) @ pack_double b = (p' @ ?v t' @ pack_double a') @ pack_double b'"
    by (simp add: signed_data_def)
  have "pack_double b = pack_double b' \<and> (p @ ?v t) @ pack_double a = (p' @ ?v t') @ pack_double a'"
    using eq by (subst (asm) append_eq_append_conv) simp_all
  then have b: "pack_double b = pack_double b'" and eq2: "(p @ ?v t) @ pack_double a = (p' @ ?v t') @ pack_double a'"
    by blast+
  have "pack_double a = pack_double a' \<and> p @ ?v t = p' @ ?v t'"
    using eq2 by (subst (asm) append_eq_append_conv) simp_all
  then have a: "pack_double a = pack_double a'" and pt: "p @ ?v t = p' @ ?v t'" by blast+
  have last: "rev (p @ ?v t) = rev (p' @ ?v t')" using pt by simp
  have "t = t'" using last by (cases t; cases t') (simp_all add: cert_value_def ustr_def of_char_def)
  with pt a b show "p = p' \<and> t = t' \<and> pack_double a = pack_double a' \<and> pack_double b = pack_double b'" by simp
qed (simp add: signed_data_def)

end
