(* ===== verification/Trust_Service.thy ===== *)
theory Trust_Service
  imports Trust_Chain
begin

text \<open>
  \<^verbatim>\<open>TrustChainService\<close> of \<^verbatim>\<open>services/trust_chain_service.py\<close>: issuing, verifying, revoking,
  importing and exporting certificates, trust levels, and what a delegate may do. The service works on
  the key store and the database; published events are appended to a log. The current time, new
  identifiers and the randomness of \<^verbatim>\<open>save_friend\<close> are arguments; \<open>te_io\<close> tells whether the
  database can be used. Formatted dates are the time stamps they show.
\<close>

record trust_env =
  te_keys :: key_env
  te_sig :: sig_crypto
  te_io :: bool

datatype trust_event =
    CertificateIssued trust_certificate
  | CertificateRevoked "ustr option" ustr
  | FriendListChanged ustr ustr

type_synonym trust_state = "load_state \<times> trust_event list"

definition MIN_CERT_VALIDITY_DAYS :: int where "MIN_CERT_VALIDITY_DAYS = 1"
definition MAX_CERT_VALIDITY_DAYS :: int where "MAX_CERT_VALIDITY_DAYS = 3650"

abbreviation service_name :: "trust_env \<Rightarrow> load_state \<Rightarrow> ustr" where
  "service_name T s \<equiv> my_name (te_keys T) (te_io T) s"

text \<open>\<^verbatim>\<open>database.save_trust_certificate(cert.to_dict())\<close>\<close>

definition persist_cert :: "trust_env \<Rightarrow> trust_certificate \<Rightarrow> load_state \<Rightarrow> unit res \<times> load_state" where
  "persist_cert T c s =
     (if te_io T then (Inr (), (fst s, save_trust_certificate (cert_row_of c) (snd s))) else (Inl SqliteError, s))"

section \<open>Issuing\<close>

definition issue_certificate ::
  "trust_env \<Rightarrow> rat \<Rightarrow> ustr \<Rightarrow> ustr \<Rightarrow> ustr \<Rightarrow> ustr \<Rightarrow> int \<Rightarrow> trust_state \<Rightarrow> trust_certificate res \<times> trust_state" where
  "issue_certificate T now cert_id subject_name subject_pub_b64 cert_type validity_days st =
     (case st of (s, events) \<Rightarrow>
      let k = fst s in
      if my_ed_priv k = None \<or> \<not> given (my_dil_priv k) then (Inl CertificateError, st)
      else if subject_name \<notin> set (map fst (friends k)) then (Inl CertificateError, st)
      else
        (case certificate_type cert_type of Inl _ \<Rightarrow> (Inl CertificateError, st)
         | Inr ct \<Rightarrow>
           if \<not> (MIN_CERT_VALIDITY_DAYS \<le> validity_days \<and> validity_days \<le> MAX_CERT_VALIDITY_DAYS)
           then (Inl CertificateError, st)
           else
             (let not_after = now + of_int (validity_days * 86400) in
              case b64decode subject_pub_b64 of Inl e \<Rightarrow> (Inl e, st)
              | Inr subject_pub_bytes \<Rightarrow>
                (case hybrid_sign (te_sig T) (signed_data subject_pub_bytes ct now not_after)
                        (the (my_ed_priv k)) (the (my_dil_priv k)) of
                   Inl e \<Rightarrow> (Inl (if e = RuntimeError \<or> e = OSErr then CertificateError else e), st)
                 | Inr signature \<Rightarrow>
                   (case my_hybrid_sig_combined_pub k of None \<Rightarrow> (Inl TypeError, st)
                    | Some issuer_pub \<Rightarrow>
                      (let cert = \<lparr>tc_cert_id = cert_id, tc_subject_name = subject_name,
                             tc_subject_pub = subject_pub_bytes, tc_issuer_name = service_name T s,
                             tc_issuer_pub = issuer_pub, tc_cert_type = ct, tc_not_before = now,
                             tc_not_after = not_after, tc_signature = signature, tc_revoked = False,
                             tc_revocation_reason = [], tc_received_from = [], tc_created_at = now\<rparr>
                       in case persist_cert T cert s of
                            (Inl _, s') \<Rightarrow> (Inl CertificateError, (s', events))
                          | (Inr _, s') \<Rightarrow> (Inr cert, (s', events @ [CertificateIssued cert]))))))))"

section \<open>Verification\<close>

definition expected_issuer_pub :: "trust_env \<Rightarrow> ustr \<Rightarrow> load_state \<Rightarrow> bytes option res" where
  "expected_issuer_pub T issuer_name s =
     (let k = fst s in
      if issuer_name = service_name T s \<and> given (my_hybrid_sig_combined_pub k)
      then Inr (my_hybrid_sig_combined_pub k)
      else case map_of (friends_hybrid_sig_pubs k) issuer_name of None \<Rightarrow> Inr None
        | Some (ed_pub_bytes, dil_pub_bytes) \<Rightarrow>
            (case combine_pub ed_pub_bytes dil_pub_bytes of Inl e \<Rightarrow> Inl e | Inr c \<Rightarrow> Inr (Some c)))"

definition verify_cert_object :: "trust_env \<Rightarrow> trust_certificate \<Rightarrow> load_state \<Rightarrow> unit res" where
  "verify_cert_object T cert s =
     (case expected_issuer_pub T (tc_issuer_name cert) s of Inl e \<Rightarrow> Inl e
      | Inr None \<Rightarrow> Inl CertificateSignatureError
      | Inr (Some expected_pub) \<Rightarrow>
          if tc_issuer_pub cert \<noteq> expected_pub then Inl CertificateSignatureError
          else
            (let verdict =
               (case parse_combined_pub (tc_issuer_pub cert) of Inl e \<Rightarrow> Inl e
                | Inr (ed_pub_bytes, dil_pub_bytes) \<Rightarrow>
                  (case load_ed_public_key ed_pub_bytes of Inl e \<Rightarrow> Inl e
                   | Inr ed_pub \<Rightarrow> Inr (hybrid_verify (te_sig T) (cert_data cert) (tc_signature cert) ed_pub dil_pub_bytes)))
             in case verdict of
                  Inl e \<Rightarrow> Inl (if e = RuntimeError \<or> e = OSErr then CertificateSignatureError else e)
                | Inr valid \<Rightarrow> if valid then Inr () else Inl CertificateSignatureError))"

definition load_certificate :: "trust_env \<Rightarrow> ustr \<Rightarrow> load_state \<Rightarrow> trust_certificate res" where
  "load_certificate T cert_id s =
     (if \<not> te_io T then Inl CertificateError
      else case find (\<lambda>r. cr_cert_id r = cert_id) (get_trust_certificates_for None None (snd s)) of
        Some r \<Rightarrow> from_dict (row_dict r)
      | None \<Rightarrow> Inl CertificateError)"

definition verify_certificate :: "trust_env \<Rightarrow> rat \<Rightarrow> ustr \<Rightarrow> load_state \<Rightarrow> bool res" where
  "verify_certificate T now cert_id s =
     (case load_certificate T cert_id s of Inl e \<Rightarrow> Inl e
      | Inr cert \<Rightarrow>
          if tc_revoked cert then Inl CertificateRevokedError
          else if is_expired now cert then Inl CertificateExpiredError
          else case verify_cert_object T cert s of Inl e \<Rightarrow> Inl e | Inr _ \<Rightarrow> Inr True)"

section \<open>Revocation\<close>

definition revoked_copy :: "ustr \<Rightarrow> trust_certificate \<Rightarrow> trust_certificate" where
  "revoked_copy reason cert = cert\<lparr>tc_revoked := True, tc_revocation_reason := reason\<rparr>"

definition revoke_certificate :: "trust_env \<Rightarrow> ustr \<Rightarrow> ustr \<Rightarrow> trust_state \<Rightarrow> unit res \<times> trust_state" where
  "revoke_certificate T cert_id reason st =
     (case st of (s, events) \<Rightarrow>
      case load_certificate T cert_id s of Inl e \<Rightarrow> (Inl e, st)
      | Inr cert \<Rightarrow>
        (case persist_cert T (revoked_copy (if reason = [] then ustr ''unspecified'' else reason) cert) s of
           (Inl _, s') \<Rightarrow> (Inl CertificateError, (s', events))
         | (Inr _, s') \<Rightarrow> (Inr (), (s', events @ [CertificateRevoked (Some cert_id) reason]))))"

section \<open>Queries\<close>

text \<open>A query that fails returns no certificates; a row that does not deserialize raises.\<close>

definition query_certs :: "trust_env \<Rightarrow> ustr option \<Rightarrow> ustr option \<Rightarrow> load_state \<Rightarrow> trust_certificate list res" where
  "query_certs T issuer subject s =
     (if \<not> te_io T then Inr []
      else map_res (\<lambda>r. from_dict (row_dict r)) (get_trust_certificates_for issuer subject (snd s)))"

definition get_all_certificates :: "trust_env \<Rightarrow> load_state \<Rightarrow> trust_certificate list res" where
  "get_all_certificates T s = query_certs T None None s"

definition get_certs_for_friend :: "trust_env \<Rightarrow> ustr \<Rightarrow> load_state \<Rightarrow> trust_certificate list res" where
  "get_certs_for_friend T friend_name s = query_certs T None (Some friend_name) s"

definition get_certs_issued_by_me :: "trust_env \<Rightarrow> load_state \<Rightarrow> trust_certificate list res" where
  "get_certs_issued_by_me T s = query_certs T (Some (service_name T s)) None s"

definition get_trust_level :: "trust_env \<Rightarrow> rat \<Rightarrow> ustr \<Rightarrow> load_state \<Rightarrow> trust_level res" where
  "get_trust_level T now friend_name s =
     (case get_certs_for_friend T friend_name s of Inl e \<Rightarrow> Inl e | Inr certs \<Rightarrow> Inr (compute_trust_level now certs))"

text \<open>\<^verbatim>\<open>sorted({...})\<close>: Python compares strings by code points.\<close>

definition sorted_names :: "ustr list \<Rightarrow> ustr list" where
  "sorted_names names = sort (remdups names)"

record trust_info =
  ti_trust_level :: string
  ti_certificate_count :: nat
  ti_last_certificate_date :: "rat option"
  ti_nearest_expiry :: "rat option"
  ti_signers :: "ustr list option"
  ti_badge :: nat

definition get_trust_info :: "trust_env \<Rightarrow> rat \<Rightarrow> ustr \<Rightarrow> load_state \<Rightarrow> trust_info res" where
  "get_trust_info T now friend_name s =
     (case get_certs_for_friend T friend_name s of Inl e \<Rightarrow> Inl e
      | Inr certs \<Rightarrow>
        (let level_str = (case compute_trust_level now certs of
                 TL_Trusted \<Rightarrow> ''trusted'' | TL_Verified \<Rightarrow> ''partially_trusted''
               | TL_Basic \<Rightarrow> ''partially_trusted'' | TL_None \<Rightarrow> ''untrusted'');
             badge = (if level_str = ''trusted'' then 0x1F7E2 else if level_str = ''partially_trusted'' then 0x1F7E1 else 0x26AA);
             valid_certs = filter (\<lambda>c. \<not> tc_revoked c \<and> \<not> is_expired now c) certs;
             signers = sorted_names (map tc_issuer_name valid_certs)
         in Inr \<lparr>ti_trust_level = level_str, ti_certificate_count = length valid_certs,
                 ti_last_certificate_date = (if valid_certs = [] then None else Some (Max (set (map tc_created_at valid_certs)))),
                 ti_nearest_expiry = (if valid_certs = [] then None else Some (Min (set (map tc_not_after valid_certs)))),
                 ti_signers = (if signers = [] then None else Some signers), ti_badge = badge\<rparr>))"

record chain_entry =
  ce_issuer :: ustr
  ce_type :: string
  ce_expiry :: rat
  ce_status :: revocation_status
  ce_revoked :: bool
  ce_received_from :: ustr

definition compute_trust_chain ::
  "trust_env \<Rightarrow> rat \<Rightarrow> ustr \<Rightarrow> load_state \<Rightarrow> (ustr \<times> trust_level \<times> chain_entry list \<times> ustr list) res" where
  "compute_trust_chain T now subject_name s =
     (case get_certs_for_friend T subject_name s of Inl e \<Rightarrow> Inl e
      | Inr certs \<Rightarrow>
          Inr (subject_name, compute_trust_level now certs,
               map (\<lambda>c. \<lparr>ce_issuer = tc_issuer_name c, ce_type = cert_value (tc_cert_type c), ce_expiry = tc_not_after c,
                         ce_status = status now c, ce_revoked = tc_revoked c, ce_received_from = tc_received_from c\<rparr>) certs,
               sorted_names (map tc_issuer_name certs)))"

section \<open>Exchange\<close>

definition get_pending_certs_for_exchange :: "trust_env \<Rightarrow> load_state \<Rightarrow> cert_dict list res" where
  "get_pending_certs_for_exchange T s =
     (case get_certs_issued_by_me T s of Inl e \<Rightarrow> Inl e | Inr certs \<Rightarrow> Inr (map to_dict certs))"

text \<open>One certificate of \<^verbatim>\<open>import_received_certs\<close>: \<open>Inr True\<close> imported, \<open>Inr False\<close> skipped.\<close>

definition import_one :: "trust_env \<Rightarrow> cert_dict \<Rightarrow> load_state \<Rightarrow> bool res \<times> load_state" where
  "import_one T cert_dict s =
     (case from_dict cert_dict of
        Inl e \<Rightarrow> (if e = KeyError \<or> caught e then Inr False else Inl e, s)
      | Inr cert \<Rightarrow>
          if tc_subject_name cert = [] \<or> tc_issuer_name cert = [] then (Inr False, s)
          else if tc_signature cert = [] then (Inr False, s)
          else case verify_cert_object T cert s of
              Inl e \<Rightarrow> (if e = CertificateSignatureError \<or> e = KeyError \<or> caught e then Inr False else Inl e, s)
            | Inr _ \<Rightarrow>
                (let cert = (if tc_received_from cert = [] then cert\<lparr>tc_received_from := service_name T s\<rparr> else cert)
                 in case persist_cert T cert s of (Inl e, s') \<Rightarrow> (Inl e, s') | (Inr _, s') \<Rightarrow> (Inr True, s')))"

fun import_received_certs :: "trust_env \<Rightarrow> cert_dict list \<Rightarrow> load_state \<Rightarrow> nat res \<times> load_state" where
  "import_received_certs T [] s = (Inr 0, s)"
| "import_received_certs T (d # ds) s =
     and_then (import_one T d s) (\<lambda>ok s.
     and_then (import_received_certs T ds s) (\<lambda>n s. (Inr ((if ok then 1 else 0) + n), s)))"

definition export_single_certificate :: "trust_env \<Rightarrow> ustr \<Rightarrow> load_state \<Rightarrow> cert_dict res" where
  "export_single_certificate T cert_id s =
     (case load_certificate T cert_id s of Inl e \<Rightarrow> Inl e | Inr cert \<Rightarrow> Inr (to_dict cert))"

record trust_bundle =
  tb_bundle_id :: ustr
  tb_issuer_name :: ustr
  tb_exported_at :: rat
  tb_certificates :: "cert_dict list"

definition export_trust_bundle :: "trust_env \<Rightarrow> rat \<Rightarrow> ustr \<Rightarrow> load_state \<Rightarrow> trust_bundle res" where
  "export_trust_bundle T now bundle_id s =
     (case get_all_certificates T s of Inl e \<Rightarrow> Inl e
      | Inr certs \<Rightarrow> Inr \<lparr>tb_bundle_id = bundle_id, tb_issuer_name = service_name T s, tb_exported_at = now,
                         tb_certificates = map to_dict certs\<rparr>)"

definition export_delegation_certificates :: "trust_env \<Rightarrow> rat \<Rightarrow> ustr \<Rightarrow> load_state \<Rightarrow> trust_bundle res" where
  "export_delegation_certificates T now bundle_id s =
     (case get_all_certificates T s of Inl e \<Rightarrow> Inl e
      | Inr certs \<Rightarrow> Inr \<lparr>tb_bundle_id = bundle_id, tb_issuer_name = service_name T s, tb_exported_at = now,
                         tb_certificates = map to_dict (filter (\<lambda>c. tc_cert_type c = Delegation) certs)\<rparr>)"

section \<open>Delegation\<close>

definition get_delegation_certs_held_by_me :: "trust_env \<Rightarrow> rat \<Rightarrow> load_state \<Rightarrow> trust_certificate list res" where
  "get_delegation_certs_held_by_me T now s =
     (case query_certs T None (Some (service_name T s)) s of Inl e \<Rightarrow> Inl e
      | Inr certs \<Rightarrow> Inr (filter (\<lambda>c. tc_cert_type c = Delegation \<and> status now c = Valid) certs))"

definition assert_delegation :: "trust_env \<Rightarrow> rat \<Rightarrow> ustr \<Rightarrow> load_state \<Rightarrow> unit res" where
  "assert_delegation T now delegator_name s =
     (case get_delegation_certs_held_by_me T now s of Inl e \<Rightarrow> Inl e
      | Inr certs \<Rightarrow> if delegator_name \<in> set (map tc_issuer_name certs) then Inr () else Inl CertificateError)"

text \<open>\<open>overrides\<close> are the keyword arguments that replace fields of the stored record.\<close>

definition delegated_save ::
  "trust_env \<Rightarrow> (nat \<Rightarrow> bytes \<times> bytes) \<Rightarrow> ustr \<Rightarrow> bytes \<Rightarrow> (friend_args \<Rightarrow> friend_args) \<Rightarrow> load_state \<Rightarrow>
   unit res \<times> load_state" where
  "delegated_save T rnd delegator_name master_password overrides s =
     (case s of (k, d) \<Rightarrow>
      if \<not> te_io T then (Inl SqliteError, s)
      else case select_key fr_name delegator_name (friends_tab d) of None \<Rightarrow> (Inl CertificateError, s)
      | Some row \<Rightarrow>
        (let hybrid = (case map_of (friends_hybrid_sig_pubs k) delegator_name of None \<Rightarrow> Inr None
                       | Some (ed_pub, dil_pub) \<Rightarrow>
                         (case combine_pub ed_pub dil_pub of Inl e \<Rightarrow> Inl e | Inr c \<Rightarrow> Inr (Some (b64encode c))))
         in case hybrid of Inl e \<Rightarrow> (Inl e, s)
            | Inr hybrid_b64 \<Rightarrow>
              (case save_friend (te_keys T) rnd master_password
                      (overrides
                        \<lparr>fa_name = delegator_name, fa_pem = fr_public_key_pem row,
                         fa_shared_secret = get_friend_secret delegator_name k,
                         fa_x25519_pub_b64 = fr_x25519_public_key_b64 row,
                         fa_capabilities = fr_capabilities_json row,
                         fa_pqc_combined_pub_b64 = fr_pqc_combined_pub_b64 row,
                         fa_hybrid_sig_pub_b64 = hybrid_b64, fa_ecdh_priv_bytes = None\<rparr>) s of
                 (Inl _, s') \<Rightarrow> (Inl CertificateError, s')
               | (Inr _, s') \<Rightarrow> (Inr (), s'))))"

text \<open>The frame of the five updates: the delegation certificate, the check of the new key (every
  exception becomes \<^verbatim>\<open>CertificateError\<close>), the save, the event.\<close>

definition delegated_update ::
  "trust_env \<Rightarrow> (nat \<Rightarrow> bytes \<times> bytes) \<Rightarrow> rat \<Rightarrow> ustr \<Rightarrow> bytes \<Rightarrow> bool \<Rightarrow> (friend_args \<Rightarrow> friend_args) \<Rightarrow>
   trust_state \<Rightarrow> unit res \<times> trust_state" where
  "delegated_update T rnd now delegator_name master_password key_ok overrides st =
     (case st of (s, events) \<Rightarrow>
      case assert_delegation T now delegator_name s of Inl e \<Rightarrow> (Inl e, st)
      | Inr _ \<Rightarrow>
        if \<not> key_ok then (Inl CertificateError, st)
        else
          (case delegated_save T rnd delegator_name master_password overrides s of
             (Inl e, s') \<Rightarrow> (Inl e, (s', events))
           | (Inr _, s') \<Rightarrow>
               (Inr (), (s', events @ [FriendListChanged (ustr ''delegation_key_update'') delegator_name]))))"

definition update_delegator_pub_key where
  "update_delegator_pub_key T rnd now delegator_name new_combined_pub_b64 master_password st =
     delegated_update T rnd now delegator_name master_password
       (case b64decode new_combined_pub_b64 of Inl _ \<Rightarrow> False | Inr raw \<Rightarrow> is_ok (parse_combined_pub raw))
       (\<lambda>f. f\<lparr>fa_hybrid_sig_pub_b64 := Some new_combined_pub_b64\<rparr>) st"

definition update_delegator_x25519_key where
  "update_delegator_x25519_key T rnd now delegator_name new_x25519_b64 master_password st =
     delegated_update T rnd now delegator_name master_password
       (case b64decode new_x25519_b64 of Inl _ \<Rightarrow> False | Inr raw \<Rightarrow> length raw = 32)
       (\<lambda>f. f\<lparr>fa_x25519_pub_b64 := Some new_x25519_b64\<rparr>) st"

definition update_delegator_pem where
  "update_delegator_pem T rnd now delegator_name new_pem master_password st =
     delegated_update T rnd now delegator_name master_password
       (is_ok (pem_to_pubkey (te_keys T) new_pem)) (\<lambda>f. f\<lparr>fa_pem := new_pem\<rparr>) st"

definition update_delegator_pqc_key where
  "update_delegator_pqc_key T rnd now delegator_name new_pqc_b64 master_password st =
     delegated_update T rnd now delegator_name master_password
       (case b64decode new_pqc_b64 of Inl _ \<Rightarrow> False | Inr raw \<Rightarrow> length raw \<ge> 32)
       (\<lambda>f. f\<lparr>fa_pqc_combined_pub_b64 := Some new_pqc_b64\<rparr>) st"

definition remove_all_delegator_optional_keys where
  "remove_all_delegator_optional_keys T rnd now delegator_name master_password st =
     delegated_update T rnd now delegator_name master_password True
       (\<lambda>f. f\<lparr>fa_x25519_pub_b64 := None, fa_pqc_combined_pub_b64 := None, fa_hybrid_sig_pub_b64 := None\<rparr>) st"

text \<open>A database that cannot be used has raised in \<^verbatim>\<open>assert_delegation\<close> already: no certificate is
  found.\<close>

definition revoke_delegator_recovery_shares :: "trust_env \<Rightarrow> rat \<Rightarrow> ustr \<Rightarrow> load_state \<Rightarrow> nat res \<times> load_state" where
  "revoke_delegator_recovery_shares T now delegator_name s =
     (case assert_delegation T now delegator_name s of Inl e \<Rightarrow> (Inl e, s)
      | Inr _ \<Rightarrow>
        (let d = snd s;
             distributed_count = length (get_recovery_shares_for delegator_name d);
             d1 = delete_recovery_shares_for delegator_name d;
             held = filter (\<lambda>r. hs_owner_name r = delegator_name) (get_all_held_shares d1);
             d2 = fold (\<lambda>r d. delete_held_share (hs_share_id r) d) held d1
         in (Inr (distributed_count + length held), (fst s, d2))))"

definition revoke_all_certs_for_delegator ::
  "trust_env \<Rightarrow> rat \<Rightarrow> ustr \<Rightarrow> trust_state \<Rightarrow> nat res \<times> trust_state" where
  "revoke_all_certs_for_delegator T now delegator_name st =
     (case st of (s, events) \<Rightarrow>
      case assert_delegation T now delegator_name s of Inl e \<Rightarrow> (Inl e, st)
      | Inr _ \<Rightarrow>
        (case query_certs T None (Some delegator_name) s of Inl e \<Rightarrow> (Inl e, st)
         | Inr certs \<Rightarrow>
           (let to_revoke = filter (\<lambda>c. \<not> tc_revoked c \<and> \<not> is_expired now c) certs;
                reason = ustr ''Revoked by delegate '' @ service_name T s;
                d' = fold (\<lambda>c d. save_trust_certificate (cert_row_of (revoked_copy reason c)) d) to_revoke (snd s)
            in (Inr (length to_revoke),
                ((fst s, d'), if to_revoke = [] then events else events @ [CertificateRevoked None reason])))))"

end
