(* ===== verification/Trust_Safety.thy ===== *)
theory Trust_Safety
  imports Trust_Service Friend_View
begin

text \<open>
  What the trust chain guarantees: issued certificates verify, imported ones were verified against a
  pinned key; and where it does not hold what it promises: an import undoes a revocation, one
  certificate imported under several identifiers counts several times, a delegate's update loses the
  ECDH key of the friend.
\<close>

section \<open>Verification\<close>

text \<open>What a certificate object has to satisfy, spelled out.\<close>

definition signed_by_pinned_key :: "trust_env \<Rightarrow> load_state \<Rightarrow> trust_certificate \<Rightarrow> bool" where
  "signed_by_pinned_key T s c \<longleftrightarrow>
     (\<exists>ed dil. expected_issuer_pub T (tc_issuer_name c) s = Inr (Some (tc_issuer_pub c)) \<and>
        parse_combined_pub (tc_issuer_pub c) = Inr (ed, dil) \<and> length ed = 32 \<and>
        hybrid_verify (te_sig T) (cert_data c) (tc_signature c) ed dil)"

lemma verify_cert_object_iff: "verify_cert_object T c s = Inr () \<longleftrightarrow> signed_by_pinned_key T s c"
proof (cases "expected_issuer_pub T (tc_issuer_name c) s = Inr (Some (tc_issuer_pub c))")
  case True
  then show ?thesis
    by (cases "parse_combined_pub (tc_issuer_pub c)")
      (auto simp: verify_cert_object_def signed_by_pinned_key_def load_ed_public_key_def Let_def split: if_splits)
next
  case False
  then show ?thesis
    by (auto simp: verify_cert_object_def signed_by_pinned_key_def split: sum.splits option.splits)
qed

text \<open>Verification reads the key store and the settings only.\<close>

lemma get_setting_certs [simp]: "get_setting n (d\<lparr>trust_certificates := x\<rparr>) = get_setting n d"
  by (simp add: get_setting_def)

lemma my_name_certs [simp]: "my_name E io (k, d\<lparr>trust_certificates := x\<rparr>) = my_name E io (k, d)"
  by (simp add: my_name_def Let_def)

lemma verify_cert_object_certs [simp]:
  "verify_cert_object T c (k, save_trust_certificate r d) = verify_cert_object T c (k, d)"
  by (simp add: verify_cert_object_def expected_issuer_pub_def save_trust_certificate_def)

lemma signed_by_pinned_key_certs [simp]:
  "signed_by_pinned_key T (k, save_trust_certificate r d) c \<longleftrightarrow> signed_by_pinned_key T (k, d) c"
  by (simp add: verify_cert_object_iff [symmetric])

lemma signed_by_pinned_key_received [simp]:
  "signed_by_pinned_key T s (c\<lparr>tc_received_from := n\<rparr>) \<longleftrightarrow> signed_by_pinned_key T s c"
  by (simp add: signed_by_pinned_key_def cert_data_def)

lemma persist_cert_ok [simp]:
  "te_io T \<Longrightarrow> persist_cert T c (k, d) = (Inr (), (k, save_trust_certificate (cert_row_of c) d))"
  by (simp add: persist_cert_def)

lemma cert_row_id [simp]: "cr_cert_id (cert_row_of c) = tc_cert_id c"
  by (simp add: cert_row_of_def)

lemma load_certificate_saved:
  assumes "te_io T"
  shows "load_certificate T i (k, save_trust_certificate (cert_row_of c) d) =
    (if i = tc_cert_id c then Inr c else load_certificate T i (k, d))"
proof -
  have "find (\<lambda>r. cr_cert_id r = i) (get_trust_certificates_for None None e) = select_key cr_cert_id i (trust_certificates e)" for e
    by (simp add: get_trust_certificates_for_def select_key_def)
  then show ?thesis
    using assms by (simp add: load_certificate_def save_trust_certificate_def cert_table.get_put row_codec.decode_encode)
qed

section \<open>Imports\<close>

text \<open>One certificate: nothing changed, or a row was written for a certificate that verified.\<close>

lemma import_one_cases:
  assumes "import_one T x (k, d) = (r, s')"
  shows "s' = (k, d) \<and> r \<noteq> Inr True \<or>
    (\<exists>c. r = Inr True \<and> te_io T \<and> s' = (k, save_trust_certificate (cert_row_of c) d) \<and>
       tc_signature c \<noteq> [] \<and> signed_by_pinned_key T (k, d) c)"
proof (cases "from_dict x")
  case (Inr c)
  note c = this
  show ?thesis
  proof (cases "tc_subject_name c = [] \<or> tc_issuer_name c = [] \<or> tc_signature c = []")
    case False
    show ?thesis
    proof (cases "verify_cert_object T c (k, d)")
      case (Inr u)
      then have "signed_by_pinned_key T (k, d) c" by (simp add: verify_cert_object_iff)
      with assms c False Inr show ?thesis
        by (auto simp: import_one_def persist_cert_def Let_def
            intro!: exI [of _ "if tc_received_from c = [] then c\<lparr>tc_received_from := service_name T (k, d)\<rparr> else c"]
            split: if_splits)
    qed (use assms c False in \<open>auto simp: import_one_def split: if_splits\<close>)
  qed (use assms c in \<open>auto simp: import_one_def split: if_splits\<close>)
qed (use assms in \<open>auto simp: import_one_def split: if_splits\<close>)

lemma import_received_certs_rows:
  assumes "import_received_certs T ds (k, d) = (r, (k', d'))"
  shows "k' = k \<and> (\<forall>row \<in> set (trust_certificates d').
    row \<in> set (trust_certificates d) \<or>
    (\<exists>c. row = cert_row_of c \<and> tc_signature c \<noteq> [] \<and> signed_by_pinned_key T (k, d) c))"
  using assms
proof (induction ds arbitrary: d r k' d')
  case (Cons x ds)
  obtain r1 s1 where one: "import_one T x (k, d) = (r1, s1)" by (cases "import_one T x (k, d)")
  from import_one_cases [OF one] obtain d1 where s1: "s1 = (k, d1)"
    and d1: "d1 = d \<or> (\<exists>c. d1 = save_trust_certificate (cert_row_of c) d \<and> tc_signature c \<noteq> [] \<and> signed_by_pinned_key T (k, d) c)"
    by blast
  have step: "row \<in> set (trust_certificates d) \<or>
      (\<exists>c. row = cert_row_of c \<and> tc_signature c \<noteq> [] \<and> signed_by_pinned_key T (k, d) c)"
    if "row \<in> set (trust_certificates d1)" for row
    using d1 that by (auto simp: save_trust_certificate_def insert_or_replace_def)
  have same: "signed_by_pinned_key T (k, d1) c \<longleftrightarrow> signed_by_pinned_key T (k, d) c" for c
    using d1 by auto
  show ?case
  proof (cases r1)
    case (Inl e)
    with Cons.prems one s1 step show ?thesis by auto
  next
    case (Inr b)
    obtain r2 s2 where rest: "import_received_certs T ds (k, d1) = (r2, s2)" by (cases "import_received_certs T ds (k, d1)")
    have "s2 = (k', d')" using Cons.prems one s1 Inr rest by (cases r2) auto
    with Cons.IH [of d1 r2 k' d'] rest step same show ?thesis by blast
  qed
qed simp

text \<open>A certificate with a signature, both names and a pinned issuer is imported.\<close>

lemma import_signed:
  assumes "te_io T" "signed_by_pinned_key T (k, d) c" "tc_signature c \<noteq> []" "tc_subject_name c \<noteq> []" "tc_issuer_name c \<noteq> []"
    and "tc_received_from c \<noteq> []"
  shows "import_one T (to_dict c) (k, d) = (Inr True, (k, save_trust_certificate (cert_row_of c) d))"
  using assms by (simp add: import_one_def Let_def verify_cert_object_iff [symmetric])

section \<open>Issued certificates\<close>

text \<open>What a successful issue leaves, and that the certificate is signed by the pinned key.\<close>

lemma issued_fields:
  assumes "issue_certificate T now i subject subject_pub ct days ((k, d), ev) = (Inr cert, (s', ev'))"
    and "te_io T" "my_ed_priv k = Some ed" "my_dil_priv k = Some dil" "my_hybrid_sig_combined_pub k = Some pub"
  shows "tc_cert_id cert = i" "tc_subject_name cert = subject" "tc_not_after cert = now + of_int (days * 86400)"
    "tc_issuer_name cert = service_name T (k, d)" "tc_issuer_pub cert = pub" "\<not> tc_revoked cert"
    "hybrid_sign (te_sig T) (cert_data cert) ed dil = Inr (tc_signature cert)"
    "s' = (k, save_trust_certificate (cert_row_of cert) d)"
  using assms by (auto simp: issue_certificate_def Let_def cert_data_def split: if_splits sum.splits)

lemma issued_signed:
  assumes laws: "sig_laws (te_sig T)" and io: "te_io T"
    and keys: "my_ed_priv k = Some ed" "my_dil_priv k = Some dil" "my_hybrid_sig_combined_pub k = Some pub"
      "combine_pub (ed_public (te_sig T) ed) dil_pub = Inr pub" "dil_pair (te_sig T) dil dil_pub"
    and issue: "issue_certificate T now i subject subject_pub ct days ((k, d), ev) = (Inr cert, (s', ev'))"
  shows "signed_by_pinned_key T (k, d) cert"
proof -
  note cert = issued_fields [OF issue io keys(1-3)]
  have parse: "parse_combined_pub pub = Inr (ed_public (te_sig T) ed, dil_pub)"
    by (rule parse_combine [OF keys(4)])
  have "pub \<noteq> []" using parse by (auto simp: parse_combined_pub_def unpack_be_def slice_def)
  then have "expected_issuer_pub T (tc_issuer_name cert) (k, d) = Inr (Some pub)"
    using keys(3) cert(4) by (simp add: expected_issuer_pub_def given_def)
  moreover have "hybrid_verify (te_sig T) (cert_data cert) (tc_signature cert) (ed_public (te_sig T) ed) dil_pub"
    by (rule sig_laws.hybrid_sign_verify [OF laws cert(7) keys(5)])
  ultimately show ?thesis
    using parse cert(5) sig_laws.ed_public_length [OF laws] by (simp add: signed_by_pinned_key_def)
qed

section \<open>A reference instance\<close>

definition ref_trust_env :: trust_env where
  "ref_trust_env = \<lparr>te_keys = ref_key_env, te_sig = ref_sig_crypto, te_io = True\<rparr>"

definition ref_ed :: bytes where "ref_ed = replicate 32 5"

definition ref_pub :: bytes where "ref_pub = projr (combine_pub ref_ed [7])"

definition ref_store :: key_store where
  "ref_store = new_key_store\<lparr>my_pub := Some [9], my_ed_priv := Some ref_ed, my_dil_priv := Some [7],
     my_hybrid_sig_combined_pub := Some ref_pub, friends := [(ustr ''bob'', [1], None)]\<rparr>"

definition ref_issue :: "trust_certificate res \<times> trust_state" where
  "ref_issue = issue_certificate ref_trust_env 0 (ustr ''id-1'') (ustr ''bob'') (ustr ''eA=='') (ustr ''identity'') 30
     ((ref_store, empty_db), [])"

definition ref_cert :: trust_certificate where "ref_cert = projr (fst ref_issue)"

definition held_cert :: trust_certificate where "held_cert = ref_cert\<lparr>tc_received_from := ustr ''carol''\<rparr>"

definition held_db :: db where "held_db = save_trust_certificate (cert_row_of held_cert) empty_db"

lemma ref_trust_sig [simp]: "te_sig ref_trust_env = ref_sig_crypto" "te_io ref_trust_env"
  by (simp_all add: ref_trust_env_def)

lemma ref_ed_public: "ed_public ref_sig_crypto ref_ed = ref_ed"
  by (simp add: ref_sig_crypto_def ref_ed_def)

lemma ref_combine: "combine_pub (ed_public ref_sig_crypto ref_ed) [7] = Inr ref_pub"
  unfolding ref_ed_public by (simp add: ref_pub_def combine_pub_def pack_be_def ref_ed_def)

lemma ref_pair: "dil_pair ref_sig_crypto [7] [7]"
  by (simp add: dil_pair_def ref_sig_crypto_def)

lemma ref_store_keys: "my_ed_priv ref_store = Some ref_ed" "my_dil_priv ref_store = Some [7]"
    "my_hybrid_sig_combined_pub ref_store = Some ref_pub" "friends ref_store = [(ustr ''bob'', [1], None)]" "my_pub ref_store = Some [9]"
  by (simp_all add: ref_store_def)

lemma ref_sign: "\<exists>sig. hybrid_sign ref_sig_crypto m ref_ed [7] = Inr sig"
proof -
  have "dil_sign ref_sig_crypto [7] m = Inr (ref_sig 70 [7] m)" by (simp add: ref_sig_crypto_def)
  then show ?thesis by (simp add: hybrid_sign_def ref_sig_available Let_def pack_be_ok ref_sig.ed_sign_length)
qed

lemma subject_key: "b64decode (ustr ''eA=='') = Inr [120]"
  by code_simp

lemma ref_issue_ok: "\<exists>c. fst ref_issue = Inr c"
proof -
  obtain sig where "hybrid_sign ref_sig_crypto (signed_data [120] Identity 0 2592000) ref_ed [7] = Inr sig"
    using ref_sign by blast
  then show ?thesis
    by (simp add: ref_issue_def issue_certificate_def Let_def ref_store_keys given_def certificate_type_def subject_key
        MIN_CERT_VALIDITY_DAYS_def MAX_CERT_VALIDITY_DAYS_def)
qed

lemma ref_issued:
  "issue_certificate ref_trust_env 0 (ustr ''id-1'') (ustr ''bob'') (ustr ''eA=='') (ustr ''identity'') 30
     ((ref_store, empty_db), []) = (Inr ref_cert, (fst (snd ref_issue), snd (snd ref_issue)))"
  using ref_issue_ok by (auto simp: ref_cert_def ref_issue_def prod_eq_iff)

lemmas ref_cert_fields = issued_fields [OF ref_issued ref_trust_sig(2) ref_store_keys(1-3), unfolded ref_trust_sig]

lemma ref_name: "my_name ref_key_env io (ref_store, empty_db) \<noteq> []"
  by (simp add: my_name_def ref_store_keys get_setting_def select_key_def empty_db_def ustr_def Let_def)

lemma held_fields: "tc_cert_id held_cert = ustr ''id-1''" "tc_subject_name held_cert = ustr ''bob''" "tc_not_after held_cert = 2592000"
    "\<not> tc_revoked held_cert" "tc_signature held_cert \<noteq> []" "tc_issuer_name held_cert \<noteq> []" "tc_received_from held_cert \<noteq> []"
  using ref_cert_fields ref_sig.hybrid_sign_nonempty [OF ref_cert_fields(7)] ref_name
  by (simp_all add: held_cert_def ustr_def ref_trust_env_def)

lemma held_verifies: "verify_cert_object ref_trust_env held_cert (ref_store, empty_db) = Inr ()"
  using issued_signed [OF _ _ ref_store_keys(1-3) _ _ ref_issued, of "[7]"]
  by (simp add: held_cert_def verify_cert_object_iff ref_sig_laws ref_combine ref_pair)

section \<open>Properties\<close>

text \<open>C4. Forged certificates are not imported: after an import, also one that raised half way, the key
  store is unchanged and every certificate in the database was there before or carries a hybrid
  signature over its contents by the key pinned for its issuer.\<close>

theorem import_only_verified:
  assumes "import_received_certs T ds (k, d) = (r, (k', d'))"
  shows "k' = k \<and> (\<forall>row \<in> set (trust_certificates d').
    row \<in> set (trust_certificates d) \<or>
    (\<exists>c. row = cert_row_of c \<and> tc_signature c \<noteq> [] \<and> signed_by_pinned_key T (k, d) c))"
  by (rule import_received_certs_rows [OF assms])

theorem import_only_verified_witness:
  "import_received_certs ref_trust_env [to_dict held_cert] (ref_store, empty_db) = (Inr 1, (ref_store, held_db)) \<and>
   (\<exists>c. trust_certificates held_db = [cert_row_of c] \<and> tc_signature c \<noteq> [] \<and>
      signed_by_pinned_key ref_trust_env (ref_store, empty_db) c)"
proof -
  have subject: "tc_subject_name held_cert \<noteq> []" by (simp add: held_fields(2) ustr_def)
  have "import_one ref_trust_env (to_dict held_cert) (ref_store, empty_db) = (Inr True, (ref_store, held_db))"
    unfolding held_db_def
    by (rule import_signed) (use held_verifies held_fields subject in \<open>simp_all add: verify_cert_object_iff\<close>)
  then have imp: "import_received_certs ref_trust_env [to_dict held_cert] (ref_store, empty_db) = (Inr 1, (ref_store, held_db))"
    by simp
  have rows: "trust_certificates held_db = [cert_row_of held_cert]"
    by (simp add: held_db_def save_trust_certificate_def insert_or_replace_def empty_db_def)
  from import_only_verified [OF imp]
  have "\<exists>c. cert_row_of held_cert = cert_row_of c \<and> tc_signature c \<noteq> [] \<and> signed_by_pinned_key ref_trust_env (ref_store, empty_db) c"
    by (simp add: rows empty_db_def)
  with imp rows show ?thesis by simp
qed

text \<open>A certificate that was issued verifies at any time up to its expiry, when the published
  combined key belongs to the signing keys.\<close>

theorem issued_certificate_verifies:
  assumes laws: "sig_laws (te_sig T)" and io: "te_io T"
    and keys: "my_ed_priv k = Some ed" "my_dil_priv k = Some dil" "my_hybrid_sig_combined_pub k = Some pub"
      "combine_pub (ed_public (te_sig T) ed) dil_pub = Inr pub" "dil_pair (te_sig T) dil dil_pub"
    and issue: "issue_certificate T now i subject subject_pub ct days ((k, d), ev) = (Inr cert, (s', ev'))"
    and time: "now' \<le> tc_not_after cert"
  shows "verify_certificate T now' (tc_cert_id cert) s' = Inr True"
proof -
  have "verify_cert_object T cert (k, d) = Inr ()"
    using issued_signed [OF laws io keys issue] by (simp add: verify_cert_object_iff)
  then show ?thesis
    using issued_fields [OF issue io keys(1-3)] time io
    by (simp add: verify_certificate_def load_certificate_saved is_expired_def)
qed

theorem issued_certificate_verifies_witness:
  "verify_certificate ref_trust_env 100 (tc_cert_id ref_cert) (fst (snd ref_issue)) = Inr True"
  by (rule issued_certificate_verifies [OF _ _ ref_store_keys(1-3) _ _ ref_issued, of "[7]"])
    (simp_all add: ref_sig_laws ref_combine ref_pair ref_cert_fields)

text \<open>A revocation holds only until the certificate is received again: a revoked certificate is
  refused, but importing the certificate as it was before the revocation overwrites the row, and it
  verifies again.\<close>

theorem import_undoes_revocation:
  assumes io: "te_io T" and cert: "load_certificate T i (k, d) = Inr cert" "tc_cert_id cert = i" "\<not> tc_revoked cert"
    and shape: "tc_signature cert \<noteq> []" "tc_subject_name cert \<noteq> []" "tc_issuer_name cert \<noteq> []" "tc_received_from cert \<noteq> []"
    and verified: "verify_certificate T now i (k, d) = Inr True"
    and revoke: "revoke_certificate T i reason ((k, d), ev) = (r, (s1, ev1))"
    and again: "import_received_certs T [to_dict cert] s1 = (n, s2)"
  shows "r = Inr () \<and> verify_certificate T now i s1 = Inl CertificateRevokedError \<and>
    n = Inr 1 \<and> verify_certificate T now i s2 = Inr True"
proof -
  define why where "why = (if reason = [] then ustr ''unspecified'' else reason)"
  have s1: "r = Inr ()" "s1 = (k, save_trust_certificate (cert_row_of (revoked_copy why cert)) d)"
    using revoke io cert(1) by (simp_all add: revoke_certificate_def why_def)
  have signed: "signed_by_pinned_key T (k, d) cert" and valid: "\<not> is_expired now cert"
    using verified cert by (auto simp: verify_certificate_def verify_cert_object_iff [symmetric] split: if_splits sum.splits)
  have "verify_certificate T now i s1 = Inl CertificateRevokedError"
    using io cert(2) by (simp add: verify_certificate_def s1 load_certificate_saved revoked_copy_def)
  moreover have "import_one T (to_dict cert) s1 = (Inr True, (k, save_trust_certificate (cert_row_of cert) (snd s1)))"
    unfolding s1 by (simp add: import_signed [OF io _ shape] signed)
  then have "n = Inr 1" "s2 = (k, save_trust_certificate (cert_row_of cert) (snd s1))" using again by auto
  moreover have "verify_certificate T now i (k, save_trust_certificate (cert_row_of cert) d') = Inr True"
    if "verify_cert_object T cert (k, d') = Inr ()" for d'
    using io cert(2,3) valid that by (simp add: verify_certificate_def load_certificate_saved)
  moreover have "verify_cert_object T cert (k, snd s1) = Inr ()"
    using signed by (simp add: s1 verify_cert_object_iff)
  ultimately show ?thesis using s1(1) by simp
qed

theorem import_undoes_revocation_witness:
  "\<exists>s1 s2. verify_certificate ref_trust_env 100 (ustr ''id-1'') s1 = Inl CertificateRevokedError \<and>
     import_received_certs ref_trust_env [to_dict held_cert] s1 = (Inr 1, s2) \<and>
     verify_certificate ref_trust_env 100 (ustr ''id-1'') s2 = Inr True"
proof -
  obtain r s1 ev1 where revoke: "revoke_certificate ref_trust_env (ustr ''id-1'') [] ((ref_store, held_db), []) = (r, (s1, ev1))"
    by (metis prod.exhaust)
  obtain n s2 where again: "import_received_certs ref_trust_env [to_dict held_cert] s1 = (n, s2)" by (metis prod.exhaust)
  have load: "load_certificate ref_trust_env (ustr ''id-1'') (ref_store, held_db) = Inr held_cert"
    by (simp add: held_db_def load_certificate_saved held_fields)
  have verified: "verify_certificate ref_trust_env 100 (ustr ''id-1'') (ref_store, held_db) = Inr True"
    using held_verifies by (simp add: verify_certificate_def load held_fields is_expired_def) (simp add: held_db_def)
  have subject: "tc_subject_name held_cert \<noteq> []" by (simp add: held_fields(2) ustr_def)
  have "n = Inr 1 \<and> verify_certificate ref_trust_env 100 (ustr ''id-1'') s1 = Inl CertificateRevokedError \<and>
      verify_certificate ref_trust_env 100 (ustr ''id-1'') s2 = Inr True"
    using import_undoes_revocation [OF _ load held_fields(1,4,5) subject held_fields(6,7) verified revoke again] by simp
  with again show ?thesis by blast
qed

text \<open>Rows that deserialize, and what the query returns then.\<close>

lemma query_certs_ok:
  assumes "te_io T" "query_certs T issuer subject (k, d) = Inr certs"
  shows "\<exists>certs'. query_certs T issuer subject (k, save_trust_certificate (cert_row_of c) d) = Inr certs'"
proof -
  have all: "map_res f xs = Inr ys \<Longrightarrow> x \<in> set xs \<Longrightarrow> \<exists>y. f x = Inr y" for f :: "cert_row \<Rightarrow> trust_certificate res" and xs ys x
    by (induction xs arbitrary: ys) (auto split: sum.splits)
  have some: "(\<And>x. x \<in> set xs \<Longrightarrow> \<exists>y. f x = Inr y) \<Longrightarrow> \<exists>ys. map_res f xs = Inr ys" for f :: "cert_row \<Rightarrow> trust_certificate res" and xs
    by (induction xs) (fastforce split: sum.splits)+
  have "\<exists>y. from_dict (row_dict r) = Inr y"
    if "r \<in> set (get_trust_certificates_for issuer subject (save_trust_certificate (cert_row_of c) d))" for r
  proof (cases "r = cert_row_of c")
    case False
    with that have "r \<in> set (get_trust_certificates_for issuer subject d)"
      by (auto simp: get_trust_certificates_for_def save_trust_certificate_def insert_or_replace_def split: if_splits)
    with assms all show ?thesis by (simp add: query_certs_def)
  qed simp
  with assms(1) some show ?thesis by (simp add: query_certs_def)
qed

lemma query_certs_member:
  assumes "te_io T" "query_certs T None (Some n) (k, d) = Inr certs" "cert_row_of c \<in> set (trust_certificates d)" "tc_subject_name c = n"
  shows "c \<in> set certs"
proof -
  have "map_res f xs = Inr ys \<Longrightarrow> x \<in> set xs \<Longrightarrow> f x = Inr y \<Longrightarrow> y \<in> set ys" for f :: "cert_row \<Rightarrow> trust_certificate res" and xs ys x y
    by (induction xs arbitrary: ys) (auto split: sum.splits)
  moreover have "cert_row_of c \<in> set (get_trust_certificates_for None (Some n) d)"
    using assms(3,4) by (simp add: get_trust_certificates_for_def cert_row_of_def)
  ultimately show ?thesis using assms(1,2) by (auto simp: query_certs_def)
qed

lemma trusted_by_three:
  assumes "distinct [a, b, c]" "{a, b, c} \<subseteq> set certs" "\<forall>x \<in> {a, b, c}. status now x = Valid"
  shows "compute_trust_level now certs = TL_Trusted"
proof -
  have "card {a, b, c} \<le> card (set (filter (\<lambda>c. status now c = Valid) certs))"
    by (rule card_mono) (use assms in auto)
  also have "\<dots> \<le> length (filter (\<lambda>c. status now c = Valid) certs)" by (rule card_length)
  finally show ?thesis using assms(1) by (simp add: compute_trust_level_def)
qed

text \<open>One signature is enough for the highest trust level: the identifier of a certificate is not
  signed, so that one valid certificate of one issuer, received under three identifiers, makes its
  subject trusted.\<close>

theorem one_issuer_makes_trusted:
  assumes io: "te_io T" and known: "get_certs_for_friend T (tc_subject_name c) (k, d) = Inr certs"
    and signed: "signed_by_pinned_key T (k, d) c" "tc_signature c \<noteq> []" "tc_subject_name c \<noteq> []" "tc_issuer_name c \<noteq> []"
      "tc_received_from c \<noteq> []"
    and valid: "status now c = Valid" and ids: "distinct [i, j, l]"
    and copies: "import_received_certs T (map (\<lambda>n. to_dict (c\<lparr>tc_cert_id := n\<rparr>)) [i, j, l]) (k, d) = (n, s')"
  shows "n = Inr 3 \<and> get_trust_level T now (tc_subject_name c) s' = Inr TL_Trusted"
proof -
  let ?c = "\<lambda>i. c\<lparr>tc_cert_id := i\<rparr>" and ?save = "\<lambda>i d. save_trust_certificate (cert_row_of (c\<lparr>tc_cert_id := i\<rparr>)) d"
  have sig: "signed_by_pinned_key T (k, d') (?c i) \<longleftrightarrow> signed_by_pinned_key T (k, d') c" for d' i
    by (simp add: signed_by_pinned_key_def cert_data_def)
  have one: "import_one T (to_dict (?c i)) (k, d') = (Inr True, (k, ?save i d'))" if "signed_by_pinned_key T (k, d') c" for d' i
    by (rule import_signed) (use io signed that sig in auto)
  have n: "n = Inr 3" and s': "s' = (k, ?save l (?save j (?save i d)))"
    using copies by (auto simp: one signed)
  obtain certs' where certs': "get_certs_for_friend T (tc_subject_name c) s' = Inr certs'"
    using query_certs_ok [OF io] known unfolding get_certs_for_friend_def s' by metis
  have rows: "cert_row_of (?c x) \<in> set (trust_certificates (snd s'))" if "x \<in> {i, j, l}" for x
    using that ids by (auto simp: s' save_trust_certificate_def insert_or_replace_def)
  have "?c x \<in> set certs'" if "x \<in> {i, j, l}" for x
    using query_certs_member [OF io, of "tc_subject_name c" k "snd s'" certs' "?c x"] certs' rows [OF that]
    by (simp add: get_certs_for_friend_def s')
  then have members: "{?c i, ?c j, ?c l} \<subseteq> set certs'" by simp
  have distinct: "distinct (map f [i, j, l])" if "\<And>x. tc_cert_id (f x) = x" for f
    using ids by (simp add: distinct_map inj_on_def) (metis that)
  have "compute_trust_level now certs' = TL_Trusted"
    by (rule trusted_by_three [OF distinct [of ?c, unfolded list.map] members])
      (use valid in \<open>auto simp: status_def is_expired_def split: if_splits\<close>)
  with n certs' show ?thesis by (simp add: get_trust_level_def)
qed

theorem one_issuer_makes_trusted_witness:
  "get_trust_level ref_trust_env 100 (ustr ''bob'')
     (snd (import_received_certs ref_trust_env (map (\<lambda>n. to_dict (held_cert\<lparr>tc_cert_id := n\<rparr>)) [[1], [2], [3]]) (ref_store, empty_db))) = Inr TL_Trusted"
proof -
  obtain n s' where imp: "import_received_certs ref_trust_env (map (\<lambda>n. to_dict (held_cert\<lparr>tc_cert_id := n\<rparr>)) [[1], [2], [3]]) (ref_store, empty_db) = (n, s')"
    by (metis prod.exhaust)
  have known: "get_certs_for_friend ref_trust_env (tc_subject_name held_cert) (ref_store, empty_db) = Inr []"
    by (simp add: get_certs_for_friend_def query_certs_def get_trust_certificates_for_def empty_db_def)
  have signed: "signed_by_pinned_key ref_trust_env (ref_store, empty_db) held_cert"
    using held_verifies by (simp add: verify_cert_object_iff)
  have subject: "tc_subject_name held_cert \<noteq> []" by (simp add: held_fields(2) ustr_def)
  have "status 100 held_cert = Valid" by (simp add: status_def is_expired_def held_fields)
  from one_issuer_makes_trusted [OF _ known signed held_fields(5) subject held_fields(6,7) this _ imp]
  show ?thesis unfolding imp snd_conv by (simp add: held_fields(2))
qed

text \<open>A successful update by a delegate is a \<^verbatim>\<open>save_friend\<close> of the stored record with the overrides,
  without an ECDH key.\<close>

lemma delegated_save_ok:
  assumes "delegated_save T rnd name pw overrides s = (Inr (), s')"
  shows "\<exists>base. save_friend (te_keys T) rnd pw (overrides base) s = (Inr (), s') \<and> fa_name base = name \<and> fa_ecdh_priv_bytes base = None"
proof -
  obtain k d where s: "s = (k, d)" by (cases s)
  from assms obtain row where row: "select_key fr_name name (friends_tab d) = Some row" and io: "te_io T"
    by (auto simp: delegated_save_def s split: option.splits if_splits)
  obtain h where "(case map_of (friends_hybrid_sig_pubs k) name of None \<Rightarrow> Inr None
      | Some (ed_pub, dil_pub) \<Rightarrow>
          (case combine_pub ed_pub dil_pub of Inl e \<Rightarrow> Inl e | Inr c \<Rightarrow> Inr (Some (b64encode c)))) = Inr h"
    using assms row io by (auto simp: delegated_save_def s Let_def split: sum.splits)
  then show ?thesis
    using assms row io by (auto simp: delegated_save_def s Let_def split: sum.splits prod.splits)
qed

lemma delegated_update_ok:
  assumes "delegated_update T rnd now name pw ok overrides (s, ev) = (Inr (), (s', ev'))"
  shows "\<exists>base. save_friend (te_keys T) rnd pw (overrides base) s = (Inr (), s') \<and> fa_name base = name \<and> fa_ecdh_priv_bytes base = None"
proof (rule delegated_save_ok)
  show "delegated_save T rnd name pw overrides s = (Inr (), s')"
    using assms by (auto simp: delegated_update_def split: sum.splits if_splits prod.splits)
qed

text \<open>An update a delegate makes loses the ECDH key of the friend: after a successful change of the
  X25519 key by a delegate neither the memory nor the row has an ECDH private key for the friend,
  although only the public key was to be replaced.\<close>

theorem delegated_update_drops_ecdh:
  assumes "update_delegator_x25519_key T rnd now name key pw ((k, d), ev) = (Inr (), ((k', d'), ev'))"
  shows "get_friend_ecdh_priv name k' = None \<and>
    (\<exists>row. select_key fr_name name (friends_tab d') = Some row \<and> fr_ecdh_priv_encrypted row = None)"
proof -
  obtain base where save: "save_friend (te_keys T) rnd pw (base\<lparr>fa_x25519_pub_b64 := Some key\<rparr>) (k, d) = (Inr (), (k', d'))"
    and base: "fa_name base = name" "fa_ecdh_priv_bytes base = None"
    using delegated_update_ok [OF assms [unfolded update_delegator_x25519_key_def]] by auto
  obtain sec ecdh where enc: "encrypt_columns (te_keys T) rnd pw (fa_shared_secret base) None = Inr (sec, ecdh)"
    and tab: "friends_tab d' = filter (\<lambda>r. fr_name r \<noteq> name) (friends_tab d) @
      [friend_row_of (base\<lparr>fa_x25519_pub_b64 := Some key\<rparr>) sec ecdh (friends_tab d)]"
    and view: "map_of (friends_ecdh_priv k') name = None"
    by (rule saved_friend_view [OF save]) (simp add: base friend_view_def)
  have "ecdh = None" using enc by (auto simp: encrypt_columns_def Let_def split: sum.splits if_splits)
  moreover have "select_key fr_name name (friends_tab d') = Some (friend_row_of (base\<lparr>fa_x25519_pub_b64 := Some key\<rparr>) sec ecdh (friends_tab d))"
    by (simp add: tab select_key_def find_append find_filter_none friend_row_of_def base)
  ultimately show ?thesis using view by (simp add: friend_row_of_def get_friend_ecdh_priv_def)
qed

definition delegation_cert :: trust_certificate where
  "delegation_cert =
     \<lparr>tc_cert_id = ustr ''id-9'', tc_subject_name = ustr ''anonymous'', tc_subject_pub = [1], tc_issuer_name = ustr ''bob'',
      tc_issuer_pub = [2], tc_cert_type = Delegation, tc_not_before = 0, tc_not_after = 1000, tc_signature = [3],
      tc_revoked = False, tc_revocation_reason = [], tc_received_from = ustr ''bob'', tc_created_at = 0\<rparr>"

definition delegate_state :: trust_state where
  "delegate_state = ((fst bob_saved, save_trust_certificate (cert_row_of delegation_cert) (snd bob_saved)), [])"

definition delegate_update :: "unit res \<times> trust_state" where
  "delegate_update = update_delegator_x25519_key ref_trust_env some_rnd 10 (ustr ''bob'') (b64encode (replicate 32 1)) [65] delegate_state"

lemma delegate_update_ok: "fst delegate_update = Inr ()"
  by code_simp

theorem delegated_update_drops_ecdh_witness:
  "get_friend_ecdh_priv (ustr ''bob'') (fst (fst delegate_state)) = Some [9] \<and>
   get_friend_ecdh_priv (ustr ''bob'') (fst (fst (snd delegate_update))) = None"
proof
  show "get_friend_ecdh_priv (ustr ''bob'') (fst (fst delegate_state)) = Some [9]" by code_simp
  have "update_delegator_x25519_key ref_trust_env some_rnd 10 (ustr ''bob'') (b64encode (replicate 32 1)) [65]
      ((fst (fst delegate_state), snd (fst delegate_state)), snd delegate_state) =
      (Inr (), ((fst (fst (snd delegate_update)), snd (fst (snd delegate_update))), snd (snd delegate_update)))"
    using delegate_update_ok by (simp add: delegate_update_def prod_eq_iff)
  from delegated_update_drops_ecdh [OF this]
  show "get_friend_ecdh_priv (ustr ''bob'') (fst (fst (snd delegate_update))) = None" by blast
qed

end
