(* ===== verification/Message.thy ===== *)
theory Message
  imports Hybrid_Signer XChaCha Text_Codec
begin

text \<open>
  The message format of \<^verbatim>\<open>crypto.py\<close>: time-based keys with a sliding window, messages encrypted
  for a shared secret or for an RSA key, RSA or hybrid signatures, and self-destruction. HKDF, AES-GCM,
  RSA and SHA-256 are the fields of \<open>msg_crypto\<close>; what the source draws at random (the nonce, the
  message key, the seeds of OAEP and PSS) is in \<open>msg_rnd\<close>. The outcome of the verification
  is a value of \<open>sig_banner\<close>, and \<open>banner_text\<close> is the line \<^verbatim>\<open>decrypt_message\<close> puts before the text.
\<close>

record msg_crypto =
  hkdf_sha256 :: "bytes \<Rightarrow> bytes \<Rightarrow> bytes"
  gcm_enc :: aead_op
  gcm_dec :: aead_op
  rsa_oaep_enc :: "bytes \<Rightarrow> bytes \<Rightarrow> bytes \<Rightarrow> bytes res"
  rsa_oaep_dec :: "bytes \<Rightarrow> bytes \<Rightarrow> bytes res"
  rsa_pss_sign :: "bytes \<Rightarrow> bytes \<Rightarrow> bytes \<Rightarrow> bytes"
  rsa_pss_verify :: "bytes \<Rightarrow> bytes \<Rightarrow> bytes \<Rightarrow> bool"
  sha256 :: "bytes \<Rightarrow> bytes"
  rsa_pub_pem :: "bytes \<Rightarrow> bytes"
  mc_sig :: sig_crypto
  mc_hybrid_available :: bool

record msg_rnd =
  mr_nonce :: bytes
  mr_key :: bytes
  mr_oaep :: bytes
  mr_pss :: bytes

definition AES_KEY_SIZE :: nat where "AES_KEY_SIZE = 32"
definition NONCE_SIZE :: nat where "NONCE_SIZE = 12"
definition TIME_STEP :: int where "TIME_STEP = 30"
definition WINDOW_SIZE :: int where "WINDOW_SIZE = 2"
definition SIGN_FLAG :: nat where "SIGN_FLAG = 1"
definition FRIEND_FLAG :: nat where "FRIEND_FLAG = 2"
definition SELF_DESTRUCT_FLAG :: nat where "SELF_DESTRUCT_FLAG = 4"
definition HYBRID_SIG_FLAG :: nat where "HYBRID_SIG_FLAG = 8"
definition KEY_HINT_FLAG :: nat where "KEY_HINT_FLAG = 16"

lemmas flag_defs = SIGN_FLAG_def FRIEND_FLAG_def SELF_DESTRUCT_FLAG_def HYBRID_SIG_FLAG_def KEY_HINT_FLAG_def

section \<open>Fields\<close>

definition pack_bytes :: "bytes \<Rightarrow> bytes res" where
  "pack_bytes data = (case pack_u16 (length data) of Inl e \<Rightarrow> Inl e | Inr n \<Rightarrow> Inr (n @ data))"

definition unpack_bytes :: "bytes \<Rightarrow> nat \<Rightarrow> (bytes \<times> nat) res" where
  "unpack_bytes packet offset =
     (if offset + 2 > length packet then Inl ValueError
      else case unpack_u16 (slice offset (offset + 2) packet) of Inl e \<Rightarrow> Inl e
        | Inr n \<Rightarrow>
            if offset + 2 + n > length packet then Inl ValueError
            else Inr (slice (offset + 2) (offset + 2 + n) packet, offset + 2 + n))"

text \<open>\<^verbatim>\<open>struct.pack(">Q", n)\<close> and \<^verbatim>\<open>struct.pack(">I", n)\<close> of a Python integer.\<close>

definition pack_uint :: "nat \<Rightarrow> int \<Rightarrow> bytes res" where
  "pack_uint w n = (if 0 \<le> n \<and> n < 256 ^ w then Inr (be_bytes w (nat n)) else Inl StructError)"

section \<open>Keys\<close>

definition derive_time_key :: "msg_crypto \<Rightarrow> bytes \<Rightarrow> int \<Rightarrow> bytes res" where
  "derive_time_key C shared_secret timestamp =
     (case pack_uint 8 (timestamp div TIME_STEP * TIME_STEP) of Inl e \<Rightarrow> Inl e
      | Inr t \<Rightarrow> Inr (hkdf_sha256 C (map of_nat (ustr ''enigma-time-key:'') @ t) shared_secret))"

definition derive_msg_key :: "msg_crypto \<Rightarrow> bytes \<Rightarrow> bytes \<Rightarrow> bytes" where
  "derive_msg_key C base_key nonce =
     hkdf_sha256 C (map of_nat (ustr ''enigma-aes-gcm-msg-key-v1:'') @ nonce) base_key"

text \<open>\<^verbatim>\<open>AESGCM(key)\<close> accepts keys of 16, 24 and 32 bytes.\<close>

definition aes_gcm_encrypt :: "msg_crypto \<Rightarrow> bytes \<Rightarrow> bytes \<Rightarrow> bytes \<Rightarrow> bytes \<Rightarrow> bytes res" where
  "aes_gcm_encrypt C nonce key plaintext aad =
     (if length key \<notin> {16, 24, 32} then Inl ValueError
      else case gcm_enc C (derive_msg_key C key nonce) nonce plaintext aad of Inl e \<Rightarrow> Inl e
        | Inr ct \<Rightarrow> Inr (nonce @ ct))"

definition aes_gcm_decrypt :: "msg_crypto \<Rightarrow> bytes \<Rightarrow> bytes \<Rightarrow> bytes \<Rightarrow> bytes res" where
  "aes_gcm_decrypt C key data aad =
     (if length data < NONCE_SIZE + 16 then Inl ValueError
      else gcm_dec C (derive_msg_key C key (take NONCE_SIZE data)) (take NONCE_SIZE data) (drop NONCE_SIZE data) aad)"

section \<open>The time window\<close>

definition window_timestamps :: "int \<Rightarrow> int \<Rightarrow> int list" where
  "window_timestamps outer_ts now = outer_ts # map (\<lambda>step. now + step * TIME_STEP) [- WINDOW_SIZE..WINDOW_SIZE]"

text \<open>The loop over the candidates, without an early return; an exception that is neither
  \<^verbatim>\<open>ValueError\<close> nor \<^verbatim>\<open>InvalidTag\<close> ends it.\<close>

fun try_window :: "msg_crypto \<Rightarrow> bytes \<Rightarrow> bytes \<Rightarrow> bytes \<Rightarrow> int list \<Rightarrow> (bytes \<times> bytes) option \<Rightarrow> (bytes \<times> bytes) option res" where
  "try_window C const_key ciphertext aad [] found = Inr found"
| "try_window C const_key ciphertext aad (ts # rest) found =
     (case derive_time_key C const_key ts of
        Inl e \<Rightarrow> if is_value_error e \<or> e = InvalidTag then try_window C const_key ciphertext aad rest found else Inl e
      | Inr key \<Rightarrow>
        (case aes_gcm_decrypt C key ciphertext aad of
           Inl e \<Rightarrow> if is_value_error e \<or> e = InvalidTag then try_window C const_key ciphertext aad rest found else Inl e
         | Inr inner \<Rightarrow> try_window C const_key ciphertext aad rest
                         (case found of None \<Rightarrow> Some (inner, key) | Some x \<Rightarrow> Some x)))"

definition constant_time_decrypt_with_window ::
  "msg_crypto \<Rightarrow> bytes \<Rightarrow> bytes \<Rightarrow> int \<Rightarrow> int \<Rightarrow> bytes \<Rightarrow> (bytes \<times> bytes) res" where
  "constant_time_decrypt_with_window C const_key ciphertext outer_ts now aad =
     (case try_window C const_key ciphertext aad (window_timestamps outer_ts now) None of Inl e \<Rightarrow> Inl e
      | Inr None \<Rightarrow> Inl ValueError
      | Inr (Some r) \<Rightarrow> Inr r)"

section \<open>Signatures\<close>

definition msg_hybrid_sign :: "msg_crypto \<Rightarrow> bytes \<Rightarrow> bytes \<Rightarrow> bytes \<Rightarrow> bytes res" where
  "msg_hybrid_sign C message ed_priv dil_priv =
     (if \<not> mc_hybrid_available C then Inl RuntimeError else hybrid_sign (mc_sig C) message ed_priv dil_priv)"

definition msg_hybrid_verify :: "msg_crypto \<Rightarrow> bytes \<Rightarrow> bytes \<Rightarrow> bytes \<Rightarrow> bytes \<Rightarrow> bool" where
  "msg_hybrid_verify C message signature ed_pub_bytes dil_pub_bytes =
     (if \<not> mc_hybrid_available C then False
      else case load_ed_public_key ed_pub_bytes of Inl _ \<Rightarrow> False
        | Inr ed_pub \<Rightarrow> hybrid_verify (mc_sig C) message signature ed_pub dil_pub_bytes)"

definition sha256_fingerprint :: "msg_crypto \<Rightarrow> bytes \<Rightarrow> ustr" where
  "sha256_fingerprint C data = take 16 (hex (sha256 C data))"

text \<open>\<^verbatim>\<open>":".join(pairs).upper()\<close>: only the digits \<^verbatim>\<open>a\<close> to \<^verbatim>\<open>f\<close> change their case.\<close>

fun format_fingerprint_display :: "ustr \<Rightarrow> ustr" where
  "format_fingerprint_display [] = []"
| "format_fingerprint_display [a] = [if 97 \<le> a \<and> a \<le> 122 then a - 32 else a]"
| "format_fingerprint_display [a, b] = map (\<lambda>c. if 97 \<le> c \<and> c \<le> 122 then c - 32 else c) [a, b]"
| "format_fingerprint_display (a # b # c # cs) =
     map (\<lambda>c. if 97 \<le> c \<and> c \<le> 122 then c - 32 else c) [a, b] @ 58 # format_fingerprint_display (c # cs)"

section \<open>Encryption\<close>

record msg_options =
  mo_sign :: bool
  mo_my_priv :: "bytes option"
  mo_friend_pub :: "bytes option"
  mo_self_destruct :: "int option"
  mo_ed_priv :: "bytes option"
  mo_dil_priv :: "bytes option"

definition use_hybrid_sig :: "msg_crypto \<Rightarrow> msg_options \<Rightarrow> bool" where
  "use_hybrid_sig C opts \<longleftrightarrow>
     mo_sign opts \<and> mo_ed_priv opts \<noteq> None \<and> mo_dil_priv opts \<noteq> None \<and> mc_hybrid_available C"

definition self_destructs :: "msg_options \<Rightarrow> bool" where
  "self_destructs opts \<longleftrightarrow> (case mo_self_destruct opts of None \<Rightarrow> False | Some n \<Rightarrow> n > 0)"

definition msg_flags :: "msg_crypto \<Rightarrow> msg_options \<Rightarrow> nat" where
  "msg_flags C opts =
     (if use_hybrid_sig C opts then HYBRID_SIG_FLAG else if mo_sign opts then SIGN_FLAG else 0) +
     (if mo_friend_pub opts \<noteq> None then FRIEND_FLAG else KEY_HINT_FLAG) +
     (if self_destructs opts then SELF_DESTRUCT_FLAG else 0)"

text \<open>The key, and the key hint of a message for a shared secret.\<close>

definition msg_aes_key :: "msg_crypto \<Rightarrow> msg_rnd \<Rightarrow> bytes \<Rightarrow> int \<Rightarrow> msg_options \<Rightarrow> (bytes \<times> bytes) res" where
  "msg_aes_key C rnd const_key ts opts =
     (if mo_friend_pub opts \<noteq> None then Inr (mr_key rnd, [])
      else case derive_time_key C const_key ts of Inl e \<Rightarrow> Inl e
        | Inr key \<Rightarrow> Inr (key, take 2 (sha256 C const_key)))"

definition msg_inner :: "bytes \<Rightarrow> int \<Rightarrow> msg_options \<Rightarrow> bytes res" where
  "msg_inner plaintext ts opts =
     (case pack_uint 8 ts of Inl e \<Rightarrow> Inl e
      | Inr t \<Rightarrow>
          if self_destructs opts then
            (case pack_uint 4 (the (mo_self_destruct opts)) of Inl e \<Rightarrow> Inl e | Inr n \<Rightarrow> Inr (t @ n @ plaintext))
          else Inr (t @ plaintext))"

definition msg_signature :: "msg_crypto \<Rightarrow> msg_rnd \<Rightarrow> bytes \<Rightarrow> msg_options \<Rightarrow> bytes res" where
  "msg_signature C rnd inner opts =
     (if use_hybrid_sig C opts then msg_hybrid_sign C inner (the (mo_ed_priv opts)) (the (mo_dil_priv opts))
      else case mo_my_priv opts of
        Some my_priv \<Rightarrow> Inr (if mo_sign opts then rsa_pss_sign C my_priv (mr_pss rnd) inner else [])
      | None \<Rightarrow> Inr [])"

text \<open>The fields after the flags and the time stamp: the signature and the encrypted key, in the
  form the additional data and the packet share.\<close>

definition sig_field :: "msg_options \<Rightarrow> bytes \<Rightarrow> bytes res" where
  "sig_field opts signature = (if mo_sign opts then pack_bytes signature else Inr [])"

definition key_field :: "msg_crypto \<Rightarrow> msg_rnd \<Rightarrow> bytes \<Rightarrow> msg_options \<Rightarrow> bytes res" where
  "key_field C rnd aes_key opts =
     (case mo_friend_pub opts of None \<Rightarrow> Inr []
      | Some pub \<Rightarrow> (case rsa_oaep_enc C pub (mr_oaep rnd) aes_key of Inl e \<Rightarrow> Inl e | Inr ek \<Rightarrow> pack_bytes ek))"

definition encrypt_message ::
  "msg_crypto \<Rightarrow> msg_rnd \<Rightarrow> bytes \<Rightarrow> bytes \<Rightarrow> rat \<Rightarrow> msg_options \<Rightarrow> (bytes \<times> int) res" where
  "encrypt_message C rnd plaintext const_key timestamp opts =
     (let ts = (if timestamp < 0 then \<lceil>timestamp\<rceil> else \<lfloor>timestamp\<rfloor>);
          flags = [of_nat (msg_flags C opts)] in
      case msg_aes_key C rnd const_key ts opts of Inl e \<Rightarrow> Inl e | Inr (aes_key, key_hint) \<Rightarrow>
     (case msg_inner plaintext ts opts of Inl e \<Rightarrow> Inl e | Inr inner \<Rightarrow>
     (case msg_signature C rnd inner opts of Inl e \<Rightarrow> Inl e | Inr signature \<Rightarrow>
     (case pack_uint 8 ts of Inl e \<Rightarrow> Inl e | Inr outer_ts \<Rightarrow>
     (case sig_field opts signature of Inl e \<Rightarrow> Inl e | Inr sf \<Rightarrow>
     (case key_field C rnd aes_key opts of Inl e \<Rightarrow> Inl e | Inr kf \<Rightarrow>
     (case aes_gcm_encrypt C (mr_nonce rnd) aes_key inner (flags @ outer_ts @ sf @ kf) of Inl e \<Rightarrow> Inl e
      | Inr ciphertext \<Rightarrow> Inr (flags @ outer_ts @ key_hint @ sf @ kf @ ciphertext, ts))))))))"

section \<open>Decryption\<close>

datatype sig_banner =
    NoSignature
  | HybridVerified ustr
  | HybridInvalid
  | RsaVerified ustr ustr
  | RsaInvalid

text \<open>The header of a packet: the flags, the time stamp, the signature and the offset behind them.\<close>

definition flag_set :: "nat \<Rightarrow> nat \<Rightarrow> bool" where
  "flag_set flags b \<longleftrightarrow> odd (flags div b)"

definition parse_header :: "bytes \<Rightarrow> (nat \<times> int \<times> bytes \<times> nat) res" where
  "parse_header packet =
     (if length packet < 1 then Inl ValueError
      else let flags = unat (packet ! 0) in
        if length packet < 9 then Inl ValueError
        else let outer_ts = int (be_val (slice 1 9 packet));
                 idx = (if flag_set flags KEY_HINT_FLAG then 11 else 9)
          in if flag_set flags SIGN_FLAG \<or> flag_set flags HYBRID_SIG_FLAG then
               (case unpack_bytes packet idx of Inl e \<Rightarrow> Inl e
                | Inr (signature, idx) \<Rightarrow> Inr (flags, outer_ts, signature, idx))
             else Inr (flags, outer_ts, [], idx))"

text \<open>The additional data up to the signature, rebuilt from the header.\<close>

definition header_aad :: "nat \<Rightarrow> int \<Rightarrow> bytes \<Rightarrow> bytes res" where
  "header_aad flags outer_ts signature =
     (case pack_uint 8 outer_ts of Inl e \<Rightarrow> Inl e
      | Inr t \<Rightarrow>
        (case (if flag_set flags SIGN_FLAG \<or> flag_set flags HYBRID_SIG_FLAG then pack_bytes signature else Inr []) of
           Inl e \<Rightarrow> Inl e | Inr sf \<Rightarrow> Inr (of_nat flags # t @ sf)))"

definition open_inner ::
  "msg_crypto \<Rightarrow> bytes \<Rightarrow> bytes \<Rightarrow> bytes option \<Rightarrow> int \<Rightarrow> nat \<Rightarrow> int \<Rightarrow> bytes \<Rightarrow> nat \<Rightarrow> bytes res" where
  "open_inner C packet const_key my_priv now flags outer_ts aad idx =
     (if flag_set flags FRIEND_FLAG then
        (case my_priv of None \<Rightarrow> Inl ValueError
         | Some priv \<Rightarrow>
           (case unpack_bytes packet idx of Inl e \<Rightarrow> Inl e
            | Inr (encrypted_key, idx) \<Rightarrow>
              (case pack_bytes encrypted_key of Inl e \<Rightarrow> Inl e
               | Inr kf \<Rightarrow>
                 (case rsa_oaep_dec C priv encrypted_key of Inl e \<Rightarrow> Inl e
                  | Inr aes_key \<Rightarrow> aes_gcm_decrypt C aes_key (drop idx packet) (aad @ kf)))))
      else case constant_time_decrypt_with_window C const_key (drop idx packet) outer_ts now aad of
          Inl e \<Rightarrow> Inl e | Inr (inner, _) \<Rightarrow> Inr inner)"

text \<open>The inner packet: its time stamp, the duration, the plaintext.\<close>

definition parse_inner :: "nat \<Rightarrow> bytes \<Rightarrow> (int \<times> int option \<times> bytes) res" where
  "parse_inner flags inner =
     (if length inner < 8 then Inl ValueError
      else let inner_ts = int (be_val (take 8 inner)) in
        if flag_set flags SELF_DESTRUCT_FLAG then
          (if length inner < 12 then Inl ValueError
           else Inr (inner_ts, Some (int (be_val (slice 8 12 inner))), drop 12 inner))
        else Inr (inner_ts, None, drop 8 inner))"

definition check_time :: "int \<Rightarrow> int \<Rightarrow> int option \<Rightarrow> unit res" where
  "check_time now inner_ts self_destruct_duration =
     (case self_destruct_duration of
        Some n \<Rightarrow> if now > inner_ts + n then Inl ValueError else Inr ()
      | None \<Rightarrow> if \<bar>now - inner_ts\<bar> > TIME_STEP * WINDOW_SIZE then Inl ValueError else Inr ())"

text \<open>The data a signature covers, rebuilt from the fields of the inner packet.\<close>

definition rebuilt_data :: "int \<Rightarrow> int option \<Rightarrow> bytes \<Rightarrow> bytes res" where
  "rebuilt_data inner_ts self_destruct_duration plaintext =
     (case pack_uint 8 inner_ts of Inl e \<Rightarrow> Inl e
      | Inr t \<Rightarrow>
        (case self_destruct_duration of None \<Rightarrow> Inr (t @ plaintext)
         | Some n \<Rightarrow> (case pack_uint 4 n of Inl e \<Rightarrow> Inl e | Inr b \<Rightarrow> Inr (t @ b @ plaintext))))"

definition banner_of ::
  "msg_crypto \<Rightarrow> nat \<Rightarrow> bytes \<Rightarrow> bytes \<Rightarrow> (ustr \<times> bytes) list \<Rightarrow> (ustr \<times> bytes \<times> bytes) list \<Rightarrow> sig_banner" where
  "banner_of C flags signed_data signature friends friends_hybrid =
     (if flag_set flags HYBRID_SIG_FLAG then
        (case find (\<lambda>(_, ed, dil). msg_hybrid_verify C signed_data signature ed dil) friends_hybrid of
           Some (name, _, _) \<Rightarrow> HybridVerified name | None \<Rightarrow> HybridInvalid)
      else if flag_set flags SIGN_FLAG then
        (case find (\<lambda>(_, pub). rsa_pss_verify C pub signature signed_data) friends of
           Some (name, pub) \<Rightarrow> RsaVerified name (sha256_fingerprint C (rsa_pub_pem C pub)) | None \<Rightarrow> RsaInvalid)
      else NoSignature)"

text \<open>The line before the text; its code points 9989 and 9888, 65039 are the two symbols of the source.\<close>

fun banner_text :: "sig_banner \<Rightarrow> ustr" where
  "banner_text NoSignature = []"
| "banner_text (HybridVerified name) =
     9989 # ustr '' Hybrid Signature Verified (Ed25519 + Dilithium3) from '' @ name @ [10]"
| "banner_text HybridInvalid = [9888, 65039] @ ustr '' Hybrid Signature INVALID or sender unknown'' @ [10]"
| "banner_text (RsaVerified name fp) =
     9989 # ustr '' Signature verified from '' @ name @ ustr '' (key fingerprint: '' @ fp @ ustr '')'' @ [10]"
| "banner_text RsaInvalid = [9888, 65039] @ ustr '' Signature INVALID or sender unknown'' @ [10]"

text \<open>\<^verbatim>\<open>latin-1\<close> decodes every byte string.\<close>

definition decode_text :: "bytes \<Rightarrow> ustr" where
  "decode_text b = (case utf8_decode b of Inr t \<Rightarrow> t | Inl _ \<Rightarrow> map unat b)"

definition decrypt_message ::
  "msg_crypto \<Rightarrow> bytes \<Rightarrow> bytes \<Rightarrow> bytes option \<Rightarrow> (ustr \<times> bytes) list \<Rightarrow> int \<Rightarrow> (ustr \<times> bytes \<times> bytes) list \<Rightarrow>
   ustr res" where
  "decrypt_message C packet const_key my_priv friends now friends_hybrid =
     (case parse_header packet of Inl e \<Rightarrow> Inl e | Inr (flags, outer_ts, signature, idx) \<Rightarrow>
     (case header_aad flags outer_ts signature of Inl e \<Rightarrow> Inl e | Inr aad \<Rightarrow>
     (case open_inner C packet const_key my_priv now flags outer_ts aad idx of Inl e \<Rightarrow> Inl e | Inr inner \<Rightarrow>
     (case parse_inner flags inner of Inl e \<Rightarrow> Inl e | Inr (inner_ts, duration, plaintext) \<Rightarrow>
     (case check_time now inner_ts duration of Inl e \<Rightarrow> Inl e | Inr _ \<Rightarrow>
     (case rebuilt_data inner_ts duration plaintext of Inl e \<Rightarrow> Inl e | Inr signed_data \<Rightarrow>
        Inr (banner_text (banner_of C flags signed_data signature friends friends_hybrid) @ decode_text plaintext)))))))"

definition peek_flags :: "bytes \<Rightarrow> nat res" where
  "peek_flags packet = (if length packet < 1 then Inl ValueError else Inr (unat (packet ! 0)))"

definition extract_key_hint :: "bytes \<Rightarrow> bytes option" where
  "extract_key_hint packet =
     (if length packet < 1 then None
      else if \<not> flag_set (unat (packet ! 0)) KEY_HINT_FLAG then None
      else if length packet < 11 then None else Some (slice 9 11 packet))"

end
