(* ===== verification/Message_Safety.thy ===== *)
theory Message_Safety
  imports Message
begin

text \<open>
  Messages of \<^verbatim>\<open>crypto.py\<close> from end to end: what was encrypted, for a shared secret or for an RSA
  key, with or without a signature and with or without self-destruction, is what the receiver reads.
\<close>

section \<open>What the format relies on\<close>

definition rsa_pair :: "msg_crypto \<Rightarrow> bytes \<Rightarrow> bytes \<Rightarrow> bool" where
  "rsa_pair C priv pub \<longleftrightarrow> (\<forall>seed k ek. rsa_oaep_enc C pub seed k = Inr ek \<longrightarrow> rsa_oaep_dec C priv ek = Inr k)"

locale msg_laws =
  fixes C :: msg_crypto
  assumes gcm: "aead 12 (gcm_enc C) (gcm_dec C)"
    and gcm_error: "gcm_dec C k n c ad = Inl e \<Longrightarrow> e = InvalidTag \<or> e = ValueError"
    and sha_length: "length (sha256 C b) = 32"
begin

lemma aes_gcm_roundtrip:
  assumes "aes_gcm_encrypt C nonce key p aad = Inr data" "length nonce = 12"
  shows "aes_gcm_decrypt C key data aad = Inr p"
proof -
  obtain ct where ct: "gcm_enc C (derive_msg_key C key nonce) nonce p aad = Inr ct" and data: "data = nonce @ ct"
    using assms(1) by (auto simp: aes_gcm_encrypt_def split: if_splits sum.splits)
  from aead.enc_length [OF gcm ct] aead.dec_enc [OF gcm ct] show ?thesis
    using assms(2) by (simp add: aes_gcm_decrypt_def data NONCE_SIZE_def)
qed

lemma aes_gcm_decrypt_error: "aes_gcm_decrypt C key data aad = Inl e \<Longrightarrow> is_value_error e \<or> e = InvalidTag"
  by (auto simp: aes_gcm_decrypt_def is_value_error_def dest: gcm_error split: if_splits)

text \<open>The window keeps the first success when every candidate time can be packed.\<close>

lemma try_window_found:
  assumes "\<And>t. t \<in> set ts \<Longrightarrow> is_ok (derive_time_key C k t)"
  shows "try_window C k ct aad ts (Some x) = Inr (Some x)"
  using assms
proof (induction ts)
  case (Cons t ts)
  obtain key where "derive_time_key C k t = Inr key" using Cons.prems [of t] by (auto simp: is_ok_iff)
  with Cons show ?case by (auto dest: aes_gcm_decrypt_error split: sum.splits)
qed simp

lemma window_decrypts:
  assumes "derive_time_key C k t = Inr key" "aes_gcm_decrypt C key ct aad = Inr p"
    and "\<And>x. x \<in> set (window_timestamps t now) \<Longrightarrow> is_ok (derive_time_key C k x)"
  shows "constant_time_decrypt_with_window C k ct t now aad = Inr (p, key)"
proof -
  have "try_window C k ct aad (map (\<lambda>step. now + step * TIME_STEP) [- WINDOW_SIZE..WINDOW_SIZE]) (Some (p, key)) = Inr (Some (p, key))"
    by (rule try_window_found) (use assms(3) in \<open>simp add: window_timestamps_def\<close>)
  then show ?thesis
    using assms(1,2) by (simp add: constant_time_decrypt_with_window_def window_timestamps_def)
qed

end

section \<open>Reading fields back\<close>

lemma pack_uint_ok: "pack_uint w n = Inr b \<longleftrightarrow> 0 \<le> n \<and> n < 256 ^ w \<and> b = be_bytes w (nat n)"
  by (auto simp: pack_uint_def)

lemma pack_uint_value:
  assumes "pack_uint w n = Inr b"
  shows "length b = w" "int (be_val b) = n"
proof -
  have b: "0 \<le> n" "n < 256 ^ w" "b = be_bytes w (nat n)" using assms by (auto simp: pack_uint_ok)
  then have "nat n < 256 ^ w" by (simp add: nat_less_iff)
  with b show "length b = w" "int (be_val b) = n" by (simp_all add: be_val_be_bytes)
qed

lemma derive_time_key_ok: "0 \<le> t \<Longrightarrow> t < 256 ^ 8 \<Longrightarrow> is_ok (derive_time_key C k t)"
proof -
  assume "0 \<le> t" "t < 256 ^ 8"
  moreover have "t div 30 * 30 \<le> t" by (simp add: div_mult2_eq [symmetric] minus_mod_eq_div_mult [symmetric])
  ultimately show ?thesis by (simp add: derive_time_key_def pack_uint_def TIME_STEP_def pos_imp_zdiv_nonneg_iff)
qed

lemma unpack_pack_bytes:
  assumes "pack_bytes data = Inr f" "length pre = n"
  shows "unpack_bytes (pre @ f @ rest) n = Inr (data, n + length f)"
proof -
  obtain h where h: "pack_u16 (length data) = Inr h" and f: "f = h @ data"
    using assms(1) by (auto simp: pack_bytes_def split: sum.splits)
  have "length h = 2" "unpack_u16 h = Inr (length data)"
    using pack_be_length [OF h] unpack_pack [OF h] by simp_all
  then show ?thesis
    using assms(2) by (simp add: unpack_bytes_def f slice_def)
qed

subsection \<open>Flags\<close>

lemma msg_flags_less: "msg_flags C opts < 256"
  by (simp add: msg_flags_def flag_defs)

lemma flag_sets:
  "flag_set (msg_flags C opts) KEY_HINT_FLAG \<longleftrightarrow> mo_friend_pub opts = None"
  "flag_set (msg_flags C opts) FRIEND_FLAG \<longleftrightarrow> mo_friend_pub opts \<noteq> None"
  "flag_set (msg_flags C opts) SELF_DESTRUCT_FLAG \<longleftrightarrow> self_destructs opts"
  "flag_set (msg_flags C opts) HYBRID_SIG_FLAG \<longleftrightarrow> use_hybrid_sig C opts"
  "flag_set (msg_flags C opts) SIGN_FLAG \<longleftrightarrow> mo_sign opts \<and> \<not> use_hybrid_sig C opts"
  by (simp_all add: msg_flags_def flag_set_def flag_defs)

lemma flags_signed:
  "flag_set (msg_flags C opts) SIGN_FLAG \<or> flag_set (msg_flags C opts) HYBRID_SIG_FLAG \<longleftrightarrow> mo_sign opts"
  by (auto simp: flag_sets use_hybrid_sig_def)

subsection \<open>The header and the inner packet\<close>

lemma parse_message_header:
  assumes ts: "pack_uint 8 ts = Inr t" and sf: "sig_field opts signature = Inr sf"
    and hint: "length hint = (if mo_friend_pub opts = None then 2 else 0)"
    and signature: "\<not> mo_sign opts \<Longrightarrow> signature = []"
  shows "parse_header (of_nat (msg_flags C opts) # t @ hint @ sf @ rest) =
    Inr (msg_flags C opts, ts, signature, 9 + length hint + length sf)"
proof -
  let ?p = "of_nat (msg_flags C opts) # t @ hint @ sf @ rest"
  have t: "length t = 8" "int (be_val t) = ts" using pack_uint_value [OF ts] by simp_all
  then have "slice 1 9 ?p = t" by (simp add: slice_def)
  moreover have "unat (?p ! 0) = msg_flags C opts" by (simp add: msg_flags_less)
  moreover have "unpack_bytes ?p (9 + length hint) = Inr (signature, 9 + length hint + length sf)" if "mo_sign opts"
    using unpack_pack_bytes [of signature sf "of_nat (msg_flags C opts) # t @ hint" "9 + length hint" rest] sf t(1) that
    by (simp add: sig_field_def)
  moreover have "sf = []" if "\<not> mo_sign opts" using sf that by (simp add: sig_field_def)
  moreover have "(if flag_set (msg_flags C opts) KEY_HINT_FLAG then 11 else 9) = 9 + length hint"
    using hint by (simp add: flag_sets)
  ultimately show ?thesis
    using t signature by (cases "mo_sign opts") (simp_all add: parse_header_def flags_signed Let_def)
qed

lemma header_aad_message:
  assumes "pack_uint 8 ts = Inr t" "sig_field opts signature = Inr sf"
  shows "header_aad (msg_flags C opts) ts signature = Inr (of_nat (msg_flags C opts) # t @ sf)"
  using assms by (simp add: header_aad_def flags_signed sig_field_def)

lemma parse_message_inner:
  assumes "msg_inner plaintext ts opts = Inr inner"
  shows "parse_inner (msg_flags C opts) inner =
      Inr (ts, if self_destructs opts then mo_self_destruct opts else None, plaintext)"
    and "rebuilt_data ts (if self_destructs opts then mo_self_destruct opts else None) plaintext = Inr inner"
proof -
  obtain t where t: "pack_uint 8 ts = Inr t" using assms by (auto simp: msg_inner_def split: sum.splits)
  note t' = pack_uint_value [OF t]
  show "parse_inner (msg_flags C opts) inner = Inr (ts, if self_destructs opts then mo_self_destruct opts else None, plaintext)"
  proof (cases "self_destructs opts")
    case True
    then obtain n b where n: "mo_self_destruct opts = Some n" "pack_uint 4 n = Inr b" and inner: "inner = t @ b @ plaintext"
      using assms t by (auto simp: msg_inner_def self_destructs_def split: sum.splits option.splits)
    with pack_uint_value [OF n(2)] t' True show ?thesis
      by (simp add: parse_inner_def flag_sets slice_def)
  next
    case False
    with assms t have "inner = t @ plaintext" by (simp add: msg_inner_def)
    with t' False show ?thesis by (simp add: parse_inner_def flag_sets)
  qed
  show "rebuilt_data ts (if self_destructs opts then mo_self_destruct opts else None) plaintext = Inr inner"
    using assms t by (auto simp: msg_inner_def rebuilt_data_def self_destructs_def split: sum.splits option.splits)
qed

section \<open>Opening\<close>

context msg_laws
begin

lemma open_message:
  assumes key: "msg_aes_key C rnd const_key ts opts = Inr (aes_key, hint)"
    and kf: "key_field C rnd aes_key opts = Inr kf"
    and ct: "aes_gcm_encrypt C (mr_nonce rnd) aes_key inner (aad @ kf) = Inr ct" "length (mr_nonce rnd) = 12"
    and priv: "\<And>pub. mo_friend_pub opts = Some pub \<Longrightarrow> \<exists>priv. my_priv = Some priv \<and> rsa_pair C priv pub"
    and now: "60 \<le> now" "now + 60 < 256 ^ 8" "0 \<le> ts" "ts < 256 ^ 8"
    and pre: "length pre = idx"
  shows "open_inner C (pre @ kf @ ct) const_key my_priv now (msg_flags C opts) ts aad idx = Inr inner"
proof (cases "mo_friend_pub opts")
  case None
  have kf': "kf = []" using kf None by (simp add: key_field_def)
  have derive: "derive_time_key C const_key ts = Inr aes_key" using key None by (auto simp: msg_aes_key_def split: sum.splits)
  have "is_ok (derive_time_key C const_key x)" if "x \<in> set (window_timestamps ts now)" for x
    by (rule derive_time_key_ok) (use that now in \<open>auto simp: window_timestamps_def WINDOW_SIZE_def TIME_STEP_def\<close>)
  then have "constant_time_decrypt_with_window C const_key ct ts now aad = Inr (inner, aes_key)"
    using window_decrypts [OF derive] aes_gcm_roundtrip [OF ct] kf' by simp
  then show ?thesis using None pre kf' by (simp add: open_inner_def flag_sets)
next
  case (Some pub)
  obtain priv where p: "my_priv = Some priv" "rsa_pair C priv pub" using priv [OF Some] by blast
  obtain ek where ek: "rsa_oaep_enc C pub (mr_oaep rnd) aes_key = Inr ek" "pack_bytes ek = Inr kf"
    using kf Some by (auto simp: key_field_def split: sum.splits)
  have "rsa_oaep_dec C priv ek = Inr aes_key" using p(2) ek(1) by (simp add: rsa_pair_def)
  then show ?thesis
    using Some p(1) pre ek unpack_pack_bytes [OF ek(2) pre, of ct] aes_gcm_roundtrip [OF ct]
    by (simp add: open_inner_def flag_sets)
qed

lemma message_opens:
  assumes enc: "encrypt_message C rnd plaintext const_key timestamp opts = Inr (packet, ts)"
    and nonce: "length (mr_nonce rnd) = 12"
    and priv: "\<And>pub. mo_friend_pub opts = Some pub \<Longrightarrow> \<exists>priv. my_priv = Some priv \<and> rsa_pair C priv pub"
    and now: "60 \<le> now" "now + 60 < 256 ^ 8"
    and fresh: "check_time now ts (if self_destructs opts then mo_self_destruct opts else None) = Inr ()"
  shows "\<exists>inner signature. msg_inner plaintext ts opts = Inr inner \<and> msg_signature C rnd inner opts = Inr signature \<and>
    decrypt_message C packet const_key my_priv friends now friends_hybrid =
      Inr (banner_text (banner_of C (msg_flags C opts) inner signature friends friends_hybrid) @ decode_text plaintext)"
proof -
  from enc obtain aes_key hint inner signature t sf kf ct where
      key: "msg_aes_key C rnd const_key ts opts = Inr (aes_key, hint)"
    and inner: "msg_inner plaintext ts opts = Inr inner"
    and signature: "msg_signature C rnd inner opts = Inr signature"
    and t: "pack_uint 8 ts = Inr t" and sf: "sig_field opts signature = Inr sf"
    and kf: "key_field C rnd aes_key opts = Inr kf"
    and ct: "aes_gcm_encrypt C (mr_nonce rnd) aes_key inner ((of_nat (msg_flags C opts) # t @ sf) @ kf) = Inr ct"
    and packet: "packet = (of_nat (msg_flags C opts) # t @ hint @ sf) @ kf @ ct"
    unfolding encrypt_message_def Let_def by (fastforce split: sum.splits prod.splits)
  have hint: "length hint = (if mo_friend_pub opts = None then 2 else 0)"
    using key sha_length by (auto simp: msg_aes_key_def split: if_splits sum.splits)
  have unsigned: "signature = []" if "\<not> mo_sign opts"
    using signature that by (simp add: msg_signature_def use_hybrid_sig_def split: option.splits)
  have ts: "0 \<le> ts" "ts < 256 ^ 8" using t by (auto simp: pack_uint_ok)
  have header: "parse_header packet = Inr (msg_flags C opts, ts, signature, 9 + length hint + length sf)"
    using parse_message_header [OF t sf hint unsigned, of C "kf @ ct"] by (simp add: packet)
  have "open_inner C packet const_key my_priv now (msg_flags C opts) ts (of_nat (msg_flags C opts) # t @ sf)
      (9 + length hint + length sf) = Inr inner"
    unfolding packet using pack_uint_value(1) [OF t] by (intro open_message [OF key kf ct nonce priv now ts]) simp_all
  then show ?thesis
    using inner signature header header_aad_message [OF t sf, of C] parse_message_inner [OF inner] fresh
    by (simp add: decrypt_message_def)
qed

end

section \<open>A reference instance\<close>

text \<open>For the examples: the reference cipher, keys that are their own public keys, and a digest that
  repeats one checksum byte.\<close>

definition ref_msg :: msg_crypto where
  "ref_msg = \<lparr>hkdf_sha256 = (\<lambda>info secret. replicate 32 (foldr (+) (info @ secret) 0)),
     gcm_enc = ref_enc 12, gcm_dec = ref_dec 12,
     rsa_oaep_enc = (\<lambda>pub seed k. Inr (pub @ k)),
     rsa_oaep_dec = (\<lambda>priv ek. if take (length priv) ek = priv then Inr (drop (length priv) ek) else Inl ValueError),
     rsa_pss_sign = (\<lambda>priv seed m. priv @ m),
     rsa_pss_verify = (\<lambda>pub s m. s = pub @ m),
     sha256 = (\<lambda>b. replicate 32 (foldr (+) b 0)),
     rsa_pub_pem = (\<lambda>b. b),
     mc_sig = ref_sig_crypto, mc_hybrid_available = True\<rparr>"

lemma ref_msg_simps [simp]:
  "gcm_enc ref_msg = ref_enc 12" "gcm_dec ref_msg = ref_dec 12"
  "hkdf_sha256 ref_msg info secret = replicate 32 (foldr (+) (info @ secret) 0)"
  "rsa_oaep_enc ref_msg pub seed k = Inr (pub @ k)"
  "rsa_pss_sign ref_msg priv seed m = priv @ m"
  "rsa_pss_verify ref_msg pub s m \<longleftrightarrow> s = pub @ m"
  "sha256 ref_msg b = replicate 32 (foldr (+) b 0)"
  by (simp_all add: ref_msg_def)

interpretation ref_msg: msg_laws ref_msg
  by (rule msg_laws.intro) (auto simp: ref_dec_def Let_def ref_aead split: if_splits)

lemma ref_rsa_pair: "rsa_pair ref_msg k k"
  by (simp add: rsa_pair_def ref_msg_def)

section \<open>Properties\<close>

text \<open>C3. What \<^verbatim>\<open>encrypt_message\<close> produces, \<^verbatim>\<open>decrypt_message\<close> reads: in every mode (shared secret or
  RSA key, any signature, with or without self-destruction), at every time at which the message is
  neither expired nor out of the window, the receiver gets the text, with the banner of the
  signature that was made over the inner packet.\<close>

theorem message_roundtrip:
  assumes "msg_laws C" "encrypt_message C rnd plaintext const_key timestamp opts = Inr (packet, ts)"
    and "length (mr_nonce rnd) = 12"
    and "\<And>pub. mo_friend_pub opts = Some pub \<Longrightarrow> \<exists>priv. my_priv = Some priv \<and> rsa_pair C priv pub"
    and "60 \<le> now" "now + 60 < 256 ^ 8"
    and "check_time now ts (if self_destructs opts then mo_self_destruct opts else None) = Inr ()"
  shows "\<exists>inner signature. msg_inner plaintext ts opts = Inr inner \<and> msg_signature C rnd inner opts = Inr signature \<and>
    decrypt_message C packet const_key my_priv friends now friends_hybrid =
      Inr (banner_text (banner_of C (msg_flags C opts) inner signature friends friends_hybrid) @ decode_text plaintext)"
  using msg_laws.message_opens [OF assms(1-3) _ assms(5-7)] assms(4) by blast

definition demo_opts :: msg_options where
  "demo_opts = \<lparr>mo_sign = True, mo_my_priv = Some [5], mo_friend_pub = Some [6], mo_self_destruct = Some 90,
     mo_ed_priv = None, mo_dil_priv = None\<rparr>"

definition demo_rnd :: msg_rnd where
  "demo_rnd = \<lparr>mr_nonce = replicate 12 1, mr_key = replicate 32 2, mr_oaep = [], mr_pss = []\<rparr>"

lemma demo_encrypts: "\<exists>packet. encrypt_message ref_msg demo_rnd [72, 105] [] 1000 demo_opts = Inr (packet, 1000)"
  by (simp add: encrypt_message_def demo_opts_def demo_rnd_def msg_aes_key_def msg_inner_def msg_signature_def sig_field_def
      key_field_def pack_bytes_def pack_be_def pack_uint_def self_destructs_def use_hybrid_sig_def aes_gcm_encrypt_def
      derive_msg_key_def ref_enc_def)

theorem message_roundtrip_witness:
  "\<exists>packet. encrypt_message ref_msg demo_rnd [72, 105] [] 1000 demo_opts = Inr (packet, 1000) \<and>
     decrypt_message ref_msg packet [] (Some [6]) [(ustr ''bob'', [5])] 1060 [] =
       Inr (banner_text (RsaVerified (ustr ''bob'') (sha256_fingerprint ref_msg [5])) @ ustr ''Hi'')"
proof -
  obtain packet where packet: "encrypt_message ref_msg demo_rnd [72, 105] [] 1000 demo_opts = Inr (packet, 1000)"
    using demo_encrypts by blast
  obtain inner signature where i: "msg_signature ref_msg demo_rnd inner demo_opts = Inr signature"
    and d: "decrypt_message ref_msg packet [] (Some [6]) [(ustr ''bob'', [5])] 1060 [] =
      Inr (banner_text (banner_of ref_msg (msg_flags ref_msg demo_opts) inner signature [(ustr ''bob'', [5])] []) @ decode_text [72, 105])"
    using message_roundtrip [OF ref_msg.msg_laws_axioms packet, of "Some [6]" 1060 "[(ustr ''bob'', [5])]" "[]"] ref_rsa_pair
    by (auto simp: demo_rnd_def demo_opts_def self_destructs_def check_time_def)
  have "banner_of ref_msg (msg_flags ref_msg demo_opts) inner signature [(ustr ''bob'', [5])] [] =
      RsaVerified (ustr ''bob'') (sha256_fingerprint ref_msg [5])"
    using i by (auto simp: banner_of_def flag_sets msg_signature_def use_hybrid_sig_def demo_opts_def) (simp_all add: ref_msg_def)
  moreover have "decode_text [72, 105] = ustr ''Hi''" by code_simp
  ultimately show ?thesis using packet d by simp
qed

subsection \<open>The banner is in band\<close>

text \<open>Nothing in what \<^verbatim>\<open>decrypt_message\<close> returns separates the outcome of the verification from the
  text: an unsigned message whose text begins with the line of a verified signature decrypts to
  exactly the string of a message with that signature, for every name and fingerprint and whatever
  keys the receiver knows.\<close>

theorem signature_banner_spoofed:
  assumes "msg_laws C" "\<not> mo_sign opts" "utf8_encode (banner_text banner @ msg) = Inr plaintext"
    and "encrypt_message C rnd plaintext const_key timestamp opts = Inr (packet, ts)"
    and "length (mr_nonce rnd) = 12"
    and "\<And>pub. mo_friend_pub opts = Some pub \<Longrightarrow> \<exists>priv. my_priv = Some priv \<and> rsa_pair C priv pub"
    and "60 \<le> now" "now + 60 < 256 ^ 8"
    and "check_time now ts (if self_destructs opts then mo_self_destruct opts else None) = Inr ()"
  shows "decrypt_message C packet const_key my_priv friends now friends_hybrid = Inr (banner_text banner @ msg)"
proof -
  have "banner_of C (msg_flags C opts) inner signature friends friends_hybrid = NoSignature" for inner signature
    using assms(2) by (simp add: banner_of_def flag_sets use_hybrid_sig_def)
  moreover have "decode_text plaintext = banner_text banner @ msg"
    using utf8_roundtrip [OF assms(3)] by (simp add: decode_text_def)
  ultimately show ?thesis
    using msg_laws.message_opens [OF assms(1,4,5) _ assms(7-9), of my_priv friends friends_hybrid] assms(6) by auto
qed

definition spoof_opts :: msg_options where
  "spoof_opts = \<lparr>mo_sign = False, mo_my_priv = None, mo_friend_pub = Some [6], mo_self_destruct = None,
     mo_ed_priv = None, mo_dil_priv = None\<rparr>"

lemma spoof_encrypts:
  "\<exists>packet. encrypt_message ref_msg demo_rnd plaintext [] 1000 spoof_opts = Inr (packet, 1000)"
  by (simp add: encrypt_message_def spoof_opts_def demo_rnd_def msg_aes_key_def msg_inner_def msg_signature_def sig_field_def
      key_field_def pack_bytes_def pack_be_def pack_uint_def self_destructs_def use_hybrid_sig_def aes_gcm_encrypt_def
      derive_msg_key_def ref_enc_def)

theorem signature_banner_spoofed_witness:
  "\<exists>packet plaintext. encrypt_message ref_msg demo_rnd plaintext [] 1000 spoof_opts = Inr (packet, 1000) \<and>
     decrypt_message ref_msg packet [] (Some [6]) [] 1030 [] =
       Inr (banner_text (HybridVerified (ustr ''bob'')) @ ustr ''Hi'')"
proof -
  have "is_ok (utf8_encode (banner_text (HybridVerified (ustr ''bob'')) @ ustr ''Hi''))"
    by (rule utf8_encode_ok) (auto dest: ustr_bound)
  then obtain plaintext where p: "utf8_encode (banner_text (HybridVerified (ustr ''bob'')) @ ustr ''Hi'') = Inr plaintext"
    unfolding is_ok_iff by blast
  obtain packet where e: "encrypt_message ref_msg demo_rnd plaintext [] 1000 spoof_opts = Inr (packet, 1000)"
    using spoof_encrypts by blast
  have "decrypt_message ref_msg packet [] (Some [6]) [] 1030 [] = Inr (banner_text (HybridVerified (ustr ''bob'')) @ ustr ''Hi'')"
    by (rule signature_banner_spoofed [OF ref_msg.msg_laws_axioms _ p e])
      (auto simp: spoof_opts_def demo_rnd_def self_destructs_def check_time_def TIME_STEP_def WINDOW_SIZE_def ref_rsa_pair)
  with e show ?thesis by blast
qed

subsection \<open>The key hint\<close>

lemma unpack_bytes_prefix:
  assumes "length a = length b" "length a \<le> n"
  shows "unpack_bytes (a @ rest) n = unpack_bytes (b @ rest) n"
  using assms by (simp add: unpack_bytes_def slice_def split: sum.split)

lemma parse_header_hint:
  assumes "length t = 8" "length h = 2" "length h' = 2" "flag_set (unat f) KEY_HINT_FLAG"
  shows "parse_header (f # t @ h @ rest) = parse_header (f # t @ h' @ rest)"
proof -
  have "unpack_bytes (f # t @ h @ rest) 11 = unpack_bytes (f # t @ h' @ rest) 11"
    using unpack_bytes_prefix [of "f # t @ h" "f # t @ h'" 11 rest] assms by simp
  then show ?thesis using assms by (simp add: parse_header_def slice_def Let_def)
qed

lemma parse_header_offset:
  assumes "parse_header packet = Inr (flags, outer_ts, signature, idx)" "flag_set (unat (packet ! 0)) KEY_HINT_FLAG"
  shows "11 \<le> idx"
  using assms by (auto simp: parse_header_def unpack_bytes_def Let_def split: if_splits sum.splits)

lemma open_inner_hint:
  assumes "length a = length b" "length a \<le> idx"
  shows "open_inner C (a @ rest) k my_priv now flags ts aad idx = open_inner C (b @ rest) k my_priv now flags ts aad idx"
proof -
  have later: "drop i (a @ rest) = drop i (b @ rest)" if "idx \<le> i" for i using assms that by simp
  have "idx \<le> i" if "unpack_bytes (b @ rest) idx = Inr (x, i)" for x i
    using that by (auto simp: unpack_bytes_def split: if_splits sum.splits)
  with unpack_bytes_prefix [OF assms, of rest] later show ?thesis
    by (auto simp: open_inner_def split: option.splits sum.splits)
qed

text \<open>The key hint of a message is not authenticated: \<^verbatim>\<open>decrypt_message\<close> gives the same result on a
  packet whose hint has been replaced, while \<^verbatim>\<open>extract_key_hint\<close> returns the replacement.\<close>

lemma key_hint_unauthenticated:
  assumes "length t = 8" "length h = 2" "length h' = 2" "flag_set (unat f) KEY_HINT_FLAG"
  shows "decrypt_message C (f # t @ h' @ rest) k my_priv friends now fh =
      decrypt_message C (f # t @ h @ rest) k my_priv friends now fh \<and>
    extract_key_hint (f # t @ h' @ rest) = Some h'"
proof
  show "extract_key_hint (f # t @ h' @ rest) = Some h'"
    using assms by (simp add: extract_key_hint_def slice_def)
  have eq: "parse_header (f # t @ h' @ rest) = parse_header (f # t @ h @ rest)"
    by (rule parse_header_hint) (use assms in simp_all)
  show "decrypt_message C (f # t @ h' @ rest) k my_priv friends now fh =
      decrypt_message C (f # t @ h @ rest) k my_priv friends now fh"
  proof (cases "parse_header (f # t @ h @ rest)")
    case (Inr r)
    obtain flags ts s idx where r: "r = (flags, ts, s, idx)" by (cases r)
    have "11 \<le> idx" using parse_header_offset [OF Inr [unfolded r]] assms(4) by simp
    then have "open_inner C (f # t @ h' @ rest) k my_priv now flags ts aad idx = open_inner C (f # t @ h @ rest) k my_priv now flags ts aad idx" for aad
      using open_inner_hint [of "f # t @ h'" "f # t @ h" idx C rest] assms by simp
    then show ?thesis by (simp only: decrypt_message_def eq Inr r sum.case prod.case)
  qed (simp add: decrypt_message_def eq)
qed

end
