(* ===== verification/Json.thy ===== *)
theory Json
  imports Text_Codec
begin

text \<open>
  \<^verbatim>\<open>json.dumps\<close> and \<^verbatim>\<open>json.loads\<close> of the standard library with their default options: a
  printer that escapes everything outside printable ASCII, and a recursive-descent parser. A
  number with a fraction or an exponent and the constants \<^verbatim>\<open>NaN\<close> and \<^verbatim>\<open>Infinity\<close> are
  kept as their literal text. Every failure of the parser is \<^verbatim>\<open>JSONDecodeError\<close>, a subclass of
  \<^verbatim>\<open>ValueError\<close>. The fuel of the parser is the length of the text: every call that is
  nested has consumed a character.
\<close>

datatype json =
    JNull
  | JBool bool
  | JInt int
  | JFloat ustr
  | JStr ustr
  | JArr "json list"
  | JObj "(ustr \<times> json) list"

section \<open>Printing\<close>

definition hex4 :: "nat \<Rightarrow> ustr" where
  "hex4 n = map hex_digit [n div 4096 mod 16, n div 256 mod 16, n div 16 mod 16, n mod 16]"

definition escape_char :: "nat \<Rightarrow> ustr" where
  "escape_char c =
     (if c = 34 \<or> c = 92 then [92, c]
      else if 32 \<le> c \<and> c \<le> 126 then [c]
      else if c = 10 then [92, 110] else if c = 13 then [92, 114] else if c = 9 then [92, 116]
      else if c = 12 then [92, 102] else if c = 8 then [92, 98]
      else if c < 0x10000 then [92, 117] @ hex4 c
      else [92, 117] @ hex4 (0xD800 + (c - 0x10000) div 1024) @ [92, 117] @ hex4 (0xDC00 + (c - 0x10000) mod 1024))"

definition json_string :: "ustr \<Rightarrow> ustr" where
  "json_string s = 34 # concat (map escape_char s) @ [34]"

fun comma_join :: "ustr list \<Rightarrow> ustr" where
  "comma_join [] = []"
| "comma_join [x] = x"
| "comma_join (x # y # ys) = x @ [44, 32] @ comma_join (y # ys)"

definition json_int :: "int \<Rightarrow> ustr" where
  "json_int n = (if n < 0 then 45 # dec (nat (- n)) else dec (nat n))"

fun dumps :: "json \<Rightarrow> ustr" where
  "dumps JNull = ustr ''null''"
| "dumps (JBool b) = (if b then ustr ''true'' else ustr ''false'')"
| "dumps (JInt n) = json_int n"
| "dumps (JFloat t) = t"
| "dumps (JStr s) = json_string s"
| "dumps (JArr vs) = 91 # comma_join (map dumps vs) @ [93]"
| "dumps (JObj es) = 123 # comma_join (map (\<lambda>(k, v). json_string k @ [58, 32] @ dumps v) es) @ [125]"

section \<open>Parsing\<close>

definition skip_ws :: "ustr \<Rightarrow> ustr" where
  "skip_ws s = dropWhile (\<lambda>c. c = 32 \<or> c = 9 \<or> c = 10 \<or> c = 13) s"

text \<open>\<^verbatim>\<open>int(s, 16)\<close> of the four characters after \<^verbatim>\<open>\u\<close>, which have to be digits.\<close>

definition scan_hex4 :: "ustr \<Rightarrow> (nat \<times> ustr) option" where
  "scan_hex4 s =
     (case s of
        a # b # c # d # r \<Rightarrow>
          (case (hex_value a, hex_value b, hex_value c, hex_value d) of
             (Some w, Some x, Some y, Some z) \<Rightarrow> Some (4096 * w + 256 * x + 16 * y + z, r)
           | _ \<Rightarrow> None)
      | _ \<Rightarrow> None)"

text \<open>What follows a backslash; a high surrogate takes a low one that follows it.\<close>

definition scan_escape :: "ustr \<Rightarrow> (nat \<times> ustr) option" where
  "scan_escape s =
     (case s of [] \<Rightarrow> None
      | c # r \<Rightarrow>
          if c = 34 \<or> c = 92 \<or> c = 47 then Some (c, r)
          else if c = 98 then Some (8, r) else if c = 102 then Some (12, r) else if c = 110 then Some (10, r)
          else if c = 114 then Some (13, r) else if c = 116 then Some (9, r)
          else if c = 117 then
            (case scan_hex4 r of None \<Rightarrow> None
             | Some (u, r1) \<Rightarrow>
                 if 0xD800 \<le> u \<and> u < 0xDC00 \<and> take 2 r1 = [92, 117] then
                   (case scan_hex4 (drop 2 r1) of None \<Rightarrow> None
                    | Some (v, r2) \<Rightarrow>
                        if 0xDC00 \<le> v \<and> v < 0xE000 then Some (0x10000 + 1024 * (u - 0xD800) + (v - 0xDC00), r2)
                        else Some (u, r1))
                 else Some (u, r1))
          else None)"

lemma scan_hex4_shorter: "scan_hex4 s = Some (u, r) \<Longrightarrow> length r < length s"
  by (auto simp: scan_hex4_def split: list.splits option.splits)

lemma scan_escape_shorter: "scan_escape s = Some (c, r) \<Longrightarrow> length r < length s"
  by (auto simp: scan_escape_def dest!: scan_hex4_shorter split: list.splits if_splits option.splits)

text \<open>The characters of a string after the opening quote; control characters are refused.\<close>

function scan_string :: "ustr \<Rightarrow> (ustr \<times> ustr) option" where
  "scan_string [] = None"
| "scan_string (c # s) =
     (if c = 34 then Some ([], s)
      else if c = 92 then
        (case scan_escape s of None \<Rightarrow> None
         | Some (d, r) \<Rightarrow> (case scan_string r of None \<Rightarrow> None | Some (ds, r') \<Rightarrow> Some (d # ds, r')))
      else if c < 32 then None
      else case scan_string s of None \<Rightarrow> None | Some (ds, r') \<Rightarrow> Some (c # ds, r'))"
  by pat_completeness auto
termination
  by (relation "measure length") (auto dest: scan_escape_shorter)

definition digits_val :: "ustr \<Rightarrow> nat" where
  "digits_val ds = foldl (\<lambda>n c. 10 * n + (c - 48)) 0 ds"

text \<open>The optional fraction and exponent of a number, each with at least one digit.\<close>

definition scan_frac :: "ustr \<Rightarrow> ustr \<times> ustr" where
  "scan_frac s =
     (case s of c # d # r \<Rightarrow>
        if c = 46 \<and> is_digit d then (46 # takeWhile is_digit (d # r), dropWhile is_digit (d # r)) else ([], s)
      | _ \<Rightarrow> ([], s))"

definition scan_exp :: "ustr \<Rightarrow> ustr \<times> ustr" where
  "scan_exp s =
     (case s of [] \<Rightarrow> ([], s)
      | c # r \<Rightarrow>
          let (sgn, r1) = (case r of d # r' \<Rightarrow> if d = 43 \<or> d = 45 then ([d], r') else ([], r) | [] \<Rightarrow> ([], r))
          in if (c = 101 \<or> c = 69) \<and> r1 \<noteq> [] \<and> is_digit (hd r1)
             then (c # sgn @ takeWhile is_digit r1, dropWhile is_digit r1) else ([], s))"

definition scan_number :: "ustr \<Rightarrow> (json \<times> ustr) option" where
  "scan_number s =
     (let neg = (s \<noteq> [] \<and> hd s = 45);
          s1 = (if neg then tl s else s)
      in if s1 = [] \<or> \<not> is_digit (hd s1) then None
         else let ds = (if hd s1 = 48 then [48] else takeWhile is_digit s1);
                  (fr, s2) = scan_frac (drop (length ds) s1);
                  (ex, s3) = scan_exp s2
              in Some (if fr = [] \<and> ex = [] then JInt (if neg then - int (digits_val ds) else int (digits_val ds))
                       else JFloat ((if neg then [45] else []) @ ds @ fr @ ex), s3))"

definition scan_literal :: "ustr \<Rightarrow> (json \<times> ustr) option" where
  "scan_literal s =
     (case find (\<lambda>(t, _). take (length t) s = t)
        [(ustr ''null'', JNull), (ustr ''true'', JBool True), (ustr ''false'', JBool False),
         (ustr ''NaN'', JFloat (ustr ''NaN'')), (ustr ''Infinity'', JFloat (ustr ''Infinity'')),
         (ustr ''-Infinity'', JFloat (ustr ''-Infinity''))] of
        Some (t, v) \<Rightarrow> Some (v, drop (length t) s)
      | None \<Rightarrow> scan_number s)"

fun parse_value :: "nat \<Rightarrow> ustr \<Rightarrow> (json \<times> ustr) option"
and parse_elems :: "nat \<Rightarrow> ustr \<Rightarrow> json list \<Rightarrow> (json \<times> ustr) option"
and parse_members :: "nat \<Rightarrow> ustr \<Rightarrow> (ustr \<times> json) list \<Rightarrow> (json \<times> ustr) option" where
  "parse_value 0 s = None"
| "parse_value (Suc n) s =
     (case s of [] \<Rightarrow> None
      | c # r \<Rightarrow>
          if c = 34 then (case scan_string r of None \<Rightarrow> None | Some (t, r1) \<Rightarrow> Some (JStr t, r1))
          else if c = 91 then
            (if skip_ws r \<noteq> [] \<and> hd (skip_ws r) = 93 then Some (JArr [], tl (skip_ws r)) else parse_elems n (skip_ws r) [])
          else if c = 123 then
            (if skip_ws r \<noteq> [] \<and> hd (skip_ws r) = 125 then Some (JObj [], tl (skip_ws r)) else parse_members n (skip_ws r) [])
          else scan_literal s)"
| "parse_elems 0 s acc = None"
| "parse_elems (Suc n) s acc =
     (case parse_value n s of None \<Rightarrow> None
      | Some (v, r) \<Rightarrow>
          (case skip_ws r of [] \<Rightarrow> None
           | c # r1 \<Rightarrow>
               if c = 93 then Some (JArr (acc @ [v]), r1)
               else if c = 44 then parse_elems n (skip_ws r1) (acc @ [v]) else None))"
| "parse_members 0 s acc = None"
| "parse_members (Suc n) s acc =
     (case s of [] \<Rightarrow> None
      | q # s1 \<Rightarrow>
          if q \<noteq> 34 then None
          else case scan_string s1 of None \<Rightarrow> None
            | Some (k, r) \<Rightarrow>
                (case skip_ws r of [] \<Rightarrow> None
                 | c # r1 \<Rightarrow>
                     if c \<noteq> 58 then None
                     else case parse_value n (skip_ws r1) of None \<Rightarrow> None
                       | Some (v, r2) \<Rightarrow>
                           (case skip_ws r2 of [] \<Rightarrow> None
                            | d # r3 \<Rightarrow>
                                if d = 125 then Some (JObj (AList.update k v acc), r3)
                                else if d = 44 then parse_members n (skip_ws r3) (AList.update k v acc) else None)))"

definition loads :: "ustr \<Rightarrow> json res" where
  "loads s =
     (case parse_value (length s + 1) (skip_ws s) of None \<Rightarrow> Inl ValueError
      | Some (v, r) \<Rightarrow> if skip_ws r = [] then Inr v else Inl ValueError)"

section \<open>Round trip\<close>

text \<open>The values whose texts the program writes: printable strings without quotes and backslashes, no
  fractions, no repeated keys.\<close>

definition plain_text :: "ustr \<Rightarrow> bool" where
  "plain_text s \<longleftrightarrow> list_all (\<lambda>c. 32 \<le> c \<and> c \<le> 126 \<and> c \<noteq> 34 \<and> c \<noteq> 92) s"

fun plain :: "json \<Rightarrow> bool" where
  "plain JNull = True"
| "plain (JBool b) = True"
| "plain (JInt n) = True"
| "plain (JFloat t) = False"
| "plain (JStr s) = plain_text s"
| "plain (JArr vs) = list_all plain vs"
| "plain (JObj es) = (list_all (\<lambda>(k, v). plain_text k \<and> plain v) es \<and> distinct (map fst es))"

lemma escape_plain: "plain_text s \<Longrightarrow> concat (map escape_char s) = s"
  by (induction s) (auto simp: plain_text_def escape_char_def)

lemma json_string_plain: "plain_text s \<Longrightarrow> json_string s = 34 # s @ [34]"
  by (simp add: json_string_def escape_plain)

lemma scan_string_plain: "plain_text s \<Longrightarrow> scan_string (s @ 34 # r) = Some (s, r)"
  by (induction s) (auto simp: plain_text_def)

text \<open>What may follow a value: nothing, a comma or a closing bracket.\<close>

definition delim :: "ustr \<Rightarrow> bool" where
  "delim r \<longleftrightarrow> (case r of [] \<Rightarrow> True | c # _ \<Rightarrow> c = 44 \<or> c = 93 \<or> c = 125)"

lemma delimE [elim]:
  assumes "delim r" obtains "r = []" | c r' where "r = c # r'" "c = 44 \<or> c = 93 \<or> c = 125"
  using assms by (auto simp: delim_def split: list.splits)

lemma delim_scan: "delim r \<Longrightarrow> scan_frac r = ([], r)" "delim r \<Longrightarrow> scan_exp r = ([], r)"
  by (auto simp: delim_def scan_frac_def scan_exp_def split: list.splits prod.splits)

lemma dec_not_Nil [simp]: "dec n \<noteq> []"
  by (subst dec.simps) auto

lemma dec_leading: "n \<noteq> 0 \<Longrightarrow> hd (dec n) \<noteq> 48"
proof (induction n rule: dec.induct)
  case (1 n)
  then show ?case by (cases "n < 10") (auto simp: dec.simps [of n] hd_append)
qed

lemma takeWhile_digits:
  assumes "\<And>c. c \<in> set ds \<Longrightarrow> is_digit c" "delim r"
  shows "takeWhile is_digit (ds @ r) = ds"
  using assms by (auto simp: takeWhile_append2 delim_def is_digit_def takeWhile_eq_Nil_iff split: list.splits)

lemma scan_number_int:
  assumes "delim r"
  shows "scan_number (json_int n @ r) = Some (JInt n, r)"
proof -
  have step: "scan_number ((if b then [45] else []) @ dec m @ r) = Some (JInt (if b then - int m else int m), r)" for b m
  proof -
    have hd: "is_digit (hd (dec m))" using dec_digits [of "hd (dec m)" m] by simp
    have tw: "takeWhile is_digit (dec m @ r) = dec m" by (rule takeWhile_digits) (use dec_digits assms in auto)
    have z: "dec m = [48]" if "hd (dec m) = 48" using dec_leading [of m] that by (cases "m = 0") (auto simp: dec.simps [of 0])
    have n45: "hd (dec m) \<noteq> 45" using hd by (auto simp: is_digit_def)
    have val: "digits_val (dec m) = m" by (simp add: digits_val_def foldl_dec)
    show ?thesis
    proof (cases "hd (dec m) = 48")
      case True
      then show ?thesis using z val delim_scan [OF assms] by (cases b) (simp_all add: scan_number_def Let_def is_digit_def)
    next
      case False
      then show ?thesis
        using hd tw n45 val delim_scan [OF assms] by (cases b) (simp_all add: scan_number_def Let_def hd_append)
    qed
  qed
  show ?thesis using step [of "n < 0" "nat (if n < 0 then - n else n)"] by (cases "n < 0") (simp_all add: json_int_def)
qed

lemma scan_literal_number:
  assumes "s \<noteq> []" "is_digit (hd s) \<or> hd s = 45 \<and> (tl s = [] \<or> hd (tl s) \<noteq> 73)"
  shows "scan_literal s = scan_number s"
proof -
  obtain c r where s: "s = c # r" using assms(1) by (cases s) auto
  have c: "c \<noteq> 110" "c \<noteq> 116" "c \<noteq> 102" "c \<noteq> 78" "c \<noteq> 73" and i: "c = 45 \<Longrightarrow> r = [] \<or> hd r \<noteq> 73"
    using assms(2) by (auto simp: s is_digit_def)
  have "take (Suc m) r \<noteq> 73 # xs" if "c = 45" for m xs using i [OF that] by (cases r) auto
  then show ?thesis using c by (cases "c = 45") (simp_all add: scan_literal_def ustr_def s)
qed

text \<open>No value starts with white space or a closing bracket.\<close>

definition value_start :: "nat \<Rightarrow> bool" where
  "value_start c \<longleftrightarrow> c \<notin> {32, 9, 10, 13, 93, 125}"

lemma skip_ws_start: "s \<noteq> [] \<Longrightarrow> value_start (hd s) \<Longrightarrow> skip_ws (s @ r) = s @ r"
  by (cases s) (auto simp: skip_ws_def value_start_def)

lemma skip_ws_delim: "delim r \<Longrightarrow> skip_ws r = r"
  by (auto simp: skip_ws_def delim_def split: list.splits)

lemma json_int_start: "json_int n \<noteq> [] \<and> (is_digit (hd (json_int n)) \<or> hd (json_int n) = 45 \<and> tl (json_int n) \<noteq> [] \<and> is_digit (hd (tl (json_int n))))"
proof -
  have "is_digit (hd (dec m))" for m using dec_digits [of "hd (dec m)" m] by simp
  then show ?thesis by (simp add: json_int_def)
qed

lemma dumps_start: "plain v \<Longrightarrow> dumps v \<noteq> [] \<and> value_start (hd (dumps v))"
proof (cases v)
  case (JInt n)
  then show ?thesis using json_int_start [of n] by (auto simp: value_start_def is_digit_def)
qed (auto simp: value_start_def ustr_def json_string_def)

definition parses :: "json \<Rightarrow> bool" where
  "parses v \<longleftrightarrow> (\<forall>r n. delim r \<longrightarrow> length (dumps v) \<le> n \<longrightarrow> parse_value n (dumps v @ r) = Some (v, r))"

lemma parse_elems_dumps:
  assumes "\<And>v. v \<in> set (v0 # vs) \<Longrightarrow> plain v \<and> parses v" "length (comma_join (map dumps (v0 # vs))) < n"
  shows "parse_elems n (comma_join (map dumps (v0 # vs)) @ 93 # r) acc = Some (JArr (acc @ v0 # vs), r)"
  using assms
proof (induction vs arbitrary: v0 acc n)
  case Nil
  obtain m where n: "n = Suc m" using Nil.prems(2) by (cases n) auto
  have "parse_value m (dumps v0 @ 93 # r) = Some (v0, 93 # r)"
    using Nil.prems n by (simp add: parses_def delim_def)
  then show ?case by (simp add: n skip_ws_def)
next
  case (Cons v1 vs)
  obtain m where n: "n = Suc m" using Cons.prems(2) by (cases n) auto
  let ?rest = "comma_join (map dumps (v1 # vs)) @ 93 # r"
  have "parse_value m (dumps v0 @ 44 # 32 # ?rest) = Some (v0, 44 # 32 # ?rest)"
    using Cons.prems n by (simp add: parses_def delim_def)
  moreover have "comma_join (map dumps (v1 # vs)) \<noteq> [] \<and> value_start (hd (comma_join (map dumps (v1 # vs))))"
    using Cons.prems(1) [of v1] dumps_start [of v1] by (cases vs) auto
  then have "skip_ws (32 # ?rest) = ?rest"
    using skip_ws_start [of "comma_join (map dumps (v1 # vs))" "93 # r"] by (simp add: skip_ws_def)
  moreover have "parse_elems m ?rest (acc @ [v0]) = Some (JArr ((acc @ [v0]) @ v1 # vs), r)"
    by (rule Cons.IH) (use Cons.prems n in auto)
  ultimately show ?case by (simp add: n skip_ws_def)
qed

lemma parse_members_dumps:
  assumes "\<And>k v. (k, v) \<in> set (e0 # es) \<Longrightarrow> plain_text k \<and> plain v \<and> parses v"
    and "distinct (map fst (acc @ e0 # es))"
    and "length (comma_join (map (\<lambda>(k, v). json_string k @ [58, 32] @ dumps v) (e0 # es))) < n"
  shows "parse_members n (comma_join (map (\<lambda>(k, v). json_string k @ [58, 32] @ dumps v) (e0 # es)) @ 125 # r) acc =
    Some (JObj (acc @ e0 # es), r)"
  using assms
proof (induction es arbitrary: e0 acc n)
  case Nil
  obtain m where n: "n = Suc m" using Nil.prems(3) by (cases n) auto
  obtain k v where e0: "e0 = (k, v)" by (cases e0)
  have p: "plain_text k" "plain v" "parses v" using Nil.prems(1) [of k v] e0 by auto
  have "parse_value m (dumps v @ 125 # r) = Some (v, 125 # r)"
    using p Nil.prems(3) n e0 by (simp add: parses_def delim_def)
  moreover have "skip_ws (32 # dumps v @ 125 # r) = dumps v @ 125 # r"
    using skip_ws_start [of "dumps v" "125 # r"] dumps_start [OF p(2)] by (simp add: skip_ws_def)
  moreover have "map_of acc k = None" using Nil.prems(2) e0 by (auto simp: map_of_eq_None_iff)
  ultimately show ?case
    using p(1) by (simp add: n e0 json_string_plain scan_string_plain) (simp add: skip_ws_def update_absent)
next
  case (Cons e1 es)
  let ?f = "\<lambda>(k, v). json_string k @ [58, 32] @ dumps v"
  obtain m where n: "n = Suc m" using Cons.prems(3) by (cases n) auto
  obtain k v where e0: "e0 = (k, v)" by (cases e0)
  let ?rest = "comma_join (map ?f (e1 # es)) @ 125 # r"
  have p: "plain_text k" "plain v" "parses v" using Cons.prems(1) [of k v] e0 by auto
  have "parse_value m (dumps v @ 44 # 32 # ?rest) = Some (v, 44 # 32 # ?rest)"
    using p Cons.prems(3) n e0 by (simp add: parses_def delim_def)
  moreover have "skip_ws (32 # dumps v @ 44 # 32 # ?rest) = dumps v @ 44 # 32 # ?rest"
    using skip_ws_start [of "dumps v" "44 # 32 # ?rest"] dumps_start [OF p(2)] by (simp add: skip_ws_def)
  moreover have "skip_ws (32 # ?rest) = ?rest"
    by (cases es; cases e1) (simp_all add: skip_ws_def json_string_def)
  moreover have "map_of acc k = None" using Cons.prems(2) e0 by (auto simp: map_of_eq_None_iff)
  moreover have "parse_members m ?rest (acc @ [e0]) = Some (JObj ((acc @ [e0]) @ e1 # es), r)"
    by (rule Cons.IH) (use Cons.prems n e0 in auto)
  ultimately show ?case
    using p(1) by (simp add: n e0 json_string_plain scan_string_plain) (simp add: skip_ws_def update_absent)
qed

lemma plain_parses: "plain v \<Longrightarrow> parses v"
proof (induction v)
  case (JInt n)
  have s: "scan_literal (json_int n @ r) = Some (JInt n, r)" if "delim r" for r
    using json_int_start [of n] scan_number_int [OF that] by (subst scan_literal_number) (auto simp: is_digit_def hd_append)
  have c: "hd (json_int n) \<notin> {34, 91, 123}" using json_int_start [of n] by (auto simp: is_digit_def)
  have "parse_value m (json_int n @ r) = Some (JInt n, r)" if "delim r" "length (json_int n) \<le> m" for r m
    using s [OF that(1)] c that(2) json_int_start [of n] by (cases m; cases "json_int n") auto
  then show ?case by (simp add: parses_def)
next
  case (JStr s)
  then have "parse_value m (json_string s @ r) = Some (JStr s, r)" if "length (json_string s) \<le> m" for r m
    using that by (cases m) (simp_all add: json_string_plain scan_string_plain)
  then show ?case by (simp add: parses_def)
next
  case (JArr vs)
  have "parse_value (Suc m) (dumps (JArr vs) @ r) = Some (JArr vs, r)" if "length (dumps (JArr vs)) \<le> Suc m" for r m
  proof (cases vs)
    case (Cons v0 vs')
    have ok: "plain v \<and> parses v" if "v \<in> set vs" for v using JArr that by (auto simp: list_all_iff)
    have start: "comma_join (map dumps vs) \<noteq> [] \<and> value_start (hd (comma_join (map dumps vs)))"
      using ok [of v0] dumps_start [of v0] Cons by (cases vs') auto
    with skip_ws_start [of "comma_join (map dumps vs)" "93 # r"]
    have "skip_ws (comma_join (map dumps vs) @ 93 # r) = comma_join (map dumps vs) @ 93 # r" by simp
    moreover have "hd (comma_join (map dumps vs) @ 93 # r) \<noteq> 93" using start by (auto simp: value_start_def hd_append)
    moreover have "parse_elems m (comma_join (map dumps vs) @ 93 # r) [] = Some (JArr vs, r)"
      using parse_elems_dumps [of v0 vs' m r "[]"] ok that Cons by auto
    ultimately show ?thesis by simp
  qed (simp add: skip_ws_def)
  then show ?case unfolding parses_def by (metis Suc_le_D dumps.simps(6) length_Cons)
next
  case (JObj es)
  let ?f = "\<lambda>(k, v). json_string k @ [58, 32] @ dumps v"
  have "parse_value (Suc m) (dumps (JObj es) @ r) = Some (JObj es, r)" if "length (dumps (JObj es)) \<le> Suc m" for r m
  proof (cases es)
    case (Cons e0 es')
    have ok: "plain_text k \<and> plain v \<and> parses v" if "(k, v) \<in> set es" for k v
      using JObj.prems JObj.IH [OF that, of v] that by (auto simp: list_all_iff)
    have "skip_ws (comma_join (map ?f es) @ 125 # r) = comma_join (map ?f es) @ 125 # r \<and>
        hd (comma_join (map ?f es) @ 125 # r) \<noteq> 125"
      using Cons by (cases es'; cases e0) (simp_all add: skip_ws_def json_string_def)
    moreover have "parse_members m (comma_join (map ?f es) @ 125 # r) [] = Some (JObj es, r)"
      using parse_members_dumps [of e0 es' "[]" m r] ok that Cons JObj.prems by auto
    ultimately show ?thesis by simp
  qed (simp add: skip_ws_def)
  then show ?case unfolding parses_def by (metis Suc_le_D dumps.simps(7) length_Cons)
qed (auto simp: parses_def scan_literal_def ustr_def Suc_le_eq gr0_conv_Suc elim!: Suc_lessE)

theorem loads_dumps: "plain v \<Longrightarrow> loads (dumps v) = Inr v"
proof -
  assume v: "plain v"
  have "skip_ws (dumps v) = dumps v" using skip_ws_start [of "dumps v" "[]"] dumps_start [OF v] by simp
  moreover have "parse_value (Suc (length (dumps v))) (dumps v @ []) = Some (v, [])"
    using plain_parses [OF v, unfolded parses_def, rule_format, of "[]" "Suc (length (dumps v))"]
    by (simp add: delim_def del: parse_value.simps)
  ultimately show ?thesis by (simp add: loads_def skip_ws_def del: parse_value.simps)
qed

text \<open>The texts are ASCII.\<close>

lemma comma_join_member: "c \<in> set (comma_join xs) \<Longrightarrow> c = 44 \<or> c = 32 \<or> (\<exists>x \<in> set xs. c \<in> set x)"
  by (induction xs rule: comma_join.induct) auto

lemma plain_text_ascii: "plain_text s \<Longrightarrow> c \<in> set s \<Longrightarrow> c < 128"
  by (auto simp: plain_text_def list_all_iff)

lemma dumps_ascii: "plain v \<Longrightarrow> c \<in> set (dumps v) \<Longrightarrow> c < 128"
proof (induction v arbitrary: c)
  case (JInt n)
  then show ?case by (auto simp: json_int_def is_digit_def dest!: dec_digits split: if_splits)
next
  case (JStr s)
  then show ?case by (auto simp: json_string_plain dest: plain_text_ascii)
next
  case (JArr vs)
  have elem: "d < 128" if "v \<in> set vs" "d \<in> set (dumps v)" for v d
    using that JArr.prems(1) JArr.IH [OF that(1)] by (simp add: list_all_iff)
  have "c = 91 \<or> c = 93 \<or> c \<in> set (comma_join (map dumps vs))" using JArr.prems(2) by auto
  with elem comma_join_member [of c "map dumps vs"] show ?case by auto
next
  case (JObj es)
  have "d < 128" if e: "(k, v) \<in> set es" and d: "d \<in> set (json_string k @ [58, 32] @ dumps v)" for k v d
  proof -
    have p: "plain_text k" "plain v" using e JObj.prems(1) by (auto simp: list_all_iff)
    have "d < 128" if "d \<in> set (dumps v)" using JObj.IH [OF e _ p(2) that] by simp
    moreover have "d < 128" if "d \<in> set (json_string k)"
      using that plain_text_ascii [OF p(1), of d] by (auto simp: json_string_plain [OF p(1)])
    ultimately show ?thesis using d by auto
  qed
  moreover have "c = 123 \<or> c = 125 \<or> c \<in> set (comma_join (map (\<lambda>(k, v). json_string k @ [58, 32] @ dumps v) es))"
    using JObj.prems(2) by auto
  ultimately show ?case
    using comma_join_member [of c "map (\<lambda>(k, v). json_string k @ [58, 32] @ dumps v) es"] by fastforce
qed (auto simp: ustr_def split: if_splits)

end
