(* ===== verification/Ratchet_Service.thy ===== *)
theory Ratchet_Service
  imports Ratchet_Codec Json Key_Store Envelope "HOL-Library.List_Lexorder" "HOL-Library.Product_Lexorder"
begin

text \<open>
  \<^verbatim>\<open>services/ratchet_service.py\<close>, \<^verbatim>\<open>services/friend_repository.py\<close> and
  \<^verbatim>\<open>models/friend_profile.py\<close>: Double Ratchet sessions in the friends table, encrypted at rest,
  the buffer of states that wait for the next flush, and the locks of the friends. The class
  attributes of \<^verbatim>\<open>RatchetService\<close> are the record \<open>ratchet_service\<close>. The timer of the flush is
  the choice of when \<open>flush_dirty_states\<close> happens. A thread is a number; acquiring a lock that
  another thread holds times out. The nonces and the generated keys are arguments.
\<close>

section \<open>State\<close>

text \<open>A reentrant lock and the time stamp kept for it.\<close>

record rlock =
  rl_owner :: "nat option"
  rl_depth :: nat
  rl_created :: rat

record ratchet_service =
  storage_key :: "bytes option"
  dirty_states :: "(ustr \<times> ratchet_state) list"
  friend_locks :: "(ustr \<times> rlock) list"

definition new_ratchet_service :: ratchet_service where
  "new_ratchet_service = \<lparr>storage_key = None, dirty_states = [], friend_locks = []\<rparr>"

definition set_ratchet_storage_key :: "bytes \<Rightarrow> ratchet_service \<Rightarrow> unit res \<times> ratchet_service" where
  "set_ratchet_storage_key key s =
     (if length key \<noteq> 32 then (Inl ValueError, s) else (Inr (), s\<lparr>storage_key := Some key\<rparr>))"

definition derive_storage_key :: "(bytes \<Rightarrow> bytes \<Rightarrow> bytes) \<Rightarrow> bytes \<Rightarrow> bytes" where
  "derive_storage_key hkdf master_secret = hkdf (map of_nat (ustr ''enigma-ratchet-storage-key-v1'')) master_secret"

definition mark_dirty :: "ustr \<Rightarrow> ratchet_state \<Rightarrow> ratchet_service \<Rightarrow> ratchet_service" where
  "mark_dirty friend_name st s = s\<lparr>dirty_states := AList.update friend_name st (dirty_states s)\<rparr>"

section \<open>The stored form\<close>

text \<open>The dictionary of a ratchet state as a JSON value.\<close>

definition json_opt :: "ustr option \<Rightarrow> json" where
  "json_opt t = (case t of Some s \<Rightarrow> JStr s | None \<Rightarrow> JNull)"

definition ratchet_json :: "ratchet_data \<Rightarrow> json" where
  "ratchet_json d = JObj
     [(ustr ''root_key'', json_opt (rd_root_key d)),
      (ustr ''send_chain_key'', json_opt (rd_send_chain_key d)),
      (ustr ''recv_chain_key'', json_opt (rd_recv_chain_key d)),
      (ustr ''send_msg_num'', JInt (int (rd_send_msg_num d))),
      (ustr ''recv_msg_num'', JInt (int (rd_recv_msg_num d))),
      (ustr ''prev_send_chain_len'', JInt (int (rd_prev_send_chain_len d))),
      (ustr ''dh_priv_bytes'', json_opt (rd_dh_priv_bytes d)),
      (ustr ''dh_pub_remote_bytes'', json_opt (rd_dh_pub_remote_bytes d)),
      (ustr ''skipped_keys'', JObj (map (\<lambda>(k, v). (k, JStr v)) (rd_skipped_keys d)))]"

text \<open>
  What \<^verbatim>\<open>deserialize\<close> reads of a parsed text: a missing or false entry is absent, a text is taken,
  anything else does not pass \<^verbatim>\<open>bytes.fromhex\<close>. A counter that is no natural number, which
  \<^verbatim>\<open>serialize\<close> never writes, is refused here.
\<close>

definition json_falsy :: "json \<Rightarrow> bool" where
  "json_falsy v \<longleftrightarrow> v \<in> {JNull, JBool False, JInt 0, JStr [], JArr [], JObj []}"

definition read_text :: "(ustr \<times> json) list \<Rightarrow> string \<Rightarrow> ustr option res" where
  "read_text es key =
     (case map_of es (ustr key) of None \<Rightarrow> Inr None
      | Some v \<Rightarrow> if json_falsy v then Inr None else (case v of JStr s \<Rightarrow> Inr (Some s) | _ \<Rightarrow> Inl TypeError))"

definition read_count :: "(ustr \<times> json) list \<Rightarrow> string \<Rightarrow> nat res" where
  "read_count es key =
     (case map_of es (ustr key) of None \<Rightarrow> Inr 0
      | Some (JInt n) \<Rightarrow> if n \<ge> 0 then Inr (nat n) else Inl TypeError
      | Some _ \<Rightarrow> Inl TypeError)"

definition read_texts :: "(ustr \<times> json) list \<Rightarrow> string \<Rightarrow> (ustr \<times> ustr) list res" where
  "read_texts es key =
     (case map_of es (ustr key) of None \<Rightarrow> Inr []
      | Some v \<Rightarrow> if json_falsy v then Inr []
          else (case v of JObj fs \<Rightarrow> map_res (\<lambda>(k, w). case w of JStr s \<Rightarrow> Inr (k, s) | _ \<Rightarrow> Inl TypeError) fs
                | _ \<Rightarrow> Inl AttributeError))"

definition ratchet_data_of_json :: "json \<Rightarrow> ratchet_data res" where
  "ratchet_data_of_json v =
     (case v of JObj es \<Rightarrow>
        (case read_text es ''root_key'' of Inl e \<Rightarrow> Inl e | Inr rk \<Rightarrow>
        (case read_text es ''send_chain_key'' of Inl e \<Rightarrow> Inl e | Inr sk \<Rightarrow>
        (case read_text es ''recv_chain_key'' of Inl e \<Rightarrow> Inl e | Inr ck \<Rightarrow>
        (case read_count es ''send_msg_num'' of Inl e \<Rightarrow> Inl e | Inr ns \<Rightarrow>
        (case read_count es ''recv_msg_num'' of Inl e \<Rightarrow> Inl e | Inr nr \<Rightarrow>
        (case read_count es ''prev_send_chain_len'' of Inl e \<Rightarrow> Inl e | Inr np \<Rightarrow>
        (case read_text es ''dh_priv_bytes'' of Inl e \<Rightarrow> Inl e | Inr priv \<Rightarrow>
        (case read_text es ''dh_pub_remote_bytes'' of Inl e \<Rightarrow> Inl e | Inr pub \<Rightarrow>
        (case read_texts es ''skipped_keys'' of Inl e \<Rightarrow> Inl e | Inr skipped \<Rightarrow>
           Inr \<lparr>rd_root_key = rk, rd_send_chain_key = sk, rd_recv_chain_key = ck, rd_send_msg_num = ns,
                rd_recv_msg_num = nr, rd_prev_send_chain_len = np, rd_dh_priv_bytes = priv,
                rd_dh_pub_remote_bytes = pub, rd_skipped_keys = skipped\<rparr>)))))))))
      | _ \<Rightarrow> Inl AttributeError)"

definition encrypt_ratchet_blob :: "db_crypto \<Rightarrow> bytes \<Rightarrow> ratchet_service \<Rightarrow> ustr \<Rightarrow> ustr res" where
  "encrypt_ratchet_blob D nonce s plaintext_json =
     (case storage_key s of None \<Rightarrow> Inl RatchetServiceError
      | Some key \<Rightarrow>
        (case utf8_encode plaintext_json of Inl e \<Rightarrow> Inl e
         | Inr plaintext \<Rightarrow>
           (case aes_enc D key nonce plaintext [] of Inl e \<Rightarrow> Inl e
            | Inr ct \<Rightarrow> Inr (b64encode (nonce @ ct)))))"

text \<open>Without a storage key, and for a text that starts with a brace, the text is taken as it is.\<close>

definition decrypt_ratchet_blob :: "db_crypto \<Rightarrow> ratchet_service \<Rightarrow> ustr \<Rightarrow> ustr res" where
  "decrypt_ratchet_blob D s encrypted_blob =
     (case storage_key s of None \<Rightarrow> Inr encrypted_blob
      | Some key \<Rightarrow>
          if encrypted_blob \<noteq> [] \<and> hd encrypted_blob = 123 then Inr encrypted_blob
          else case b64decode encrypted_blob of Inl _ \<Rightarrow> Inl RatchetServiceError
            | Inr blob \<Rightarrow>
                if length blob < 12 + 16 then Inl RatchetServiceError
                else case aes_dec D key (take 12 blob) (drop 12 blob) [] of Inl _ \<Rightarrow> Inl RatchetServiceError
                  | Inr plaintext \<Rightarrow>
                      (case utf8_decode plaintext of Inl _ \<Rightarrow> Inl RatchetServiceError | Inr t \<Rightarrow> Inr t))"

section \<open>Sessions in the database\<close>

definition update_row :: "ustr \<Rightarrow> (friend_row \<Rightarrow> friend_row) \<Rightarrow> db \<Rightarrow> db" where
  "update_row name f d = d\<lparr>friends_tab := map (\<lambda>r. if fr_name r = name then f r else r) (friends_tab d)\<rparr>"

definition get_ratchet_state :: "db_crypto \<Rightarrow> ratchet_service \<Rightarrow> db \<Rightarrow> ustr \<Rightarrow> ratchet_state res" where
  "get_ratchet_state D s d friend_name =
     (case select_key fr_name friend_name (friends_tab d) of None \<Rightarrow> Inl RatchetNotFoundError
      | Some row \<Rightarrow>
        (case fr_ratchet_state_json row of None \<Rightarrow> Inl RatchetNotFoundError
         | Some blob \<Rightarrow>
           (case decrypt_ratchet_blob D s blob of Inl _ \<Rightarrow> Inl RatchetServiceError
            | Inr t \<Rightarrow>
              (case loads t of Inl _ \<Rightarrow> Inl RatchetServiceError
               | Inr v \<Rightarrow>
                 (case ratchet_data_of_json v of Inl _ \<Rightarrow> Inl RatchetServiceError
                  | Inr data \<Rightarrow>
                    (case ratchet_deserialize data of Inl _ \<Rightarrow> Inl RatchetServiceError | Inr st \<Rightarrow> Inr st))))))"

definition save_ratchet_state ::
  "db_crypto \<Rightarrow> bytes \<Rightarrow> ratchet_service \<Rightarrow> ustr \<Rightarrow> ratchet_state \<Rightarrow> db \<Rightarrow> unit res \<times> db" where
  "save_ratchet_state D nonce s friend_name st d =
     (case encrypt_ratchet_blob D nonce s (dumps (ratchet_json (ratchet_serialize st))) of
        Inl _ \<Rightarrow> (Inl RatchetServiceError, d)
      | Inr blob \<Rightarrow> (Inr (), update_row friend_name (\<lambda>r. r\<lparr>fr_ratchet_state_json := Some blob\<rparr>) d))"

text \<open>Every buffered state is saved; those that fail stay in the buffer.\<close>

fun flush_loop ::
  "db_crypto \<Rightarrow> (nat \<Rightarrow> bytes) \<Rightarrow> ratchet_service \<Rightarrow> nat \<Rightarrow> (ustr \<times> ratchet_state) list \<Rightarrow> db \<Rightarrow>
   nat \<times> (ustr \<times> ratchet_state) list \<times> db" where
  "flush_loop D nonce s i [] d = (0, [], d)"
| "flush_loop D nonce s i ((name, st) # rest) d =
     (case save_ratchet_state D (nonce i) s name st d of
        (Inr _, d1) \<Rightarrow> (let (count, remaining, d2) = flush_loop D nonce s (i + 1) rest d1 in (count + 1, remaining, d2))
      | (Inl _, d1) \<Rightarrow>
          (let (count, remaining, d2) = flush_loop D nonce s (i + 1) rest d1 in (count, (name, st) # remaining, d2)))"

definition flush_dirty_states ::
  "db_crypto \<Rightarrow> (nat \<Rightarrow> bytes) \<Rightarrow> ratchet_service \<times> db \<Rightarrow> nat \<times> (ratchet_service \<times> db)" where
  "flush_dirty_states D nonce p =
     (case p of (s, d) \<Rightarrow>
        (let (count, remaining, d1) = flush_loop D nonce s 0 (dirty_states s) d
         in (count, (s\<lparr>dirty_states := remaining\<rparr>, d1))))"

definition delete_ratchet :: "ustr \<Rightarrow> db \<Rightarrow> bool \<times> db" where
  "delete_ratchet friend_name d =
     (list_ex (\<lambda>r. fr_name r = friend_name \<and> fr_ratchet_state_json r \<noteq> None) (friends_tab d),
      update_row friend_name (\<lambda>r. r\<lparr>fr_ratchet_state_json := None\<rparr>) d)"

definition ensure_ratchet_capability :: "ustr \<Rightarrow> db \<Rightarrow> db" where
  "ensure_ratchet_capability friend_name d =
     (let caps = (case select_key fr_name friend_name (friends_tab d) of
                    Some row \<Rightarrow> (case fr_capabilities_json row of Some c \<Rightarrow> c | None \<Rightarrow> []) | None \<Rightarrow> [])
      in if map_of caps (ustr ''double_ratchet'') = Some True then d
         else update_row friend_name
                (\<lambda>r. r\<lparr>fr_capabilities_json := Some (AList.update (ustr ''double_ratchet'') True caps)\<rparr>) d)"

text \<open>The two ways to start a session share everything but the initialisation \<open>init\<close>. The key
  constructors take exactly 32 bytes.\<close>

definition init_ratchet_with ::
  "(bytes \<Rightarrow> bytes \<Rightarrow> bytes option \<Rightarrow> ratchet_state \<Rightarrow> unit res \<times> ratchet_state) \<Rightarrow> db_crypto \<Rightarrow> bytes \<Rightarrow>
   ustr \<Rightarrow> bytes \<Rightarrow> bytes \<Rightarrow> bytes option \<Rightarrow> ratchet_service \<times> db \<Rightarrow> ratchet_state res \<times> db" where
  "init_ratchet_with init D nonce friend_name dh_pub_bytes shared_secret local_dh_priv_bytes p =
     (case p of (s, d) \<Rightarrow>
        if length dh_pub_bytes \<noteq> 32 then (Inl RatchetInitError, d)
        else if (case local_dh_priv_bytes of Some b \<Rightarrow> length b \<noteq> 32 | None \<Rightarrow> False) then (Inl RatchetInitError, d)
        else case init dh_pub_bytes shared_secret local_dh_priv_bytes new_ratchet_state of
               (Inl _, _) \<Rightarrow> (Inl RatchetInitError, d)
             | (Inr _, st) \<Rightarrow>
                 (case save_ratchet_state D nonce s friend_name st d of
                    (Inl e, d1) \<Rightarrow> (Inl e, d1)
                  | (Inr _, d1) \<Rightarrow> (Inr st, ensure_ratchet_capability friend_name d1)))"

definition init_ratchet_alice ::
  "ratchet_crypto \<Rightarrow> bytes \<Rightarrow> db_crypto \<Rightarrow> bytes \<Rightarrow> ustr \<Rightarrow> bytes \<Rightarrow> bytes \<Rightarrow> bytes option \<Rightarrow>
   ratchet_service \<times> db \<Rightarrow> ratchet_state res \<times> db" where
  "init_ratchet_alice C fresh = init_ratchet_with (initialize_as_alice C fresh)"

definition init_ratchet_bob ::
  "ratchet_crypto \<Rightarrow> bytes \<Rightarrow> db_crypto \<Rightarrow> bytes \<Rightarrow> ustr \<Rightarrow> bytes \<Rightarrow> bytes \<Rightarrow> bytes option \<Rightarrow>
   ratchet_service \<times> db \<Rightarrow> ratchet_state res \<times> db" where
  "init_ratchet_bob C fresh = init_ratchet_with (initialize_as_bob C fresh)"

section \<open>Profiles\<close>

record friend_profile =
  fp_name :: ustr
  fp_public_key :: "bytes option"
  fp_shared_secret :: "bytes option"
  fp_capabilities :: capabilities
  fp_has_active_ratchet :: bool
  fp_pqc_combined_pub :: "bytes option"

definition supports_double_ratchet :: "friend_profile \<Rightarrow> bool" where
  "supports_double_ratchet p \<longleftrightarrow> map_of (fp_capabilities p) (ustr ''double_ratchet'') = Some True"

definition supports_pqc :: "friend_profile \<Rightarrow> bool" where
  "supports_pqc p \<longleftrightarrow> map_of (fp_capabilities p) (ustr ''pqc'') = Some True"

text \<open>\<^verbatim>\<open>x.encode() if x else None\<close>\<close>

definition encode_opt :: "ustr option \<Rightarrow> bytes option res" where
  "encode_opt t = (if given t then (case utf8_encode (the t) of Inl e \<Rightarrow> Inl e | Inr b \<Rightarrow> Inr (Some b)) else Inr None)"

definition row_to_profile :: "friend_row \<Rightarrow> friend_profile res" where
  "row_to_profile row =
     (case encode_opt (Some (fr_public_key_pem row)) of Inl e \<Rightarrow> Inl e | Inr pk \<Rightarrow>
     (case encode_opt (fr_pqc_combined_pub_b64 row) of Inl e \<Rightarrow> Inl e | Inr pqc \<Rightarrow>
        Inr \<lparr>fp_name = fr_name row, fp_public_key = pk, fp_shared_secret = None,
             fp_capabilities = (case fr_capabilities_json row of Some c \<Rightarrow> c | None \<Rightarrow> []),
             fp_has_active_ratchet = (fr_ratchet_state_json row \<noteq> None), fp_pqc_combined_pub = pqc\<rparr>))"

definition get_friend_profile :: "db \<Rightarrow> ustr \<Rightarrow> friend_profile option res" where
  "get_friend_profile d friend_name =
     (case select_key fr_name friend_name (friends_tab d) of None \<Rightarrow> Inr None
      | Some row \<Rightarrow> (case row_to_profile row of Inl e \<Rightarrow> Inl e | Inr p \<Rightarrow> Inr (Some p)))"

definition list_all_friend_profiles :: "db \<Rightarrow> friend_profile list res" where
  "list_all_friend_profiles d = map_res row_to_profile (friends_tab d)"

definition has_active_ratchet :: "db \<Rightarrow> ustr \<Rightarrow> bool res" where
  "has_active_ratchet d friend_name =
     (case get_friend_profile d friend_name of Inl e \<Rightarrow> Inl e
      | Inr None \<Rightarrow> Inr False
      | Inr (Some p) \<Rightarrow> Inr (fp_has_active_ratchet p))"

section \<open>Locks\<close>

definition LOCK_MAX_AGE :: rat where "LOCK_MAX_AGE = 7200"

definition get_friend_lock :: "rat \<Rightarrow> ustr \<Rightarrow> ratchet_service \<Rightarrow> rlock \<times> ratchet_service" where
  "get_friend_lock now friend_name s =
     (case map_of (friend_locks s) friend_name of Some l \<Rightarrow> (l, s)
      | None \<Rightarrow>
          (let l = \<lparr>rl_owner = None, rl_depth = 0, rl_created = now\<rparr>
           in (l, s\<lparr>friend_locks := AList.update friend_name l (friend_locks s)\<rparr>)))"

text \<open>\<^verbatim>\<open>acquire\<close> of a reentrant lock: it succeeds when the lock is free or the thread has it.\<close>

definition try_acquire :: "nat \<Rightarrow> rlock \<Rightarrow> rlock option" where
  "try_acquire t l =
     (if rl_owner l = None \<or> rl_owner l = Some t then Some (l\<lparr>rl_owner := Some t, rl_depth := rl_depth l + 1\<rparr>) else None)"

definition release_lock :: "rlock \<Rightarrow> rlock" where
  "release_lock l = l\<lparr>rl_owner := (if rl_depth l \<le> 1 then None else rl_owner l), rl_depth := rl_depth l - 1\<rparr>"

definition acquire_friend_lock :: "rat \<Rightarrow> nat \<Rightarrow> ustr \<Rightarrow> ratchet_service \<Rightarrow> unit res \<times> ratchet_service" where
  "acquire_friend_lock now t friend_name s =
     (let (l, s1) = get_friend_lock now friend_name s in
      case try_acquire t l of None \<Rightarrow> (Inl ConcurrencyError, s1)
      | Some l1 \<Rightarrow> (Inr (), s1\<lparr>friend_locks := AList.update friend_name l1 (friend_locks s1)\<rparr>))"

definition release_friend_lock :: "ustr \<Rightarrow> ratchet_service \<Rightarrow> ratchet_service" where
  "release_friend_lock friend_name s =
     (case map_of (friend_locks s) friend_name of None \<Rightarrow> s
      | Some l \<Rightarrow> s\<lparr>friend_locks := AList.update friend_name (release_lock l) (friend_locks s)\<rparr>)"

text \<open>\<^verbatim>\<open>sorted(set(names), key=lambda n: (n.lower(), n))\<close>; \<^verbatim>\<open>str.lower\<close>, which needs the tables of
  Unicode, is the argument \<open>lower\<close>.\<close>

definition canonical :: "(ustr \<Rightarrow> ustr) \<Rightarrow> ustr list \<Rightarrow> ustr list" where
  "canonical lower names = sort_key (\<lambda>n. (lower n, n)) (remdups names)"

fun acquire_loop :: "rat \<Rightarrow> nat \<Rightarrow> ustr list \<Rightarrow> ustr list \<Rightarrow> ratchet_service \<Rightarrow> ustr list res \<times> ratchet_service" where
  "acquire_loop now t [] acquired s = (Inr acquired, s)"
| "acquire_loop now t (name # rest) acquired s =
     (case acquire_friend_lock now t name s of
        (Inr _, s1) \<Rightarrow> acquire_loop now t rest (acquired @ [name]) s1
      | (Inl e, s1) \<Rightarrow> (Inl e, fold release_friend_lock (rev acquired) s1))"

definition acquire_friend_locks_ordered ::
  "(ustr \<Rightarrow> ustr) \<Rightarrow> rat \<Rightarrow> nat \<Rightarrow> ustr list \<Rightarrow> ratchet_service \<Rightarrow> ustr list res \<times> ratchet_service" where
  "acquire_friend_locks_ordered lower now t friend_names s = acquire_loop now t (canonical lower friend_names) [] s"

text \<open>The names whose locks are stale, and the removal of those the calling thread can acquire.\<close>

definition stale_locks :: "rat \<Rightarrow> ustr list option \<Rightarrow> ratchet_service \<Rightarrow> ustr list" where
  "stale_locks now active_friends s =
     (case active_friends of
        Some active \<Rightarrow> filter (\<lambda>n. n \<notin> set active) (map fst (friend_locks s))
      | None \<Rightarrow> map fst (filter (\<lambda>(_, l). now - rl_created l > LOCK_MAX_AGE) (friend_locks s)))"

definition cleanup_one :: "nat \<Rightarrow> ustr \<Rightarrow> nat \<times> ratchet_service \<Rightarrow> nat \<times> ratchet_service" where
  "cleanup_one t name p =
     (case p of (removed, s) \<Rightarrow>
        (case map_of (friend_locks s) name of None \<Rightarrow> (removed, s)
         | Some l \<Rightarrow>
             if try_acquire t l \<noteq> None then (removed + 1, s\<lparr>friend_locks := AList.delete name (friend_locks s)\<rparr>)
             else (removed, s)))"

definition cleanup_friend_locks :: "rat \<Rightarrow> nat \<Rightarrow> ustr list option \<Rightarrow> ratchet_service \<Rightarrow> nat \<times> ratchet_service" where
  "cleanup_friend_locks now t active_friends s = fold (cleanup_one t) (stale_locks now active_friends s) (0, s)"

definition get_lock_stats :: "ratchet_service \<Rightarrow> nat \<times> nat" where
  "get_lock_stats s = (length (friend_locks s), length (friend_locks s))"

definition detect_potential_deadlock :: "(ustr \<Rightarrow> ustr) \<Rightarrow> ustr list \<Rightarrow> ustr list \<Rightarrow> bool" where
  "detect_potential_deadlock lower friend_names_a friend_names_b =
     (let overlap = filter (\<lambda>n. n \<in> set friend_names_b) (remdups friend_names_a) in
      if overlap = [] \<or> length overlap < 2 then False
      else canonical lower overlap \<noteq> canonical lower overlap)"

section \<open>Messages\<close>

text \<open>What both operations do under the lock of the friend.\<close>

definition with_friend_lock ::
  "rat \<Rightarrow> nat \<Rightarrow> ustr \<Rightarrow> (ratchet_service \<Rightarrow> 'a res \<times> ratchet_service) \<Rightarrow> ratchet_service \<Rightarrow> 'a res \<times> ratchet_service" where
  "with_friend_lock now t friend_name body s =
     (case acquire_friend_lock now t friend_name s of
        (Inl e, s1) \<Rightarrow> (Inl e, s1)
      | (Inr _, s1) \<Rightarrow> (let (r, s2) = body s1 in (r, release_friend_lock friend_name s2)))"

definition service_encrypt_message ::
  "ratchet_crypto \<Rightarrow> db_crypto \<Rightarrow> rat \<Rightarrow> nat \<Rightarrow> bytes \<Rightarrow> bytes \<Rightarrow> ustr \<Rightarrow> bytes \<Rightarrow> db \<Rightarrow> ratchet_service \<Rightarrow>
   (bytes \<times> bytes) res \<times> ratchet_service" where
  "service_encrypt_message C D now t fresh nonce friend_name plaintext d =
     with_friend_lock now t friend_name (\<lambda>s.
       case get_ratchet_state D s d friend_name of Inl e \<Rightarrow> (Inl e, s)
       | Inr st \<Rightarrow>
         (case ratchet_encrypt C fresh nonce plaintext st of
            (Inl e, _) \<Rightarrow> (Inl (if is_value_error e then RatchetServiceError else e), s)
          | (Inr hc, st1) \<Rightarrow> (Inr hc, mark_dirty friend_name st1 s)))"

definition service_decrypt_message ::
  "ratchet_crypto \<Rightarrow> db_crypto \<Rightarrow> rat \<Rightarrow> nat \<Rightarrow> bytes \<Rightarrow> ustr \<Rightarrow> bytes \<Rightarrow> bytes \<Rightarrow> db \<Rightarrow> ratchet_service \<Rightarrow>
   bytes res \<times> ratchet_service" where
  "service_decrypt_message C D now t fresh friend_name header ciphertext d =
     with_friend_lock now t friend_name (\<lambda>s.
       case get_ratchet_state D s d friend_name of Inl e \<Rightarrow> (Inl e, s)
       | Inr st \<Rightarrow>
         (case ratchet_decrypt C fresh header ciphertext st of
            (Inl _, _) \<Rightarrow> (Inl RatchetServiceError, s)
          | (Inr p, st1) \<Rightarrow> (Inr p, mark_dirty friend_name st1 s)))"

definition encrypt_to_envelope ::
  "ratchet_crypto \<Rightarrow> db_crypto \<Rightarrow> rat \<Rightarrow> nat \<Rightarrow> bytes \<Rightarrow> bytes \<Rightarrow> ustr \<Rightarrow> bytes \<Rightarrow> db \<Rightarrow> ratchet_service \<Rightarrow>
   ratchet_envelope res \<times> ratchet_service" where
  "encrypt_to_envelope C D now t fresh nonce friend_name plaintext d s =
     (case service_encrypt_message C D now t fresh nonce friend_name plaintext d s of
        (Inl e, s1) \<Rightarrow> (Inl e, s1)
      | (Inr (header, ciphertext), s1) \<Rightarrow>
          (Inr \<lparr>env_sender = friend_name, env_header = header, env_ciphertext = ciphertext\<rparr>, s1))"

end
