(* ===== verification/Ratchet_Sessions.thy ===== *)
theory Ratchet_Sessions
  imports Ratchet_Service
begin

text \<open>
  What the sessions of the ratchet service keep and lose: a saved state is read back, a message
  followed by a flush is a message of the ratchet, two messages without a flush between them share
  their key, and a buffered state brings a deleted session back. The order of the locks excludes
  deadlocks.
\<close>

section \<open>The stored form is read back\<close>

lemma b64encode_start: "bs \<noteq> [] \<Longrightarrow> b64encode bs \<noteq> [] \<and> hd (b64encode bs) \<noteq> 123"
proof -
  assume "bs \<noteq> []"
  moreover have "b64_char n \<noteq> 123" for n by (simp add: b64_char_def) arith
  moreover have "hd (b64_groups ns) = b64_char (hd ns div 4) \<and> b64_groups ns \<noteq> []" if "ns \<noteq> []" for ns
    using that by (cases ns rule: b64_groups.cases) auto
  ultimately show ?thesis by (simp add: b64encode_def)
qed

lemma plain_hex: "plain_text (hex b)"
proof -
  have digit: "32 \<le> hex_digit n \<and> hex_digit n \<le> 126 \<and> hex_digit n \<noteq> 34 \<and> hex_digit n \<noteq> 92" if "n < 16" for n
    using that by (auto simp: hex_digit_def)
  have "unat y div 16 < 16" for y :: byte using unat_byte_less [of y] by (simp add: less_mult_imp_div_less)
  then show ?thesis using digit by (simp add: plain_text_def list_all_iff hex_def)
qed

lemma plain_dec: "plain_text (dec n)"
  by (auto simp: plain_text_def list_all_iff is_digit_def dest: dec_digits)

lemma plain_text_append [simp]: "plain_text (a @ b) \<longleftrightarrow> plain_text a \<and> plain_text b"
  by (simp add: plain_text_def)

lemma plain_text_Cons [simp]: "plain_text (c # s) \<longleftrightarrow> (32 \<le> c \<and> c \<le> 126 \<and> c \<noteq> 34 \<and> c \<noteq> 92) \<and> plain_text s"
  by (simp add: plain_text_def)

lemma plain_text_Nil [simp]: "plain_text []"
  by (simp add: plain_text_def)

lemma plain_json_opt: "(\<And>s. t = Some s \<Longrightarrow> plain_text s) \<Longrightarrow> plain (json_opt t)"
  by (cases t) (simp_all add: json_opt_def)

lemma skip_text_inj: "inj_on (\<lambda>(k, v). hex (fst k) @ [58] @ dec (snd k)) A \<longleftrightarrow> inj_on fst (A :: (skip_key \<times> bytes) set)"
proof -
  have "hex (fst k) @ [58] @ dec (snd k) = hex (fst k') @ [58] @ dec (snd k') \<longleftrightarrow> k = k'" for k k' :: skip_key
  proof
    assume "hex (fst k) @ [58] @ dec (snd k) = hex (fst k') @ [58] @ dec (snd k')"
    then have "read_skip_key (hex (fst k) @ [58] @ dec (snd k)) = read_skip_key (hex (fst k') @ [58] @ dec (snd k'))" by simp
    then show "k = k'" unfolding read_skip_key_write by (simp add: prod_eq_iff)
  qed simp
  then show ?thesis by (simp add: inj_on_def split_beta)
qed

lemma distinct_skip_text:
  "distinct (map fst kvs) \<Longrightarrow> distinct (map (\<lambda>(k, v). hex (fst k) @ [58] @ dec (snd k)) (kvs :: (skip_key \<times> bytes) list))"
  by (simp only: distinct_map skip_text_inj)

lemma plain_ratchet_json:
  assumes "distinct (map fst (skipped_keys st))"
  shows "plain (ratchet_json (ratchet_serialize st))"
proof -
  have "plain (JObj (map (\<lambda>(k, v). (k, JStr v)) (rd_skipped_keys (ratchet_serialize st))))"
    using distinct_skip_text [OF assms] unfolding split_beta
    by (auto simp: ratchet_serialize_def list_all_iff comp_def plain_hex plain_dec split_beta)
  moreover have "plain (json_opt (hex_if_set k))" "plain (json_opt (map_option hex k))" for k
    by (auto intro!: plain_json_opt simp: hex_if_set_def plain_hex split: option.splits if_splits)
  ultimately show ?thesis
    by (simp add: ratchet_json_def ratchet_serialize_def) (simp add: ustr_def)
qed

lemma read_text_opt: "map_of es (ustr key) = Some (json_opt t) \<Longrightarrow> Some [] \<noteq> t \<Longrightarrow> read_text es key = Inr t"
  by (cases t) (auto simp: read_text_def json_opt_def json_falsy_def)

lemma read_texts_obj:
  "map_of es (ustr key) = Some (JObj (map (\<lambda>(k, v). (k, JStr v)) kvs)) \<Longrightarrow> read_texts es key = Inr kvs"
proof -
  assume *: "map_of es (ustr key) = Some (JObj (map (\<lambda>(k, v). (k, JStr v)) kvs))"
  have "map_res (\<lambda>(k, w). case w of JStr s \<Rightarrow> Inr (k, s) | _ \<Rightarrow> Inl TypeError) (map (\<lambda>(k, v). (k, JStr v)) kvs) = Inr kvs"
    by (induction kvs) auto
  with * show ?thesis by (cases kvs) (auto simp: read_texts_def json_falsy_def)
qed

lemma ratchet_data_json:
  assumes "Some [] \<notin> {rd_root_key d, rd_send_chain_key d, rd_recv_chain_key d, rd_dh_priv_bytes d, rd_dh_pub_remote_bytes d}"
  shows "ratchet_data_of_json (ratchet_json d) = Inr d"
proof -
  obtain es where es: "ratchet_json d = JObj es" by (simp add: ratchet_json_def)
  have texts: "read_text es ''root_key'' = Inr (rd_root_key d)" "read_text es ''send_chain_key'' = Inr (rd_send_chain_key d)"
    "read_text es ''recv_chain_key'' = Inr (rd_recv_chain_key d)" "read_text es ''dh_priv_bytes'' = Inr (rd_dh_priv_bytes d)"
    "read_text es ''dh_pub_remote_bytes'' = Inr (rd_dh_pub_remote_bytes d)"
    using es assms by (auto simp: ratchet_json_def intro!: read_text_opt)
  have counts: "read_count es ''send_msg_num'' = Inr (rd_send_msg_num d)" "read_count es ''recv_msg_num'' = Inr (rd_recv_msg_num d)"
    "read_count es ''prev_send_chain_len'' = Inr (rd_prev_send_chain_len d)"
    using es by (auto simp: ratchet_json_def read_count_def)
  have skipped: "read_texts es ''skipped_keys'' = Inr (rd_skipped_keys d)"
    using es by (auto simp: ratchet_json_def intro!: read_texts_obj)
  show ?thesis by (simp add: ratchet_data_of_json_def es texts counts skipped)
qed

lemma ratchet_text_roundtrip:
  assumes "state_ok st"
  shows "\<exists>v data. loads (dumps (ratchet_json (ratchet_serialize st))) = Inr v \<and>
    ratchet_data_of_json v = Inr data \<and> ratchet_deserialize data = Inr (st\<lparr>skipped_key_order := []\<rparr>)"
proof (intro exI conjI)
  show "loads (dumps (ratchet_json (ratchet_serialize st))) = Inr (ratchet_json (ratchet_serialize st))"
    using assms by (intro loads_dumps plain_ratchet_json) (simp add: state_ok_def)
  show "ratchet_data_of_json (ratchet_json (ratchet_serialize st)) = Inr (ratchet_serialize st)"
  proof -
    have h: "hex_if_set k \<noteq> Some []" for k by (simp add: hex_if_set_def split: option.split)
    have x: "map_option hex k \<noteq> Some []" if "case k of Some b \<Rightarrow> length b = 32 | None \<Rightarrow> True" for k
      using that by (cases k) auto
    have "map_option hex (dh_priv st) \<noteq> Some []" "map_option hex (dh_pub_remote st) \<noteq> Some []"
      using assms by (auto intro!: x simp: state_ok_def simp del: map_option_eq_Some)
    then show ?thesis
      by (intro ratchet_data_json) (simp add: ratchet_serialize_def h eq_commute [of "Some []"] del: map_option_eq_Some)
  qed
qed (rule deserialize_serialize [OF assms])

section \<open>Sessions\<close>

lemma select_update_row:
  assumes "\<And>r. fr_name (f r) = fr_name r"
  shows "select_key fr_name n (friends_tab (update_row name f d)) =
    (case select_key fr_name n (friends_tab d) of None \<Rightarrow> None | Some r \<Rightarrow> Some (if n = name then f r else r))"
proof -
  have "find (\<lambda>x. fr_name x = n) (map (\<lambda>r. if fr_name r = name then f r else r) rows) =
      (case find (\<lambda>x. fr_name x = n) rows of None \<Rightarrow> None | Some r \<Rightarrow> Some (if n = name then f r else r))" for rows
    using assms by (induction rows) auto
  then show ?thesis by (simp add: select_key_def update_row_def)
qed

text \<open>The parts of the service a message changes: the buffer, and the locks on the way.\<close>

lemma acquire_storage: "acquire_friend_lock now t n s = (r, s1) \<Longrightarrow> storage_key s1 = storage_key s \<and> dirty_states s1 = dirty_states s"
  by (auto simp: acquire_friend_lock_def get_friend_lock_def Let_def split: option.splits prod.splits)

lemma release_storage: "storage_key (release_friend_lock n s) = storage_key s" "dirty_states (release_friend_lock n s) = dirty_states s"
  by (auto simp: release_friend_lock_def split: option.splits)

lemma get_ratchet_state_storage: "storage_key s = storage_key s' \<Longrightarrow> get_ratchet_state D s d n = get_ratchet_state D s' d n"
proof -
  assume "storage_key s = storage_key s'"
  then have e: "decrypt_ratchet_blob D s = decrypt_ratchet_blob D s'" by (simp add: decrypt_ratchet_blob_def fun_eq_iff)
  show ?thesis unfolding get_ratchet_state_def e ..
qed

lemma service_encrypt_ok:
  assumes "service_encrypt_message C D now t fresh nonce name plaintext d s = (Inr hc, s1)"
  shows "\<exists>st st1. get_ratchet_state D s d name = Inr st \<and> ratchet_encrypt C fresh nonce plaintext st = (Inr hc, st1) \<and>
    storage_key s1 = storage_key s \<and> dirty_states s1 = AList.update name st1 (dirty_states s)"
proof -
  obtain s0 where a: "acquire_friend_lock now t name s = (Inr (), s0)"
    using assms by (auto simp: service_encrypt_message_def with_friend_lock_def split: prod.splits sum.splits)
  note a' = acquire_storage [OF a]
  obtain st where st: "get_ratchet_state D s0 d name = Inr st"
    using assms a by (auto simp: service_encrypt_message_def with_friend_lock_def Let_def split: sum.splits)
  obtain st1 where e: "ratchet_encrypt C fresh nonce plaintext st = (Inr hc, st1)"
    using assms a st by (auto simp: service_encrypt_message_def with_friend_lock_def Let_def split: sum.splits prod.splits)
  have "s1 = release_friend_lock name (mark_dirty name st1 s0)"
    using assms a st e by (simp add: service_encrypt_message_def with_friend_lock_def Let_def)
  then show ?thesis
    using a' e st get_ratchet_state_storage [of s0 s D d name] by (simp add: release_storage mark_dirty_def)
qed

text \<open>Sending from an open chain: the header and the message key come from the state alone.\<close>

lemma ratchet_encrypt_open:
  assumes "ratchet_encrypt C fresh nonce plaintext st = (Inr (h, c), st1)" "send_chain_key st = Some ck"
  shows "build_header C st = Inr h \<and> (\<exists>ct. xchacha_seal (chacha_enc C) (snd (hkdf_ck C ck)) nonce plaintext h = Inr ct \<and> c = nonce @ ct) \<and>
    st1 = st\<lparr>send_chain_key := Some (fst (hkdf_ck C ck)), send_msg_num := send_msg_num st + 1\<rparr>"
proof -
  obtain new_ck mk where k: "hkdf_ck C ck = (new_ck, mk)" by (cases "hkdf_ck C ck")
  have "build_header C (st\<lparr>send_chain_key := Some new_ck\<rparr>) = build_header C st"
    by (simp add: build_header_def split: option.split sum.split)
  with assms k show ?thesis
    by (auto simp: ratchet_encrypt_def open_send_chain_def Let_def split: sum.splits)
qed

text \<open>A flush with one buffered state is one save.\<close>

lemma flush_one:
  assumes "flush_dirty_states D nonces (s, d) = (1, (s2, d2))" "dirty_states s = [(name, st)]"
  shows "save_ratchet_state D (nonces 0) s name st d = (Inr (), d2) \<and> storage_key s2 = storage_key s \<and> dirty_states s2 = []"
  using assms by (auto simp: flush_dirty_states_def Let_def split: prod.splits sum.splits)

subsection \<open>A store of sessions\<close>

text \<open>
  What a client of the store relies on: a key of 32 bytes, an authenticated cipher, and a nonce of
  12 bytes for every save.
\<close>

locale session_store =
  fixes D :: db_crypto and key :: bytes
  assumes cipher: "aead 12 (aes_enc D) (aes_dec D)"
begin

lemma blob_roundtrip:
  assumes "encrypt_ratchet_blob D nonce s text = Inr blob" "storage_key s = Some key" "length nonce = 12"
  shows "decrypt_ratchet_blob D s blob = Inr text"
proof -
  obtain p ct where p: "utf8_encode text = Inr p" and ct: "aes_enc D key nonce p [] = Inr ct" and blob: "blob = b64encode (nonce @ ct)"
    using assms(1,2) by (auto simp: encrypt_ratchet_blob_def split: sum.splits)
  have "length ct = length p + 16" using aead.enc_length [OF cipher ct] .
  moreover have "hd (b64encode (nonce @ ct)) \<noteq> 123" using b64encode_start [of "nonce @ ct"] assms(3) by (cases nonce) auto
  ultimately show ?thesis
    using assms(2,3) aead.dec_enc [OF cipher ct] utf8_roundtrip [OF p]
    by (simp add: decrypt_ratchet_blob_def blob b64_roundtrip)
qed

lemma save_get:
  assumes "save_ratchet_state D nonce s name st d = (Inr (), d1)" "storage_key s = Some key" "length nonce = 12"
    and "state_ok st" "select_key fr_name name (friends_tab d) = Some row"
  shows "get_ratchet_state D s d1 name = Inr (st\<lparr>skipped_key_order := []\<rparr>)"
proof -
  obtain blob where b: "encrypt_ratchet_blob D nonce s (dumps (ratchet_json (ratchet_serialize st))) = Inr blob"
    and d1: "d1 = update_row name (\<lambda>r. r\<lparr>fr_ratchet_state_json := Some blob\<rparr>) d"
    using assms(1) by (auto simp: save_ratchet_state_def split: sum.splits)
  obtain v data where "loads (dumps (ratchet_json (ratchet_serialize st))) = Inr v" "ratchet_data_of_json v = Inr data"
      "ratchet_deserialize data = Inr (st\<lparr>skipped_key_order := []\<rparr>)"
    using ratchet_text_roundtrip [OF assms(4)] by blast
  then show ?thesis
    using blob_roundtrip [OF b assms(2,3)] assms(5)
    by (simp add: get_ratchet_state_def d1 select_update_row)
qed

lemma save_other:
  assumes "save_ratchet_state D nonce s name st d = (r, d1)" "n \<noteq> name"
  shows "select_key fr_name n (friends_tab d1) = select_key fr_name n (friends_tab d)"
  using assms by (auto simp: save_ratchet_state_def select_update_row split: sum.splits option.splits)

text \<open>A message followed by a flush is a message of the ratchet on the stored state.\<close>

lemma send_and_flush:
  assumes enc: "service_encrypt_message C D now t fresh nonce name plaintext d s = (Inr hc, s1)"
    and flush: "flush_dirty_states D nonces (s1, d) = (1, (s2, d2))" and clean: "dirty_states s = []"
    and key: "storage_key s = Some key" and nonce: "length (nonces 0) = 12"
  shows "\<exists>st st1. get_ratchet_state D s d name = Inr st \<and> ratchet_encrypt C fresh nonce plaintext st = (Inr hc, st1) \<and>
    (state_ok st1 \<longrightarrow> get_ratchet_state D s2 d2 name = Inr (st1\<lparr>skipped_key_order := []\<rparr>)) \<and>
    storage_key s2 = Some key \<and> dirty_states s2 = []"
proof -
  obtain st st1 where st: "get_ratchet_state D s d name = Inr st" "ratchet_encrypt C fresh nonce plaintext st = (Inr hc, st1)"
    and s1: "storage_key s1 = storage_key s" "dirty_states s1 = [(name, st1)]"
    using service_encrypt_ok [OF enc] clean by auto
  note f = flush_one [OF flush s1(2)]
  obtain row where row: "select_key fr_name name (friends_tab d) = Some row"
    using st(1) by (auto simp: get_ratchet_state_def split: option.splits)
  have "get_ratchet_state D s2 d2 name = get_ratchet_state D s1 d2 name"
    by (rule get_ratchet_state_storage) (use f in simp)
  moreover have "get_ratchet_state D s1 d2 name = Inr (st1\<lparr>skipped_key_order := []\<rparr>)" if "state_ok st1"
    by (rule save_get [OF _ _ nonce that row]) (use f s1 key in auto)
  ultimately show ?thesis using st f s1 key by auto
qed

end

section \<open>The service refines the ratchet\<close>

lemma encrypt_state_ok:
  assumes "ratchet_laws C" "state_ok st" "length fresh = 32" "ratchet_encrypt C fresh nonce plaintext st = (Inr packet, st1)"
  shows "state_ok st1"
proof -
  obtain st0 where o: "open_send_chain C fresh st = (Inr (), st0)"
    using assms(4) by (cases "open_send_chain C fresh st"; cases "fst (open_send_chain C fresh st)") (auto simp: ratchet_encrypt_def)
  have st0: "state_ok st0"
    using o assms(2,3) ratchet_laws.hkdf_length [OF assms(1)]
    by (auto simp: open_send_chain_def hkdf_rk_def Let_def state_ok_def simp del: length_0_conv split: option.split_asm sum.split_asm)
  obtain ck where ck: "send_chain_key st0 = Some ck"
    using assms(4) o by (cases "send_chain_key st0") (simp_all add: ratchet_encrypt_def)
  have "st1 = st0\<lparr>send_chain_key := Some (hmac_sha256 C ck [2]), send_msg_num := send_msg_num st0 + 1\<rparr>"
    using assms(4) o ck by (auto simp: ratchet_encrypt_def hkdf_ck_def Let_def split: sum.split_asm)
  with st0 show ?thesis using ratchet_laws.hmac_length [OF assms(1)] by (simp add: state_ok_def)
qed

text \<open>Sending does not read the eviction queue.\<close>

lemma open_send_chain_order:
  "open_send_chain C fresh (st\<lparr>skipped_key_order := q\<rparr>) =
    (let (r, st1) = open_send_chain C fresh st in (r, st1\<lparr>skipped_key_order := q\<rparr>))"
  by (simp add: open_send_chain_def Let_def split: option.split sum.split prod.split)

lemma ratchet_encrypt_order:
  "ratchet_encrypt C fresh nonce plaintext (st\<lparr>skipped_key_order := q\<rparr>) =
    (let (r, st1) = ratchet_encrypt C fresh nonce plaintext st in (r, st1\<lparr>skipped_key_order := q\<rparr>))"
proof -
  obtain r0 st0 where o: "open_send_chain C fresh st = (r0, st0)" by (cases "open_send_chain C fresh st")
  have b: "build_header C (st\<lparr>skipped_key_order := q, send_chain_key := k\<rparr>) = build_header C (st\<lparr>send_chain_key := k\<rparr>)" for st k
    by (simp add: build_header_def split: option.split sum.split)
  show ?thesis
    by (cases r0) (simp_all add: ratchet_encrypt_def open_send_chain_order o Let_def b split: option.split sum.split prod.split)
qed

text \<open>Messages through the service, each followed by the flush of the timer.\<close>

fun service_send_all ::
  "ratchet_crypto \<Rightarrow> db_crypto \<Rightarrow> rat \<Rightarrow> nat \<Rightarrow> bytes \<Rightarrow> (nat \<Rightarrow> bytes) \<Rightarrow> ustr \<Rightarrow> (bytes \<times> bytes) list \<Rightarrow> ratchet_service \<times> db \<Rightarrow>
   (bytes \<times> bytes) list option \<times> (ratchet_service \<times> db)" where
  "service_send_all C D now t fresh nonces name [] p = (Some [], p)"
| "service_send_all C D now t fresh nonces name ((nonce, plaintext) # ms) p =
     (case service_encrypt_message C D now t fresh nonce name plaintext (snd p) (fst p) of
        (Inl e, s1) \<Rightarrow> (None, (s1, snd p))
      | (Inr packet, s1) \<Rightarrow>
          (case flush_dirty_states D nonces (s1, snd p) of (count, p2) \<Rightarrow>
             if count \<noteq> 1 then (None, p2)
             else case service_send_all C D now t fresh nonces name ms p2 of
                    (None, p3) \<Rightarrow> (None, p3) | (Some packets, p3) \<Rightarrow> (Some (packet # packets), p3)))"

context session_store
begin

lemma service_refines:
  assumes "ratchet_laws C" "length fresh = 32" "length (nonces 0) = 12"
  shows "storage_key s = Some key \<Longrightarrow> dirty_states s = [] \<Longrightarrow>
    state_ok st \<Longrightarrow> get_ratchet_state D s d name = Inr (st\<lparr>skipped_key_order := []\<rparr>) \<Longrightarrow>
    service_send_all C D now t fresh nonces name ms (s, d) = (Some packets, (s', d')) \<Longrightarrow>
    \<exists>st'. encrypt_all C fresh ms st = (Inr packets, st') \<and> get_ratchet_state D s' d' name = Inr (st'\<lparr>skipped_key_order := []\<rparr>)"
proof (induction ms arbitrary: s d st packets)
  case (Cons m ms)
  obtain nonce plaintext where m: "m = (nonce, plaintext)" by (cases m)
  obtain packet s1 where enc: "service_encrypt_message C D now t fresh nonce name plaintext d s = (Inr packet, s1)"
    using Cons.prems(5) m by (auto split: prod.splits sum.splits)
  obtain s2 d2 where flush: "flush_dirty_states D nonces (s1, d) = (1, (s2, d2))"
    using Cons.prems(5) m enc by (auto split: prod.splits if_splits)
  obtain rest where rest: "service_send_all C D now t fresh nonces name ms (s2, d2) = (Some rest, (s', d'))"
    and packets: "packets = packet # rest"
    using Cons.prems(5) m enc flush by (auto split: prod.splits option.splits)
  obtain st1' where e: "ratchet_encrypt C fresh nonce plaintext (st\<lparr>skipped_key_order := []\<rparr>) = (Inr packet, st1')"
    and get: "state_ok st1' \<longrightarrow> get_ratchet_state D s2 d2 name = Inr (st1'\<lparr>skipped_key_order := []\<rparr>)"
    and s2: "storage_key s2 = Some key" "dirty_states s2 = []"
    using send_and_flush [OF enc flush Cons.prems(2,1) assms(3)] Cons.prems(4) by auto
  obtain st1 where st1: "ratchet_encrypt C fresh nonce plaintext st = (Inr packet, st1)" "st1' = st1\<lparr>skipped_key_order := []\<rparr>"
    using e by (auto simp: ratchet_encrypt_order Let_def split: prod.splits)
  have ok: "state_ok st1" by (rule encrypt_state_ok [OF assms(1) Cons.prems(3) assms(2) st1(1)])
  then have "get_ratchet_state D s2 d2 name = Inr (st1\<lparr>skipped_key_order := []\<rparr>)" using get st1(2) by (simp add: state_ok_def)
  from Cons.IH [OF s2 ok this rest] show ?case using m st1(1) packets by auto
qed auto

end

section \<open>Progress\<close>

definition lock_free :: "ratchet_service \<Rightarrow> ustr \<Rightarrow> bool" where
  "lock_free s name \<longleftrightarrow> (case map_of (friend_locks s) name of None \<Rightarrow> True | Some l \<Rightarrow> rl_owner l = None \<and> rl_depth l = 0)"

lemma acquire_free:
  assumes "lock_free s name"
  shows "\<exists>l s1. acquire_friend_lock now t name s = (Inr (), s1) \<and> map_of (friend_locks s1) name = Some l \<and> rl_depth l = 1"
  using assms
  by (cases "map_of (friend_locks s) name")
    (auto simp: lock_free_def acquire_friend_lock_def get_friend_lock_def try_acquire_def Let_def update_conv')

lemma release_free:
  "map_of (friend_locks s) name = Some l \<Longrightarrow> rl_depth l = 1 \<Longrightarrow> lock_free (release_friend_lock name s) name"
  by (simp add: lock_free_def release_friend_lock_def release_lock_def update_conv')

lemma service_encrypt_runs:
  assumes "lock_free s name" "get_ratchet_state D s d name = Inr st" "ratchet_encrypt C fresh nonce plaintext st = (Inr hc, st1)"
  shows "\<exists>s1. service_encrypt_message C D now t fresh nonce name plaintext d s = (Inr hc, s1) \<and> lock_free s1 name \<and>
    storage_key s1 = storage_key s \<and> dirty_states s1 = AList.update name st1 (dirty_states s)"
proof -
  obtain l s0 where a: "acquire_friend_lock now t name s = (Inr (), s0)" and l: "map_of (friend_locks s0) name = Some l" "rl_depth l = 1"
    using acquire_free [OF assms(1)] by blast
  have "get_ratchet_state D s0 d name = Inr st"
    using assms(2) get_ratchet_state_storage [of s0 s D d name] acquire_storage [OF a] by simp
  then have "service_encrypt_message C D now t fresh nonce name plaintext d s = (Inr hc, release_friend_lock name (mark_dirty name st1 s0))"
    using a assms(3) by (simp add: service_encrypt_message_def with_friend_lock_def)
  then show ?thesis using release_free [of "mark_dirty name st1 s0" name l] l acquire_storage [OF a] by (simp add: release_storage mark_dirty_def)
qed

subsection \<open>An example session\<close>

definition demo_service :: ratchet_service where
  "demo_service = new_ratchet_service\<lparr>storage_key := Some (replicate 32 3)\<rparr>"

definition demo_session_db :: "ratchet_state \<Rightarrow> db" where
  "demo_session_db st = empty_db\<lparr>friends_tab :=
     [legacy_friend\<lparr>fr_ratchet_state_json := Some (dumps (ratchet_json (ratchet_serialize st)))\<rparr>]\<rparr>"

lemma demo_get:
  assumes "state_ok st"
  shows "get_ratchet_state D s (demo_session_db st) (ustr ''bob'') = Inr (st\<lparr>skipped_key_order := []\<rparr>)"
proof -
  have "decrypt_ratchet_blob D s (dumps (ratchet_json d)) = Inr (dumps (ratchet_json d))" for d
    by (simp add: decrypt_ratchet_blob_def ratchet_json_def split: option.split)
  moreover obtain v data where "loads (dumps (ratchet_json (ratchet_serialize st))) = Inr v" "ratchet_data_of_json v = Inr data"
      "ratchet_deserialize data = Inr (st\<lparr>skipped_key_order := []\<rparr>)"
    using ratchet_text_roundtrip [OF assms] by blast
  ultimately show ?thesis
    by (simp add: get_ratchet_state_def demo_session_db_def legacy_friend_def select_key_def)
qed

lemma ref_sender_ok: "state_ok ref_sender"
  by (simp add: state_ok_def ref_sender_def new_ratchet_state_def)

lemma demo_sender: "get_ratchet_state D s (demo_session_db ref_sender) (ustr ''bob'') = Inr ref_sender"
  using demo_get [OF ref_sender_ok] by (simp add: ref_sender_def new_ratchet_state_def)

lemma demo_message:
  assumes "lock_free s (ustr ''bob'')" "length nonce = 24" "length plaintext < 2 ^ 31"
  shows "\<exists>hc s1. service_encrypt_message ref_crypto D now t fresh nonce (ustr ''bob'') plaintext (demo_session_db ref_sender) s = (Inr hc, s1) \<and>
    lock_free s1 (ustr ''bob'') \<and> storage_key s1 = storage_key s"
proof -
  obtain packet where "ratchet_encrypt ref_crypto fresh nonce plaintext ref_sender = (Inr packet,
      ref_sender\<lparr>send_chain_key := Some (chain_key ref_crypto (replicate 32 7) (Suc 0)), send_msg_num := Suc 0\<rparr>)"
    using ref_ratchet.encrypt_one [OF ref_sender_sending _ assms(2,3), of fresh] by auto
  from service_encrypt_runs [OF assms(1) demo_sender this] show ?thesis by blast
qed

lemma demo_save:
  assumes "state_ok st" "storage_key s = Some (replicate 32 3)" "length nonce = 12"
  shows "\<exists>d1. save_ratchet_state ref_db_crypto nonce s name st d = (Inr (), d1)"
proof -
  have "is_ok (utf8_encode (dumps (ratchet_json (ratchet_serialize st))))"
    using dumps_ascii [OF plain_ratchet_json] assms(1) by (intro utf8_encode_ok) (fastforce simp: state_ok_def)
  then show ?thesis
    using assms(2,3) by (auto simp: is_ok_iff save_ratchet_state_def encrypt_ratchet_blob_def ref_db_crypto_def ref_enc_def)
qed

lemma demo_flush:
  assumes "state_ok st" "storage_key s = Some (replicate 32 3)" "dirty_states s = [(name, st)]" "length (nonces 0) = 12"
  shows "\<exists>s1 d1. flush_dirty_states ref_db_crypto nonces (s, d) = (1, (s1, d1))"
  using demo_save [OF assms(1,2,4), of name d] assms(3) by (auto simp: flush_dirty_states_def)

interpretation ref_store: session_store ref_db_crypto "replicate 32 3"
  by (rule session_store.intro) (simp add: ref_db_crypto_def ref_aead)

section \<open>Properties\<close>

text \<open>Two messages to a friend without a flush between them are sealed with one message key under
  one header: the second load finds the state the first message started from.\<close>

theorem unflushed_messages_share_key:
  assumes "get_ratchet_state D s d name = Inr st" "send_chain_key st = Some ck"
    and "service_encrypt_message C D now1 t1 fresh1 nonce1 name plaintext1 d s = (Inr (h1, c1), s1)"
    and "service_encrypt_message C D now2 t2 fresh2 nonce2 name plaintext2 d s1 = (Inr (h2, c2), s2)"
  shows "h1 = h2 \<and>
    (\<exists>mk ct1 ct2. xchacha_seal (chacha_enc C) mk nonce1 plaintext1 h1 = Inr ct1 \<and> c1 = nonce1 @ ct1 \<and>
       xchacha_seal (chacha_enc C) mk nonce2 plaintext2 h1 = Inr ct2 \<and> c2 = nonce2 @ ct2) \<and>
    (\<exists>st2. map_of (dirty_states s2) name = Some st2 \<and> send_msg_num st2 = send_msg_num st + 1)"
proof -
  obtain x1 where e1: "ratchet_encrypt C fresh1 nonce1 plaintext1 st = (Inr (h1, c1), x1)" and s1: "storage_key s1 = storage_key s"
    using service_encrypt_ok [OF assms(3)] assms(1) by auto
  have "get_ratchet_state D s1 d name = Inr st" using assms(1) get_ratchet_state_storage [OF s1] by simp
  then obtain x2 where e2: "ratchet_encrypt C fresh2 nonce2 plaintext2 st = (Inr (h2, c2), x2)"
    and "dirty_states s2 = AList.update name x2 (dirty_states s1)"
    using service_encrypt_ok [OF assms(4)] by auto
  then show ?thesis
    using ratchet_encrypt_open [OF e1 assms(2)] ratchet_encrypt_open [OF e2 assms(2)] by (auto simp: update_conv')
qed

theorem unflushed_messages_share_key_witness:
  "\<exists>h c1 c2 s1 s2.
    service_encrypt_message ref_crypto ref_db_crypto 0 1 [] (replicate 24 0) (ustr ''bob'') [65] (demo_session_db ref_sender) demo_service
      = (Inr (h, c1), s1) \<and>
    service_encrypt_message ref_crypto ref_db_crypto 1 1 [] (replicate 24 1) (ustr ''bob'') [66] (demo_session_db ref_sender) s1
      = (Inr (h, c2), s2)"
proof -
  have "lock_free demo_service (ustr ''bob'')" by (simp add: lock_free_def demo_service_def new_ratchet_service_def)
  from demo_message [OF this, of "replicate 24 0" "[65]" ref_db_crypto 0 1 "[]"] obtain h1 c1 s1 where
    m1: "service_encrypt_message ref_crypto ref_db_crypto 0 1 [] (replicate 24 0) (ustr ''bob'') [65] (demo_session_db ref_sender) demo_service
      = (Inr (h1, c1), s1)" and f: "lock_free s1 (ustr ''bob'')" by auto
  from demo_message [OF f, of "replicate 24 1" "[66]" ref_db_crypto 1 1 "[]"] obtain h2 c2 s2 where
    m2: "service_encrypt_message ref_crypto ref_db_crypto 1 1 [] (replicate 24 1) (ustr ''bob'') [66] (demo_session_db ref_sender) s1
      = (Inr (h2, c2), s2)" by auto
  have "h1 = h2"
    using unflushed_messages_share_key [OF demo_sender _ m1 m2] by (simp add: ref_sender_def new_ratchet_state_def)
  with m1 m2 show ?thesis by blast
qed

text \<open>C6. With a flush after every message the service is the ratchet: the packets and the session that
  is stored in the end are those of the ratchet on the state that was stored in the beginning.\<close>

theorem service_refines_ratchet:
  assumes "ratchet_laws C" "aead 12 (aes_enc D) (aes_dec D)" "length fresh = 32" "length (nonces 0) = 12"
    and "storage_key s = Some key" "dirty_states s = []"
    and "state_ok st" "get_ratchet_state D s d name = Inr (st\<lparr>skipped_key_order := []\<rparr>)"
    and "service_send_all C D now t fresh nonces name ms (s, d) = (Some packets, (s', d'))"
  shows "\<exists>st'. encrypt_all C fresh ms st = (Inr packets, st') \<and>
    get_ratchet_state D s' d' name = Inr (st'\<lparr>skipped_key_order := []\<rparr>)"
  by (rule session_store.service_refines [OF session_store.intro [OF assms(2)] assms(1,3-9)])

lemma demo_first_message:
  "\<exists>hc s1 st1. service_encrypt_message ref_crypto D 0 1 (replicate 32 4) (replicate 24 0) (ustr ''bob'') [65] (demo_session_db ref_sender) demo_service
      = (Inr hc, s1) \<and> state_ok st1 \<and> send_msg_num st1 = 1 \<and> dirty_states s1 = [(ustr ''bob'', st1)] \<and> storage_key s1 = Some (replicate 32 3)"
proof -
  let ?st1 = "ref_sender\<lparr>send_chain_key := Some (chain_key ref_crypto (replicate 32 7) (Suc 0)), send_msg_num := Suc 0\<rparr>"
  obtain packet where e: "ratchet_encrypt ref_crypto (replicate 32 4) (replicate 24 0) [65] ref_sender = (Inr packet, ?st1)"
    using ref_ratchet.encrypt_one [OF ref_sender_sending, of "replicate 24 0" "[65]" "replicate 32 4"] by auto
  have "lock_free demo_service (ustr ''bob'')" by (simp add: lock_free_def demo_service_def new_ratchet_service_def)
  from service_encrypt_runs [OF this demo_sender e] encrypt_state_ok [OF ref_ratchet_laws ref_sender_ok _ e]
  show ?thesis by (fastforce simp: demo_service_def new_ratchet_service_def)
qed

theorem service_refines_ratchet_witness:
  "\<exists>packets st' s' d'. service_send_all ref_crypto ref_db_crypto 0 1 (replicate 32 4) (\<lambda>i. replicate 12 0) (ustr ''bob'')
      [(replicate 24 0, [65])] (demo_service, demo_session_db ref_sender) = (Some packets, (s', d')) \<and> length packets = 1 \<and>
    encrypt_all ref_crypto (replicate 32 4) [(replicate 24 0, [65])] ref_sender = (Inr packets, st') \<and>
    get_ratchet_state ref_db_crypto s' d' (ustr ''bob'') = Inr (st'\<lparr>skipped_key_order := []\<rparr>)"
proof -
  obtain hc s1 st1 where m: "service_encrypt_message ref_crypto ref_db_crypto 0 1 (replicate 32 4) (replicate 24 0) (ustr ''bob'') [65]
      (demo_session_db ref_sender) demo_service = (Inr hc, s1)"
    and s1: "state_ok st1" "dirty_states s1 = [(ustr ''bob'', st1)]" "storage_key s1 = Some (replicate 32 3)"
    using demo_first_message by blast
  obtain s2 d2 where f: "flush_dirty_states ref_db_crypto (\<lambda>i. replicate 12 0) (s1, demo_session_db ref_sender) = (1, (s2, d2))"
    using demo_flush [OF s1(1,3,2)] by fastforce
  have send: "service_send_all ref_crypto ref_db_crypto 0 1 (replicate 32 4) (\<lambda>i. replicate 12 0) (ustr ''bob'')
      [(replicate 24 0, [65])] (demo_service, demo_session_db ref_sender) = (Some [hc], (s2, d2))"
    using m f by simp
  have get: "get_ratchet_state ref_db_crypto demo_service (demo_session_db ref_sender) (ustr ''bob'') = Inr (ref_sender\<lparr>skipped_key_order := []\<rparr>)"
    by (rule demo_get [OF ref_sender_ok])
  have k: "storage_key demo_service = Some (replicate 32 3)" "dirty_states demo_service = []"
    by (simp_all add: demo_service_def new_ratchet_service_def)
  from service_refines_ratchet [OF ref_ratchet_laws _ _ _ k ref_sender_ok get send] ref_store.cipher send show ?thesis by auto
qed

text \<open>A buffered state brings a deleted session back: after a message, deleting the session and the
  next flush, the session is stored again and in use.\<close>

theorem flush_restores_deleted_session:
  assumes "aead 12 (aes_enc D) (aes_dec D)" "storage_key s = Some key" "dirty_states s = []" "length (nonces 0) = 12"
    and "service_encrypt_message C D now t fresh nonce name plaintext d s = (Inr hc, s1)"
    and "delete_ratchet name d = (deleted, d1)"
    and "flush_dirty_states D nonces (s1, d1) = (1, (s2, d2))"
    and "map_of (dirty_states s1) name = Some st1" "state_ok st1"
  shows "deleted \<and> get_ratchet_state D s1 d1 name = Inl RatchetNotFoundError \<and>
    get_ratchet_state D s2 d2 name = Inr (st1\<lparr>skipped_key_order := []\<rparr>)"
proof -
  obtain st x where st: "get_ratchet_state D s d name = Inr st" and s1: "storage_key s1 = Some key" "dirty_states s1 = [(name, x)]"
    using service_encrypt_ok [OF assms(5)] assms(2,3) by auto
  then have x: "x = st1" using assms(8) by simp
  obtain row blob where row: "select_key fr_name name (friends_tab d) = Some row" "fr_ratchet_state_json row = Some blob"
    using st by (auto simp: get_ratchet_state_def split: option.splits)
  have d1: "d1 = update_row name (\<lambda>r. r\<lparr>fr_ratchet_state_json := None\<rparr>) d" and deleted
    using assms(6) friend_table.get_key [OF row(1)] row(2) by (auto simp: delete_ratchet_def list_ex_iff)
  have row1: "select_key fr_name name (friends_tab d1) = Some (row\<lparr>fr_ratchet_state_json := None\<rparr>)"
    using row(1) by (simp add: d1 select_update_row)
  note f = flush_one [OF assms(7) s1(2)]
  have "get_ratchet_state D s2 d2 name = get_ratchet_state D s1 d2 name"
    by (rule get_ratchet_state_storage) (use f in simp)
  moreover have "get_ratchet_state D s1 d2 name = Inr (st1\<lparr>skipped_key_order := []\<rparr>)"
    using session_store.save_get [OF session_store.intro [OF assms(1)] _ s1(1) assms(4,9) row1] f x by blast
  moreover have "get_ratchet_state D s1 d1 name = Inl RatchetNotFoundError"
    using row1 by (simp add: get_ratchet_state_def)
  ultimately show ?thesis using \<open>deleted\<close> by simp
qed

theorem flush_restores_deleted_session_witness:
  "\<exists>hc s1 st1 d1 s2 d2. service_encrypt_message ref_crypto ref_db_crypto 0 1 (replicate 32 4) (replicate 24 0) (ustr ''bob'') [65]
      (demo_session_db ref_sender) demo_service = (Inr hc, s1) \<and>
    delete_ratchet (ustr ''bob'') (demo_session_db ref_sender) = (True, d1) \<and>
    get_ratchet_state ref_db_crypto s1 d1 (ustr ''bob'') = Inl RatchetNotFoundError \<and>
    flush_dirty_states ref_db_crypto (\<lambda>i. replicate 12 0) (s1, d1) = (1, (s2, d2)) \<and>
    get_ratchet_state ref_db_crypto s2 d2 (ustr ''bob'') = Inr (st1\<lparr>skipped_key_order := []\<rparr>) \<and> send_msg_num st1 = 1"
proof -
  obtain hc s1 st1 where m: "service_encrypt_message ref_crypto ref_db_crypto 0 1 (replicate 32 4) (replicate 24 0) (ustr ''bob'') [65]
      (demo_session_db ref_sender) demo_service = (Inr hc, s1)"
    and s1: "state_ok st1" "send_msg_num st1 = 1" "dirty_states s1 = [(ustr ''bob'', st1)]" "storage_key s1 = Some (replicate 32 3)"
    using demo_first_message by blast
  obtain del d1 where d: "delete_ratchet (ustr ''bob'') (demo_session_db ref_sender) = (del, d1)"
    by (cases "delete_ratchet (ustr ''bob'') (demo_session_db ref_sender)")
  obtain s2 d2 where f: "flush_dirty_states ref_db_crypto (\<lambda>i. replicate 12 0) (s1, d1) = (1, (s2, d2))"
    using demo_flush [OF s1(1,4,3)] by fastforce
  have k: "storage_key demo_service = Some (replicate 32 3)" "dirty_states demo_service = []"
    by (simp_all add: demo_service_def new_ratchet_service_def)
  have "map_of (dirty_states s1) (ustr ''bob'') = Some st1" by (simp add: s1(3))
  from flush_restores_deleted_session [OF ref_store.cipher k _ m d f this s1(1)]
  have del "get_ratchet_state ref_db_crypto s1 d1 (ustr ''bob'') = Inl RatchetNotFoundError"
    "get_ratchet_state ref_db_crypto s2 d2 (ustr ''bob'') = Inr (st1\<lparr>skipped_key_order := []\<rparr>)" by simp_all
  moreover from this(1) d have "delete_ratchet (ustr ''bob'') (demo_session_db ref_sender) = (True, d1)" by simp
  ultimately show ?thesis using m f s1(2) by blast
qed

end
