(* ===== verification/Lock_Order.thy ===== *)
theory Lock_Order
  imports Ratchet_Service
begin

text \<open>
  The locks of the friends under several threads. A thread that runs
  \<open>acquire_friend_locks_ordered\<close> takes the locks of \<open>canonical lower names\<close> from the front and
  waits while another thread has the next one; when it has them all it releases them. The threads
  and what each still has to take are the state of an interleaving.
\<close>

section \<open>The canonical order\<close>

lemma canonical_set: "set (canonical lower names) = set names"
  by (simp add: canonical_def)

lemma canonical_distinct: "distinct (canonical lower names)"
  by (simp add: canonical_def)

lemma canonical_sorted: "sorted_wrt (<) (map (\<lambda>n. (lower n, n)) (canonical lower names))"
proof -
  have "sorted (map (\<lambda>n. (lower n, n)) (canonical lower names))" by (simp add: canonical_def)
  moreover have "distinct (map (\<lambda>n. (lower n, n)) (canonical lower names))"
    by (simp add: distinct_map canonical_distinct inj_on_def)
  ultimately show ?thesis by (simp add: strict_sorted_iff)
qed

text \<open>The diagnostic function compares the order with itself.\<close>

lemma detect_potential_deadlock_False: "detect_potential_deadlock lower a b = False"
  by (simp add: detect_potential_deadlock_def Let_def)

section \<open>One thread\<close>

text \<open>The loop takes every lock or, when another thread has one, returns the ones it took.\<close>

definition available :: "nat \<Rightarrow> ratchet_service \<Rightarrow> ustr \<Rightarrow> bool" where
  "available t s name \<longleftrightarrow> (case map_of (friend_locks s) name of None \<Rightarrow> True | Some l \<Rightarrow> rl_owner l = None \<or> rl_owner l = Some t)"

lemma acquire_iff:
  "acquire_friend_lock now t name s = (r, s1) \<Longrightarrow> r = (if available t s name then Inr () else Inl ConcurrencyError)"
  by (auto simp: acquire_friend_lock_def get_friend_lock_def try_acquire_def available_def Let_def split: option.splits if_splits)

lemma acquire_other:
  "acquire_friend_lock now t name s = (r, s1) \<Longrightarrow> n \<noteq> name \<Longrightarrow> map_of (friend_locks s1) n = map_of (friend_locks s) n"
  by (auto simp: acquire_friend_lock_def get_friend_lock_def Let_def update_conv' split: option.splits)

lemma acquire_loop_result:
  assumes "distinct names" "acquire_loop now t names acquired s = (r, s1)"
  shows "r = (if list_all (available t s) names then Inr (acquired @ names) else Inl ConcurrencyError)"
  using assms
proof (induction names arbitrary: acquired s)
  case (Cons name names)
  obtain q s0 where q: "acquire_friend_lock now t name s = (q, s0)" by (cases "acquire_friend_lock now t name s")
  have "available t s0 n = available t s n" if "n \<in> set names" for n
  proof -
    have "n \<noteq> name" using Cons.prems(1) that by auto
    with acquire_other [OF q] show ?thesis by (simp add: available_def)
  qed
  then have eq: "list_all (available t s0) names = list_all (available t s) names" by (simp add: list_all_iff)
  show ?case
  proof (cases "available t s name")
    case True
    then have "q = Inr ()" using acquire_iff [OF q] by simp
    then show ?thesis using Cons.IH [of "acquired @ [name]" s0] Cons.prems q True eq by simp
  next
    case False
    then have "q = Inl ConcurrencyError" using acquire_iff [OF q] by simp
    then show ?thesis using Cons.prems q False by simp
  qed
qed simp

section \<open>Interleavings\<close>

text \<open>A thread: the locks it has and those it still has to take. No two threads have one lock.\<close>

type_synonym threads = "(ustr list \<times> ustr list) list"

definition held :: "threads \<Rightarrow> ustr set" where
  "held ts = (\<Union>(h, todo) \<in> set ts. set h)"

inductive lock_step :: "threads \<Rightarrow> threads \<Rightarrow> bool" where
  take_lock: "i < length ts \<Longrightarrow> ts ! i = (h, n # todo) \<Longrightarrow> n \<notin> held ts \<Longrightarrow> lock_step ts (ts[i := (h @ [n], todo)])"
| release_all: "i < length ts \<Longrightarrow> ts ! i = (h, []) \<Longrightarrow> h \<noteq> [] \<Longrightarrow> lock_step ts (ts[i := ([], [])])"

inductive lock_steps :: "threads \<Rightarrow> threads \<Rightarrow> bool" where
  no_step: "lock_steps ts ts"
| one_step: "lock_steps ts us \<Longrightarrow> lock_step us vs \<Longrightarrow> lock_steps ts vs"

inductive_cases lock_stepE: "lock_step ts us"

code_pred lock_step .

definition finished :: "threads \<Rightarrow> bool" where
  "finished ts \<longleftrightarrow> list_all (\<lambda>(h, todo). h = [] \<and> todo = []) ts"

text \<open>Every thread has taken a prefix of an ordered list.\<close>

definition ordered :: "(ustr \<Rightarrow> ustr) \<Rightarrow> threads \<Rightarrow> bool" where
  "ordered lower ts \<longleftrightarrow> list_all (\<lambda>(h, todo). sorted_wrt (<) (map (\<lambda>n. (lower n, n)) (h @ todo))) ts"

lemma ordered_step: "ordered lower ts \<Longrightarrow> lock_step ts us \<Longrightarrow> ordered lower us"
proof (erule lock_stepE)
  fix i h n todo
  assume o: "ordered lower ts" and i: "i < length ts" "ts ! i = (h, n # todo)" and us: "us = ts[i := (h @ [n], todo)]"
  have "sorted_wrt (<) (map (\<lambda>n. (lower n, n)) (h @ n # todo))"
    using o i by (auto simp: ordered_def list_all_length)
  with o i us show "ordered lower us" by (auto simp: ordered_def list_all_length nth_list_update)
qed (auto simp: ordered_def list_all_length nth_list_update)

lemma ordered_steps: "lock_steps ts us \<Longrightarrow> ordered lower ts \<Longrightarrow> ordered lower us"
  by (induction rule: lock_steps.induct) (auto dest: ordered_step)

text \<open>The thread whose next lock is the greatest never waits.\<close>

lemma progress:
  assumes "ordered lower ts" "\<not> finished ts"
  shows "\<exists>us. lock_step ts us"
proof (cases "\<exists>i < length ts. snd (ts ! i) = [] \<and> fst (ts ! i) \<noteq> []")
  case True
  then obtain i h where "i < length ts" "ts ! i = (h, [])" "h \<noteq> []" by (metis prod.collapse)
  then show ?thesis by (blast intro: release_all)
next
  case False
  let ?key = "\<lambda>n. (lower n, n)"
  let ?W = "{i. i < length ts \<and> snd (ts ! i) \<noteq> []}"
  have "?W \<noteq> {}" using assms(2) False by (fastforce simp: finished_def list_all_length split_beta)
  let ?f = "\<lambda>i. ?key (hd (snd (ts ! i)))"
  have "Max (?f ` ?W) \<in> ?f ` ?W" using \<open>?W \<noteq> {}\<close> by (intro Max_in) auto
  then obtain i where i: "i \<in> ?W" "?f i = Max (?f ` ?W)" by auto
  have max: "?f j \<le> ?f i" if "j \<in> ?W" for j
    unfolding i(2) using that by (intro Max_ge) auto
  obtain h n todo where ts: "ts ! i = (h, n # todo)" using i(1) by (cases "ts ! i"; cases "snd (ts ! i)") auto
  have "n \<notin> held ts"
  proof
    assume "n \<in> held ts"
    then obtain h' todo' where h': "(h', todo') \<in> set ts" "n \<in> set h'" by (auto simp: held_def)
    then obtain j where j: "j < length ts" "ts ! j = (h', todo')" "n \<in> set h'" by (auto simp: in_set_conv_nth [of _ ts])
    have "todo' \<noteq> []"
    proof
      assume "todo' = []"
      then have "snd (ts ! j) = []" using j(2) by simp
      then have "fst (ts ! j) = []" using False j(1) by blast
      with j(2,3) show False by simp
    qed
    then obtain m rest where todo': "todo' = m # rest" by (cases todo') auto
    have "sorted_wrt (<) (map ?key (h' @ todo'))" using assms(1) j(1,2) by (auto simp: ordered_def list_all_length)
    then have "?key n < ?key m" using j(3) todo' by (auto simp: sorted_wrt_append)
    moreover have "?key m \<le> ?key n" using max [of j] j todo' ts by simp
    ultimately show False by (metis leD)
  qed
  then show ?thesis using i(1) ts by (blast intro: take_lock)
qed

text \<open>What is left to do gets less with every step.\<close>

definition lock_work :: "threads \<Rightarrow> nat" where
  "lock_work ts = (\<Sum>(h, todo) \<leftarrow> ts. 2 * length todo + (if h = [] then 0 else 1))"

lemma sum_list_update_less:
  fixes f :: "'a \<Rightarrow> nat"
  shows "i < length xs \<Longrightarrow> f y < f (xs ! i) \<Longrightarrow> sum_list (map f (xs[i := y])) < sum_list (map f xs)"
proof (induction xs arbitrary: i)
  case (Cons x xs)
  then show ?case by (cases i) auto
qed simp

lemma lock_work_less: "lock_step ts us \<Longrightarrow> lock_work us < lock_work ts"
  by (erule lock_stepE) (auto simp: lock_work_def intro!: sum_list_update_less)

section \<open>Properties\<close>

text \<open>C17. Threads that take the locks of friends in the canonical order never deadlock: whatever the
  requests and the interleaving, as long as a thread is not done some thread can proceed, and every
  step reduces the work that is left, so that every run ends with all locks released.\<close>

theorem ordered_locks_no_deadlock:
  assumes "lock_steps (map (\<lambda>names. ([], canonical lower names)) requests) us"
  shows "(finished us \<or> (\<exists>vs. lock_step us vs)) \<and> (\<forall>vs. \<not> (lock_step us vs \<and> lock_work us \<le> lock_work vs))"
proof -
  have "ordered lower (map (\<lambda>names. ([], canonical lower names)) requests)"
    by (simp add: ordered_def list_all_iff canonical_sorted)
  from ordered_steps [OF assms this] progress lock_work_less show ?thesis by fastforce
qed

theorem ordered_locks_no_deadlock_witness:
  "let us = [([ustr ''amy''], [ustr ''bob'']), ([], [ustr ''amy'', ustr ''bob''])] in
   lock_steps (map (\<lambda>names. ([], canonical id names)) [[ustr ''bob'', ustr ''amy''], [ustr ''amy'', ustr ''bob'', ustr ''amy'']]) us \<and>
   (\<exists>vs. lock_step us vs)"
proof -
  let ?us = "[([ustr ''amy''], [ustr ''bob'']), ([], [ustr ''amy'', ustr ''bob''])]"
  have start: "map (\<lambda>names. ([], canonical id names)) [[ustr ''bob'', ustr ''amy''], [ustr ''amy'', ustr ''bob'', ustr ''amy'']] =
      ([([], [ustr ''amy'', ustr ''bob'']), ([], [ustr ''amy'', ustr ''bob''])] :: threads)" (is "_ = ?ts")
    by code_simp
  have "lock_step ?ts (?ts[0 := ([] @ [ustr ''amy''], [ustr ''bob''])])"
    by (rule take_lock) (simp_all add: held_def)
  then have steps: "lock_steps (map (\<lambda>names. ([], canonical id names)) [[ustr ''bob'', ustr ''amy''], [ustr ''amy'', ustr ''bob'', ustr ''amy'']]) ?us"
    using one_step [OF no_step] unfolding start by simp
  from ordered_locks_no_deadlock [OF this] have "\<exists>vs. lock_step ?us vs" by (simp add: finished_def)
  with steps show ?thesis by (simp add: Let_def)
qed

end
