(* ===== verification/Hmac.thy ===== *)
theory Hmac
  imports XChaCha
begin

text \<open>
  The functions of the standard library the one-time passwords use: SHA-1 (FIPS 180-4) and HMAC
  (RFC 2104) over it, what \<^verbatim>\<open>hmac.new(key, msg, hashlib.sha1).digest()\<close> computes. The contract of a
  keyed digest is the locale \<open>keyed_digest\<close>.
\<close>

locale keyed_digest =
  fixes mac :: "bytes \<Rightarrow> bytes \<Rightarrow> bytes"
    and size :: nat
  assumes digest_length: "length (mac k m) = size"
    and digest_size: "20 \<le> size"
begin

text \<open>Dynamic truncation (RFC 4226) always finds four bytes.\<close>

lemma last_digest: "mac k m \<noteq> []"
  using digest_length [of k m] digest_size by auto

lemma truncation_inside: "n < 16 \<Longrightarrow> length (slice n (n + 4) (mac k m)) = 4"
  using digest_length [of k m] digest_size by (simp add: slice_def)

end

section \<open>SHA-1\<close>

type_synonym sha_state = "word32 \<times> word32 \<times> word32 \<times> word32 \<times> word32"

definition sha1_init :: sha_state where
  "sha1_init = (0x67452301, 0xEFCDAB89, 0x98BADCFE, 0x10325476, 0xC3D2E1F0)"

text \<open>The padding: a byte 0x80, zeros, and the length in bits.\<close>

definition sha1_pad :: "bytes \<Rightarrow> bytes" where
  "sha1_pad m = m @ [0x80] @ replicate ((119 - length m mod 64) mod 64) 0 @ be_bytes 8 (8 * length m)"

fun be_words :: "bytes \<Rightarrow> word32 list" where
  "be_words (a # b # c # d # r) =
     (push_bit 24 (ucast a) OR push_bit 16 (ucast b) OR push_bit 8 (ucast c) OR ucast d) # be_words r"
| "be_words _ = []"

text \<open>The schedule holds the last sixteen words, the next one first.\<close>

definition next_word :: "word32 list \<Rightarrow> word32" where
  "next_word w = rotl32 (w ! 13 XOR w ! 8 XOR w ! 2 XOR w ! 0) 1"

definition sha1_f :: "nat \<Rightarrow> word32 \<Rightarrow> word32 \<Rightarrow> word32 \<Rightarrow> word32" where
  "sha1_f t b c d =
     (if t < 20 then (b AND c) OR (NOT b AND d)
      else if t < 40 then b XOR c XOR d
      else if t < 60 then (b AND c) OR (b AND d) OR (c AND d)
      else b XOR c XOR d)"

definition sha1_k :: "nat \<Rightarrow> word32" where
  "sha1_k t = (if t < 20 then 0x5A827999 else if t < 40 then 0x6ED9EBA1 else if t < 60 then 0x8F1BBCDC else 0xCA62C1D6)"

text \<open>The rounds from \<open>t\<close> to 79.\<close>

function sha1_rounds :: "nat \<Rightarrow> word32 list \<Rightarrow> sha_state \<Rightarrow> sha_state" where
  "sha1_rounds t w (a, b, c, d, e) =
     (if t < 80 then
        sha1_rounds (t + 1) (tl w @ [next_word w])
          (rotl32 a 5 + sha1_f t b c d + e + sha1_k t + w ! 0, a, rotl32 b 30, c, d)
      else (a, b, c, d, e))"
  by pat_completeness auto
termination by (relation "measure (\<lambda>(t, _). 80 - t)") auto

declare sha1_rounds.simps [simp del]

definition sha1_block :: "word32 list \<Rightarrow> sha_state \<Rightarrow> sha_state" where
  "sha1_block w s =
     (case s of (a, b, c, d, e) \<Rightarrow>
        (case sha1_rounds 0 w s of (a', b', c', d', e') \<Rightarrow> (a + a', b + b', c + c', d + d', e + e')))"

function sha1_blocks :: "word32 list \<Rightarrow> sha_state \<Rightarrow> sha_state" where
  "sha1_blocks ws s = (if ws = [] then s else sha1_blocks (drop 16 ws) (sha1_block (take 16 ws) s))"
  by pat_completeness auto
termination by (relation "measure (\<lambda>(ws, _). length ws)") auto

declare sha1_blocks.simps [simp del]

definition word_bytes :: "word32 \<Rightarrow> bytes" where
  "word_bytes w = [ucast (drop_bit 24 w), ucast (drop_bit 16 w), ucast (drop_bit 8 w), ucast w]"

definition sha1 :: "bytes \<Rightarrow> bytes" where
  "sha1 m =
     (case sha1_blocks (be_words (sha1_pad m)) sha1_init of (a, b, c, d, e) \<Rightarrow>
        concat (map word_bytes [a, b, c, d, e]))"

lemma length_sha1 [simp]: "length (sha1 m) = 20"
  by (simp add: sha1_def word_bytes_def split: prod.split)

section \<open>HMAC\<close>

definition hmac_key :: "bytes \<Rightarrow> bytes" where
  "hmac_key k = (let k' = (if length k > 64 then sha1 k else k) in k' @ replicate (64 - length k') 0)"

definition hmac_sha1 :: "bytes \<Rightarrow> bytes \<Rightarrow> bytes" where
  "hmac_sha1 k m =
     sha1 (map (\<lambda>b. b XOR 0x5C) (hmac_key k) @ sha1 (map (\<lambda>b. b XOR 0x36) (hmac_key k) @ m))"

interpretation sha1_mac: keyed_digest hmac_sha1 20
  by unfold_locales (simp_all add: hmac_sha1_def)

end
