(* ===== verification/Totp.thy ===== *)
theory Totp
  imports Key_Store Json Hmac
begin

text \<open>
  \<^verbatim>\<open>services/totp_service.py\<close> and \<^verbatim>\<open>services/totp_persistence.py\<close>: time-based one-time
  passwords, the counter that refuses replays, and what of both is stored in the settings; and the
  operations of \<^verbatim>\<open>controllers/auth_controller.py\<close> that install a secret. The tables of Unicode are the argument \<open>uni_digit\<close>:
  which characters outside ASCII \<^verbatim>\<open>str.isdigit\<close> accepts. A time is an argument wherever the
  source reads the clock.
\<close>

definition TOTP_DIGITS :: nat where "TOTP_DIGITS = 6"
definition TOTP_INTERVAL :: int where "TOTP_INTERVAL = 30"
definition TOTP_DRIFT :: int where "TOTP_DRIFT = 1"

text \<open>The service: its secret, the newest accepted counter, and whether the callback that stores
  accepted counters is set.\<close>

record totp =
  totp_secret :: "bytes option"
  last_counter :: int
  persist_counter :: bool

definition new_totp :: totp where
  "new_totp = \<lparr>totp_secret = None, last_counter = -1, persist_counter = False\<rparr>"

section \<open>Secrets\<close>

definition set_counter_persistence :: "int \<Rightarrow> totp \<Rightarrow> totp" where
  "set_counter_persistence initial_counter s =
     s\<lparr>persist_counter := True, last_counter := max (last_counter s) initial_counter\<rparr>"

definition set_secret :: "bytes \<Rightarrow> totp \<Rightarrow> unit res \<times> totp" where
  "set_secret secret s =
     (if length secret < 20 then (Inl TOTPValidationError, s)
      else (Inr (), s\<lparr>totp_secret := Some (take 20 secret), last_counter := -1\<rparr>))"

definition set_raw_secret :: "bytes \<Rightarrow> totp \<Rightarrow> unit res \<times> totp" where
  "set_raw_secret secret s =
     (if length secret \<noteq> 20 then (Inl TOTPValidationError, s)
      else (Inr (), s\<lparr>totp_secret := Some secret, last_counter := -1\<rparr>))"

definition clear_secret :: "totp \<Rightarrow> totp" where
  "clear_secret s = s\<lparr>totp_secret := None\<rparr>"

definition has_secret :: "totp \<Rightarrow> bool" where
  "has_secret s \<longleftrightarrow> totp_secret s \<noteq> None"

text \<open>\<^verbatim>\<open>base64.b32encode(...).rstrip("=")\<close>: groups of five bits, the last one filled with zeros.\<close>

definition b32_char :: "nat \<Rightarrow> nat" where
  "b32_char n = (if n < 26 then 65 + n else 24 + n)"

fun b32_groups :: "nat list \<Rightarrow> ustr" where
  "b32_groups (a # b # c # d # e # rest) =
     map b32_char [a div 8, a mod 8 * 4 + b div 64, b div 2 mod 32, b mod 2 * 16 + c div 16,
       c mod 16 * 2 + d div 128, d div 4 mod 32, d mod 4 * 8 + e div 32, e mod 32] @ b32_groups rest"
| "b32_groups [a, b, c, d] =
     map b32_char [a div 8, a mod 8 * 4 + b div 64, b div 2 mod 32, b mod 2 * 16 + c div 16,
       c mod 16 * 2 + d div 128, d div 4 mod 32, d mod 4 * 8]"
| "b32_groups [a, b, c] =
     map b32_char [a div 8, a mod 8 * 4 + b div 64, b div 2 mod 32, b mod 2 * 16 + c div 16, c mod 16 * 2]"
| "b32_groups [a, b] = map b32_char [a div 8, a mod 8 * 4 + b div 64, b div 2 mod 32, b mod 2 * 16]"
| "b32_groups [a] = map b32_char [a div 8, a mod 8 * 4]"
| "b32_groups [] = []"

definition get_b32_secret :: "totp \<Rightarrow> ustr" where
  "get_b32_secret s = (case totp_secret s of None \<Rightarrow> ustr ''N/A'' | Some b \<Rightarrow> b32_groups (map unat b))"

definition provisioning_uri :: "ustr \<Rightarrow> ustr \<Rightarrow> totp \<Rightarrow> ustr res" where
  "provisioning_uri account issuer s =
     (case totp_secret s of None \<Rightarrow> Inl TOTPValidationError
      | Some b \<Rightarrow> Inr (ustr ''otpauth://totp/'' @ issuer @ [58] @ account @ ustr ''?secret='' @ b32_groups (map unat b) @
          ustr ''&issuer='' @ issuer @ ustr ''&algorithm=SHA1&digits='' @ dec TOTP_DIGITS @ ustr ''&period='' @
          dec (nat TOTP_INTERVAL)))"

section \<open>Codes\<close>

definition hotp :: "bytes \<Rightarrow> int \<Rightarrow> nat res" where
  "hotp secret counter =
     (if counter < 0 \<or> counter \<ge> 256 ^ 8 then Inl StructError
      else let h = hmac_sha1 secret (be_bytes 8 (nat counter)) in
        if h = [] then Inl IndexError
        else let offset = unat (last h) mod 16;
                 word4 = slice offset (offset + 4) h
          in if length word4 \<noteq> 4 then Inl StructError else Inr (be_val word4 mod 2 ^ 31 mod 10 ^ TOTP_DIGITS))"

text \<open>\<^verbatim>\<open>f"{n:06d}"\<close>\<close>

definition code_text :: "nat \<Rightarrow> ustr" where
  "code_text n = replicate (TOTP_DIGITS - length (dec n)) 48 @ dec n"

definition time_counter :: "rat \<Rightarrow> int" where
  "time_counter timestamp = trunc timestamp div TOTP_INTERVAL"

definition generate :: "rat \<Rightarrow> totp \<Rightarrow> ustr res" where
  "generate timestamp s =
     (case totp_secret s of None \<Rightarrow> Inl TOTPValidationError
      | Some secret \<Rightarrow>
        (case hotp secret (time_counter timestamp) of Inl e \<Rightarrow> Inl e | Inr n \<Rightarrow> Inr (code_text n)))"

definition time_remaining :: "rat \<Rightarrow> int" where
  "time_remaining now = TOTP_INTERVAL - trunc now mod TOTP_INTERVAL"

section \<open>Persistence\<close>

definition TOTP_SECRET_KEY :: ustr where "TOTP_SECRET_KEY = ustr ''totp_secret_encrypted''"
definition TOTP_SETUP_KEY :: ustr where "TOTP_SETUP_KEY = ustr ''totp_setup_complete''"
definition TOTP_ENABLED_KEY :: ustr where "TOTP_ENABLED_KEY = ustr ''totp_enabled''"
definition TOTP_LAST_COUNTER_KEY :: ustr where "TOTP_LAST_COUNTER_KEY = ustr ''totp_last_counter''"

text \<open>\<^verbatim>\<open>int(text)\<close> as far as the texts of integers go: an optional sign and digits.\<close>

definition parse_int :: "ustr \<Rightarrow> int res" where
  "parse_int t =
     (let u = strip t;
          neg = (u \<noteq> [] \<and> hd u = 45);
          ds = (if u \<noteq> [] \<and> (hd u = 45 \<or> hd u = 43) then tl u else u)
      in case parse_dec ds of Inl e \<Rightarrow> Inl e | Inr n \<Rightarrow> Inr (if neg then - int n else int n))"

definition save_last_counter :: "int \<Rightarrow> db \<Rightarrow> db" where
  "save_last_counter counter d = put_setting TOTP_LAST_COUNTER_KEY (Text (json_int counter)) d"

definition load_last_counter :: "db \<Rightarrow> int" where
  "load_last_counter d =
     (case get_setting TOTP_LAST_COUNTER_KEY d of
        Some (Text t) \<Rightarrow> (case parse_int t of Inr n \<Rightarrow> n | Inl _ \<Rightarrow> -1)
      | _ \<Rightarrow> -1)"

definition is_totp_setup_complete :: "db \<Rightarrow> bool" where
  "is_totp_setup_complete d \<longleftrightarrow> get_setting TOTP_SETUP_KEY d = Some (Text (ustr ''1''))"

definition set_totp_setup_complete :: "bool \<Rightarrow> db \<Rightarrow> db" where
  "set_totp_setup_complete value d = put_setting TOTP_SETUP_KEY (Text (if value then ustr ''1'' else ustr ''0'')) d"

definition is_totp_enabled :: "db \<Rightarrow> bool" where
  "is_totp_enabled d \<longleftrightarrow>
     (case get_setting TOTP_ENABLED_KEY d of
        None \<Rightarrow> get_setting TOTP_SETUP_KEY d = Some (Text (ustr ''1''))
      | Some v \<Rightarrow> v = Text (ustr ''1''))"

definition set_totp_enabled :: "bool \<Rightarrow> db \<Rightarrow> db" where
  "set_totp_enabled value d = put_setting TOTP_ENABLED_KEY (Text (if value then ustr ''1'' else ustr ''0'')) d"

section \<open>Verification\<close>

text \<open>The loop over the candidates. A comparison with a code that is not ASCII raises
  \<^verbatim>\<open>TypeError\<close>. Without \<open>track_replay\<close> nothing changes.\<close>

fun verify_loop ::
  "bytes \<Rightarrow> ustr \<Rightarrow> bool \<Rightarrow> int list \<Rightarrow> totp \<times> db \<Rightarrow> bool res \<times> (totp \<times> db)" where
  "verify_loop secret code track_replay [] p = (Inr False, p)"
| "verify_loop secret code track_replay (c # cs) p =
     (case hotp secret c of Inl e \<Rightarrow> (Inl e, p)
      | Inr n \<Rightarrow>
          if list_ex (\<lambda>x. x \<ge> 128) code then (Inl TypeError, p)
          else if code = code_text n then
            (if \<not> track_replay then (Inr True, p)
             else if c \<le> last_counter (fst p) then (Inr False, p)
             else (Inr True, ((fst p)\<lparr>last_counter := c\<rparr>,
                     if persist_counter (fst p) then save_last_counter c (snd p) else snd p)))
          else verify_loop secret code track_replay cs p)"

text \<open>One character of \<^verbatim>\<open>str.isdigit\<close>.\<close>

definition unicode_digit :: "(nat \<Rightarrow> bool) \<Rightarrow> nat \<Rightarrow> bool" where
  "unicode_digit uni_digit c \<longleftrightarrow> is_digit c \<or> c \<ge> 128 \<and> uni_digit c"

definition verify ::
  "(nat \<Rightarrow> bool) \<Rightarrow> ustr \<Rightarrow> rat \<Rightarrow> bool \<Rightarrow> totp \<times> db \<Rightarrow> bool res \<times> (totp \<times> db)" where
  "verify uni_digit code0 timestamp track_replay p =
     (case totp_secret (fst p) of None \<Rightarrow> (Inl TOTPValidationError, p)
      | Some secret \<Rightarrow>
          (let code = strip code0 in
           if length code \<noteq> TOTP_DIGITS \<or> \<not> list_all (unicode_digit uni_digit) code then (Inr False, p)
           else verify_loop secret code track_replay
                  (map (\<lambda>off. time_counter timestamp + off) [- TOTP_DRIFT..TOTP_DRIFT]) p))"

section \<open>Loading and storing the secret\<close>

definition wire_replay_counter :: "db \<Rightarrow> totp \<Rightarrow> totp" where
  "wire_replay_counter d s = set_counter_persistence (load_last_counter d) s"

text \<open>Installing a decrypted secret and the self-test, at the times \<open>t1\<close> and \<open>t2\<close>; whatever is raised
  is caught and leaves what was installed.\<close>

definition try_secret ::
  "(nat \<Rightarrow> bool) \<Rightarrow> rat \<Rightarrow> rat \<Rightarrow> db \<Rightarrow> bytes res \<Rightarrow> totp \<Rightarrow> bool \<times> totp" where
  "try_secret uni_digit t1 t2 d opened s =
     (case opened of Inl _ \<Rightarrow> (False, s)
      | Inr secret \<Rightarrow>
        (case (if length secret = 20 then set_raw_secret secret s else set_secret secret s) of
           (Inl _, s1) \<Rightarrow> (False, s1)
         | (Inr _, s1) \<Rightarrow>
           (case generate t1 s1 of Inl _ \<Rightarrow> (False, s1)
            | Inr test_code \<Rightarrow>
                if fst (verify uni_digit test_code t2 False (s1, d)) = Inr True then (True, wire_replay_counter d s1)
                else (False, s1))))"

definition load_totp_secret ::
  "(nat \<Rightarrow> bool) \<Rightarrow> db_crypto \<Rightarrow> rat \<Rightarrow> rat \<Rightarrow> bytes option \<Rightarrow> bytes option \<Rightarrow> db \<Rightarrow>
   totp \<Rightarrow> bool res \<times> totp" where
  "load_totp_secret uni_digit D t1 t2 password gs d s =
     (case get_setting TOTP_SECRET_KEY d of
        None \<Rightarrow>
          (if given gs then
             (case set_secret (the gs) s of
                (Inl _, s1) \<Rightarrow> (Inr False, s1) | (Inr _, s1) \<Rightarrow> (Inr True, wire_replay_counter d s1))
           else (Inr False, s))
      | Some (Secret enc) \<Rightarrow>
          (case (if given password then try_secret uni_digit t1 t2 d (decrypt_secret D enc (the password)) s else (False, s)) of
             (True, s1) \<Rightarrow> (Inr True, s1)
           | (False, s1) \<Rightarrow>
               if given gs then
                 (case try_secret uni_digit t1 t2 d (decrypt_secret D enc (map of_nat (hex (the gs)))) s1 of
                    (ok, s2) \<Rightarrow> (Inr ok, s2))
               else (Inr False, s1))
      | Some _ \<Rightarrow> (Inl ValueError, s))"

definition persist_totp_secret ::
  "db_crypto \<Rightarrow> bytes \<times> bytes \<Rightarrow> bytes \<Rightarrow> bytes option \<Rightarrow> bytes option \<Rightarrow> db \<Rightarrow> db" where
  "persist_totp_secret D rnd secret password gs d =
     (case (if given password then password else if given gs then Some (map of_nat (hex (the gs))) else None) of
        None \<Rightarrow> d
      | Some enc_key \<Rightarrow>
        (case encrypt_secret D (fst rnd) (snd rnd) secret enc_key of Inl _ \<Rightarrow> d
         | Inr enc \<Rightarrow> put_setting TOTP_LAST_COUNTER_KEY (Text (ustr ''-1'')) (put_setting TOTP_SECRET_KEY (Secret enc) d)))"

section \<open>The controller\<close>

text \<open>\<open>new_secret\<close> is the random secret of 32 bytes.\<close>

definition generate_new_totp ::
  "db_crypto \<Rightarrow> bytes \<times> bytes \<Rightarrow> bytes \<Rightarrow> bytes option \<Rightarrow> bytes option \<Rightarrow> totp \<times> db \<Rightarrow> unit res \<times> (totp \<times> db)" where
  "generate_new_totp D rnd new_secret password gs p =
     (case p of (s, d) \<Rightarrow>
        (case set_secret new_secret s of (Inl e, s1) \<Rightarrow> (Inl e, (s1, d))
         | (Inr _, s1) \<Rightarrow>
             (case totp_secret s1 of None \<Rightarrow> (Inl TypeError, (s1, d))
              | Some actual \<Rightarrow> (Inr (), (s1, persist_totp_secret D rnd actual password gs d)))))"

definition init_totp ::
  "(nat \<Rightarrow> bool) \<Rightarrow> db_crypto \<Rightarrow> rat \<Rightarrow> rat \<Rightarrow> bytes \<times> bytes \<Rightarrow> bytes \<Rightarrow> bytes option \<Rightarrow>
   bytes option \<Rightarrow> totp \<times> db \<Rightarrow> unit res \<times> (totp \<times> db)" where
  "init_totp uni_digit D t1 t2 rnd new_secret password gs p =
     (case p of (s, d) \<Rightarrow>
        (case load_totp_secret uni_digit D t1 t2 password gs d s of
           (Inr True, s1) \<Rightarrow> (Inr (), (s1, d))
         | (_, s1) \<Rightarrow> generate_new_totp D rnd new_secret password gs (s1, d)))"

text \<open>\<^verbatim>\<open>regenerate_totp\<close> stores the new secret without a password.\<close>

definition regenerate_totp ::
  "db_crypto \<Rightarrow> bytes \<times> bytes \<Rightarrow> bytes \<Rightarrow> bytes option \<Rightarrow> totp \<times> db \<Rightarrow> unit res \<times> (totp \<times> db)" where
  "regenerate_totp D rnd new_secret gs p = generate_new_totp D rnd new_secret None gs p"

text \<open>The dialog that asks for a code, with the codes that are entered and their times; the end of
  the list is the cancel button. What is raised inside the handler of a button leaves the dialog open.\<close>

fun verify_dialog ::
  "(nat \<Rightarrow> bool) \<Rightarrow> (ustr \<times> rat) list \<Rightarrow> totp \<times> db \<Rightarrow> bool \<times> (totp \<times> db)" where
  "verify_dialog uni_digit [] p = (False, p)"
| "verify_dialog uni_digit ((entered, t) # rest) p =
     (if length (strip entered) \<noteq> 6 \<or> \<not> list_all (unicode_digit uni_digit) (strip entered) then verify_dialog uni_digit rest p
      else case verify uni_digit (strip entered) t True p of
             (Inr True, p1) \<Rightarrow> (True, p1)
           | (_, p1) \<Rightarrow> verify_dialog uni_digit rest p1)"

text \<open>The setup dialog: the secrets drawn by its button for a new one, and whether it was closed by
  its OK button. A secret that is refused leaves the old one.\<close>

fun setup_dialog ::
  "db_crypto \<Rightarrow> bytes option \<Rightarrow> (bytes \<times> (bytes \<times> bytes)) list \<Rightarrow> totp \<times> db \<Rightarrow> totp \<times> db" where
  "setup_dialog D gs [] p = p"
| "setup_dialog D gs ((new_secret, rnd) # rest) p =
     setup_dialog D gs rest (snd (regenerate_totp D rnd new_secret gs p))"

definition enforce_mandatory_totp_setup ::
  "db_crypto \<Rightarrow> bytes \<times> bytes \<Rightarrow> bytes \<Rightarrow> bytes option \<Rightarrow> (bytes \<times> (bytes \<times> bytes)) list \<Rightarrow> bool \<Rightarrow>
   totp \<times> db \<Rightarrow> bool res \<times> (totp \<times> db)" where
  "enforce_mandatory_totp_setup D rnd new_secret gs drawn confirmed p =
     (if is_totp_setup_complete (snd p) then (Inr True, p)
      else case (if \<not> has_secret (fst p) then generate_new_totp D rnd new_secret None gs p else (Inr (), p)) of
        (Inl e, p1) \<Rightarrow> (Inl e, p1)
      | (Inr _, p1) \<Rightarrow>
        (case setup_dialog D gs drawn p1 of (s2, d2) \<Rightarrow>
           if confirmed then (Inr True, (s2, set_totp_enabled True (set_totp_setup_complete True d2)))
           else (Inr False, (clear_secret s2, d2))))"

definition show_totp_setup ::
  "db_crypto \<Rightarrow> bytes \<times> bytes \<Rightarrow> bytes \<Rightarrow> bytes option \<Rightarrow> (bytes \<times> (bytes \<times> bytes)) list \<Rightarrow> bool \<Rightarrow>
   totp \<times> db \<Rightarrow> unit res \<times> (totp \<times> db)" where
  "show_totp_setup D rnd new_secret gs drawn confirmed p =
     (case (if \<not> has_secret (fst p) then generate_new_totp D rnd new_secret None gs p else (Inr (), p)) of
        (Inl e, p1) \<Rightarrow> (Inl e, p1)
      | (Inr _, p1) \<Rightarrow>
        (case setup_dialog D gs drawn p1 of (s2, d2) \<Rightarrow>
           if confirmed then
             (let d3 = set_totp_setup_complete True d2
              in (Inr (), (s2, if \<not> is_totp_enabled d3 then set_totp_enabled True d3 else d3)))
           else (Inr (), (s2, d2))))"

definition verify_startup_totp ::
  "(nat \<Rightarrow> bool) \<Rightarrow> (ustr \<times> rat) list \<Rightarrow> totp \<times> db \<Rightarrow> bool \<times> (totp \<times> db)" where
  "verify_startup_totp uni_digit entered p =
     (if is_totp_enabled (snd p) \<and> is_totp_setup_complete (snd p) \<and> has_secret (fst p) then
        (case verify_dialog uni_digit entered p of
           (True, p1) \<Rightarrow> (True, p1)
         | (False, (s1, d1)) \<Rightarrow> (False, (clear_secret s1, d1)))
      else (True, p))"

text \<open>The second half of \<^verbatim>\<open>request_unlock\<close>, after the password and the keys: the new service, if the
  unlock succeeds.\<close>

definition unlock_totp ::
  "(nat \<Rightarrow> bool) \<Rightarrow> db_crypto \<Rightarrow> rat \<Rightarrow> rat \<Rightarrow> bytes \<Rightarrow> bytes option \<Rightarrow> (ustr \<times> rat) list \<Rightarrow>
   db \<Rightarrow> totp option res \<times> db" where
  "unlock_totp uni_digit D t1 t2 pw gs entered d =
     (case load_totp_secret uni_digit D t1 t2 (Some pw) gs d new_totp of
        (Inl e, _) \<Rightarrow> (Inl e, d)
      | (Inr loaded, s1) \<Rightarrow>
        (if is_totp_enabled d \<and> is_totp_setup_complete d then
           (if \<not> loaded then (Inr None, d)
            else case verify_dialog uni_digit entered (s1, d) of
                   (True, (s2, d2)) \<Rightarrow> (Inr (Some s2), d2)
                 | (False, (_, d2)) \<Rightarrow> (Inr None, d2))
         else (Inr (Some s1), d)))"

text \<open>The end of a password change in the controller: the secret in memory is stored under the new
  password.\<close>

definition repersist_totp :: "db_crypto \<Rightarrow> bytes \<times> bytes \<Rightarrow> bytes \<Rightarrow> bytes option \<Rightarrow> totp \<times> db \<Rightarrow> db" where
  "repersist_totp D rnd new_pw gs p =
     (case p of (s, d) \<Rightarrow>
        (case totp_secret s of None \<Rightarrow> d | Some actual \<Rightarrow> persist_totp_secret D rnd actual (Some new_pw) gs d))"

end
