(* ===== verification/Totp_Safety.thy ===== *)
theory Totp_Safety
  imports Totp State_Machine
begin

text \<open>
  What the one-time passwords guarantee: no code is accepted twice, across restarts, and a code is
  accepted within one step of its time; and what a change of the password does to the first.
\<close>

section \<open>Codes and stored counters\<close>

lemma dec_length_bound: "0 < k \<Longrightarrow> n < 10 ^ k \<Longrightarrow> length (dec n) \<le> k"
proof (induction n arbitrary: k rule: dec.induct)
  case (1 n)
  show ?case
  proof (cases "n < 10")
    case True
    then show ?thesis using 1(2) by (subst dec.simps) simp
  next
    case False
    then obtain j where j: "k = Suc j" "0 < j" using 1(2,3) by (cases k; cases "k = 1") auto
    then have "n div 10 < 10 ^ j" using 1(3) by (simp add: div_less_iff_less_mult mult.commute)
    with 1(1) [OF False] j False show ?thesis by (subst dec.simps) simp
  qed
qed

lemma hotp_bound: "hotp s c = Inr n \<Longrightarrow> n < 10 ^ TOTP_DIGITS"
  by (auto simp: hotp_def Let_def TOTP_DIGITS_def split: if_splits)

lemma hotp_total: "0 \<le> c \<Longrightarrow> c < 256 ^ 8 \<Longrightarrow> \<exists>n. hotp s c = Inr n"
  using sha1_mac.last_digest [of s "be_bytes 8 (nat c)"]
    sha1_mac.truncation_inside [of "unat (last (hmac_sha1 s (be_bytes 8 (nat c)))) mod 16" s "be_bytes 8 (nat c)"]
  by (simp add: hotp_def Let_def)

lemma code_text_shape:
  assumes "n < 10 ^ TOTP_DIGITS"
  shows "length (code_text n) = 6" "list_all is_digit (code_text n)"
proof -
  have "length (dec n) \<le> 6" using dec_length_bound [of 6 n] assms by (simp add: TOTP_DIGITS_def)
  then show "length (code_text n) = 6" by (simp add: code_text_def TOTP_DIGITS_def)
  show "list_all is_digit (code_text n)"
    using dec_digits by (auto simp: code_text_def list_all_iff is_digit_def)
qed

lemma parse_int_json: "parse_int (json_int n) = Inr n"
proof -
  have digits: "list_all is_digit (dec k)" for k using dec_digits by (simp add: list_all_iff)
  have d: "dec k \<noteq> [] \<and> hd (dec k) \<noteq> 45 \<and> hd (dec k) \<noteq> 43" for k
  proof -
    have "dec k \<noteq> []" by (subst dec.simps) simp
    then show ?thesis using dec_digits [of "hd (dec k)" k] by (auto simp: is_digit_def)
  qed
  have "strip (45 # dec k) = 45 # dec k" for k
    using d [of k] digits [of k] digit_no_space [of "last (dec k)"]
    by (intro strip_kept) (auto simp: str_space_def list_all_iff)
  then
  show ?thesis
    using d strip_digits [OF digits] by (auto simp: parse_int_def json_int_def Let_def parse_dec_dec)
qed

lemma load_save_counter [simp]: "load_last_counter (save_last_counter c d) = c"
  by (simp add: load_last_counter_def save_last_counter_def parse_int_json)

section \<open>Accepting a code\<close>

lemma verify_loop_cases:
  assumes "verify_loop secret code track cs (s, d) = (r, (s', d'))"
  shows "(r = Inr True \<and> track \<and> last_counter s < last_counter s' \<and>
      persist_counter s' = persist_counter s \<and> totp_secret s' = totp_secret s \<and>
      d' = (if persist_counter s then save_last_counter (last_counter s') d else d)) \<or>
    (track \<longrightarrow> r \<noteq> Inr True) \<and> s' = s \<and> d' = d"
  using assms by (induction cs) (auto split: sum.splits if_splits)

lemma verify_cases:
  assumes "verify uni_digit code t True (s, d) = (r, (s', d'))"
  obtains (accepted) "r = Inr True" "last_counter s < last_counter s'" "persist_counter s' = persist_counter s"
      "d' = (if persist_counter s then save_last_counter (last_counter s') d else d)"
    | (refused) "r \<noteq> Inr True" "s' = s" "d' = d"
proof -
  consider secret where
      "verify_loop secret (strip code) True (map (\<lambda>off. time_counter t + off) [- TOTP_DRIFT..TOTP_DRIFT]) (s, d) = (r, (s', d'))"
    | "r \<noteq> Inr True" "s' = s" "d' = d"
    using assms by (auto simp: verify_def Let_def split: option.splits if_splits)
  then show ?thesis
  proof cases
    case 1
    from verify_loop_cases [OF this] accepted refused show ?thesis by blast
  qed (rule refused)
qed

lemma set_secret_counter: "set_secret x s = (r, s') \<Longrightarrow> last_counter s' = -1 \<or> s' = s"
  by (auto simp: set_secret_def split: if_splits)

lemma set_raw_secret_counter: "set_raw_secret x s = (r, s') \<Longrightarrow> last_counter s' = -1 \<or> s' = s"
  by (auto simp: set_raw_secret_def split: if_splits)

text \<open>A secret that was loaded is wired to the stored counter.\<close>

lemma try_secret_wired:
  assumes "try_secret uni_digit t1 t2 d opened s = (ok, s')" "last_counter s = -1"
  shows "if ok then persist_counter s' \<and> last_counter s' = max (-1) (load_last_counter d)
    else last_counter s' = -1"
  using assms set_secret_counter set_raw_secret_counter
  by (fastforce simp: try_secret_def wire_replay_counter_def set_counter_persistence_def
      split: sum.splits prod.splits if_splits)

lemma load_wired:
  assumes "load_totp_secret uni_digit D t1 t2 pw gs d new_totp = (Inr True, s)"
  shows "persist_counter s \<and> last_counter s = max (-1) (load_last_counter d)"
proof -
  have new: "last_counter new_totp = -1" by (simp add: new_totp_def)
  show ?thesis
  proof (cases "get_setting TOTP_SECRET_KEY d")
    case None
    then show ?thesis using assms new set_secret_counter
      by (fastforce simp: load_totp_secret_def wire_replay_counter_def set_counter_persistence_def
          split: if_splits prod.splits sum.splits)
  next
    case (Some v)
    then obtain enc where v: "v = Secret enc" using assms by (cases v) (auto simp: load_totp_secret_def)
    obtain ok s1 where 1: "(if given pw then try_secret uni_digit t1 t2 d (decrypt_secret D enc (the pw)) new_totp
        else (False, new_totp)) = (ok, s1)" by fastforce
    have w: "if ok then persist_counter s1 \<and> last_counter s1 = max (-1) (load_last_counter d)
        else last_counter s1 = -1"
      using 1 new try_secret_wired by (fastforce split: if_splits)
    show ?thesis
    proof (cases ok)
      case True
      with assms Some v 1 w show ?thesis by (simp add: load_totp_secret_def)
    next
      case False
      with assms Some v 1 obtain s2 where
        "try_secret uni_digit t1 t2 d (decrypt_secret D enc (map of_nat (hex (the gs)))) s1 = (True, s2)" "s2 = s"
        by (auto simp: load_totp_secret_def split: if_splits prod.splits)
      with try_secret_wired [of uni_digit t1 t2 d _ s1] w False show ?thesis by fastforce
    qed
  qed
qed

section \<open>Sessions\<close>

text \<open>The service, the database and the counters accepted so far, newest first. The program asks for a
  code, is started again, or writes other settings.\<close>

type_synonym totp_session = "totp \<times> db \<times> int list"

inductive totp_init :: "(nat \<Rightarrow> bool) \<Rightarrow> db_crypto \<Rightarrow> totp_session \<Rightarrow> bool" for uni_digit D where
  "load_totp_secret uni_digit D t1 t2 pw gs d new_totp = (Inr True, s) \<Longrightarrow> totp_init uni_digit D (s, d, [])"

inductive totp_step :: "(nat \<Rightarrow> bool) \<Rightarrow> db_crypto \<Rightarrow> totp_session \<Rightarrow> totp_session \<Rightarrow> bool" for uni_digit D where
  accept: "verify uni_digit code t True (s, d) = (Inr True, (s', d')) \<Longrightarrow>
    totp_step uni_digit D (s, d, acc) (s', d', last_counter s' # acc)"
| refuse: "verify uni_digit code t True (s, d) = (r, (s', d')) \<Longrightarrow> r \<noteq> Inr True \<Longrightarrow>
    totp_step uni_digit D (s, d, acc) (s', d', acc)"
| restart: "load_totp_secret uni_digit D t1 t2 pw gs d new_totp = (Inr True, s') \<Longrightarrow>
    totp_step uni_digit D (s, d, acc) (s', d, acc)"
| other_setting: "k \<noteq> TOTP_LAST_COUNTER_KEY \<Longrightarrow> totp_step uni_digit D (s, d, acc) (s, put_setting k v d, acc)"

inductive_cases totp_stepE: "totp_step uni_digit D x y"

definition totp_inv :: "totp_session \<Rightarrow> bool" where
  "totp_inv x \<longleftrightarrow> (case x of (s, d, acc) \<Rightarrow>
     persist_counter s \<and> last_counter s = max (-1) (load_last_counter d) \<and>
     sorted_wrt (>) acc \<and> (\<forall>c\<in>set acc. c \<le> last_counter s))"

lemma load_other_setting: "k \<noteq> TOTP_LAST_COUNTER_KEY \<Longrightarrow> load_last_counter (put_setting k v d) = load_last_counter d"
  by (simp add: load_last_counter_def)

interpretation totp_machine: state_machine "totp_init uni_digit D" "totp_step uni_digit D" totp_inv for uni_digit D
proof
  show "totp_inv x" if "totp_init uni_digit D x" for x
    using that by (auto simp: totp_inv_def dest!: load_wired elim!: totp_init.cases)
next
  fix x y
  assume inv: "totp_inv x" and step: "totp_step uni_digit D x y"
  from step show "totp_inv y"
  proof cases
    case (accept code t s d s' d' acc)
    from accept(3) show ?thesis
    proof (cases rule: verify_cases)
      case accepted
      with inv accept(1,2) show ?thesis by (fastforce simp: totp_inv_def)
    qed simp
  next
    case (refuse code t s d r s' d' acc)
    from refuse(3) show ?thesis using inv refuse(1,2,4) by (cases rule: verify_cases) auto
  next
    case (restart t1 t2 pw gs d s' s acc)
    with inv load_wired [OF restart(3)] show ?thesis by (auto simp: totp_inv_def)
  next
    case (other_setting k s d acc v)
    with inv show ?thesis by (auto simp: totp_inv_def load_other_setting)
  qed
qed

section \<open>Finding a code\<close>

lemma verify_loop_found:
  assumes "list_all is_digit code" "\<forall>c\<in>set cs. \<exists>n. hotp secret c = Inr n"
    and "c0 \<in> set cs" "hotp secret c0 = Inr n0" "code = code_text n0"
  shows "\<exists>c\<in>set cs. \<forall>track p. verify_loop secret code track cs p =
    (if \<not> track then (Inr True, p) else if c \<le> last_counter (fst p) then (Inr False, p)
     else (Inr True, ((fst p)\<lparr>last_counter := c\<rparr>, if persist_counter (fst p) then save_last_counter c (snd p) else snd p)))"
  using assms(2,3)
proof (induction cs)
  case (Cons c cs)
  from Cons.prems obtain n where n: "hotp secret c = Inr n" by auto
  have ascii: "\<not> list_ex (\<lambda>x. 128 \<le> x) code"
    using assms(1) by (auto simp: list_all_iff list_ex_iff is_digit_def)
  show ?case
  proof (cases "code = code_text n")
    case True
    then show ?thesis using n ascii by (intro bexI [of _ c]) auto
  next
    case False
    then have "c0 \<in> set cs" using Cons.prems assms(4,5) n by auto
    with Cons obtain c' where "c' \<in> set cs" "\<forall>track p. verify_loop secret code track cs p =
      (if \<not> track then (Inr True, p) else if c' \<le> last_counter (fst p) then (Inr False, p)
       else (Inr True, ((fst p)\<lparr>last_counter := c'\<rparr>, if persist_counter (fst p) then save_last_counter c' (snd p) else snd p)))"
      by auto
    then show ?thesis using n ascii False by (intro bexI [of _ c']) auto
  qed
qed simp

text \<open>The time step \<open>b\<close> is one whose three candidates can be packed in eight bytes.\<close>

definition usable_step :: "int \<Rightarrow> bool" where
  "usable_step b \<longleftrightarrow> 1 \<le> b \<and> b + 1 < 256 ^ 8"

lemma verify_generated:
  assumes "hotp secret c0 = Inr n0" and "usable_step (time_counter t)" "\<bar>c0 - time_counter t\<bar> \<le> 1"
  obtains c where "\<bar>c - time_counter t\<bar> \<le> 1"
    and "\<And>track s d. totp_secret s = Some secret \<Longrightarrow> verify uni_digit (code_text n0) t track (s, d) =
      (if \<not> track then (Inr True, (s, d)) else if c \<le> last_counter s then (Inr False, (s, d))
       else (Inr True, (s\<lparr>last_counter := c\<rparr>, if persist_counter s then save_last_counter c d else d)))"
proof -
  let ?b = "time_counter t"
  have cs: "map (\<lambda>off. ?b + off) [- TOTP_DRIFT..TOTP_DRIFT] = [?b - 1, ?b, ?b + 1]"
    by (simp add: TOTP_DRIFT_def upto.simps)
  have shape: "length (code_text n0) = 6" "list_all is_digit (code_text n0)"
    using code_text_shape [OF hotp_bound [OF assms(1)]] by auto
  then have "list_all (unicode_digit uni_digit) (code_text n0)"
    by (auto simp: list_all_iff unicode_digit_def)
  moreover have "\<forall>c\<in>set [?b - 1, ?b, ?b + 1]. \<exists>n. hotp secret c = Inr n"
    using assms(2) hotp_total by (auto simp: usable_step_def)
  moreover have "c0 \<in> set [?b - 1, ?b, ?b + 1]" using assms(3) by auto
  ultimately obtain c where c: "c \<in> set [?b - 1, ?b, ?b + 1]" and l: "\<And>track p.
      verify_loop secret (code_text n0) track [?b - 1, ?b, ?b + 1] p =
      (if \<not> track then (Inr True, p) else if c \<le> last_counter (fst p) then (Inr False, p)
       else (Inr True, ((fst p)\<lparr>last_counter := c\<rparr>, if persist_counter (fst p) then save_last_counter c (snd p) else snd p)))"
    using verify_loop_found [OF shape(2) _ _ assms(1) refl] by blast
  have "verify uni_digit (code_text n0) t track p = verify_loop secret (code_text n0) track [?b - 1, ?b, ?b + 1] p"
    if "totp_secret (fst p) = Some secret" for track p
    using that shape \<open>list_all (unicode_digit uni_digit) (code_text n0)\<close>
    by (simp add: verify_def strip_digits cs TOTP_DIGITS_def Let_def del: verify_loop.simps)
  with l c show ?thesis by (intro that [of c]) auto
qed

lemma fresh_code_accepted:
  assumes "totp_secret s = Some secret" "hotp secret c0 = Inr n"
    and "usable_step (time_counter t')" "\<bar>c0 - time_counter t'\<bar> \<le> 1" "last_counter s < time_counter t' - 1"
  shows "\<exists>s' d'. verify uni_digit (code_text n) t' True (s, d) = (Inr True, (s', d')) \<and> totp_secret s' = Some secret \<and>
    \<bar>last_counter s' - time_counter t'\<bar> \<le> 1"
proof (rule verify_generated [OF assms(2-4)])
  fix c
  assume c: "\<bar>c - time_counter t'\<bar> \<le> 1"
    and v: "\<And>track s d. totp_secret s = Some secret \<Longrightarrow> verify uni_digit (code_text n) t' track (s, d) =
      (if \<not> track then (Inr True, (s, d)) else if c \<le> last_counter s then (Inr False, (s, d))
       else (Inr True, (s\<lparr>last_counter := c\<rparr>, if persist_counter s then save_last_counter c d else d)))"
  from c v [OF assms(1), of True d] assms(1,5) show ?thesis by auto
qed

text \<open>Storing the secret again under another password resets the stored counter.\<close>

lemma load_repersisted:
  assumes "db_laws D" "encrypt_secret D (fst rnd) (snd rnd) secret new_pw = Inr enc" "new_pw \<noteq> []"
    and "totp_secret s = Some secret" "length secret = 20" "usable_step (time_counter t)"
  shows "\<exists>s2. load_totp_secret uni_digit D t t (Some new_pw) gs (repersist_totp D rnd new_pw gs (s, d)) new_totp = (Inr True, s2) \<and>
    totp_secret s2 = Some secret \<and> last_counter s2 = -1"
proof -
  let ?d = "put_setting TOTP_LAST_COUNTER_KEY (Text (ustr ''-1'')) (put_setting TOTP_SECRET_KEY (Secret enc) d)"
  let ?s = "new_totp\<lparr>totp_secret := Some secret\<rparr>"
  have d: "repersist_totp D rnd new_pw gs (s, d) = ?d"
    using assms(2-4) by (simp add: repersist_totp_def persist_totp_secret_def given_def)
  have counter: "load_last_counter ?d = -1"
  proof -
    have "json_int (-1) = ustr ''-1''" by (simp add: json_int_def dec.simps ustr_def)
    then show ?thesis using parse_int_json [of "-1"] by (simp add: load_last_counter_def)
  qed
  have key: "get_setting TOTP_SECRET_KEY ?d = Some (Secret enc)"
    by (simp add: TOTP_SECRET_KEY_def TOTP_LAST_COUNTER_KEY_def ustr_def)
  obtain n where n: "hotp secret (time_counter t) = Inr n"
    using hotp_total [of "time_counter t" secret] assms(6) by (auto simp: usable_step_def)
  have "fst (verify uni_digit (code_text n) t False (?s, ?d)) = Inr True"
  proof (rule verify_generated [where uni_digit = uni_digit, OF n assms(6)])
    show "\<bar>time_counter t - time_counter t\<bar> \<le> 1" by simp
  qed simp
  moreover have "set_raw_secret secret new_totp = (Inr (), ?s)"
    using assms(5) by (simp add: set_raw_secret_def new_totp_def)
  moreover have "generate t ?s = Inr (code_text n)" using n by (simp add: generate_def)
  ultimately have "try_secret uni_digit t t ?d (Inr secret) new_totp = (True, wire_replay_counter ?d ?s)"
    using assms(5) by (simp add: try_secret_def)
  then show ?thesis
    using db_laws.decrypt_encrypt [OF assms(1,2)] key assms(3) counter unfolding d
    by (simp add: load_totp_secret_def given_def wire_replay_counter_def set_counter_persistence_def new_totp_def)
qed

section \<open>Properties\<close>

text \<open>C23. A generated code has six characters, all ASCII digits, for every secret and every time.\<close>

theorem generated_code_shape:
  assumes "generate t s = Inr code"
  shows "length code = 6 \<and> list_all is_digit code"
  using assms hotp_bound code_text_shape by (auto simp: generate_def split: option.splits sum.splits)

definition demo_secret :: bytes where "demo_secret = replicate 20 7"

definition demo_totp :: totp where
  "demo_totp = \<lparr>totp_secret = Some demo_secret, last_counter = -1, persist_counter = True\<rparr>"

lemma demo_generates: "\<exists>code. generate 1000 demo_totp = Inr code"
  using hotp_total [of 33 demo_secret] by (auto simp: generate_def demo_totp_def time_counter_def trunc_def TOTP_INTERVAL_def)

theorem generated_code_shape_witness:
  "\<exists>code. generate 1000 demo_totp = Inr code \<and> length code = 6 \<and> list_all is_digit code"
  using demo_generates generated_code_shape by blast

text \<open>C8. No code is accepted twice: over every sequence of attempts, at any times, of restarts and of
  other writes, the counters of the accepted codes increase strictly, and the newest is the stored
  one.\<close>

theorem totp_single_use:
  assumes "reachable (totp_init uni_digit D) (totp_step uni_digit D) (s, d, acc)"
  shows "sorted_wrt (>) acc \<and> last_counter s = max (-1) (load_last_counter d)"
  using totp_machine.reachable_invariant [OF assms] by (simp add: totp_inv_def)

theorem totp_single_use_witness:
  "\<exists>s code s' d'. totp_init (\<lambda>_. False) ref_db_crypto (s, empty_db, []) \<and>
     verify (\<lambda>_. False) code 1000 True (s, empty_db) = (Inr True, (s', d')) \<and>
     sorted_wrt (>) [last_counter s'] \<and> last_counter s' = max (-1) (load_last_counter d')"
proof -
  obtain s where load: "load_totp_secret (\<lambda>_. False) ref_db_crypto 1000 1000 None (Some demo_secret) empty_db new_totp = (Inr True, s)"
    and s: "totp_secret s = Some demo_secret" "last_counter s = -1"
    by (auto simp: load_totp_secret_def get_setting_def select_key_def empty_db_def given_def demo_secret_def set_secret_def
        wire_replay_counter_def set_counter_persistence_def load_last_counter_def new_totp_def)
  from load have init: "totp_init (\<lambda>_. False) ref_db_crypto (s, empty_db, [])" by (rule totp_init.intros)
  have step: "usable_step (time_counter 1000)" "time_counter 1000 = 33"
    by (simp_all add: usable_step_def time_counter_def trunc_def TOTP_INTERVAL_def)
  obtain n where "hotp demo_secret 33 = Inr n" using hotp_total [of 33 demo_secret] by auto
  then obtain s' d' where v: "verify (\<lambda>_. False) (code_text n) 1000 True (s, empty_db) = (Inr True, (s', d'))"
    using fresh_code_accepted [OF s(1) _ step(1), of 33 n "\<lambda>_. False" empty_db] s(2) step(2) by auto
  from init v have "reachable (totp_init (\<lambda>_. False) ref_db_crypto) (totp_step (\<lambda>_. False) ref_db_crypto) (s', d', [last_counter s'])"
    by (blast intro: reachable.intros totp_step.accept)
  from totp_single_use [OF this] init v show ?thesis by blast
qed

text \<open>A generated code is accepted for one time step before and after its own, once the newest
  accepted counter is older than that window; the accepted counter lies in the window.\<close>

theorem totp_code_accepted:
  assumes "totp_secret s = Some secret" "generate t s = Inr code"
    and "usable_step (time_counter t')" "\<bar>time_counter t - time_counter t'\<bar> \<le> 1"
    and "last_counter s < time_counter t' - 1"
  shows "\<exists>s' d'. verify uni_digit code t' True (s, d) = (Inr True, (s', d')) \<and> totp_secret s' = Some secret \<and>
    \<bar>last_counter s' - time_counter t'\<bar> \<le> 1"
proof -
  from assms(1,2) obtain n where n: "hotp secret (time_counter t) = Inr n" "code = code_text n"
    by (auto simp: generate_def split: sum.splits)
  from fresh_code_accepted [OF assms(1) n(1) assms(3,4,5)] n(2) show ?thesis by simp
qed

theorem totp_code_accepted_witness:
  "\<exists>code s' d'. generate 1000 demo_totp = Inr code \<and>
    verify (\<lambda>_. False) code 1025 True (demo_totp, empty_db) = (Inr True, (s', d')) \<and>
    totp_secret s' = Some demo_secret \<and> \<bar>last_counter s' - time_counter 1025\<bar> \<le> 1"
proof -
  obtain code where g: "generate 1000 demo_totp = Inr code" using demo_generates by blast
  have c: "time_counter 1000 = 33" "time_counter 1025 = 34" by (simp_all add: time_counter_def trunc_def TOTP_INTERVAL_def)
  have "\<exists>s' d'. verify (\<lambda>_. False) code 1025 True (demo_totp, empty_db) = (Inr True, (s', d')) \<and>
      totp_secret s' = Some demo_secret \<and> \<bar>last_counter s' - time_counter 1025\<bar> \<le> 1"
    by (rule totp_code_accepted [OF _ g]) (simp_all add: demo_totp_def c usable_step_def)
  with g show ?thesis by blast
qed

text \<open>A change of the password undoes the protection: a code that was accepted is refused when it is
  entered again, but once the password has been changed and the program started again the same code,
  in the same time step, is accepted a second time.\<close>

theorem password_change_replays_code:
  assumes "db_laws D" "length (snd rnd) = 12" "new_pw \<noteq> []"
    and "totp_secret s = Some secret" "length secret = 20" "-1 \<le> last_counter s" "usable_step (time_counter t)"
    and "generate t s = Inr code" "verify uni_digit code t True (s, d) = (Inr True, (s1, d1))"
  shows "fst (verify uni_digit code t True (s1, d1)) = Inr False \<and>
    (\<exists>s2. load_totp_secret uni_digit D t t (Some new_pw) gs (repersist_totp D rnd new_pw gs (s1, d1)) new_totp = (Inr True, s2) \<and>
       fst (verify uni_digit code t True (s2, repersist_totp D rnd new_pw gs (s1, d1))) = Inr True)"
proof -
  from assms(4,8) obtain n where n: "hotp secret (time_counter t) = Inr n" "code = code_text n"
    by (auto simp: generate_def split: sum.splits)
  obtain c where v: "\<And>track s d. totp_secret s = Some secret \<Longrightarrow> verify uni_digit code t track (s, d) =
      (if \<not> track then (Inr True, (s, d)) else if c \<le> last_counter s then (Inr False, (s, d))
       else (Inr True, (s\<lparr>last_counter := c\<rparr>, if persist_counter s then save_last_counter c d else d)))"
    using verify_generated [OF n(1) assms(7)] n(2) by (metis abs_zero diff_self zero_le_one)
  from v [OF assms(4), of True d] assms(9) have s1: "s1 = s\<lparr>last_counter := c\<rparr>" "last_counter s < c"
    by (auto split: if_splits)
  with assms(4) have k: "totp_secret s1 = Some secret" by simp
  obtain enc where "encrypt_secret D (fst rnd) (snd rnd) secret new_pw = Inr enc"
    using db_laws.encrypt_total [OF assms(1,2), of secret] assms(5) by auto
  from load_repersisted [OF assms(1) this assms(3) k assms(5,7)] obtain s2 where
    "load_totp_secret uni_digit D t t (Some new_pw) gs (repersist_totp D rnd new_pw gs (s1, d1)) new_totp = (Inr True, s2)"
    "totp_secret s2 = Some secret" "last_counter s2 = -1" by blast
  then show ?thesis using v [OF k, of True d1] v [of s2 True] s1 assms(6) by auto
qed

theorem password_change_replays_code_witness:
  "\<exists>code s1 d1. generate 1000 demo_totp = Inr code \<and>
    verify (\<lambda>_. False) code 1000 True (demo_totp, empty_db) = (Inr True, (s1, d1)) \<and>
    fst (verify (\<lambda>_. False) code 1000 True (s1, d1)) = Inr False \<and>
    (\<exists>s2. load_totp_secret (\<lambda>_. False) ref_db_crypto 1000 1000 (Some [65])  None
         (repersist_totp ref_db_crypto ([1], replicate 12 0) [65] None (s1, d1)) new_totp = (Inr True, s2) \<and>
       fst (verify (\<lambda>_. False) code 1000 True (s2, repersist_totp ref_db_crypto ([1], replicate 12 0) [65] None (s1, d1))) = Inr True)"
proof -
  obtain code where g: "generate 1000 demo_totp = Inr code" using demo_generates by blast
  have c: "time_counter 1000 = 33" by (simp add: time_counter_def trunc_def TOTP_INTERVAL_def)
  from g obtain n where n: "hotp demo_secret 33 = Inr n" "code = code_text n"
    by (auto simp: generate_def demo_totp_def c split: sum.splits)
  have "\<exists>s1 d1. verify (\<lambda>_. False) (code_text n) 1000 True (demo_totp, empty_db) = (Inr True, (s1, d1)) \<and>
      totp_secret s1 = Some demo_secret \<and> \<bar>last_counter s1 - time_counter 1000\<bar> \<le> 1"
    by (rule fresh_code_accepted [OF _ n(1)]) (simp_all add: demo_totp_def c usable_step_def)
  then obtain s1 d1 where v: "verify (\<lambda>_. False) code 1000 True (demo_totp, empty_db) = (Inr True, (s1, d1))"
    using n(2) by blast
  have "length (snd ([1 :: 8 word], replicate 12 (0 :: 8 word))) = 12" by simp
  from password_change_replays_code [OF ref_db_laws this _ _ _ _ _ g v, of "[65]" demo_secret None] g v show ?thesis
    by (auto simp: demo_totp_def demo_secret_def c usable_step_def)
qed

end
