(* ===== verification/Hybrid_KEM.thy ===== *)
theory Hybrid_KEM
  imports Hybrid_Signer
begin

text \<open>
  \<^verbatim>\<open>services/pqc_service.py\<close>: key encapsulation that combines X25519 with Kyber768. X25519, the
  Kyber of liboqs and HKDF are the fields of \<open>kem_crypto\<close>; a key is its raw bytes, and what a call
  draws at random is an argument. The contract a user of the hybrid relies on is the locale \<open>kem\<close>;
  the hybrid meets it when its two parts do.
\<close>

record kem_crypto =
  x_public :: "bytes \<Rightarrow> bytes"
  x_exchange :: "bytes \<Rightarrow> bytes \<Rightarrow> bytes res"
  ky_encap :: "bytes \<Rightarrow> bytes \<Rightarrow> (bytes \<times> bytes) res"
  ky_decap :: "bytes \<Rightarrow> bytes \<Rightarrow> bytes res"
  kem_hkdf :: "bytes \<Rightarrow> bytes"
  kem_oqs :: bool
  kem_enabled :: "string list res"

definition KEM_ALGORITHM :: string where "KEM_ALGORITHM = ''Kyber768''"
definition X25519_PUB_KEY_LEN :: nat where "X25519_PUB_KEY_LEN = 32"
definition MIN_COMBINED_PUB_LEN :: nat where "MIN_COMBINED_PUB_LEN = 2 + X25519_PUB_KEY_LEN + 2"

definition is_pqc_available :: "kem_crypto \<Rightarrow> bool" where
  "is_pqc_available K \<longleftrightarrow>
     kem_oqs K \<and> (case kem_enabled K of Inl _ \<Rightarrow> False | Inr algs \<Rightarrow> KEM_ALGORITHM \<in> set algs)"

section \<open>Keys\<close>

record kem_keys =
  kk_x25519_priv :: bytes
  kk_x25519_pub :: bytes
  kk_kyber_priv :: bytes
  kk_kyber_pub :: bytes
  kk_combined_pub :: bytes

text \<open>\<open>keypair\<close> is what liboqs generates: public and secret key.\<close>

definition kem_generate_keys :: "kem_crypto \<Rightarrow> bytes \<Rightarrow> (bytes \<times> bytes) res \<Rightarrow> kem_keys res" where
  "kem_generate_keys K x_priv keypair =
     (if \<not> kem_oqs K then Inl RuntimeError
      else let x_pub_bytes = x_public K x_priv in
        if length x_pub_bytes \<noteq> X25519_PUB_KEY_LEN then Inl RuntimeError
        else case keypair of Inl e \<Rightarrow> Inl e
          | Inr (ky_pub_bytes, ky_priv) \<Rightarrow>
              if length ky_pub_bytes = 0 then Inl RuntimeError
              else case pack_u16 (length x_pub_bytes) of Inl e \<Rightarrow> Inl e
                | Inr a \<Rightarrow> (case pack_u16 (length ky_pub_bytes) of Inl e \<Rightarrow> Inl e
                    | Inr b \<Rightarrow> Inr \<lparr>kk_x25519_priv = x_priv, kk_x25519_pub = x_pub_bytes, kk_kyber_priv = ky_priv,
                                  kk_kyber_pub = ky_pub_bytes,
                                  kk_combined_pub = (a @ x_pub_bytes) @ (b @ ky_pub_bytes)\<rparr>))"

definition parse_kem_pub :: "bytes \<Rightarrow> (bytes \<times> bytes) res" where
  "parse_kem_pub combined_pub =
     (if length combined_pub < MIN_COMBINED_PUB_LEN then Inl ValueError
      else case unpack_u16 (slice 0 2 combined_pub) of Inl _ \<Rightarrow> Inl ValueError
        | Inr x_len \<Rightarrow>
            if x_len \<noteq> X25519_PUB_KEY_LEN then Inl ValueError
            else if 2 + x_len > length combined_pub then Inl ValueError
            else let remote_x_pub = slice 2 (2 + x_len) combined_pub; offset = 2 + x_len in
              if offset + 2 > length combined_pub then Inl ValueError
              else case unpack_u16 (slice offset (offset + 2) combined_pub) of Inl _ \<Rightarrow> Inl ValueError
                | Inr ky_len \<Rightarrow>
                    let offset = offset + 2 in
                    if offset + ky_len > length combined_pub then Inl ValueError
                    else let remote_ky_pub = slice offset (offset + ky_len) combined_pub in
                      if length remote_ky_pub = 0 then Inl ValueError
                      else Inr (remote_x_pub, remote_ky_pub))"

section \<open>Encapsulation\<close>

text \<open>\<open>from_public_bytes\<close> takes exactly 32 bytes. The result is the ciphertext and the shared
  secret.\<close>

definition encapsulate :: "kem_crypto \<Rightarrow> bytes \<Rightarrow> bytes \<Rightarrow> bytes \<Rightarrow> (bytes \<times> bytes) res" where
  "encapsulate K x_priv seed remote_combined_pub =
     (if \<not> kem_oqs K then Inl RuntimeError
      else case parse_kem_pub remote_combined_pub of Inl e \<Rightarrow> Inl e
        | Inr (remote_x_pub, remote_ky_pub) \<Rightarrow>
            if length remote_x_pub \<noteq> 32 then Inl ValueError
            else case x_exchange K x_priv remote_x_pub of Inl e \<Rightarrow> Inl e
              | Inr x_shared \<Rightarrow>
                  (case ky_encap K seed remote_ky_pub of Inl e \<Rightarrow> Inl e
                   | Inr (ct, pq_shared) \<Rightarrow> Inr (x_public K x_priv @ ct, kem_hkdf K (x_shared @ pq_shared))))"

text \<open>The dictionary \<^verbatim>\<open>keys\<close> is its two entries.\<close>

definition decapsulate :: "kem_crypto \<Rightarrow> bytes option \<Rightarrow> bytes option \<Rightarrow> bytes \<Rightarrow> bytes res" where
  "decapsulate K x25519_priv kyber_priv ciphertext =
     (if \<not> kem_oqs K then Inl RuntimeError
      else if length ciphertext < X25519_PUB_KEY_LEN + 1 then Inl ValueError
      else let remote_x_pub_bytes = take X25519_PUB_KEY_LEN ciphertext; kyber_ct = drop X25519_PUB_KEY_LEN ciphertext in
        case x25519_priv of None \<Rightarrow> Inl KeyError
        | Some x \<Rightarrow>
          (case kyber_priv of None \<Rightarrow> Inl KeyError
           | Some ky \<Rightarrow>
               if length remote_x_pub_bytes \<noteq> 32 then Inl ValueError
               else case x_exchange K x remote_x_pub_bytes of Inl e \<Rightarrow> Inl e
                 | Inr x_shared \<Rightarrow>
                     (case ky_decap K ky kyber_ct of Inl e \<Rightarrow> Inl e
                      | Inr pq_shared \<Rightarrow> Inr (kem_hkdf K (x_shared @ pq_shared)))))"

section \<open>The contract\<close>

text \<open>A key encapsulation mechanism: what is encapsulated for the public key of a pair, the secret key
  of the pair opens.\<close>

locale kem =
  fixes encap :: "'rnd \<Rightarrow> bytes \<Rightarrow> (bytes \<times> bytes) res"
    and decap :: "'priv \<Rightarrow> bytes \<Rightarrow> bytes res"
    and pair :: "'priv \<Rightarrow> bytes \<Rightarrow> bool"
  assumes decap_encap: "pair priv pub \<Longrightarrow> encap rnd pub = Inr (ct, secret) \<Longrightarrow> decap priv ct = Inr secret"
begin

lemma same_ciphertext_same_secret:
  "pair priv pub \<Longrightarrow> encap r pub = Inr (ct, s) \<Longrightarrow> encap r' pub = Inr (ct, s') \<Longrightarrow> s = s'"
  using decap_encap [of priv pub r ct s] decap_encap [of priv pub r' ct s'] by simp

end

text \<open>The pairs of the hybrid: both parts of the combined key belong to the secret keys.\<close>

definition hybrid_pair :: "kem_crypto \<Rightarrow> (bytes \<Rightarrow> bytes \<Rightarrow> bool) \<Rightarrow> bytes \<times> bytes \<Rightarrow> bytes \<Rightarrow> bool" where
  "hybrid_pair K ky_pair priv pub \<longleftrightarrow>
     (case parse_kem_pub pub of Inl _ \<Rightarrow> False
      | Inr (x_pub, ky_pub) \<Rightarrow> x_pub = x_public K (fst priv) \<and> ky_pair (snd priv) ky_pub)"

locale kem_laws =
  fixes K :: kem_crypto and ky_pair :: "bytes \<Rightarrow> bytes \<Rightarrow> bool"
  assumes x_sym: "x_exchange K a (x_public K b) = x_exchange K b (x_public K a)"
    and x_length: "length (x_public K a) = 32"
    and hkdf_length: "length (kem_hkdf K ikm) = 32"
    and kyber: "kem (ky_encap K) (ky_decap K) ky_pair"
    and ky_ct: "ky_encap K seed pub = Inr (ct, s) \<Longrightarrow> ct \<noteq> []"
begin

lemma parse_generated:
  assumes "kem_generate_keys K x_priv keypair = Inr keys"
  shows "parse_kem_pub (kk_combined_pub keys) = Inr (x_public K x_priv, kk_kyber_pub keys)"
    and "kk_x25519_priv keys = x_priv" "keypair = Inr (kk_kyber_pub keys, kk_kyber_priv keys)"
proof -
  obtain ky_pub ky_priv a b where kp: "keypair = Inr (ky_pub, ky_priv)" "ky_pub \<noteq> []"
    and ab: "pack_u16 32 = Inr a" "pack_u16 (length ky_pub) = Inr b"
    and keys: "keys = \<lparr>kk_x25519_priv = x_priv, kk_x25519_pub = x_public K x_priv, kk_kyber_priv = ky_priv,
      kk_kyber_pub = ky_pub, kk_combined_pub = (a @ x_public K x_priv) @ (b @ ky_pub)\<rparr>"
    using assms x_length [of x_priv] by (auto simp: kem_generate_keys_def Let_def split: if_splits sum.splits)
  have "length a = 2" "length b = 2" "unpack_u16 a = Inr 32" "unpack_u16 b = Inr (length ky_pub)"
    using ab pack_be_length unpack_pack by blast+
  then show "parse_kem_pub (kk_combined_pub keys) = Inr (x_public K x_priv, kk_kyber_pub keys)"
    using kp(2) x_length [of x_priv]
    by (simp add: parse_kem_pub_def keys MIN_COMBINED_PUB_LEN_def X25519_PUB_KEY_LEN_def slice_def Let_def)
  show "kk_x25519_priv keys = x_priv" "keypair = Inr (kk_kyber_pub keys, kk_kyber_priv keys)"
    using keys kp(1) by simp_all
qed

lemma generated_pair:
  assumes "kem_generate_keys K x_priv (Inr (ky_pub, ky_priv)) = Inr keys" "ky_pair ky_priv ky_pub"
  shows "hybrid_pair K ky_pair (kk_x25519_priv keys, kk_kyber_priv keys) (kk_combined_pub keys)"
  using parse_generated [OF assms(1)] assms(2) by (auto simp: hybrid_pair_def)

lemma decapsulate_encapsulate:
  assumes "hybrid_pair K ky_pair priv pub" "encapsulate K (fst rnd) (snd rnd) pub = Inr (ct, secret)"
  shows "decapsulate K (Some (fst priv)) (Some (snd priv)) ct = Inr secret"
proof -
  obtain ky_pub where p: "parse_kem_pub pub = Inr (x_public K (fst priv), ky_pub)" "ky_pair (snd priv) ky_pub"
    using assms(1) by (auto simp: hybrid_pair_def split: sum.splits)
  from assms(2) p(1) obtain x_shared kct pq where
    x: "x_exchange K (fst rnd) (x_public K (fst priv)) = Inr x_shared"
    and ky: "ky_encap K (snd rnd) ky_pub = Inr (kct, pq)"
    and ct: "ct = x_public K (fst rnd) @ kct" "secret = kem_hkdf K (x_shared @ pq)" and oqs: "kem_oqs K"
    by (auto simp: encapsulate_def split: if_splits sum.splits)
  have "0 < length kct" using ky_ct [OF ky] by simp
  then show ?thesis
    using kem.decap_encap [OF kyber p(2) ky] x x_sym [of "fst priv" "fst rnd"] oqs x_length [of "fst rnd"]
    by (simp add: decapsulate_def ct X25519_PUB_KEY_LEN_def Let_def)
qed

lemma encapsulated_secret_length: "encapsulate K x seed pub = Inr (ct, secret) \<Longrightarrow> length secret = 32"
  using hkdf_length by (auto simp: encapsulate_def split: if_splits sum.splits)

end

text \<open>The hybrid meets the contract of its post-quantum part.\<close>

sublocale kem_laws < hybrid: kem "\<lambda>rnd. encapsulate K (fst rnd) (snd rnd)"
    "\<lambda>priv. decapsulate K (Some (fst priv)) (Some (snd priv))" "hybrid_pair K ky_pair"
  by (rule kem.intro) (rule decapsulate_encapsulate)

section \<open>A reference instance\<close>

text \<open>Keys that are their own public keys; the secret of an exchange is the sum of the keys, and the
  Kyber ciphertext the seed with the public key.\<close>

definition pad32 :: "bytes \<Rightarrow> bytes" where
  "pad32 b = take 32 (b @ replicate 32 0)"

definition ref_kem :: kem_crypto where
  "ref_kem = \<lparr>x_public = pad32, x_exchange = (\<lambda>a b. Inr (map2 (+) (pad32 a) (pad32 b))),
     ky_encap = (\<lambda>seed pub. Inr (1 # seed, seed @ pub)),
     ky_decap = (\<lambda>priv ct. Inr (tl ct @ priv)),
     kem_hkdf = (\<lambda>ikm. pad32 (rev ikm)), kem_oqs = True, kem_enabled = Inr [''Kyber768'']\<rparr>"

lemma length_pad32 [simp]: "length (pad32 b) = 32"
  by (simp add: pad32_def)

lemma pad32_pad32 [simp]: "pad32 (pad32 b) = pad32 b"
  by (simp add: pad32_def)

lemma sum_commute: "map2 (+) (a :: bytes) b = map2 (+) b a"
  by (rule nth_equalityI) (simp_all add: add.commute)

lemma ref_kem_laws: "kem_laws ref_kem (=)"
proof (rule kem_laws.intro)
  show "x_exchange ref_kem a (x_public ref_kem b) = x_exchange ref_kem b (x_public ref_kem a)" for a b
    using sum_commute [of "pad32 a"] by (simp add: ref_kem_def)
qed (auto simp: ref_kem_def intro!: kem.intro)

interpretation ref_kem: kem_laws ref_kem "(=)"
  by (rule ref_kem_laws)

end
