(* ===== verification/Ecdh.thy ===== *)
theory Ecdh
  imports Message Hybrid_KEM
begin

text \<open>
  \<^verbatim>\<open>services/ecdh_service.py\<close>: the key agreement over X25519. X25519 and HKDF are the fields of
  \<open>ecdh_crypto\<close>, the digest is that of the messages; a key is its raw bytes. The contract of an
  exchange is the locale \<open>key_agreement\<close>.
\<close>

record ecdh_crypto =
  eh_public :: "bytes \<Rightarrow> bytes"
  eh_exchange :: "bytes \<Rightarrow> bytes \<Rightarrow> bytes res"
  eh_hkdf :: "bytes \<Rightarrow> bytes"

definition public_bytes_to_key :: "bytes \<Rightarrow> bytes res" where
  "public_bytes_to_key public_bytes = (if length public_bytes \<noteq> 32 then Inl ValueError else Inr public_bytes)"

definition compute_shared_secret :: "ecdh_crypto \<Rightarrow> bytes \<Rightarrow> bytes \<Rightarrow> bytes res" where
  "compute_shared_secret X private_key peer_public_bytes =
     (case public_bytes_to_key peer_public_bytes of Inl e \<Rightarrow> Inl e | Inr peer_key \<Rightarrow> eh_exchange X private_key peer_key)"

definition derive_key :: "ecdh_crypto \<Rightarrow> bytes \<Rightarrow> bytes res" where
  "derive_key X shared_secret_bytes =
     (if length shared_secret_bytes \<noteq> 32 then Inl ValueError else Inr (eh_hkdf X shared_secret_bytes))"

definition encode_public_key :: "bytes \<Rightarrow> ustr" where
  "encode_public_key public_bytes = b64encode public_bytes"

definition decode_public_key :: "ustr \<Rightarrow> bytes res" where
  "decode_public_key b64_string =
     (case b64decode b64_string of Inl _ \<Rightarrow> Inl ValueError
      | Inr raw \<Rightarrow> if length raw \<noteq> 32 then Inl ValueError else Inr raw)"

definition ecdh_fingerprint :: "msg_crypto \<Rightarrow> bytes \<Rightarrow> ustr" where
  "ecdh_fingerprint C public_bytes = take 16 (hex (sha256 C public_bytes))"

text \<open>\<open>fresh\<close> is the private key that is generated when none is given.\<close>

definition perform_exchange :: "ecdh_crypto \<Rightarrow> bytes \<Rightarrow> bytes \<Rightarrow> bytes option \<Rightarrow> (bytes \<times> bytes) res" where
  "perform_exchange X fresh peer_public_bytes own_private =
     (let own = (case own_private of None \<Rightarrow> fresh | Some p \<Rightarrow> p); our_pub = eh_public X own in
      case compute_shared_secret X own peer_public_bytes of Inl e \<Rightarrow> Inl e
      | Inr shared \<Rightarrow> (case derive_key X shared of Inl e \<Rightarrow> Inl e | Inr derived \<Rightarrow> Inr (derived, our_pub)))"

section \<open>The contract\<close>

locale key_agreement =
  fixes public :: "bytes \<Rightarrow> bytes" and agree :: "bytes \<Rightarrow> bytes \<Rightarrow> (bytes \<times> bytes) res"
  assumes own_public: "agree own peer = Inr (secret, pub) \<Longrightarrow> pub = public own"
    and agreement: "agree a (public b) = Inr (s, p) \<Longrightarrow> agree b (public a) = Inr (s', p') \<Longrightarrow> s = s'"
begin

text \<open>Two sides that each send what the other's call returned agree on the secret.\<close>

lemma handshake:
  "agree a pb = Inr (s, pa) \<Longrightarrow> agree b pa = Inr (s', pb') \<Longrightarrow> pb = pb' \<Longrightarrow> s = s'"
  using own_public agreement by metis

end

locale ecdh_laws =
  fixes X :: ecdh_crypto
  assumes sym: "eh_exchange X a (eh_public X b) = eh_exchange X b (eh_public X a)"
begin

lemma exchange_agrees:
  "perform_exchange X f (eh_public X b) (Some a) = Inr (s, p) \<Longrightarrow> perform_exchange X f' (eh_public X a) (Some b) = Inr (s', p') \<Longrightarrow>
   s = s' \<and> p = eh_public X a"
  using sym [of a b]
  by (auto simp: perform_exchange_def compute_shared_secret_def public_bytes_to_key_def derive_key_def Let_def
      split: sum.splits if_splits)

end

sublocale ecdh_laws < x25519: key_agreement "eh_public X" "\<lambda>own peer. perform_exchange X own peer (Some own)"
proof (rule key_agreement.intro)
  show "pub = eh_public X own" if "perform_exchange X own peer (Some own) = Inr (secret, pub)" for own peer secret pub
    using that by (auto simp: perform_exchange_def Let_def split: sum.splits)
  show "s = s'" if "perform_exchange X a (eh_public X b) (Some a) = Inr (s, p)"
    "perform_exchange X b (eh_public X a) (Some b) = Inr (s', p')" for a b s p s' p'
    using exchange_agrees [OF that] by simp
qed

lemma decode_encode_public_key: "length p = 32 \<Longrightarrow> decode_public_key (encode_public_key p) = Inr p"
  by (simp add: decode_public_key_def encode_public_key_def b64_roundtrip)

lemma decode_public_key_error: "decode_public_key t = Inl e \<Longrightarrow> e = ValueError"
  by (auto simp: decode_public_key_def split: sum.splits if_splits)

definition ref_ecdh :: ecdh_crypto where
  "ref_ecdh = \<lparr>eh_public = pad32, eh_exchange = (\<lambda>a b. Inr (map2 (+) (pad32 a) (pad32 b))), eh_hkdf = rev\<rparr>"

interpretation ref_ecdh: ecdh_laws ref_ecdh
proof
  show "eh_exchange ref_ecdh a (eh_public ref_ecdh b) = eh_exchange ref_ecdh b (eh_public ref_ecdh a)" for a b
    using sum_commute [of "pad32 a"] by (simp add: ref_ecdh_def)
qed

end
