(* ===== verification/Session.thy ===== *)
theory Session
  imports Ecdh Key_Store
begin

text \<open>
  What a service sees of an unlocked account: the lockout state, the key store and the database; the
  verification of a password on it (\<^verbatim>\<open>KeyStore.verify_password\<close>) and that of the real master password
  in the services of the friends and of the global secret; and
  \<^verbatim>\<open>services/global_secret_service.py\<close>.
\<close>

record account =
  ac_lockout :: lockout
  ac_keys :: key_store
  ac_db :: db

definition ks_verify_password :: "key_env \<Rightarrow> rat \<Rightarrow> bytes \<Rightarrow> account \<Rightarrow> bool res \<times> account" where
  "ks_verify_password E now password s =
     (case verify_password (ke_db E) True now password
             \<lparr>au_lockout = ac_lockout s, au_duress_mode = duress_mode (ac_keys s), au_db = ac_db s\<rparr> of
        (r, a) \<Rightarrow> (r, \<lparr>ac_lockout = au_lockout a, ac_keys = (ac_keys s)\<lparr>duress_mode := au_duress_mode a\<rparr>, ac_db = au_db a\<rparr>))"

text \<open>The duress flag is read back and restored; an exception leaves it as the verification left it.\<close>

definition verify_master_password :: "key_env \<Rightarrow> rat \<Rightarrow> bytes \<Rightarrow> account \<Rightarrow> bool res \<times> account" where
  "verify_master_password E now password s =
     (case ks_verify_password E now password s of
        (Inl e, s1) \<Rightarrow> (Inl e, s1)
      | (Inr is_valid, s1) \<Rightarrow>
          (Inr (is_valid \<and> \<not> duress_mode (ac_keys s1)),
           s1\<lparr>ac_keys := (ac_keys s1)\<lparr>duress_mode := duress_mode (ac_keys s)\<rparr>\<rparr>))"

section \<open>The global secret\<close>

definition gs_fingerprint :: "msg_crypto \<Rightarrow> key_store \<Rightarrow> ustr option" where
  "gs_fingerprint C k = (if \<not> given (global_secret k) then None else Some (sha256_fingerprint C (the (global_secret k))))"

definition gs_has_secret :: "key_store \<Rightarrow> bool" where
  "gs_has_secret k \<longleftrightarrow> global_secret k \<noteq> None"

definition export_secret_b64 :: "key_store \<Rightarrow> ustr res" where
  "export_secret_b64 k =
     (if \<not> given (global_secret k) then Inl GlobalSecretServiceError else Inr (b64encode (the (global_secret k))))"

definition validate_secret_b64 :: "ustr \<Rightarrow> bytes res" where
  "validate_secret_b64 b64_str =
     (case b64decode b64_str of Inl _ \<Rightarrow> Inl ValueError
      | Inr raw \<Rightarrow> if length raw \<noteq> 32 then Inl ValueError else Inr raw)"

text \<open>The exceptions of the verification are not caught; those of the update are.\<close>

definition update_secret ::
  "key_env \<Rightarrow> msg_crypto \<Rightarrow> bytes \<times> bytes \<Rightarrow> rat \<Rightarrow> bytes \<Rightarrow> bytes \<Rightarrow> account \<Rightarrow> ustr res \<times> account" where
  "update_secret E C rnd now new_secret master_password s =
     (if master_password = [] then (Inl GlobalSecretServiceError, s)
      else case verify_master_password E now master_password s of
        (Inl e, s1) \<Rightarrow> (Inl e, s1)
      | (Inr is_valid, s1) \<Rightarrow>
          if \<not> is_valid then (Inl GlobalSecretServiceError, s1)
          else if duress_mode (ac_keys s1) then (Inl GlobalSecretServiceError, s1)
          else if length new_secret \<noteq> 32 then (Inl GlobalSecretServiceError, s1)
          else case update_global_secret E rnd new_secret master_password (ac_keys s1, ac_db s1) of
                 (Inl _, (k, d)) \<Rightarrow> (Inl GlobalSecretServiceError, s1\<lparr>ac_keys := k, ac_db := d\<rparr>)
               | (Inr _, (k, d)) \<Rightarrow> (Inr (sha256_fingerprint C new_secret), s1\<lparr>ac_keys := k, ac_db := d\<rparr>))"

end
