(* ===== verification/Encryption.thy ===== *)
theory Encryption
  imports Hybrid_KEM Key_Store Message Ratchet_Service Envelope
begin

text \<open>
  \<^verbatim>\<open>services/encryption\<close>: the three strategies (shared secret or RSA, Double Ratchet, post-quantum
  hybrid) and the facade that chooses one for a message and dispatches a received packet. The
  strategies read the key store and the database; a ratchet message changes the buffer of the
  ratchet service. The time of the NTP client is the field \<open>ntp_time\<close>, the clock of the system an
  argument. A call that runs into its time limit is \<open>er_timeout\<close>.
\<close>

record enc_env =
  ev_key :: key_env
  ev_msg :: msg_crypto
  ev_ratchet :: ratchet_crypto
  ev_kem :: kem_crypto

record enc_rnd =
  er_msg :: msg_rnd
  er_ratchet_key :: bytes
  er_ratchet_nonce :: bytes
  er_x25519 :: bytes
  er_kyber :: bytes
  er_gcm_nonce :: bytes
  er_timeout :: bool

text \<open>\<^verbatim>\<open>self._get_ntp_time() if self._get_ntp_time() is not None else time.time()\<close>, and the time of
  decryption, where an NTP time of 0 counts as missing.\<close>

definition sending_time :: "rat \<Rightarrow> rat option \<Rightarrow> rat" where
  "sending_time clock ntp = (case ntp of Some t \<Rightarrow> t | None \<Rightarrow> clock)"

definition reading_time :: "rat \<Rightarrow> rat option \<Rightarrow> int" where
  "reading_time clock ntp = trunc (case ntp of Some t \<Rightarrow> if t \<noteq> 0 then t else clock | None \<Rightarrow> clock)"

section \<open>Shared secrets and RSA\<close>

definition get_friend_keys :: "key_store \<Rightarrow> ustr \<Rightarrow> bytes option \<times> bytes option" where
  "get_friend_keys k name =
     (case find (\<lambda>(n, _, _). n = name) (friends k) of Some (_, pub, sec) \<Rightarrow> (Some pub, sec) | None \<Rightarrow> (None, None))"

text \<open>\<^verbatim>\<open>bytes(None)\<close> is a \<^verbatim>\<open>TypeError\<close>.\<close>

definition resolve_encryption_key :: "key_store \<Rightarrow> ustr option \<Rightarrow> string \<Rightarrow> (bytes \<times> bytes option) res" where
  "resolve_encryption_key k friend_name mode =
     (let (friend_pub, friend_sec) = (if given friend_name then get_friend_keys k (the friend_name) else (None, None)) in
      if given friend_name \<and> friend_pub = None \<and> friend_sec = None then Inl EncryptionError
      else if mode = ''shared'' then
        (case (if given friend_sec then friend_sec else global_secret k) of
           None \<Rightarrow> Inl TypeError
         | Some const_key \<Rightarrow> if length const_key \<noteq> AES_KEY_SIZE then Inl EncryptionError else Inr (const_key, None))
      else (case friend_pub of None \<Rightarrow> Inl EncryptionError
            | Some pub \<Rightarrow> Inr (replicate AES_KEY_SIZE 0, Some pub)))"

definition legacy_options :: "key_store \<Rightarrow> bytes option \<Rightarrow> bool \<Rightarrow> int option \<Rightarrow> msg_options" where
  "legacy_options k friend_pub sign self_destruct_seconds =
     \<lparr>mo_sign = sign, mo_my_priv = (if sign then my_priv k else None), mo_friend_pub = friend_pub,
      mo_self_destruct = self_destruct_seconds, mo_ed_priv = (if sign then my_ed_priv k else None),
      mo_dil_priv = (if sign then my_dil_priv k else None)\<rparr>"

definition legacy_encrypt ::
  "msg_crypto \<Rightarrow> msg_rnd \<Rightarrow> rat \<Rightarrow> rat option \<Rightarrow> key_store \<Rightarrow> ustr \<Rightarrow> ustr option \<Rightarrow> string \<Rightarrow> bool \<Rightarrow> int option \<Rightarrow>
   (bytes \<times> int) res" where
  "legacy_encrypt C rnd clock ntp k plaintext friend_name mode sign self_destruct_seconds =
     (case resolve_encryption_key k friend_name mode of Inl e \<Rightarrow> Inl e
      | Inr (const_key, friend_pub) \<Rightarrow>
        (case utf8_encode plaintext of Inl _ \<Rightarrow> Inl EncryptionError
         | Inr data \<Rightarrow>
           (case encrypt_message C rnd data const_key (sending_time clock ntp)
                   (legacy_options k friend_pub sign self_destruct_seconds) of
              Inl _ \<Rightarrow> Inl EncryptionError | Inr r \<Rightarrow> Inr r)))"

text \<open>The own combined key is added when it can be parsed.\<close>

definition friends_hybrid_list :: "key_store \<Rightarrow> (ustr \<times> bytes \<times> bytes) list" where
  "friends_hybrid_list k =
     friends_hybrid_sig_pubs k @
     (if given (my_hybrid_sig_combined_pub k) then
        (case Hybrid_Signer.parse_combined_pub (the (my_hybrid_sig_combined_pub k)) of
           Inl _ \<Rightarrow> [] | Inr (ed, dil) \<Rightarrow> [(ustr ''myself'', ed, dil)])
      else [])"

definition decrypt_with_rsa ::
  "msg_crypto \<Rightarrow> int \<Rightarrow> key_store \<Rightarrow> bytes \<Rightarrow> bytes option \<Rightarrow> (ustr \<times> bytes) list \<Rightarrow> bytes option \<Rightarrow> ustr option res" where
  "decrypt_with_rsa C now k packet priv friends_for_crypto legacy =
     (if priv = None \<and> legacy = None then Inl DecryptionError
      else let attempt = (\<lambda>key. case key of None \<Rightarrow> None
             | Some _ \<Rightarrow> (case decrypt_message C packet [] key friends_for_crypto now (friends_hybrid_list k) of
                            Inl _ \<Rightarrow> None | Inr t \<Rightarrow> Some t))
        in Inr (case attempt priv of Some t \<Rightarrow> Some t | None \<Rightarrow> attempt legacy))"

fun decrypt_with_shared_secrets ::
  "msg_crypto \<Rightarrow> int \<Rightarrow> key_store \<Rightarrow> bytes \<Rightarrow> bytes list \<Rightarrow> (ustr \<times> bytes) list \<Rightarrow> ustr option" where
  "decrypt_with_shared_secrets C now k packet [] friends_for_crypto = None"
| "decrypt_with_shared_secrets C now k packet (secret # rest) friends_for_crypto =
     (if (case extract_key_hint packet of None \<Rightarrow> False | Some hint \<Rightarrow> take 2 (sha256 C secret) \<noteq> hint)
      then decrypt_with_shared_secrets C now k packet rest friends_for_crypto
      else case decrypt_message C packet secret None friends_for_crypto now (friends_hybrid_list k) of
             Inr t \<Rightarrow> Some t
           | Inl _ \<Rightarrow> decrypt_with_shared_secrets C now k packet rest friends_for_crypto)"

text \<open>Both texts of the last error are \<^verbatim>\<open>DecryptionError\<close>.\<close>

definition legacy_decrypt :: "msg_crypto \<Rightarrow> rat \<Rightarrow> rat option \<Rightarrow> key_store \<Rightarrow> bytes \<Rightarrow> ustr res" where
  "legacy_decrypt C clock ntp k packet =
     (case peek_flags packet of Inl _ \<Rightarrow> Inl DecryptionError
      | Inr flags \<Rightarrow>
        (case get_decryption_snapshot k of (priv, friends_and_me, secrets_to_try, legacy) \<Rightarrow>
           (let friends_for_crypto = map (\<lambda>(n, pub, _). (n, pub)) friends_and_me;
                now = reading_time clock ntp in
            case (if flag_set flags FRIEND_FLAG then decrypt_with_rsa C now k packet priv friends_for_crypto legacy
                  else Inr (decrypt_with_shared_secrets C now k packet secrets_to_try friends_for_crypto)) of
              Inl e \<Rightarrow> Inl e
            | Inr None \<Rightarrow> Inl DecryptionError
            | Inr (Some t) \<Rightarrow> Inr t)))"

section \<open>The post-quantum hybrid\<close>

definition pqc_encrypt ::
  "enc_env \<Rightarrow> enc_rnd \<Rightarrow> rat \<Rightarrow> rat option \<Rightarrow> key_store \<Rightarrow> ustr \<Rightarrow> ustr \<Rightarrow> (bytes \<times> int) res" where
  "pqc_encrypt E rnd clock ntp k plaintext friend_name =
     (if \<not> is_pqc_available (ev_kem E) then Inl EncryptionError
      else let combined_pub = map_of (friends_pqc_combined_pub k) friend_name in
        if \<not> given combined_pub then Inl EncryptionError
        else if er_timeout rnd then Inl EncryptionError
        else case encapsulate (ev_kem E) (er_x25519 rnd) (er_kyber rnd) (the combined_pub) of Inl _ \<Rightarrow> Inl EncryptionError
          | Inr (kem_ciphertext, shared_secret) \<Rightarrow>
            (case utf8_encode plaintext of Inl e \<Rightarrow> Inl e
             | Inr data \<Rightarrow>
               (case gcm_enc (ev_msg E) shared_secret (er_gcm_nonce rnd) data [] of Inl e \<Rightarrow> Inl e
                | Inr aes_ct \<Rightarrow>
                  (case pqc_build \<lparr>pqc_kem_ct = kem_ciphertext, pqc_nonce = er_gcm_nonce rnd, pqc_aes_ct = aes_ct\<rparr> of
                     Inl e \<Rightarrow> Inl (if is_value_error e then EncryptionError else e)
                   | Inr envelope \<Rightarrow> Inr (envelope, trunc (sending_time clock ntp))))))"

definition pqc_decrypt :: "enc_env \<Rightarrow> bool \<Rightarrow> key_store \<Rightarrow> bytes \<Rightarrow> ustr res" where
  "pqc_decrypt E timeout k packet =
     (if \<not> is_pqc_available (ev_kem E) then Inl DecryptionError
      else case cached_pqc_bundle k of None \<Rightarrow> Inl DecryptionError
        | Some bundle \<Rightarrow>
          (case pqc_parse packet of Inl e \<Rightarrow> Inl (if is_value_error e then DecryptionError else e)
           | Inr env \<Rightarrow>
               if timeout then Inl DecryptionError
               else case decapsulate (ev_kem E) (Some (pb_x25519_priv bundle)) (Some (pb_kyber_priv bundle)) (pqc_kem_ct env) of
                 Inl _ \<Rightarrow> Inl DecryptionError
               | Inr shared_secret \<Rightarrow>
                 (case gcm_dec (ev_msg E) shared_secret (pqc_nonce env) (pqc_aes_ct env) [] of
                    Inl _ \<Rightarrow> Inl DecryptionError
                  | Inr data \<Rightarrow> utf8_decode data)))"

section \<open>The Double Ratchet\<close>

definition friend_supports_ratchet :: "key_store \<Rightarrow> db \<Rightarrow> ustr \<Rightarrow> bool res" where
  "friend_supports_ratchet k d friend_name =
     (case has_active_ratchet d friend_name of Inl e \<Rightarrow> Inl e
      | Inr True \<Rightarrow> Inr True
      | Inr False \<Rightarrow>
          Inr (case map_of (friends_capabilities k) friend_name of None \<Rightarrow> False
               | Some caps \<Rightarrow> map_of caps (ustr ''double_ratchet'') = Some True))"

definition ratchet_error :: "enigma_error \<Rightarrow> enigma_error \<Rightarrow> enigma_error" where
  "ratchet_error as e = (if e = RatchetNotFoundError \<or> e = RatchetServiceError then as else e)"

definition strategy_ratchet_encrypt ::
  "enc_env \<Rightarrow> enc_rnd \<Rightarrow> rat \<Rightarrow> nat \<Rightarrow> rat option \<Rightarrow> key_store \<Rightarrow> db \<Rightarrow> ustr \<Rightarrow> ustr \<Rightarrow> ratchet_service \<Rightarrow>
   (bytes \<times> int) res \<times> ratchet_service" where
  "strategy_ratchet_encrypt E rnd clock t ntp k d plaintext friend_name s =
     (case utf8_encode plaintext of Inl e \<Rightarrow> (Inl e, s)
      | Inr data \<Rightarrow>
        (case service_encrypt_message (ev_ratchet E) (ke_db (ev_key E)) clock t (er_ratchet_key rnd) (er_ratchet_nonce rnd)
                friend_name data d s of
           (Inl e, s1) \<Rightarrow> (Inl (ratchet_error EncryptionError e), s1)
         | (Inr (header, ciphertext), s1) \<Rightarrow>
             (let name = my_name (ev_key E) True (k, d) in
              case ratchet_build \<lparr>env_sender = (if name = [] then friend_name else name), env_header = header,
                                  env_ciphertext = ciphertext\<rparr> of
                Inl e \<Rightarrow> (Inl (if is_value_error e then EncryptionError else e), s1)
              | Inr envelope \<Rightarrow> (Inr (envelope, trunc (sending_time clock ntp)), s1))))"

definition strategy_ratchet_decrypt ::
  "enc_env \<Rightarrow> enc_rnd \<Rightarrow> rat \<Rightarrow> nat \<Rightarrow> key_store \<Rightarrow> db \<Rightarrow> bytes \<Rightarrow> ratchet_service \<Rightarrow> ustr res \<times> ratchet_service" where
  "strategy_ratchet_decrypt E rnd clock t k d packet s =
     (case ratchet_parse packet of Inl e \<Rightarrow> (Inl (if is_value_error e then DecryptionError else e), s)
      | Inr env \<Rightarrow>
        (case friend_supports_ratchet k d (env_sender env) of Inl e \<Rightarrow> (Inl e, s)
         | Inr False \<Rightarrow> (Inl DecryptionError, s)
         | Inr True \<Rightarrow>
           (case service_decrypt_message (ev_ratchet E) (ke_db (ev_key E)) clock t (er_ratchet_key rnd) (env_sender env)
                   (env_header env) (env_ciphertext env) d s of
              (Inl e, s1) \<Rightarrow> (Inl (ratchet_error DecryptionError e), s1)
            | (Inr data, s1) \<Rightarrow> (utf8_decode data, s1))))"

section \<open>The facade\<close>

record enc_service =
  ntp_time :: "rat option"
  last_encrypt_mode :: "string option"
  last_decrypt_mode :: "string option"
  es_ratchet :: ratchet_service

definition update_ntp_time :: "rat option \<Rightarrow> enc_service \<Rightarrow> enc_service" where
  "update_ntp_time timestamp s = s\<lparr>ntp_time := timestamp\<rparr>"

definition facade_encrypt ::
  "enc_env \<Rightarrow> enc_rnd \<Rightarrow> rat \<Rightarrow> nat \<Rightarrow> key_store \<Rightarrow> db \<Rightarrow> ustr \<Rightarrow> ustr option \<Rightarrow> string \<Rightarrow> bool \<Rightarrow> int option \<Rightarrow> enc_service \<Rightarrow>
   (bytes \<times> int) res \<times> enc_service" where
  "facade_encrypt E rnd clock t k d plaintext friend_name mode sign self_destruct_seconds s =
     (if given friend_name \<and> mode = ''pqc'' then
        (pqc_encrypt E rnd clock (ntp_time s) k plaintext (the friend_name), s\<lparr>last_encrypt_mode := Some ''pqc''\<rparr>)
      else case (if given friend_name \<and> mode = ''shared'' then friend_supports_ratchet k d (the friend_name) else Inr False) of
        Inl e \<Rightarrow> (Inl e, s)
      | Inr True \<Rightarrow>
          (case strategy_ratchet_encrypt E rnd clock t (ntp_time s) k d plaintext (the friend_name) (es_ratchet s) of
             (r, s1) \<Rightarrow> (r, s\<lparr>last_encrypt_mode := Some ''ratchet'', es_ratchet := s1\<rparr>))
      | Inr False \<Rightarrow>
          (legacy_encrypt (ev_msg E) (er_msg rnd) clock (ntp_time s) k plaintext friend_name mode sign self_destruct_seconds,
           s\<lparr>last_encrypt_mode := Some ''legacy''\<rparr>))"

definition encrypt_base64 ::
  "enc_env \<Rightarrow> enc_rnd \<Rightarrow> rat \<Rightarrow> nat \<Rightarrow> key_store \<Rightarrow> db \<Rightarrow> ustr \<Rightarrow> ustr option \<Rightarrow> string \<Rightarrow> bool \<Rightarrow> int option \<Rightarrow> enc_service \<Rightarrow>
   ustr res \<times> enc_service" where
  "encrypt_base64 E rnd clock t k d plaintext friend_name mode sign self_destruct_seconds s =
     (case facade_encrypt E rnd clock t k d plaintext friend_name mode sign self_destruct_seconds s of
        (Inl e, s1) \<Rightarrow> (Inl e, s1) | (Inr (packet, _), s1) \<Rightarrow> (Inr (b64encode packet), s1))"

definition decode_base64_packet :: "ustr \<Rightarrow> bytes res" where
  "decode_base64_packet b64_text = (case b64decode b64_text of Inl _ \<Rightarrow> Inl DecryptionError | Inr p \<Rightarrow> Inr p)"

definition facade_decrypt ::
  "enc_env \<Rightarrow> enc_rnd \<Rightarrow> rat \<Rightarrow> nat \<Rightarrow> key_store \<Rightarrow> db \<Rightarrow> ustr \<Rightarrow> enc_service \<Rightarrow> ustr res \<times> enc_service" where
  "facade_decrypt E rnd clock t k d b64_text s =
     (case decode_base64_packet b64_text of Inl e \<Rightarrow> (Inl e, s)
      | Inr packet \<Rightarrow>
          if identify_envelope_type packet = Some ''pqc'' then
            (pqc_decrypt E (er_timeout rnd) k packet, s\<lparr>last_decrypt_mode := Some ''pqc''\<rparr>)
          else if identify_envelope_type packet = Some ''ratchet'' then
            (case strategy_ratchet_decrypt E rnd clock t k d packet (es_ratchet s) of
               (r, s1) \<Rightarrow> (r, s\<lparr>last_decrypt_mode := Some ''ratchet'', es_ratchet := s1\<rparr>))
          else (legacy_decrypt (ev_msg E) clock (ntp_time s) k packet, s\<lparr>last_decrypt_mode := Some ''legacy''\<rparr>))"

end
