(* ===== verification/Friends.thy ===== *)
theory Friends
  imports Session Encryption
begin

text \<open>
  \<^verbatim>\<open>services/friends\<close>: the operations on friends that the user interface calls, on top of the key
  store: queries and changes (\<^verbatim>\<open>crud.py\<close>), sessions of the ratchet (\<^verbatim>\<open>ratchet_mgmt.py\<close>), the keys of the
  post-quantum hybrid (\<^verbatim>\<open>pqc_keys.py\<close>) and of hybrid signatures (\<^verbatim>\<open>hybrid_sig_keys.py\<close>). The facade
  passes its arguments on. Passwords are byte strings; salts, nonces and generated keys are arguments.
\<close>

definition fs_save ::
  "enc_env \<Rightarrow> (nat \<Rightarrow> bytes \<times> bytes) \<Rightarrow> bytes \<Rightarrow> friend_args \<Rightarrow> account \<Rightarrow> unit res \<times> account" where
  "fs_save V rnd password f s =
     (case save_friend (ev_key V) rnd password f (ac_keys s, ac_db s) of (r, (k, d)) \<Rightarrow> (r, s\<lparr>ac_keys := k, ac_db := d\<rparr>))"

section \<open>Queries\<close>

definition friend_entry :: "key_store \<Rightarrow> ustr \<Rightarrow> friend option" where
  "friend_entry k name = find (\<lambda>(n, _, _). n = name) (friends k)"

definition friend_exists :: "key_store \<Rightarrow> ustr \<Rightarrow> bool" where
  "friend_exists k name \<longleftrightarrow> list_ex (\<lambda>(n, _, _). n = name) (friends k)"

definition friend_caps :: "key_store \<Rightarrow> ustr \<Rightarrow> capabilities" where
  "friend_caps k name = (case map_of (friends_capabilities k) name of Some c \<Rightarrow> c | None \<Rightarrow> [])"

record friend_summary =
  su_name :: ustr
  su_has_shared_secret :: bool
  su_rsa_fingerprint :: ustr
  su_ecdh_fingerprint :: "ustr option"
  su_public_key_pem :: ustr
  su_has_ratchet :: bool
  su_supports_double_ratchet :: bool
  su_has_pqc_key :: bool
  su_has_hybrid_sig_key :: bool

definition friend_summary_of :: "enc_env \<Rightarrow> key_store \<Rightarrow> db \<Rightarrow> friend \<Rightarrow> friend_summary res" where
  "friend_summary_of V k d f =
     (case f of (name, pub, sec) \<Rightarrow>
        (let pem = pubkey_to_pem (ev_key V) pub;
             x_b64 = map_of (friends_x25519 k) name in
         case utf8_encode pem of Inl e \<Rightarrow> Inl e | Inr pem_bytes \<Rightarrow>
         (case has_active_ratchet d name of Inl e \<Rightarrow> Inl e
          | Inr has_ratchet \<Rightarrow>
              Inr \<lparr>su_name = name, su_has_shared_secret = (sec \<noteq> None),
                   su_rsa_fingerprint = sha256_fingerprint (ev_msg V) pem_bytes,
                   su_ecdh_fingerprint =
                     (if given x_b64 then
                        (case decode_public_key (the x_b64) of Inl _ \<Rightarrow> None | Inr raw \<Rightarrow> Some (ecdh_fingerprint (ev_msg V) raw))
                      else None),
                   su_public_key_pem = pem, su_has_ratchet = has_ratchet,
                   su_supports_double_ratchet = (map_of (friend_caps k name) (ustr ''double_ratchet'') = Some True),
                   su_has_pqc_key = (map_of (friends_pqc_combined_pub k) name \<noteq> None),
                   su_has_hybrid_sig_key = (map_of (friends_hybrid_sig_pubs k) name \<noteq> None)\<rparr>)))"

definition get_all_friends :: "enc_env \<Rightarrow> key_store \<Rightarrow> db \<Rightarrow> friend_summary list res" where
  "get_all_friends V k d = map_res (friend_summary_of V k d) (friends k)"

definition get_friend_details :: "enc_env \<Rightarrow> key_store \<Rightarrow> db \<Rightarrow> ustr \<Rightarrow> friend_summary option res" where
  "get_friend_details V k d name =
     (case get_all_friends V k d of Inl e \<Rightarrow> Inl e | Inr infos \<Rightarrow> Inr (find (\<lambda>i. su_name i = name) infos))"

definition get_my_public_info :: "enc_env \<Rightarrow> key_store \<Rightarrow> (ustr \<times> ustr) res" where
  "get_my_public_info V k =
     (case my_pub k of None \<Rightarrow> Inl FriendsServiceError
      | Some pub \<Rightarrow>
          (let pem = pubkey_to_pem (ev_key V) pub in
           case utf8_encode pem of Inl e \<Rightarrow> Inl e | Inr b \<Rightarrow> Inr (sha256_fingerprint (ev_msg V) b, pem)))"

definition get_friend_names :: "key_store \<Rightarrow> ustr list" where
  "get_friend_names k = map fst (friends k)"

definition friend_has_secret :: "key_store \<Rightarrow> ustr \<Rightarrow> bool" where
  "friend_has_secret k name = (case friend_entry k name of Some (_, _, sec) \<Rightarrow> sec \<noteq> None | None \<Rightarrow> False)"

definition get_friend_rsa_pub :: "key_store \<Rightarrow> ustr \<Rightarrow> bytes option" where
  "get_friend_rsa_pub k name = map_option (\<lambda>(_, pub, _). pub) (friend_entry k name)"

definition encrypt_share :: "enc_env \<Rightarrow> bytes \<Rightarrow> bytes \<Rightarrow> bytes \<Rightarrow> bytes res" where
  "encrypt_share V seed share_bytes pub_key = rsa_oaep_enc (ev_msg V) pub_key seed share_bytes"

definition decrypt_share :: "enc_env \<Rightarrow> key_store \<Rightarrow> bytes \<Rightarrow> bytes res" where
  "decrypt_share V k encrypted_share =
     (case my_priv k of None \<Rightarrow> Inl FriendsServiceError | Some priv \<Rightarrow> rsa_oaep_dec (ev_msg V) priv encrypted_share)"

section \<open>Changes\<close>

text \<open>The checks of the optional keys.\<close>

definition bad_x25519 :: "ustr option \<Rightarrow> bool" where
  "bad_x25519 x \<longleftrightarrow> given x \<and> \<not> is_ok (decode_public_key (the x))"

definition bad_combined :: "ustr option \<Rightarrow> bool" where
  "bad_combined c \<longleftrightarrow> given c \<and> (case b64decode (the c) of Inl _ \<Rightarrow> True | Inr raw \<Rightarrow> length raw < 36)"

definition add_friend ::
  "enc_env \<Rightarrow> (nat \<Rightarrow> bytes \<times> bytes) \<Rightarrow> bytes \<Rightarrow> friend_args \<Rightarrow> account \<Rightarrow> unit res \<times> account" where
  "add_friend V rnd master_password f s =
     (if strip (fa_name f) = [] then (Inl FriendsServiceError, s)
      else if strip (fa_pem f) = [] then (Inl FriendsServiceError, s)
      else if given (fa_shared_secret f) \<and> master_password = [] then (Inl FriendsServiceError, s)
      else if bad_x25519 (fa_x25519_pub_b64 f) then (Inl FriendsServiceError, s)
      else if bad_combined (fa_pqc_combined_pub_b64 f) then (Inl FriendsServiceError, s)
      else if bad_combined (fa_hybrid_sig_pub_b64 f) then (Inl FriendsServiceError, s)
      else fs_save V rnd master_password (f\<lparr>fa_ecdh_priv_bytes := None\<rparr>) s)"

definition fs_remove_friend :: "ustr \<Rightarrow> account \<Rightarrow> unit res \<times> account" where
  "fs_remove_friend name s =
     (if \<not> friend_exists (ac_keys s) name then (Inl FriendsServiceError, s)
      else (case remove_friend name (ac_keys s, ac_db s) of (k, d) \<Rightarrow> (Inr (), s\<lparr>ac_keys := k, ac_db := d\<rparr>)))"

record existing_keys =
  ex_pem :: "ustr option"
  ex_x25519 :: "ustr option"
  ex_ecdh_priv :: "bytes option"
  ex_caps :: "capabilities option"
  ex_pqc_b64 :: "ustr option"
  ex_hybrid_sig_b64 :: "ustr option"

definition get_friend_existing_keys :: "enc_env \<Rightarrow> key_store \<Rightarrow> ustr \<Rightarrow> existing_keys res" where
  "get_friend_existing_keys V k name =
     (case (case map_of (friends_hybrid_sig_pubs k) name of None \<Rightarrow> Inr None
            | Some (ed_pub, dil_pub) \<Rightarrow>
                (case combine_pub ed_pub dil_pub of Inl e \<Rightarrow> Inl e | Inr combined \<Rightarrow> Inr (Some (b64encode combined)))) of
        Inl e \<Rightarrow> Inl e
      | Inr hybrid \<Rightarrow>
          Inr \<lparr>ex_pem = map_option (\<lambda>(_, pub, _). pubkey_to_pem (ev_key V) pub) (friend_entry k name),
               ex_x25519 = map_of (friends_x25519 k) name, ex_ecdh_priv = get_friend_ecdh_priv name k,
               ex_caps = (if friend_caps k name = [] then None else Some (friend_caps k name)),
               ex_pqc_b64 = map_option b64encode (map_of (friends_pqc_combined_pub k) name),
               ex_hybrid_sig_b64 = hybrid\<rparr>)"

definition update_shared_secret ::
  "enc_env \<Rightarrow> (nat \<Rightarrow> bytes \<times> bytes) \<Rightarrow> ustr \<Rightarrow> bytes \<Rightarrow> bytes \<Rightarrow> ustr option \<Rightarrow> bytes option \<Rightarrow> account \<Rightarrow> unit res \<times> account" where
  "update_shared_secret V rnd name new_secret master_password x25519_pub_b64 ecdh_priv_bytes s =
     (if \<not> friend_exists (ac_keys s) name then (Inl FriendsServiceError, s)
      else if master_password = [] then (Inl FriendsServiceError, s)
      else case get_friend_existing_keys V (ac_keys s) name of Inl e \<Rightarrow> (Inl e, s)
        | Inr ex \<Rightarrow>
            if \<not> given (ex_pem ex) then (Inl FriendsServiceError, s)
            else fs_save V rnd master_password
                   \<lparr>fa_name = name, fa_pem = the (ex_pem ex), fa_shared_secret = Some new_secret,
                    fa_x25519_pub_b64 = (if x25519_pub_b64 \<noteq> None then x25519_pub_b64 else ex_x25519 ex),
                    fa_capabilities = ex_caps ex, fa_pqc_combined_pub_b64 = ex_pqc_b64 ex,
                    fa_hybrid_sig_pub_b64 = ex_hybrid_sig_b64 ex,
                    fa_ecdh_priv_bytes = (if ecdh_priv_bytes \<noteq> None then ecdh_priv_bytes else ex_ecdh_priv ex)\<rparr> s)"

definition update_friend_pub_keys ::
  "enc_env \<Rightarrow> (nat \<Rightarrow> bytes \<times> bytes) \<Rightarrow> ustr \<Rightarrow> bytes \<Rightarrow> ustr option \<Rightarrow> ustr option \<Rightarrow> ustr option \<Rightarrow> ustr option \<Rightarrow>
   account \<Rightarrow> unit res \<times> account" where
  "update_friend_pub_keys V rnd name master_password new_rsa_pem new_x25519_b64 new_pqc_b64 new_hybrid_sig_b64 s =
     (let secret = get_friend_secret name (ac_keys s) in
      if \<not> friend_exists (ac_keys s) name then (Inl FriendsServiceError, s)
      else if \<not> given new_rsa_pem \<and> \<not> given new_x25519_b64 \<and> \<not> given new_pqc_b64 \<and> \<not> given new_hybrid_sig_b64
        then (Inl FriendsServiceError, s)
      else if given secret \<and> master_password = [] then (Inl FriendsServiceError, s)
      else case get_friend_existing_keys V (ac_keys s) name of Inl e \<Rightarrow> (Inl e, s)
        | Inr ex \<Rightarrow>
            (let pem = (if given new_rsa_pem then new_rsa_pem else ex_pem ex) in
             if \<not> given pem then (Inl FriendsServiceError, s)
             else if given new_rsa_pem \<and> \<not> is_ok (pem_to_pubkey (ev_key V) (the new_rsa_pem)) then (Inl FriendsServiceError, s)
             else if bad_x25519 new_x25519_b64 then (Inl FriendsServiceError, s)
             else if bad_combined new_pqc_b64 then (Inl FriendsServiceError, s)
             else if bad_combined new_hybrid_sig_b64 then (Inl FriendsServiceError, s)
             else fs_save V rnd (if given secret then master_password else [])
                    \<lparr>fa_name = name, fa_pem = the pem, fa_shared_secret = secret,
                     fa_x25519_pub_b64 = (if new_x25519_b64 \<noteq> None then new_x25519_b64 else ex_x25519 ex),
                     fa_capabilities = ex_caps ex,
                     fa_pqc_combined_pub_b64 = (if new_pqc_b64 \<noteq> None then new_pqc_b64 else ex_pqc_b64 ex),
                     fa_hybrid_sig_pub_b64 = (if new_hybrid_sig_b64 \<noteq> None then new_hybrid_sig_b64 else ex_hybrid_sig_b64 ex),
                     fa_ecdh_priv_bytes = ex_ecdh_priv ex\<rparr> s))"

section \<open>Sessions of the ratchet\<close>

text \<open>The record that is saved after a session was started or removed: the keys of the post-quantum
  hybrid and of hybrid signatures are not among its arguments.\<close>

definition ratchet_friend_args :: "ustr \<Rightarrow> ustr \<Rightarrow> bytes option \<Rightarrow> ustr option \<Rightarrow> capabilities option \<Rightarrow> key_store \<Rightarrow> friend_args" where
  "ratchet_friend_args name pem secret x_b64 caps k =
     \<lparr>fa_name = name, fa_pem = pem, fa_shared_secret = secret, fa_x25519_pub_b64 = x_b64, fa_capabilities = caps,
      fa_pqc_combined_pub_b64 = None, fa_hybrid_sig_pub_b64 = None, fa_ecdh_priv_bytes = get_friend_ecdh_priv name k\<rparr>"

definition start_session ::
  "enc_env \<Rightarrow> bytes \<Rightarrow> bytes \<Rightarrow> ratchet_service \<Rightarrow> ustr \<Rightarrow> ustr \<Rightarrow> bytes \<Rightarrow> bytes \<Rightarrow> bytes option \<Rightarrow> db \<Rightarrow> unit res \<times> db" where
  "start_session V fresh nonce R name role peer secret local_priv d =
     (let D = ke_db (ev_key V);
          run = (if role = ustr ''alice'' then Some (init_ratchet_alice (ev_ratchet V) fresh D nonce name peer secret local_priv (R, d))
                 else if role = ustr ''bob'' then Some (init_ratchet_bob (ev_ratchet V) fresh D nonce name peer secret local_priv (R, d))
                 else None)
      in case run of None \<Rightarrow> (Inl FriendsServiceError, d)
         | Some (Inl e, d1) \<Rightarrow> (Inl (if e = RatchetInitError then FriendsServiceError else e), d1)
         | Some (Inr _, d1) \<Rightarrow> (Inr (), d1))"

definition init_ratchet ::
  "enc_env \<Rightarrow> (nat \<Rightarrow> bytes \<times> bytes) \<Rightarrow> bytes \<Rightarrow> bytes \<Rightarrow> rat \<Rightarrow> ratchet_service \<Rightarrow> ustr \<Rightarrow> ustr \<Rightarrow> bytes \<Rightarrow> account \<Rightarrow>
   unit res \<times> account" where
  "init_ratchet V rnd fresh nonce now R name role master_password s =
     (let k = ac_keys s; secret = get_friend_secret name k; x_b64 = map_of (friends_x25519 k) name in
      if \<not> friend_exists k name then (Inl FriendsServiceError, s)
      else if \<not> given secret then (Inl FriendsServiceError, s)
      else if \<not> given x_b64 then (Inl FriendsServiceError, s)
      else case decode_public_key (the x_b64) of Inl _ \<Rightarrow> (Inl FriendsServiceError, s)
        | Inr peer \<Rightarrow>
          (case start_session V fresh nonce R name role peer (the secret) (get_friend_ecdh_priv name k) (ac_db s) of
             (Inl e, d1) \<Rightarrow> (Inl e, s\<lparr>ac_db := d1\<rparr>)
           | (Inr _, d1) \<Rightarrow>
             (let s1 = s\<lparr>ac_db := d1\<rparr>; caps = AList.update (ustr ''double_ratchet'') True (friend_caps k name) in
              case friend_entry k name of None \<Rightarrow> (Inr (), s1)
              | Some (_, pub, _) \<Rightarrow>
                  if pubkey_to_pem (ev_key V) pub = [] then (Inr (), s1)
                  else (case verify_master_password (ev_key V) now master_password s1 of
                          (Inl e, s2) \<Rightarrow> (Inl e, s2)
                        | (Inr False, s2) \<Rightarrow> (Inl ValueError, s2)
                        | (Inr True, s2) \<Rightarrow>
                            fs_save V rnd master_password
                              (ratchet_friend_args name (pubkey_to_pem (ev_key V) pub) secret x_b64 (Some caps) (ac_keys s2)) s2))))"

definition reset_ratchet ::
  "enc_env \<Rightarrow> (nat \<Rightarrow> bytes \<times> bytes) \<Rightarrow> rat \<Rightarrow> ustr \<Rightarrow> bytes \<Rightarrow> account \<Rightarrow> bool res \<times> account" where
  "reset_ratchet V rnd now name master_password s =
     (let k = ac_keys s; secret = get_friend_secret name k in
      if \<not> friend_exists k name then (Inl FriendsServiceError, s)
      else case delete_ratchet name (ac_db s) of (deleted, d1) \<Rightarrow>
        (let s1 = s\<lparr>ac_db := d1\<rparr>; caps = AList.delete (ustr ''double_ratchet'') (friend_caps k name) in
         case friend_entry k name of None \<Rightarrow> (Inr deleted, s1)
         | Some (_, pub, _) \<Rightarrow>
             if pubkey_to_pem (ev_key V) pub = [] then (Inr deleted, s1)
             else if given secret \<and> master_password = [] then (Inl FriendsServiceError, s1)
             else (case verify_master_password (ev_key V) now master_password s1 of
                     (Inl e, s2) \<Rightarrow> (Inl e, s2)
                   | (Inr False, s2) \<Rightarrow> (Inl ValueError, s2)
                   | (Inr True, s2) \<Rightarrow>
                       (case fs_save V rnd master_password
                               (ratchet_friend_args name (pubkey_to_pem (ev_key V) pub) secret (map_of (friends_x25519 k) name)
                                 (if caps = [] then None else Some caps) (ac_keys s2)) s2 of
                          (Inl e, s3) \<Rightarrow> (Inl e, s3) | (Inr _, s3) \<Rightarrow> (Inr deleted, s3)))))"

section \<open>Post-quantum keys\<close>

definition get_my_pqc_combined_pub :: "key_store \<Rightarrow> ustr option" where
  "get_my_pqc_combined_pub k =
     (if given (my_pqc_combined_pub k) then Some (b64encode (the (my_pqc_combined_pub k))) else None)"

text \<open>The keys a call generates, as the bundle the key store stores.\<close>

definition fresh_bundle :: "kem_crypto \<Rightarrow> bytes \<Rightarrow> (bytes \<times> bytes) res \<Rightarrow> pqc_bundle res" where
  "fresh_bundle K x_priv keypair =
     (case kem_generate_keys K x_priv keypair of Inl e \<Rightarrow> Inl e
      | Inr keys \<Rightarrow> Inr \<lparr>pb_x25519_priv = kk_x25519_priv keys, pb_kyber_priv = kk_kyber_priv keys,
                        pb_combined_pub = kk_combined_pub keys\<rparr>)"

definition generate_pqc_keys ::
  "enc_env \<Rightarrow> (nat \<Rightarrow> bytes \<times> bytes) \<Rightarrow> bytes \<Rightarrow> (bytes \<times> bytes) res \<Rightarrow> bytes \<Rightarrow> account \<Rightarrow> ustr res \<times> account" where
  "generate_pqc_keys V rnd x_priv keypair master_password s =
     (if \<not> is_pqc_available (ev_kem V) then (Inl FriendsServiceError, s)
      else case ensure_pqc_keys_full (ev_key V) (is_pqc_available (ev_kem V)) (fresh_bundle (ev_kem V) x_priv keypair) rnd
                  master_password (ac_keys s, ac_db s) of
        (Inl e, (k, d)) \<Rightarrow> (Inl e, s\<lparr>ac_keys := k, ac_db := d\<rparr>)
      | (Inr None, (k, d)) \<Rightarrow> (Inl FriendsServiceError, s\<lparr>ac_keys := k, ac_db := d\<rparr>)
      | (Inr (Some b), (k, d)) \<Rightarrow> (Inr (b64encode (pb_combined_pub b)), s\<lparr>ac_keys := k, ac_db := d\<rparr>))"

definition pqc_encapsulate :: "enc_env \<Rightarrow> bytes \<Rightarrow> bytes \<Rightarrow> key_store \<Rightarrow> ustr \<Rightarrow> (ustr \<times> bytes) res" where
  "pqc_encapsulate V x_priv seed k friend_name =
     (let combined_pub = map_of (friends_pqc_combined_pub k) friend_name in
      if \<not> given combined_pub then Inl FriendsServiceError
      else if \<not> is_pqc_available (ev_kem V) then Inl FriendsServiceError
      else case encapsulate (ev_kem V) x_priv seed (the combined_pub) of Inl _ \<Rightarrow> Inl FriendsServiceError
        | Inr (ct, secret) \<Rightarrow> Inr (b64encode ct, secret))"

definition pqc_decapsulate ::
  "enc_env \<Rightarrow> (nat \<Rightarrow> bytes \<times> bytes) \<Rightarrow> bytes \<Rightarrow> (bytes \<times> bytes) res \<Rightarrow> ustr \<Rightarrow> bytes \<Rightarrow> account \<Rightarrow> bytes res \<times> account" where
  "pqc_decapsulate V rnd x_priv keypair ciphertext_b64 master_password s =
     (let open_ct = (\<lambda>b s. (if \<not> is_pqc_available (ev_kem V) then Inl FriendsServiceError
            else case b64decode ciphertext_b64 of Inl _ \<Rightarrow> Inl FriendsServiceError
              | Inr ct \<Rightarrow> (case decapsulate (ev_kem V) (Some (pb_x25519_priv b)) (Some (pb_kyber_priv b)) ct of
                  Inl _ \<Rightarrow> Inl FriendsServiceError | Inr secret \<Rightarrow> Inr secret), s))
      in case load_pqc_bundle (ev_key V) master_password (ac_keys s, ac_db s) of
           (Inl e, (k, d)) \<Rightarrow> (Inl e, s\<lparr>ac_keys := k, ac_db := d\<rparr>)
         | (Inr (Some b), (k, d)) \<Rightarrow> open_ct b (s\<lparr>ac_keys := k, ac_db := d\<rparr>)
         | (Inr None, (k, d)) \<Rightarrow>
             (case ensure_pqc_keys_full (ev_key V) (is_pqc_available (ev_kem V)) (fresh_bundle (ev_kem V) x_priv keypair) rnd
                     master_password (k, d) of
                (Inl e, (k, d)) \<Rightarrow> (Inl e, s\<lparr>ac_keys := k, ac_db := d\<rparr>)
              | (Inr None, (k, d)) \<Rightarrow> (Inl FriendsServiceError, s\<lparr>ac_keys := k, ac_db := d\<rparr>)
              | (Inr (Some b), (k, d)) \<Rightarrow> open_ct b (s\<lparr>ac_keys := k, ac_db := d\<rparr>)))"

definition friend_has_pqc_key :: "key_store \<Rightarrow> ustr \<Rightarrow> bool" where
  "friend_has_pqc_key k name \<longleftrightarrow> map_of (friends_pqc_combined_pub k) name \<noteq> None"

section \<open>Keys of hybrid signatures\<close>

definition friend_has_hybrid_sig_key :: "key_store \<Rightarrow> ustr \<Rightarrow> bool" where
  "friend_has_hybrid_sig_key k name \<longleftrightarrow> map_of (friends_hybrid_sig_pubs k) name \<noteq> None"

definition get_my_hybrid_sig_combined_pub :: "key_store \<Rightarrow> ustr option" where
  "get_my_hybrid_sig_combined_pub k =
     (if given (my_hybrid_sig_combined_pub k) then Some (b64encode (the (my_hybrid_sig_combined_pub k))) else None)"

definition generate_hybrid_sig_keys ::
  "enc_env \<Rightarrow> (nat \<Rightarrow> bytes \<times> bytes) \<Rightarrow> bytes \<Rightarrow> (bytes \<times> bytes) res \<Rightarrow> bytes \<Rightarrow> account \<Rightarrow> ustr res \<times> account" where
  "generate_hybrid_sig_keys V rnd ed_priv keypair master_password s =
     (let enc = (\<lambda>i b. encrypt_secret (ke_db (ev_key V)) (fst (rnd i)) (snd (rnd i)) b master_password) in
      case generate_hybrid_keys (mc_sig (ev_msg V)) ed_priv keypair of Inl _ \<Rightarrow> (Inl FriendsServiceError, s)
      | Inr keys \<Rightarrow>
        (case enc 0 (hk_ed_priv keys) of Inl e \<Rightarrow> (Inl e, s) | Inr ed_priv_enc \<Rightarrow>
        (case enc 1 (hk_dil_priv keys) of Inl e \<Rightarrow> (Inl e, s) | Inr dil_priv_enc \<Rightarrow>
          (let combined_pub_b64 = b64encode (hk_combined_pub keys) in
           (Inr combined_pub_b64,
            s\<lparr>ac_db := put_setting (ustr ''hybrid_sig_combined_pub_b64'') (Text combined_pub_b64)
                (put_setting (ustr ''dilithium_priv_encrypted'') (Secret dil_priv_enc)
                  (put_setting (ustr ''ed25519_priv_encrypted'') (Secret ed_priv_enc) (ac_db s))),
              ac_keys := (ac_keys s)\<lparr>my_ed_priv := Some (hk_ed_priv keys), my_dil_priv := Some (hk_dil_priv keys),
                my_hybrid_sig_combined_pub := Some (hk_combined_pub keys)\<rparr>\<rparr>)))))"

definition import_friend_hybrid_sig_pub ::
  "enc_env \<Rightarrow> (nat \<Rightarrow> bytes \<times> bytes) \<Rightarrow> ustr \<Rightarrow> ustr \<Rightarrow> bytes \<Rightarrow> account \<Rightarrow> unit res \<times> account" where
  "import_friend_hybrid_sig_pub V rnd friend_name combined_pub_b64 master_password s =
     (let k = ac_keys s; secret = get_friend_secret friend_name k; caps = friend_caps k friend_name in
      if \<not> friend_exists k friend_name then (Inl FriendsServiceError, s)
      else if (case b64decode combined_pub_b64 of Inl _ \<Rightarrow> True
               | Inr raw \<Rightarrow> length raw < 36 \<or> \<not> is_ok (parse_combined_pub raw)) then (Inl FriendsServiceError, s)
      else case get_friend_details V k (ac_db s) friend_name of Inl e \<Rightarrow> (Inl e, s)
        | Inr None \<Rightarrow> (Inl FriendsServiceError, s)
        | Inr (Some details) \<Rightarrow>
            if given secret \<and> master_password = [] then (Inl FriendsServiceError, s)
            else fs_save V rnd master_password
                   \<lparr>fa_name = friend_name, fa_pem = su_public_key_pem details, fa_shared_secret = secret,
                    fa_x25519_pub_b64 = map_of (friends_x25519 k) friend_name,
                    fa_capabilities = (if caps = [] then None else Some caps),
                    fa_pqc_combined_pub_b64 = map_option b64encode (map_of (friends_pqc_combined_pub k) friend_name),
                    fa_hybrid_sig_pub_b64 = Some combined_pub_b64, fa_ecdh_priv_bytes = None\<rparr> s)"

definition get_friend_hybrid_sig_pub_b64 :: "key_store \<Rightarrow> ustr \<Rightarrow> ustr option res" where
  "get_friend_hybrid_sig_pub_b64 k friend_name =
     (case map_of (friends_hybrid_sig_pubs k) friend_name of None \<Rightarrow> Inr None
      | Some (ed_pub, dil_pub) \<Rightarrow>
          (case combine_pub ed_pub dil_pub of Inl e \<Rightarrow> Inl e | Inr combined \<Rightarrow> Inr (Some (b64encode combined))))"

definition get_hybrid_sig_key_fingerprint :: "msg_crypto \<Rightarrow> ustr \<Rightarrow> ustr option" where
  "get_hybrid_sig_key_fingerprint C combined_pub_b64 =
     (case b64decode combined_pub_b64 of Inl _ \<Rightarrow> None | Inr raw \<Rightarrow> Some (sha256_fingerprint C raw))"

end
