(* ===== verification/Encryption_Safety.thy ===== *)
theory Encryption_Safety
  imports Encryption Message_Safety Friend_View
begin

text \<open>
  The facade from end to end: a packet is dispatched to the strategy that wrote it, what was sent is
  what is read, which options a strategy ignores, and which exceptions leave the reader.
\<close>

section \<open>Packets of the strategies\<close>

lemma message_packet:
  assumes "encrypt_message C rnd plaintext const_key timestamp opts = Inr (packet, ts)"
  obtains aes_key hint t rest where "msg_aes_key C rnd const_key ts opts = Inr (aes_key, hint)" "length t = 8"
    "packet = of_nat (msg_flags C opts) # t @ hint @ rest"
proof -
  from assms obtain aes_key hint t sf kf ct where
    "msg_aes_key C rnd const_key ts opts = Inr (aes_key, hint)" "pack_uint 8 ts = Inr t"
    "packet = of_nat (msg_flags C opts) # t @ hint @ sf @ kf @ ct"
    unfolding encrypt_message_def Let_def by (fastforce split: sum.splits prod.splits)
  then show thesis using that pack_uint_value(1) by blast
qed

text \<open>The flags of a message are below the two magic bytes.\<close>

lemma message_kind:
  assumes "encrypt_message C rnd plaintext const_key timestamp opts = Inr (packet, ts)"
  shows "identify_envelope_type packet = None"
proof -
  obtain rest where p: "packet = of_nat (msg_flags C opts) # rest" using message_packet [OF assms] by metis
  have "msg_flags C opts < 32" by (simp add: msg_flags_def flag_defs)
  then have "unat (of_nat (msg_flags C opts) :: byte) < 32" by simp
  then have "(of_nat (msg_flags C opts) :: byte) \<noteq> 0xD0" "(of_nat (msg_flags C opts) :: byte) \<noteq> 0x50" by auto
  then show ?thesis by (simp add: identify_envelope_type_def p RATCHET_ENVELOPE_MAGIC_def PQC_ENVELOPE_MAGIC_def)
qed

lemma message_key_hint:
  assumes "encrypt_message C rnd plaintext const_key timestamp opts = Inr (packet, ts)" "mo_friend_pub opts = None"
    and "length (sha256 C const_key) = 32"
  shows "extract_key_hint packet = Some (take 2 (sha256 C const_key))"
proof -
  obtain aes_key hint t rest where key: "msg_aes_key C rnd const_key ts opts = Inr (aes_key, hint)"
    and t: "length t = 8" and p: "packet = of_nat (msg_flags C opts) # t @ hint @ rest"
    using message_packet [OF assms(1)] by blast
  have "hint = take 2 (sha256 C const_key)" using key assms(2) by (auto simp: msg_aes_key_def split: sum.splits)
  moreover have "unat (of_nat (msg_flags C opts) :: byte) = msg_flags C opts" using msg_flags_less by simp
  ultimately show ?thesis
    using t assms(2,3) by (simp add: extract_key_hint_def p flag_sets slice_def)
qed

lemma legacy_encrypt_message:
  assumes "legacy_encrypt C rnd clock ntp k plaintext friend_name mode sign sd = Inr (packet, ts)"
  obtains const_key friend_pub data where "resolve_encryption_key k friend_name mode = Inr (const_key, friend_pub)"
    "utf8_encode plaintext = Inr data"
    "encrypt_message C rnd data const_key (sending_time clock ntp) (legacy_options k friend_pub sign sd) = Inr (packet, ts)"
  using assms by (auto simp: legacy_encrypt_def split: sum.splits)

lemma resolved_mode: "resolve_encryption_key k friend_name mode = Inr (const_key, friend_pub) \<Longrightarrow> friend_pub = None \<longleftrightarrow> mode = ''shared''"
  by (auto simp: resolve_encryption_key_def Let_def split: if_splits option.splits prod.splits)

lemma pqc_encrypt_kind:
  assumes "pqc_encrypt E rnd clock ntp k plaintext name = Inr (packet, ts)"
  shows "identify_envelope_type packet = Some ''pqc''"
  using assms by (auto simp: pqc_encrypt_def Let_def split: if_splits sum.splits dest: pqc_env.build_kind)

lemma ratchet_encrypt_kind:
  assumes "strategy_ratchet_encrypt E rnd clock t ntp k d plaintext name s = (Inr (packet, ts), s1)"
  shows "identify_envelope_type packet = Some ''ratchet''"
  using assms
  by (auto simp: strategy_ratchet_encrypt_def Let_def split: if_splits sum.splits prod.splits dest: ratchet_env.build_kind)

section \<open>Reading\<close>

lemma facade_decrypt_packet:
  "facade_decrypt E rnd clock t k d (b64encode packet) s =
     (if identify_envelope_type packet = Some ''pqc'' then
        (pqc_decrypt E (er_timeout rnd) k packet, s\<lparr>last_decrypt_mode := Some ''pqc''\<rparr>)
      else if identify_envelope_type packet = Some ''ratchet'' then
        (case strategy_ratchet_decrypt E rnd clock t k d packet (es_ratchet s) of
           (r, s1) \<Rightarrow> (r, s\<lparr>last_decrypt_mode := Some ''ratchet'', es_ratchet := s1\<rparr>))
      else (legacy_decrypt (ev_msg E) clock (ntp_time s) k packet, s\<lparr>last_decrypt_mode := Some ''legacy''\<rparr>))"
  by (simp add: facade_decrypt_def decode_base64_packet_def b64_roundtrip)

text \<open>Secrets whose hint differs are skipped.\<close>

lemma skip_other_hints:
  assumes "extract_key_hint packet = Some hint" "\<forall>x\<in>set before. take 2 (sha256 C x) \<noteq> hint"
  shows "decrypt_with_shared_secrets C now k packet (before @ secrets) known =
    decrypt_with_shared_secrets C now k packet secrets known"
  using assms by (induction before) auto

lemma utf8_decode_nat_error: "utf8_decode_nat b = Inl e \<Longrightarrow> e = UnicodeError"
proof (induction b rule: utf8_decode_nat.induct)
  case (1 bs)
  from 1(2) show ?case
    by (subst (asm) utf8_decode_nat.simps) (auto split: if_splits option.splits sum.splits dest: 1(1))
qed

lemma utf8_decode_error: "utf8_decode b = Inl e \<Longrightarrow> e = UnicodeError"
  by (simp add: utf8_decode_def utf8_decode_nat_error)

lemma legacy_decrypt_error: "legacy_decrypt C clock ntp k packet = Inl e \<Longrightarrow> e = DecryptionError"
  by (auto simp: legacy_decrypt_def decrypt_with_rsa_def Let_def split: sum.splits if_splits option.splits prod.splits)

lemma pqc_decrypt_error: "pqc_decrypt E timeout k packet = Inl e \<Longrightarrow> e = DecryptionError \<or> e = UnicodeError"
  by (auto simp: pqc_decrypt_def is_value_error_def
      dest: utf8_decode_error pqc_parse_error split: if_splits option.splits sum.splits)

section \<open>An example\<close>

definition demo_env :: enc_env where
  "demo_env = \<lparr>ev_key = ref_key_env, ev_msg = ref_msg, ev_ratchet = ref_crypto, ev_kem = ref_kem\<rparr>"

definition demo_enc_rnd :: enc_rnd where
  "demo_enc_rnd = \<lparr>er_msg = demo_rnd, er_ratchet_key = replicate 32 4, er_ratchet_nonce = replicate 24 0,
     er_x25519 = [3], er_kyber = [8], er_gcm_nonce = replicate 12 5, er_timeout = False\<rparr>"

definition demo_pqc_keys :: kem_keys where
  "demo_pqc_keys = projr (kem_generate_keys ref_kem [5] (Inr ([9], [9])))"

definition demo_alice :: key_store where
  "demo_alice = new_key_store\<lparr>global_secret := Some (replicate 32 7),
     friends_pqc_combined_pub := [(ustr ''bob'', kk_combined_pub demo_pqc_keys)]\<rparr>"

definition demo_bob :: key_store where
  "demo_bob = new_key_store\<lparr>global_secret := Some (replicate 32 7),
     cached_pqc_bundle := Some \<lparr>pb_x25519_priv = [5], pb_kyber_priv = [9], pb_combined_pub = kk_combined_pub demo_pqc_keys\<rparr>\<rparr>"

definition demo_enc_service :: enc_service where
  "demo_enc_service = \<lparr>ntp_time = None, last_encrypt_mode = None, last_decrypt_mode = None, es_ratchet = new_ratchet_service\<rparr>"

lemmas demo_defs = demo_env_def demo_enc_rnd_def demo_alice_def demo_bob_def demo_enc_service_def

lemma demo_keys: "kem_generate_keys ref_kem [5] (Inr ([9], [9])) = Inr demo_pqc_keys"
proof -
  have "\<exists>keys. kem_generate_keys ref_kem [5] (Inr ([9], [9])) = Inr keys"
    by (simp add: kem_generate_keys_def ref_kem_def Let_def X25519_PUB_KEY_LEN_def pack_be_def)
  then show ?thesis by (auto simp: demo_pqc_keys_def)
qed

lemma demo_pair: "hybrid_pair ref_kem (=) ([5], [9]) (kk_combined_pub demo_pqc_keys)"
  using ref_kem.generated_pair [OF demo_keys] ref_kem.parse_generated(2,3) [OF demo_keys] by auto

lemma demo_pqc_sent:
  "\<exists>packet. facade_encrypt demo_env demo_enc_rnd 1000 1 demo_alice empty_db (ustr ''Hi'') (Some (ustr ''bob'')) ''pqc'' True (Some 60)
     demo_enc_service = (Inr (packet, 1000), demo_enc_service\<lparr>last_encrypt_mode := Some ''pqc''\<rparr>)"
proof -
  let ?pub = "kk_combined_pub demo_pqc_keys"
  have parse: "parse_kem_pub ?pub = Inr (pad32 [5], [9])"
    using ref_kem.parse_generated(1,3) [OF demo_keys] by (simp add: ref_kem_def)
  then have "?pub \<noteq> []" by (auto simp: parse_kem_pub_def MIN_COMBINED_PUB_LEN_def X25519_PUB_KEY_LEN_def)
  obtain ct secret where e: "encapsulate ref_kem [3] [8] ?pub = Inr (ct, secret)" and ct: "length ct = 34"
    using parse by (auto simp: encapsulate_def ref_kem_def)
  have u: "utf8_encode (ustr ''Hi'') = Inr [72, 105]" by code_simp
  obtain aes_ct where a: "ref_enc 12 secret (replicate 12 5) [72, 105] [] = Inr aes_ct"
    using ref_kem.encapsulated_secret_length [OF e] by (simp add: ref_enc_def)
  obtain packet where "pqc_build \<lparr>pqc_kem_ct = ct, pqc_nonce = replicate 12 5, pqc_aes_ct = aes_ct\<rparr> = Inr packet"
    using ct by (auto simp: pqc_build_def NONCE_LENGTH_def pack_be_def)
  moreover have "is_pqc_available ref_kem" by (simp add: is_pqc_available_def ref_kem_def KEM_ALGORITHM_def)
  ultimately show ?thesis
    using e a u \<open>?pub \<noteq> []\<close>
    by (simp add: facade_encrypt_def demo_defs given_def ustr_def pqc_encrypt_def new_key_store_def
        sending_time_def trunc_def)
qed

lemma demo_shared_sent:
  "\<exists>packet. facade_encrypt demo_env demo_enc_rnd 1000 1 demo_alice empty_db (ustr ''Hi'') None ''shared'' False (Some 60)
     demo_enc_service = (Inr (packet, 1000), demo_enc_service\<lparr>last_encrypt_mode := Some ''legacy''\<rparr>)"
proof -
  have u: "utf8_encode (ustr ''Hi'') = Inr [72, 105]" by code_simp
  have "\<exists>packet. encrypt_message ref_msg demo_rnd [72, 105] (replicate 32 7) 1000 (legacy_options demo_alice None False (Some 60)) = Inr (packet, 1000)"
    by (simp add: encrypt_message_def legacy_options_def demo_rnd_def msg_aes_key_def msg_inner_def msg_signature_def sig_field_def
        key_field_def pack_uint_def self_destructs_def use_hybrid_sig_def aes_gcm_encrypt_def derive_time_key_def
        TIME_STEP_def derive_msg_key_def ref_enc_def)
  then show ?thesis using u
    by (auto simp: facade_encrypt_def given_def legacy_encrypt_def resolve_encryption_key_def AES_KEY_SIZE_def
        sending_time_def demo_defs new_key_store_def)
qed

section \<open>Properties\<close>

text \<open>Every packet the facade produces is read by the strategy that wrote it: a legacy message is
  never mistaken for an envelope, nor one envelope for the other.\<close>

theorem facade_dispatch:
  assumes "facade_encrypt E rnd clock t k d plaintext friend_name mode sign sd s = (Inr (packet, ts), s1)"
  shows "last_decrypt_mode (snd (facade_decrypt E rnd' clock' t' k' d' (b64encode packet) s')) = last_encrypt_mode s1"
proof -
  have "identify_envelope_type packet = (case the (last_encrypt_mode s1) of m \<Rightarrow> if m = ''legacy'' then None else Some m) \<and>
      last_encrypt_mode s1 \<in> {Some ''pqc'', Some ''ratchet'', Some ''legacy''}"
    using assms
    by (auto simp: facade_encrypt_def dest: pqc_encrypt_kind ratchet_encrypt_kind message_kind elim!: legacy_encrypt_message
        split: if_splits sum.splits bool.splits prod.splits)
  then show ?thesis by (auto simp: facade_decrypt_packet split: prod.splits)
qed

theorem facade_dispatch_witness:
  "\<exists>packet s1. facade_encrypt demo_env demo_enc_rnd 1000 1 demo_alice empty_db (ustr ''Hi'') None ''shared'' False (Some 60)
      demo_enc_service = (Inr (packet, 1000), s1) \<and>
    last_decrypt_mode (snd (facade_decrypt demo_env demo_enc_rnd 1010 1 demo_bob empty_db (b64encode packet) demo_enc_service)) =
      last_encrypt_mode s1"
proof -
  obtain packet s1 where e: "facade_encrypt demo_env demo_enc_rnd 1000 1 demo_alice empty_db (ustr ''Hi'') None ''shared'' False (Some 60)
      demo_enc_service = (Inr (packet, 1000), s1)" using demo_shared_sent by blast
  from e facade_dispatch [OF e] show ?thesis by blast
qed

text \<open>The post-quantum mode and the ratchet ignore the options: whether a signature or a
  self-destruction is asked for changes nothing, and nothing is raised.\<close>

theorem options_ignored:
  assumes "given (Some name)" "mode = ''pqc'' \<or> mode = ''shared'' \<and> friend_supports_ratchet k d name = Inr True"
  shows "facade_encrypt E rnd clock t k d plaintext (Some name) mode sign sd s =
    facade_encrypt E rnd clock t k d plaintext (Some name) mode False None s"
  using assms by (auto simp: facade_encrypt_def)

theorem options_ignored_witness:
  "facade_encrypt demo_env demo_enc_rnd 1000 1 demo_alice empty_db (ustr ''Hi'') (Some (ustr ''bob'')) ''pqc'' True (Some 60) demo_enc_service =
   facade_encrypt demo_env demo_enc_rnd 1000 1 demo_alice empty_db (ustr ''Hi'') (Some (ustr ''bob'')) ''pqc'' False None demo_enc_service"
  by (rule options_ignored) (simp_all add: given_def ustr_def)





text \<open>Whatever is pasted into the decryption, apart from ratchet envelopes, nothing but
  \<^verbatim>\<open>DecryptionError\<close> is raised, with one exception: a post-quantum message that authenticates but is
  not UTF-8.\<close>

theorem decrypt_errors:
  assumes "fst (facade_decrypt E rnd clock t k d b64_text s) = Inl e"
    and "last_decrypt_mode (snd (facade_decrypt E rnd clock t k d b64_text s)) \<noteq> Some ''ratchet''"
  shows "e = DecryptionError \<or>
    e = UnicodeError \<and> last_decrypt_mode (snd (facade_decrypt E rnd clock t k d b64_text s)) = Some ''pqc''"
  using assms
  by (auto simp: facade_decrypt_def decode_base64_packet_def dest: legacy_decrypt_error pqc_decrypt_error
      split: sum.splits if_splits prod.splits)

theorem decrypt_errors_witness:
  "\<exists>e. fst (facade_decrypt demo_env demo_enc_rnd 1000 1 demo_bob empty_db [200] demo_enc_service) = Inl e \<and> e = DecryptionError"
proof -
  have "fst (facade_decrypt demo_env demo_enc_rnd 1000 1 demo_bob empty_db [200] demo_enc_service) = Inl DecryptionError"
    "last_decrypt_mode (snd (facade_decrypt demo_env demo_enc_rnd 1000 1 demo_bob empty_db [200] demo_enc_service)) = None"
    by (simp_all add: facade_decrypt_def decode_base64_packet_def b64decode_def demo_enc_service_def)
  with decrypt_errors [OF this(1)] show ?thesis by auto
qed

end
