(* ===== verification/Friends_Safety.thy ===== *)
theory Friends_Safety
  imports Friends Encryption_Safety
begin

text \<open>
  What the services of the friends and of the global secret keep and lose: a password that is
  accepted as the master password opens its verifier, a new shared secret leaves the other keys of the
  friend alone, and a change to the session of a friend does not.
\<close>

section \<open>The master password\<close>

lemma verify_password_true:
  assumes "verify_password D True now pw a = (Inr True, a')" "\<not> au_duress_mode a'"
  shows "\<exists>e secret. get_setting (ustr ''global_secret'') (au_db a) = Some (Secret e) \<and> decrypt_secret D e pw = Inr secret \<and>
    (\<exists>v. au_db a' = put_setting lockout_key v (au_db a))"
proof -
  obtain m r where v: "load_verifiers True (au_db a) = (m, r)" by fastforce
  with assms have "opens D pw m" and d: "au_db a' = snd (reset True (au_lockout a) (au_db a))"
    by (auto simp: verify_password_def Let_def split_beta split: if_splits)
  then obtain e secret where "m = Some e" "decrypt_secret D e pw = Inr secret"
    by (auto simp: opens_def is_ok_iff split: option.splits)
  with v have "get_setting (ustr ''global_secret'') (au_db a) = Some (Secret e) \<and> decrypt_secret D e pw = Inr secret"
    by (auto simp: load_verifiers_def Let_def split: option.splits setting.splits)
  with d show ?thesis by (auto simp: reset_def save_state_def Let_def)
qed

lemma verify_master_true:
  assumes "verify_master_password E now pw s = (Inr True, s')"
  shows "\<exists>e secret. get_setting (ustr ''global_secret'') (ac_db s) = Some (Secret e) \<and> decrypt_secret (ke_db E) e pw = Inr secret \<and>
    ac_keys s' = ac_keys s \<and> (\<exists>v. ac_db s' = put_setting lockout_key v (ac_db s))"
proof -
  obtain a where v: "verify_password (ke_db E) True now pw
      \<lparr>au_lockout = ac_lockout s, au_duress_mode = duress_mode (ac_keys s), au_db = ac_db s\<rparr> = (Inr True, a)" "\<not> au_duress_mode a"
    and s': "s' = \<lparr>ac_lockout = au_lockout a, ac_keys = (ac_keys s)\<lparr>duress_mode := duress_mode (ac_keys s)\<rparr>, ac_db = au_db a\<rparr>"
    using assms by (auto simp: verify_master_password_def ks_verify_password_def split: prod.splits sum.splits)
  from verify_password_true [OF v] show ?thesis by (auto simp: s')
qed

lemma verify_master_accepts:
  assumes "db_laws (ke_db E)" "failed_attempts (ac_lockout s) < 5" "locked_until (ac_lockout s) \<le> now"
    and "encrypt_secret (ke_db E) salt nonce secret pw = Inr e" "get_setting (ustr ''global_secret'') (ac_db s) = Some (Secret e)"
  shows "\<exists>s'. verify_master_password E now pw s = (Inr True, s')"
proof -
  let ?a = "\<lparr>au_lockout = ac_lockout s, au_duress_mode = duress_mode (ac_keys s), au_db = ac_db s\<rparr>"
  have "opens (ke_db E) pw (fst (load_verifiers True (ac_db s)))"
    using db_laws.decrypt_encrypt [OF assms(1,4)] assms(5) by (simp add: load_verifiers_def opens_def Let_def)
  then have "fst (verify_password (ke_db E) True now pw ?a) = Inr True \<and> \<not> au_duress_mode (snd (verify_password (ke_db E) True now pw ?a))"
    using no_delay [OF assms(2,3)] by (auto simp: verify_password_def Let_def split_beta reset_def)
  then show ?thesis by (auto simp: verify_master_password_def ks_verify_password_def split: prod.splits)
qed

section \<open>Saving\<close>

lemma fs_save_ok:
  assumes "fs_save V rnd pw f s = (Inr (), s')"
  shows "save_friend (ev_key V) rnd pw f (ac_keys s, ac_db s) = (Inr (), (ac_keys s', ac_db s'))"
  using assms by (auto simp: fs_save_def split: prod.splits)

lemma save_friend_succeeds:
  assumes "db_laws (ke_db E)" "\<And>i. length (snd (rnd i)) = 12" "pw \<noteq> []" "pem_to_pubkey E (fa_pem f) = Inr pub"
    and "length (the (fa_shared_secret f)) < 2 ^ 31 \<or> fa_shared_secret f = None" "length (the (fa_ecdh_priv_bytes f)) < 2 ^ 31 \<or> fa_ecdh_priv_bytes f = None"
    and "\<And>k. fst (store_hybrid_pub E (fa_name f) (fa_hybrid_sig_pub_b64 f) k) = Inr ()"
  shows "fst (save_friend E rnd pw f (k, d)) = Inr ()"
proof -
  have enc: "\<exists>w. encrypt_secret (ke_db E) (fst (rnd i)) (snd (rnd i)) b pw = Inr w" if "length b < 2 ^ 31" for i b
    using db_laws.encrypt_total [OF assms(1,2) that] by blast
  have "\<exists>sec ecdh. encrypt_columns E rnd pw (fa_shared_secret f) (fa_ecdh_priv_bytes f) = Inr (sec, ecdh)"
    using enc [of "the (fa_shared_secret f)" 0] enc [of "the (fa_ecdh_priv_bytes f)" 1] assms(3,5,6)
    by (cases "fa_ecdh_priv_bytes f"; cases "fa_shared_secret f") (auto simp: encrypt_columns_def given_def)
  then obtain sec ecdh where "encrypt_columns E rnd pw (fa_shared_secret f) (fa_ecdh_priv_bytes f) = Inr (sec, ecdh)" by blast
  with assms(4,7) show ?thesis by (simp add: save_friend_def Let_def split_beta)
qed

lemma fs_save_succeeds:
  assumes "fst (save_friend (ev_key V) rnd pw f (ac_keys s, ac_db s)) = Inr ()"
  shows "fst (fs_save V rnd pw f s) = Inr ()"
  using assms by (simp add: fs_save_def split_beta)

lemma friend_entry_view: "fst (friend_view name k) = friend_entry k name"
  by (simp add: friend_view_def friend_entry_def)

text \<open>What is saved without the two post-quantum keys loses them, in memory and in the row.\<close>

lemma ratchet_args_drop:
  assumes "fs_save V rnd pw (ratchet_friend_args name pem secret x caps k) s = (Inr (), s')"
  shows "map_of (friends_pqc_combined_pub (ac_keys s')) name = None \<and> map_of (friends_hybrid_sig_pubs (ac_keys s')) name = None \<and>
    (\<exists>r. select_key fr_name name (friends_tab (ac_db s')) = Some r \<and> fr_pqc_combined_pub_b64 r = None \<and> fr_hybrid_sig_pub_b64 r = None)"
proof (rule saved_friend_view [OF fs_save_ok [OF assms]])
  let ?f = "ratchet_friend_args name pem secret x caps k"
  fix pub sec ecdh
  assume tab: "friends_tab (ac_db s') = filter (\<lambda>r. fr_name r \<noteq> fa_name ?f) (friends_tab (ac_db s)) @ [friend_row_of ?f sec ecdh (friends_tab (ac_db s))]"
    and view: "friend_view (fa_name ?f) (ac_keys s') =
      (Some (fa_name ?f, pub, given_or_none (fa_shared_secret ?f)), given_or_none (fa_x25519_pub_b64 ?f), fa_ecdh_priv_bytes ?f,
       (case given_or_none (fa_capabilities ?f) of Some c \<Rightarrow> c | None \<Rightarrow> []),
       pqc_pub_of (fa_pqc_combined_pub_b64 ?f), hybrid_pub_of (ev_key V) (fa_hybrid_sig_pub_b64 ?f))"
  have "select_key fr_name name (friends_tab (ac_db s')) = Some (friend_row_of ?f sec ecdh (friends_tab (ac_db s)))"
    by (simp add: tab select_key_def find_append find_filter_none friend_row_of_def ratchet_friend_args_def)
  with view show ?thesis
    by (auto simp: friend_view_def pqc_pub_of_def hybrid_pub_of_def given_def friend_row_of_def ratchet_friend_args_def)
qed

lemma init_ratchet_drops_keys:
  assumes "init_ratchet V rnd fresh nonce now R name role pw s = (Inr (), s')"
    and "friend_entry (ac_keys s) name = Some (name, pub, secret)" "pubkey_to_pem (ev_key V) pub \<noteq> []"
  shows "map_of (friends_pqc_combined_pub (ac_keys s')) name = None \<and> map_of (friends_hybrid_sig_pubs (ac_keys s')) name = None"
  using assms ratchet_args_drop
  by (auto simp: init_ratchet_def Let_def split: if_splits sum.splits prod.splits bool.splits)

section \<open>Properties\<close>

text \<open>Whoever changes the global secret knows the master password: its verifier opens under it, a
  duress password is refused; the new secret is stored under the same password, and the mode of the
  session and the other keys are unchanged.\<close>

theorem update_secret_safe:
  assumes "db_laws (ke_db E)" "update_secret E C rnd now new_secret pw s = (Inr fp, s')"
  shows "(\<exists>e old. get_setting (ustr ''global_secret'') (ac_db s) = Some (Secret e) \<and> decrypt_secret (ke_db E) e pw = Inr old) \<and>
    (\<exists>e. get_setting (ustr ''global_secret'') (ac_db s') = Some (Secret e) \<and> decrypt_secret (ke_db E) e pw = Inr new_secret) \<and>
    ac_keys s' = (ac_keys s)\<lparr>global_secret := Some new_secret\<rparr> \<and> length new_secret = 32 \<and> \<not> duress_mode (ac_keys s)"
proof -
  obtain s1 k d where v: "verify_master_password E now pw s = (Inr True, s1)"
    and u: "update_global_secret E rnd new_secret pw (ac_keys s1, ac_db s1) = (Inr (), (k, d))"
    and s': "s' = s1\<lparr>ac_keys := k, ac_db := d\<rparr>" "length new_secret = 32" "\<not> duress_mode (ac_keys s1)"
    using assms(2) by (auto simp: update_secret_def split: if_splits sum.splits prod.splits)
  from verify_master_true [OF v] obtain e old val where
    m: "get_setting (ustr ''global_secret'') (ac_db s) = Some (Secret e)" "decrypt_secret (ke_db E) e pw = Inr old"
    and k1: "ac_keys s1 = ac_keys s" and d1: "ac_db s1 = put_setting lockout_key val (ac_db s)" by blast
  obtain enc where e: "encrypt_secret (ke_db E) (fst rnd) (snd rnd) new_secret pw = Inr enc"
    and kd: "k = (ac_keys s)\<lparr>global_secret := Some new_secret\<rparr>" "d = update_setting (ustr ''global_secret'') (Secret enc) (ac_db s1)"
    using u k1 by (auto simp: update_global_secret_def split: sum.splits)
  have "get_setting (ustr ''global_secret'') d = Some (Secret enc)"
    using m(1) by (simp add: kd d1 lockout_key_def ustr_def)
  with m e k1 s' kd(1) db_laws.decrypt_encrypt [OF assms(1) e] show ?thesis by auto
qed

definition demo_account :: account where
  "demo_account = \<lparr>ac_lockout = \<lparr>failed_attempts = 0, locked_until = 0\<rparr>,
     ac_keys = new_key_store\<lparr>friends := [(ustr ''bob'', [1, 2], None)], friends_pqc_combined_pub := [(ustr ''bob'', [9])],
       friends_hybrid_sig_pubs := [(ustr ''bob'', [7], [8])]\<rparr>,
     ac_db = put_setting (ustr ''global_secret'') (Secret master_verifier) empty_db\<rparr>"

lemma demo_env_key: "ev_key demo_env = ref_key_env"
  by (simp add: demo_env_def)

lemma demo_master: "encrypt_secret ref_db_crypto [1] (replicate 12 0) [42] [65] = Inr master_verifier"
  using ref_db.encrypt_total [of "replicate 12 0" "[42]" "[1]" "[65]"] by (auto simp: master_verifier_def)

lemma demo_master_accepted: "\<exists>s1. verify_master_password ref_key_env 5 [65] (demo_account\<lparr>ac_db := d\<rparr>) = (Inr True, s1)"
  if "get_setting (ustr ''global_secret'') d = Some (Secret master_verifier)"
  by (rule verify_master_accepts [where salt = "[1]" and nonce = "replicate 12 0" and secret = "[42]" and e = master_verifier])
    (use that demo_master in \<open>simp_all add: demo_account_def ref_key_env_def ref_db_laws\<close>)

theorem update_secret_safe_witness:
  "\<exists>fp s'. update_secret ref_key_env ref_msg ([2], replicate 12 3) 5 (replicate 32 6) [65] demo_account = (Inr fp, s') \<and>
    ac_keys s' = (ac_keys demo_account)\<lparr>global_secret := Some (replicate 32 6)\<rparr>"
proof -
  have "ac_db demo_account = put_setting (ustr ''global_secret'') (Secret master_verifier) empty_db" by (simp add: demo_account_def)
  then obtain s1 where v: "verify_master_password ref_key_env 5 [65] demo_account = (Inr True, s1)"
    using demo_master_accepted [of "ac_db demo_account"] by (auto simp: demo_account_def)
  obtain enc where "encrypt_secret ref_db_crypto [2] (replicate 12 3) (replicate 32 6) [65] = Inr enc"
    using ref_db.encrypt_total [of "replicate 12 3" "replicate 32 6" "[2]" "[65]"] by auto
  then have "\<exists>fp s'. update_secret ref_key_env ref_msg ([2], replicate 12 3) 5 (replicate 32 6) [65] demo_account = (Inr fp, s')"
    using v verify_master_true [OF v]
    by (auto simp: update_secret_def update_global_secret_def ref_key_env_def demo_account_def new_key_store_def)
  then obtain fp s' where u: "update_secret ref_key_env ref_msg ([2], replicate 12 3) 5 (replicate 32 6) [65] demo_account = (Inr fp, s')"
    by blast
  have "db_laws (ke_db ref_key_env)" by (simp add: ref_key_env_def ref_db_laws)
  from update_secret_safe [OF this u] u show ?thesis by blast
qed

text \<open>A new shared secret replaces the old one and leaves every other key of the friend as it was:
  the RSA key, the keys of the exchange, the capabilities and both post-quantum keys.\<close>

theorem update_shared_secret_keeps_keys:
  assumes "key_laws (ev_key V)" "hybrid_sig_available (ev_key V)" "new_secret \<noteq> []"
    and "friend_view name (ac_keys s) = (Some (name, pub, old), x, ecdh, caps, pqc, hyb)" "x \<noteq> Some []" "pqc \<noteq> Some []"
    and "update_shared_secret V rnd name new_secret pw None None s = (Inr (), s')"
  shows "friend_view name (ac_keys s') = (Some (name, pub, Some new_secret), x, ecdh, caps, pqc, hyb)"
proof -
  let ?k = "ac_keys s"
  have view: "friend_entry ?k name = Some (name, pub, old)" "map_of (friends_x25519 ?k) name = x"
    "map_of (friends_ecdh_priv ?k) name = ecdh" "friend_caps ?k name = caps"
    "map_of (friends_pqc_combined_pub ?k) name = pqc" "map_of (friends_hybrid_sig_pubs ?k) name = hyb"
    using assms(4) by (auto simp: friend_view_def friend_entry_def friend_caps_def)
  obtain ex where ex: "get_friend_existing_keys V ?k name = Inr ex"
    and save: "fs_save V rnd pw \<lparr>fa_name = name, fa_pem = the (ex_pem ex), fa_shared_secret = Some new_secret,
       fa_x25519_pub_b64 = ex_x25519 ex, fa_capabilities = ex_caps ex, fa_pqc_combined_pub_b64 = ex_pqc_b64 ex,
       fa_hybrid_sig_pub_b64 = ex_hybrid_sig_b64 ex, fa_ecdh_priv_bytes = ex_ecdh_priv ex\<rparr> s = (Inr (), s')"
    using assms(7) by (auto simp: update_shared_secret_def split: if_splits sum.splits)
  have fields: "ex_pem ex = Some (pubkey_to_pem (ev_key V) pub)" "ex_x25519 ex = x" "ex_ecdh_priv ex = ecdh"
    "ex_caps ex = (if caps = [] then None else Some caps)" "ex_pqc_b64 ex = map_option b64encode pqc"
    using ex view by (auto simp: get_friend_existing_keys_def get_friend_ecdh_priv_def split: sum.splits)
  have hybrid: "hybrid_pub_of (ev_key V) (ex_hybrid_sig_b64 ex) = hyb"
  proof (cases hyb)
    case None
    then show ?thesis using ex view by (auto simp: get_friend_existing_keys_def hybrid_pub_of_def given_def)
  next
    case (Some p)
    then obtain combined where c: "combine_pub (fst p) (snd p) = Inr combined" "ex_hybrid_sig_b64 ex = Some (b64encode combined)"
      using ex view by (cases p) (auto simp: get_friend_existing_keys_def split: sum.splits)
    have "combined \<noteq> []" using parse_combine [OF c(1)] by (auto simp: parse_combined_pub_def slice_def unpack_be_def)
    then have "b64encode combined \<noteq> []" using b64_roundtrip [of combined] by (auto simp: b64decode_def)
    then show ?thesis using c parse_combine [OF c(1)] assms(2) Some by (simp add: hybrid_pub_of_def given_def b64_roundtrip)
  qed
  have pqc: "pqc_pub_of (map_option b64encode pqc) = pqc"
  proof (cases pqc)
    case (Some b)
    then have "b64encode b \<noteq> []" using assms(6) b64_roundtrip [of b] by (auto simp: b64decode_def)
    then show ?thesis using Some by (simp add: pqc_pub_of_def given_def b64_roundtrip)
  qed (simp add: pqc_pub_of_def given_def)
  show ?thesis
  proof (rule saved_friend_view [OF fs_save_ok [OF save]], goal_cases)
    case (1 pub' sec ecdh')
    have "pub' = pub" using 1(2) key_laws.pem_pub [OF assms(1)] by (simp add: fields)
    with 1(4) hybrid pqc assms(3,5) fields show ?case by (cases x) (auto simp: given_or_none_def given_def)
  qed
qed

theorem update_shared_secret_keeps_keys_witness:
  "\<exists>s'. update_shared_secret demo_env some_rnd (ustr ''bob'') [5] [65] None None demo_account = (Inr (), s') \<and>
    friend_view (ustr ''bob'') (ac_keys s') =
      (Some (ustr ''bob'', [1, 2], Some [5]), None, None, [], Some [9], Some ([7], [8]))"
proof -
  have combine: "combine_pub [7] [8] = Inr [0, 1, 7, 0, 1, 8]"
    by (simp add: combine_pub_def pack_be_def numeral_2_eq_2)
  have "fst (fs_save demo_env some_rnd [65]
      \<lparr>fa_name = ustr ''bob'', fa_pem = [80, 1, 2], fa_shared_secret = Some [5], fa_x25519_pub_b64 = None, fa_capabilities = None,
       fa_pqc_combined_pub_b64 = Some (b64encode [9]), fa_hybrid_sig_pub_b64 = Some (b64encode [0, 1, 7, 0, 1, 8]),
       fa_ecdh_priv_bytes = None\<rparr> demo_account) = Inr ()"
    by (intro fs_save_succeeds save_friend_succeeds)
      (simp_all add: demo_env_key ref_key_env_def ref_db_laws some_rnd_def store_hybrid_pub_def b64_roundtrip parse_combine [OF combine])
  then have "fst (update_shared_secret demo_env some_rnd (ustr ''bob'') [5] [65] None None demo_account) = Inr ()"
    by (simp add: update_shared_secret_def friend_exists_def demo_account_def new_key_store_def get_friend_existing_keys_def
        combine friend_entry_def friend_caps_def get_friend_ecdh_priv_def given_def demo_env_key ref_key_env_def)
  then obtain s' where u: "update_shared_secret demo_env some_rnd (ustr ''bob'') [5] [65] None None demo_account = (Inr (), s')"
    by (cases "update_shared_secret demo_env some_rnd (ustr ''bob'') [5] [65] None None demo_account") auto
  have "friend_view (ustr ''bob'') (ac_keys s') =
      (Some (ustr ''bob'', [1, 2], Some [5]), None, None, [], Some [9], Some ([7], [8]))"
  proof (rule update_shared_secret_keeps_keys [OF _ _ _ _ _ _ u])
    show "key_laws (ev_key demo_env)" by (simp add: demo_env_key ref_key_laws)
    show "hybrid_sig_available (ev_key demo_env)" by (simp add: demo_env_key ref_key_env_def)
  qed (simp_all add: friend_view_def demo_account_def new_key_store_def)
  with u show ?thesis by blast
qed

text \<open>Removing the session of a friend loses the post-quantum keys of the friend, in memory and in the
  database; no post-quantum message can be sent to the friend any more.\<close>

theorem reset_ratchet_drops_keys:
  assumes "reset_ratchet V rnd now name pw s = (Inr deleted, s')" "name \<noteq> []"
    and "friend_entry (ac_keys s) name = Some (name, pub, secret)" "pubkey_to_pem (ev_key V) pub \<noteq> []"
  shows "friend_view name (ac_keys s') = (friend_entry (ac_keys s') name, map_of (friends_x25519 (ac_keys s')) name,
      map_of (friends_ecdh_priv (ac_keys s')) name, friend_caps (ac_keys s') name, None, None) \<and>
    (\<exists>r. select_key fr_name name (friends_tab (ac_db s')) = Some r \<and> fr_pqc_combined_pub_b64 r = None \<and> fr_hybrid_sig_pub_b64 r = None) \<and>
    fst (facade_encrypt V ernd clock t (ac_keys s') d plaintext (Some name) ''pqc'' sign sd es) = Inl EncryptionError"
proof -
  obtain f s1 where "fs_save V rnd pw (ratchet_friend_args name (pubkey_to_pem (ev_key V) pub) (get_friend_secret name (ac_keys s)) f
      (if AList.delete (ustr ''double_ratchet'') (friend_caps (ac_keys s) name) = [] then None
       else Some (AList.delete (ustr ''double_ratchet'') (friend_caps (ac_keys s) name))) (ac_keys s1)) s1 = (Inr (), s')"
    using assms(1,3,4) by (auto simp: reset_ratchet_def Let_def split: if_splits sum.splits prod.splits bool.splits)
  note dropped = ratchet_args_drop [OF this]
  then have "map_of (friends_pqc_combined_pub (ac_keys s')) name = None" by blast
  then have "fst (facade_encrypt V ernd clock t (ac_keys s') d plaintext (Some name) ''pqc'' sign sd es) = Inl EncryptionError"
    using assms(2) by (simp add: facade_encrypt_def given_def pqc_encrypt_def)
  with dropped show ?thesis by (simp add: friend_view_def friend_entry_def friend_caps_def)
qed

theorem reset_ratchet_drops_keys_witness:
  "\<exists>deleted s'. reset_ratchet demo_env some_rnd 5 (ustr ''bob'') [65] demo_account = (Inr deleted, s') \<and>
    fst (facade_encrypt demo_env demo_enc_rnd 1000 1 (ac_keys s') (ac_db s') (ustr ''Hi'') (Some (ustr ''bob'')) ''pqc'' True None
      demo_enc_service) = Inl EncryptionError"
proof -
  obtain s1 where v: "verify_master_password ref_key_env 5 [65] (demo_account\<lparr>ac_db := snd (delete_ratchet (ustr ''bob'') (ac_db demo_account))\<rparr>) = (Inr True, s1)"
    using demo_master_accepted [of "snd (delete_ratchet (ustr ''bob'') (ac_db demo_account))"]
    by (auto simp: delete_ratchet_def update_row_def demo_account_def)
  then have k1: "ac_keys s1 = ac_keys demo_account" using verify_master_true [OF v] by auto
  have "fst (fs_save demo_env some_rnd [65] (ratchet_friend_args (ustr ''bob'') [80, 1, 2] None None None (ac_keys s1)) s1) = Inr ()"
    by (intro fs_save_succeeds save_friend_succeeds)
      (simp_all add: demo_env_key ref_key_env_def ref_db_laws some_rnd_def store_hybrid_pub_def given_def ratchet_friend_args_def
        k1 demo_account_def new_key_store_def get_friend_ecdh_priv_def)
  then have "is_ok (fst (reset_ratchet demo_env some_rnd 5 (ustr ''bob'') [65] demo_account))"
    using v by (simp add: reset_ratchet_def Let_def split_beta friend_exists_def friend_entry_def friend_caps_def get_friend_secret_def
        given_def demo_env_key ref_key_env_def demo_account_def new_key_store_def split: sum.split)
  then obtain deleted s' where r: "reset_ratchet demo_env some_rnd 5 (ustr ''bob'') [65] demo_account = (Inr deleted, s')"
    by (cases "reset_ratchet demo_env some_rnd 5 (ustr ''bob'') [65] demo_account") (auto simp: is_ok_iff)
  have "ustr ''bob'' \<noteq> []" by (simp add: ustr_def)
  moreover have "friend_entry (ac_keys demo_account) (ustr ''bob'') = Some (ustr ''bob'', [1, 2], None)"
    by (simp add: friend_entry_def demo_account_def)
  moreover have "pubkey_to_pem (ev_key demo_env) [1, 2] \<noteq> []" by (simp add: demo_env_key ref_key_env_def)
  ultimately show ?thesis using reset_ratchet_drops_keys [OF r] r by blast
qed

end
