(* ===== verification/File_Service.thy ===== *)
theory File_Service
  imports Key_Store Message
begin

text \<open>
  File encryption: \<^verbatim>\<open>services/file_ops.py\<close> and \<^verbatim>\<open>services/file_service.py\<close>. The file system is
  the list of its files and of the paths where writing raises \<^verbatim>\<open>OSError\<close>. A file is read once, so
  that the calls of \<^verbatim>\<open>read\<close> in the source are slices of its contents. HKDF and PBKDF2 are
  parameters beside those of the messages; whether a call runs into its time limit is in
  \<open>file_rnd\<close>. Passwords are their UTF-8 bytes.
\<close>

section \<open>Files\<close>

record file_system =
  fs_files :: "(ustr \<times> bytes) list"
  fs_denied :: "ustr list"

definition read_file :: "ustr \<Rightarrow> file_system \<Rightarrow> bytes res" where
  "read_file path fs = (case map_of (fs_files fs) path of None \<Rightarrow> Inl OSErr | Some b \<Rightarrow> Inr b)"

definition write_file :: "ustr \<Rightarrow> bytes \<Rightarrow> file_system \<Rightarrow> unit res \<times> file_system" where
  "write_file path data fs =
     (if path \<in> set (fs_denied fs) then (Inl OSErr, fs)
      else (Inr (), fs\<lparr>fs_files := AList.update path data (fs_files fs)\<rparr>))"

definition unlink_file :: "ustr \<Rightarrow> file_system \<Rightarrow> file_system" where
  "unlink_file path fs = fs\<lparr>fs_files := AList.delete path (fs_files fs)\<rparr>"

section \<open>Files under a password\<close>

record file_env =
  fe_key :: key_env
  fe_msg :: msg_crypto
  fe_hkdf :: "bytes \<Rightarrow> bytes \<Rightarrow> bytes \<Rightarrow> bytes"
  fe_pbkdf2 :: "nat \<Rightarrow> bytes \<Rightarrow> bytes \<Rightarrow> bytes"

record file_rnd =
  fr_salt :: bytes
  fr_nonce :: bytes
  fr_pss :: bytes
  fr_kdf_timeout :: bool
  fr_read_timeout :: bool

definition FILE_MAGIC :: bytes where
  "FILE_MAGIC = map of_nat (ustr ''ENIGMA'') @ [1]"

definition FILE_KDF_VERSION_ARGON2ID :: bytes where
  "FILE_KDF_VERSION_ARGON2ID = map of_nat (ustr ''A2ID'')"

definition FILE_KDF_LEGACY_PBKDF2_ITERATIONS :: nat where "FILE_KDF_LEGACY_PBKDF2_ITERATIONS = 300000"
definition FILE_FLAG_RSA_SIGN :: nat where "FILE_FLAG_RSA_SIGN = 1"
definition FILE_FLAG_HYBRID_SIGN :: nat where "FILE_FLAG_HYBRID_SIGN = 2"

text \<open>Argon2 refuses a salt of fewer than eight bytes.\<close>

definition file_argon :: "file_env \<Rightarrow> bool \<Rightarrow> bytes \<Rightarrow> bytes \<Rightarrow> bytes res" where
  "file_argon V timeout password salt =
     (if timeout then Inl ValueError
      else if length salt < 8 then Inl HashingError
      else Inr (derive_key_argon2id (ke_db (fe_key V)) password salt))"

definition file_encrypt ::
  "file_env \<Rightarrow> file_rnd \<Rightarrow> ustr \<Rightarrow> ustr \<Rightarrow> bytes \<Rightarrow> file_system \<Rightarrow> unit res \<times> file_system" where
  "file_encrypt V rnd input_path output_path password fs =
     (case file_argon V (fr_kdf_timeout rnd) password (fr_salt rnd) of Inl e \<Rightarrow> (Inl e, fs) | Inr key \<Rightarrow>
      if fr_read_timeout rnd then (Inl ValueError, fs)
      else case read_file input_path fs of Inl e \<Rightarrow> (Inl e, fs) | Inr plaintext \<Rightarrow>
     (case gcm_enc (fe_msg V) key (fr_nonce rnd) plaintext [] of Inl e \<Rightarrow> (Inl e, fs)
      | Inr ct \<Rightarrow> write_file output_path (FILE_KDF_VERSION_ARGON2ID @ fr_salt rnd @ fr_nonce rnd @ ct) fs))"

text \<open>The four reads of \<^verbatim>\<open>file_decrypt\<close>: a file without the tag is a legacy one, whose salt starts
  with the four bytes that were read.\<close>

definition split_password_file :: "bytes \<Rightarrow> bool \<times> bytes \<times> bytes \<times> bytes" where
  "split_password_file data =
     (let header = take 4 data in
      if header = FILE_KDF_VERSION_ARGON2ID then (True, slice 4 20 data, slice 20 32 data, drop 32 data)
      else (False, header @ slice 4 16 data, slice 16 28 data, drop 28 data))"

definition file_decrypt ::
  "file_env \<Rightarrow> bool \<Rightarrow> ustr \<Rightarrow> ustr \<Rightarrow> bytes \<Rightarrow> file_system \<Rightarrow> unit res \<times> file_system" where
  "file_decrypt V kdf_timeout input_path output_path password fs =
     (case read_file input_path fs of Inl e \<Rightarrow> (Inl e, fs) | Inr data \<Rightarrow>
      case split_password_file data of (argon, salt, nonce, ct) \<Rightarrow>
     (case (if argon then file_argon V kdf_timeout password salt
            else if kdf_timeout then Inl ValueError
            else Inr (fe_pbkdf2 V FILE_KDF_LEGACY_PBKDF2_ITERATIONS password salt)) of
        Inl e \<Rightarrow> (Inl e, fs)
      | Inr key \<Rightarrow>
       (case gcm_dec (fe_msg V) key nonce ct [] of
          Inl e \<Rightarrow> (Inl (if e = InvalidTag \<or> is_value_error e \<or> e = OSErr then ValueError else e), fs)
        | Inr plaintext \<Rightarrow> write_file output_path plaintext fs)))"

section \<open>Files under a shared secret\<close>

record file_signing =
  sg_sign :: bool
  sg_my_priv :: "bytes option"
  sg_ed_priv :: "bytes option"
  sg_dil_priv :: "bytes option"

definition file_key :: "file_env \<Rightarrow> bytes \<Rightarrow> bytes \<Rightarrow> bytes" where
  "file_key V salt shared_secret = fe_hkdf V salt (map of_nat (ustr ''enigma-file-v1'')) shared_secret"

definition file_fingerprint :: "file_env \<Rightarrow> bytes \<Rightarrow> bytes" where
  "file_fingerprint V secret = take 16 (sha256 (fe_msg V) secret)"

text \<open>The flags and the signature.\<close>

definition file_signature :: "file_env \<Rightarrow> file_rnd \<Rightarrow> file_signing \<Rightarrow> bytes \<Rightarrow> (nat \<times> bytes) res" where
  "file_signature V rnd sg plaintext =
     (if sg_sign sg \<and> sg_ed_priv sg \<noteq> None \<and> sg_dil_priv sg \<noteq> None \<and> mc_hybrid_available (fe_msg V) then
        (case hybrid_sign (mc_sig (fe_msg V)) plaintext (the (sg_ed_priv sg)) (the (sg_dil_priv sg)) of
           Inl e \<Rightarrow> Inl e | Inr s \<Rightarrow> Inr (FILE_FLAG_HYBRID_SIGN, s))
      else if sg_sign sg \<and> sg_my_priv sg \<noteq> None then
        Inr (FILE_FLAG_RSA_SIGN, rsa_pss_sign (fe_msg V) (the (sg_my_priv sg)) (fr_pss rnd) plaintext)
      else Inr (0, []))"

text \<open>The file is open when the length of the signature is packed: a signature that is too long
  leaves the header behind.\<close>

definition file_encrypt_shared ::
  "file_env \<Rightarrow> file_rnd \<Rightarrow> ustr \<Rightarrow> ustr \<Rightarrow> bytes \<Rightarrow> file_signing \<Rightarrow> file_system \<Rightarrow> unit res \<times> file_system" where
  "file_encrypt_shared V rnd input_path output_path shared_secret sg fs =
     (case read_file input_path fs of Inl e \<Rightarrow> (Inl e, fs) | Inr plaintext \<Rightarrow>
     (case file_signature V rnd sg plaintext of Inl e \<Rightarrow> (Inl e, fs) | Inr (flags, signature) \<Rightarrow>
     (case gcm_enc (fe_msg V) (file_key V (fr_salt rnd) shared_secret) (fr_nonce rnd) plaintext [] of
        Inl e \<Rightarrow> (Inl e, fs)
      | Inr ct \<Rightarrow>
        (let header = FILE_MAGIC @ [of_nat flags] @ file_fingerprint V shared_secret @ fr_salt rnd @ fr_nonce rnd in
         if signature = [] then write_file output_path (header @ ct) fs
         else case pack_u16 (length signature) of
                Inl e \<Rightarrow> (case write_file output_path header fs of (Inl e', fs') \<Rightarrow> (Inl e', fs') | (Inr _, fs') \<Rightarrow> (Inl e, fs'))
              | Inr n \<Rightarrow> write_file output_path (header @ n @ signature @ ct) fs))))"

text \<open>The reads of \<^verbatim>\<open>file_decrypt_shared\<close>: flags, fingerprint, salt, nonce, signature, ciphertext.\<close>

record shared_file =
  sf_flags :: nat
  sf_fp :: bytes
  sf_salt :: bytes
  sf_nonce :: bytes
  sf_signature :: bytes
  sf_ct :: bytes

definition split_shared_file :: "bytes \<Rightarrow> shared_file res" where
  "split_shared_file data =
     (if take (length FILE_MAGIC) data \<noteq> FILE_MAGIC then Inl ValueError
      else if length (slice 7 8 data) < 1 then Inl ValueError
      else let flags = unat (hd (slice 7 8 data));
               parts = (\<lambda>signature ct. \<lparr>sf_flags = flags, sf_fp = slice 8 24 data, sf_salt = slice 24 40 data,
                          sf_nonce = slice 40 52 data, sf_signature = signature, sf_ct = ct\<rparr>)
        in if flag_set flags FILE_FLAG_RSA_SIGN \<or> flag_set flags FILE_FLAG_HYBRID_SIGN then
             (let siglen_bytes = slice 52 54 data in
              if length siglen_bytes < 2 then Inl ValueError
              else let siglen = be_val siglen_bytes; signature = slice 54 (54 + siglen) data in
                if length signature \<noteq> siglen then Inl ValueError
                else Inr (parts signature (drop (54 + siglen) data)))
           else Inr (parts [] (drop 52 data)))"

definition file_banner ::
  "file_env \<Rightarrow> nat \<Rightarrow> bytes \<Rightarrow> bytes \<Rightarrow> (ustr \<times> bytes) list \<Rightarrow> (ustr \<times> bytes \<times> bytes) list \<Rightarrow> sig_banner" where
  "file_banner V flags plaintext signature friends_for_sig friends_hybrid =
     (if flag_set flags FILE_FLAG_HYBRID_SIGN \<and> signature \<noteq> [] \<and> friends_hybrid \<noteq> [] then
        (case find (\<lambda>(_, ed, dil). msg_hybrid_verify (fe_msg V) plaintext signature ed dil) friends_hybrid of
           Some (name, _, _) \<Rightarrow> HybridVerified name | None \<Rightarrow> HybridInvalid)
      else if flag_set flags FILE_FLAG_RSA_SIGN \<and> signature \<noteq> [] \<and> friends_for_sig \<noteq> [] then
        (case find (\<lambda>(_, pub). rsa_pss_verify (fe_msg V) pub signature plaintext) friends_for_sig of
           Some (name, pub) \<Rightarrow> RsaVerified name (sha256_fingerprint (fe_msg V) (rsa_pub_pem (fe_msg V) pub))
         | None \<Rightarrow> RsaInvalid)
      else NoSignature)"

fun file_banner_text :: "sig_banner \<Rightarrow> ustr" where
  "file_banner_text NoSignature = []"
| "file_banner_text (HybridVerified name) =
     9989 # ustr '' Hybrid Signature Verified (Ed25519 + Dilithium3) from '' @ name"
| "file_banner_text HybridInvalid = [9888, 65039] @ ustr '' Hybrid Signature INVALID or sender unknown''"
| "file_banner_text (RsaVerified name fp) =
     ustr ''Signature verified from '' @ name @ ustr '' (key fingerprint: '' @ fp @ ustr '')''"
| "file_banner_text RsaInvalid = ustr ''Signature INVALID or sender unknown''"

type_synonym secrets_dict = "(bytes \<times> bytes \<times> ustr) list"

definition file_decrypt_shared ::
  "file_env \<Rightarrow> ustr \<Rightarrow> ustr \<Rightarrow> secrets_dict \<Rightarrow> (ustr \<times> bytes) list \<Rightarrow> (ustr \<times> bytes \<times> bytes) list \<Rightarrow> file_system \<Rightarrow>
   ustr res \<times> file_system" where
  "file_decrypt_shared V input_path output_path secrets friends_for_sig friends_hybrid fs =
     (case read_file input_path fs of Inl e \<Rightarrow> (Inl e, fs) | Inr data \<Rightarrow>
     (case split_shared_file data of Inl e \<Rightarrow> (Inl e, fs) | Inr f \<Rightarrow>
     (case map_of secrets (sf_fp f) of None \<Rightarrow> (Inl ValueError, fs) | Some (secret, owner) \<Rightarrow>
     (case gcm_dec (fe_msg V) (file_key V (sf_salt f) secret) (sf_nonce f) (sf_ct f) [] of
        Inl e \<Rightarrow> (Inl ValueError, fs)
      | Inr plaintext \<Rightarrow>
        (let sig_msg = file_banner_text (file_banner V (sf_flags f) plaintext (sf_signature f) friends_for_sig friends_hybrid) in
         case write_file output_path plaintext fs of
           (Inl e, fs') \<Rightarrow> (Inl e, fs') | (Inr _, fs') \<Rightarrow> (Inr sig_msg, fs'))))))"

section \<open>The service\<close>

text \<open>The key store is an argument; the service keeps the secrets it has computed once.\<close>

record file_service =
  cached_fingerprints :: "secrets_dict option"
  sv_files :: file_system

definition compute_secrets :: "file_env \<Rightarrow> key_store \<Rightarrow> secrets_dict" where
  "compute_secrets V k =
     fold (\<lambda>(name, _, sec) m. if given sec then AList.update (file_fingerprint V (the sec)) (the sec, name) m else m)
       (friends k)
       (if given (global_secret k)
        then [(file_fingerprint V (the (global_secret k)), the (global_secret k), ustr ''Global'')] else [])"

definition build_secrets_dict :: "file_env \<Rightarrow> key_store \<Rightarrow> file_service \<Rightarrow> secrets_dict \<times> file_service" where
  "build_secrets_dict V k s =
     (case cached_fingerprints s of Some m \<Rightarrow> (m, s)
      | None \<Rightarrow> (compute_secrets V k, s\<lparr>cached_fingerprints := Some (compute_secrets V k)\<rparr>))"

definition invalidate_fingerprint_cache :: "file_service \<Rightarrow> file_service" where
  "invalidate_fingerprint_cache s = s\<lparr>cached_fingerprints := None\<rparr>"

definition on_files :: "'a res \<times> file_system \<Rightarrow> file_service \<Rightarrow> 'a res \<times> file_service" where
  "on_files r s = (fst r, s\<lparr>sv_files := snd r\<rparr>)"

definition file_secret :: "key_store \<Rightarrow> string \<Rightarrow> ustr option \<Rightarrow> bytes res" where
  "file_secret k method friend_name =
     (if method = ''global'' then
        (if \<not> given (global_secret k) then Inl FileServiceError else Inr (the (global_secret k)))
      else if method = ''friend'' then
        (if \<not> given friend_name then Inl FileServiceError
         else if \<not> given (get_friend_secret (the friend_name) k) then Inl FileServiceError
         else Inr (the (get_friend_secret (the friend_name) k)))
      else Inl FileServiceError)"

definition file_signing_of :: "key_store \<Rightarrow> bool \<Rightarrow> file_signing" where
  "file_signing_of k sign =
     \<lparr>sg_sign = sign, sg_my_priv = (if sign then my_priv k else None),
      sg_ed_priv = (if sign then my_ed_priv k else None), sg_dil_priv = (if sign then my_dil_priv k else None)\<rparr>"

definition encrypt_file ::
  "file_env \<Rightarrow> file_rnd \<Rightarrow> key_store \<Rightarrow> ustr \<Rightarrow> ustr \<Rightarrow> string \<Rightarrow> bytes option \<Rightarrow> ustr option \<Rightarrow> bool \<Rightarrow> file_service \<Rightarrow>
   unit res \<times> file_service" where
  "encrypt_file V rnd k input_path output_path method password friend_name sign s =
     (if method = ''password'' then
        (if \<not> given password then (Inl FileServiceError, s)
         else on_files (file_encrypt V rnd input_path output_path (the password) (sv_files s)) s)
      else case file_secret k method friend_name of Inl e \<Rightarrow> (Inl e, s)
        | Inr secret \<Rightarrow>
            on_files (file_encrypt_shared V rnd input_path output_path secret
              (file_signing_of k sign) (sv_files s)) s)"

text \<open>The keys signatures are checked against. A combined key of the user that is too short raises
  \<^verbatim>\<open>struct.error\<close>, which is not caught.\<close>

definition file_hybrid_pubs :: "file_env \<Rightarrow> key_store \<Rightarrow> (ustr \<times> bytes \<times> bytes) list res" where
  "file_hybrid_pubs V k =
     (if given (my_hybrid_sig_combined_pub k) \<and> mc_hybrid_available (fe_msg V) then
        (case parse_combined_pub (the (my_hybrid_sig_combined_pub k)) of
           Inr (ed, dil) \<Rightarrow> Inr (friends_hybrid_sig_pubs k @ [(ustr ''myself'', ed, dil)])
         | Inl e \<Rightarrow> if is_value_error e \<or> e = TypeError then Inr (friends_hybrid_sig_pubs k) else Inl e)
      else Inr (friends_hybrid_sig_pubs k))"

definition decrypt_shared_file ::
  "file_env \<Rightarrow> key_store \<Rightarrow> ustr \<Rightarrow> ustr \<Rightarrow> file_service \<Rightarrow> ustr res \<times> file_service" where
  "decrypt_shared_file V k input_path output_path s =
     (case build_secrets_dict V k s of (secrets, s1) \<Rightarrow>
      if secrets = [] then (Inl FileServiceError, s1)
      else case file_hybrid_pubs V k of Inl e \<Rightarrow> (Inl e, s1)
        | Inr friends_hybrid \<Rightarrow>
            on_files (file_decrypt_shared V input_path output_path secrets
              (map (\<lambda>(name, pub, _). (name, pub)) (friends k)) friends_hybrid (sv_files s1)) s1)"

text \<open>The fingerprint of a file without the magic; a file that cannot be read matches nothing.\<close>

definition detect_shared_fingerprint ::
  "file_env \<Rightarrow> key_store \<Rightarrow> ustr \<Rightarrow> file_service \<Rightarrow> (bytes \<times> ustr) option \<times> file_service" where
  "detect_shared_fingerprint V k path s =
     (case read_file path (sv_files s) of Inl _ \<Rightarrow> (None, s)
      | Inr data \<Rightarrow>
          if length data < 17 then (None, s)
          else case build_secrets_dict V k s of (secrets, s1) \<Rightarrow>
            (map_option (\<lambda>(stored_fp, _, owner). (stored_fp, owner))
               (find (\<lambda>(stored_fp, _, _). stored_fp = slice 1 17 data) secrets), s1))"

definition decrypt_file ::
  "file_env \<Rightarrow> bool \<Rightarrow> key_store \<Rightarrow> ustr \<Rightarrow> ustr \<Rightarrow> bytes option \<Rightarrow> file_service \<Rightarrow> ustr res \<times> file_service" where
  "decrypt_file V kdf_timeout k input_path output_path password s =
     (case read_file input_path (sv_files s) of Inl e \<Rightarrow> (Inl e, s) | Inr data \<Rightarrow>
      if take (length FILE_MAGIC) data = FILE_MAGIC then decrypt_shared_file V k input_path output_path s
      else case detect_shared_fingerprint V k input_path s of
        (Some (fingerprint, owner), s1) \<Rightarrow> (Inl (SharedSecretDetected owner fingerprint), s1)
      | (None, s1) \<Rightarrow>
          (case password of None \<Rightarrow> (Inl FileServiceError, s1)
           | Some pw \<Rightarrow>
             (case file_decrypt V kdf_timeout input_path output_path pw (sv_files s1) of
                (Inl e, fs) \<Rightarrow> (Inl e, s1\<lparr>sv_files := fs\<rparr>) | (Inr _, fs) \<Rightarrow> (Inr [], s1\<lparr>sv_files := fs\<rparr>))))"

text \<open>After the user has confirmed: a copy with the magic in front, in a fresh temporary file that is
  removed also when the decryption raises.\<close>

definition decrypt_with_shared_secret ::
  "file_env \<Rightarrow> key_store \<Rightarrow> ustr \<Rightarrow> ustr \<Rightarrow> ustr \<Rightarrow> bytes \<Rightarrow> file_service \<Rightarrow> ustr res \<times> file_service" where
  "decrypt_with_shared_secret V k tmp_path input_path output_path fingerprint s =
     (case build_secrets_dict V k s of (secrets, s1) \<Rightarrow>
      if map_of secrets fingerprint = None then (Inl FileServiceError, s1)
      else case read_file input_path (sv_files s1) of Inl e \<Rightarrow> (Inl e, s1)
        | Inr data \<Rightarrow>
          (case write_file tmp_path (FILE_MAGIC @ data) (sv_files s1) of
             (Inl e, _) \<Rightarrow> (Inl e, s1)
           | (Inr _, fs) \<Rightarrow>
              (case decrypt_shared_file V k tmp_path output_path (s1\<lparr>sv_files := fs\<rparr>) of
                 (r, s2) \<Rightarrow> (r, s2\<lparr>sv_files := unlink_file tmp_path (sv_files s2)\<rparr>))))"

end
