(* ===== verification/File_Safety.thy ===== *)
theory File_Safety
  imports File_Service Message_Safety Friend_View
begin

text \<open>
  Files from end to end: what was encrypted, under a password or a shared secret, is what is written
  on decryption, and a decryption that fails changes no file; the signature of a file can be
  removed, and the secrets the service has seen first are the only ones it ever reads with.
\<close>

lemma read_write: "write_file path data fs = (Inr (), fs') \<Longrightarrow> read_file path fs' = Inr data"
  by (auto simp: write_file_def read_file_def update_conv' split: if_splits)

lemma read_write_other:
  "write_file path data fs = (r, fs') \<Longrightarrow> p \<noteq> path \<Longrightarrow> read_file p fs' = read_file p fs"
  by (auto simp: write_file_def read_file_def update_conv' split: if_splits)

lemma write_error: "write_file path data fs = (Inl e, fs') \<Longrightarrow> fs' = fs"
  by (auto simp: write_file_def split: if_splits)

section \<open>What the format relies on\<close>

locale file_laws =
  fixes V :: file_env
  assumes msg: "msg_laws (fe_msg V)"
    and sig: "sig_laws (mc_sig (fe_msg V))"
    and db: "db_laws (ke_db (fe_key V))"
    and rsa_nonempty: "rsa_pss_sign (fe_msg V) priv seed m \<noteq> []"
begin

lemma fingerprint_length: "length (file_fingerprint V secret) = 16"
  by (simp add: file_fingerprint_def msg_laws.sha_length [OF msg])

lemma gcm_reads: "gcm_enc (fe_msg V) key nonce p [] = Inr ct \<Longrightarrow> gcm_dec (fe_msg V) key nonce ct [] = Inr p"
  by (rule aead.dec_enc [OF msg_laws.gcm [OF msg]])

lemma signature_flags:
  assumes "file_signature V rnd sg plaintext = Inr (flags, signature)"
  shows "flags = 0 \<and> signature = [] \<or> (flags = 1 \<or> flags = 2) \<and> signature \<noteq> []"
  using assms sig_laws.hybrid_sign_nonempty [OF sig] rsa_nonempty
  by (auto simp: file_signature_def FILE_FLAG_RSA_SIGN_def FILE_FLAG_HYBRID_SIGN_def split: if_splits sum.splits)

end

definition shared_bytes :: "nat \<Rightarrow> bytes \<Rightarrow> bytes \<Rightarrow> bytes \<Rightarrow> bytes \<Rightarrow> bytes \<Rightarrow> bytes" where
  "shared_bytes flags fp salt nonce sf ct = FILE_MAGIC @ [of_nat flags] @ fp @ salt @ nonce @ sf @ ct"

lemma magic_length: "length FILE_MAGIC = 7"
  by (simp add: FILE_MAGIC_def ustr_def)

lemma shared_bytes_parts:
  assumes "length fp = 16" "length salt = 16" "length nonce = 12"
  shows "take (length FILE_MAGIC) (shared_bytes flags fp salt nonce sf ct) = FILE_MAGIC"
    "slice 7 8 (shared_bytes flags fp salt nonce sf ct) = [of_nat flags]"
    "slice 8 24 (shared_bytes flags fp salt nonce sf ct) = fp"
    "slice 24 40 (shared_bytes flags fp salt nonce sf ct) = salt"
    "slice 40 52 (shared_bytes flags fp salt nonce sf ct) = nonce"
    "drop 52 (shared_bytes flags fp salt nonce sf ct) = sf @ ct"
  using assms by (simp_all add: shared_bytes_def slice_def magic_length)

lemma slice_shift: "slice (a + n) (b + n) xs = slice a b (drop n xs)"
  by (simp add: slice_def add.commute)

lemma split_unsigned:
  assumes "length fp = 16" "length salt = 16" "length nonce = 12"
  shows "split_shared_file (shared_bytes 0 fp salt nonce [] ct) =
    Inr \<lparr>sf_flags = 0, sf_fp = fp, sf_salt = salt, sf_nonce = nonce, sf_signature = [], sf_ct = ct\<rparr>"
  by (simp add: split_shared_file_def shared_bytes_parts [OF assms] flag_set_def FILE_FLAG_RSA_SIGN_def
      FILE_FLAG_HYBRID_SIGN_def Let_def)

lemma split_signed:
  assumes "length fp = 16" "length salt = 16" "length nonce = 12" and flags: "flags = 1 \<or> flags = 2"
    and n: "pack_u16 (length signature) = Inr n"
  shows "split_shared_file (shared_bytes flags fp salt nonce (n @ signature) ct) =
    Inr \<lparr>sf_flags = flags, sf_fp = fp, sf_salt = salt, sf_nonce = nonce, sf_signature = signature, sf_ct = ct\<rparr>"
proof -
  let ?d = "shared_bytes flags fp salt nonce (n @ signature) ct"
  have len: "length n = 2" and val: "be_val n = length signature"
    using pack_be_length [OF n] unpack_pack [OF n] by (auto simp: unpack_be_def split: if_splits)
  have rest: "drop 52 ?d = n @ signature @ ct" using shared_bytes_parts(6) [OF assms(1-3)] by simp
  have "slice (0 + 52) (2 + 52) ?d = n" "slice (2 + 52) (2 + length signature + 52) ?d = signature"
    unfolding slice_shift rest using len by (simp_all add: slice_def)
  then have s: "slice 52 54 ?d = n" "slice 54 (54 + length signature) ?d = signature" by (simp_all add: ac_simps)
  have "drop (54 + length signature) ?d = drop (2 + length signature) (drop 52 ?d)" by (simp add: ac_simps)
  then have d: "drop (54 + length signature) ?d = ct" using len by (simp add: rest)
  show ?thesis using flags
    by (auto simp: split_shared_file_def shared_bytes_parts [OF assms(1-3)] flag_set_def FILE_FLAG_RSA_SIGN_def
        FILE_FLAG_HYBRID_SIGN_def Let_def len val s d simp del: length_slice)
qed

context file_laws
begin

text \<open>What is written for a shared secret, and how it is taken apart again.\<close>

lemma encrypted_shape:
  assumes "file_encrypt_shared V rnd inp out secret sg fs = (Inr (), fs')"
    and "read_file inp fs = Inr plaintext" "length (fr_salt rnd) = 16" "length (fr_nonce rnd) = 12"
  obtains flags signature ct data where
    "file_signature V rnd sg plaintext = Inr (flags, signature)"
    "gcm_dec (fe_msg V) (file_key V (fr_salt rnd) secret) (fr_nonce rnd) ct [] = Inr plaintext"
    "read_file out fs' = Inr data"
    "split_shared_file data = Inr \<lparr>sf_flags = flags, sf_fp = file_fingerprint V secret, sf_salt = fr_salt rnd,
       sf_nonce = fr_nonce rnd, sf_signature = signature, sf_ct = ct\<rparr>"
    "take (length FILE_MAGIC) data = FILE_MAGIC"
proof -
  obtain flags signature where f: "file_signature V rnd sg plaintext = Inr (flags, signature)"
    using assms(1,2) by (auto simp: file_encrypt_shared_def split: sum.splits)
  obtain ct where c: "gcm_enc (fe_msg V) (file_key V (fr_salt rnd) secret) (fr_nonce rnd) plaintext [] = Inr ct"
    using assms(1,2) f by (auto simp: file_encrypt_shared_def split: sum.splits)
  note len = fingerprint_length assms(3,4)
  let ?b = "shared_bytes flags (file_fingerprint V secret) (fr_salt rnd) (fr_nonce rnd)"
  consider (plain) "flags = 0" "signature = []" | (signed) "flags = 1 \<or> flags = 2" "signature \<noteq> []"
    using signature_flags [OF f] by blast
  then show thesis
  proof cases
    case plain
    with assms(1,2) f c have "write_file out (?b [] ct) fs = (Inr (), fs')"
      by (auto simp: file_encrypt_shared_def Let_def shared_bytes_def)
    note r = read_write [OF this]
    with plain show ?thesis
      using that [OF f gcm_reads [OF c]] split_unsigned [OF len] shared_bytes_parts(1) [OF len] by blast
  next
    case signed
    with assms(1,2) f c obtain n where n: "pack_u16 (length signature) = Inr n"
      by (auto simp: file_encrypt_shared_def Let_def split: sum.splits prod.splits)
    with assms(1,2) f c signed have "write_file out (?b (n @ signature) ct) fs = (Inr (), fs')"
      by (auto simp: file_encrypt_shared_def Let_def shared_bytes_def)
    note r = read_write [OF this]
    with signed show ?thesis
      using that [OF f gcm_reads [OF c]] split_signed [OF len signed(1) n] shared_bytes_parts(1) [OF len] by blast
  qed
qed

end

section \<open>The service\<close>

lemma on_files_ok: "on_files r s = (x, s') \<longleftrightarrow> (\<exists>fs. r = (x, fs) \<and> s' = s\<lparr>sv_files := fs\<rparr>)"
  by (cases r) (auto simp: on_files_def)

lemma build_secrets_files: "build_secrets_dict V k s = (m, s1) \<Longrightarrow> sv_files s1 = sv_files s"
  by (auto simp: build_secrets_dict_def split: option.splits)

lemma detect_files: "detect_shared_fingerprint V k path s = (r, s1) \<Longrightarrow> sv_files s1 = sv_files s"
  by (auto simp: detect_shared_fingerprint_def dest: build_secrets_files split: sum.splits if_splits prod.splits)

text \<open>A file with the magic is read with the secrets the service knows.\<close>

lemma decrypt_shared_reads:
  assumes "read_file path (sv_files s) = Inr data" "take (length FILE_MAGIC) data = FILE_MAGIC"
    and "build_secrets_dict V k s = (secrets, s1)" "split_shared_file data = Inr f"
    and "map_of secrets (sf_fp f) = Some (secret, owner)" "file_hybrid_pubs V k = Inr pubs"
    and "gcm_dec (fe_msg V) (file_key V (sf_salt f) secret) (sf_nonce f) (sf_ct f) [] = Inr plaintext"
    and "target \<notin> set (fs_denied (sv_files s))"
  shows "\<exists>s3. decrypt_file V t k path target pw s =
      (Inr (file_banner_text (file_banner V (sf_flags f) plaintext (sf_signature f)
         (map (\<lambda>(name, pub, _). (name, pub)) (friends k)) pubs)), s3) \<and>
      read_file target (sv_files s3) = Inr plaintext"
proof -
  have "secrets \<noteq> []" using assms(5) by auto
  moreover have "sv_files s1 = sv_files s" by (rule build_secrets_files [OF assms(3)])
  moreover obtain fs where w: "write_file target plaintext (sv_files s) = (Inr (), fs)"
    using assms(8) by (auto simp: write_file_def)
  moreover note read_write [OF w]
  ultimately show ?thesis using assms(1-7)
    by (simp add: decrypt_file_def decrypt_shared_file_def file_decrypt_shared_def on_files_def Let_def)
qed

text \<open>And what was read with success was taken apart and opened in this way.\<close>

lemma decrypt_shared_inversion:
  assumes "decrypt_file V t k path target pw s = (Inr msg, s')" "read_file path (sv_files s) = Inr data"
    and "take (length FILE_MAGIC) data = FILE_MAGIC"
  obtains secrets s1 f secret owner pubs plaintext where
    "build_secrets_dict V k s = (secrets, s1)" "split_shared_file data = Inr f"
    "map_of secrets (sf_fp f) = Some (secret, owner)" "file_hybrid_pubs V k = Inr pubs"
    "gcm_dec (fe_msg V) (file_key V (sf_salt f) secret) (sf_nonce f) (sf_ct f) [] = Inr plaintext"
    "target \<notin> set (fs_denied (sv_files s))" "read_file target (sv_files s') = Inr plaintext"
proof -
  obtain secrets s1 where b: "build_secrets_dict V k s = (secrets, s1)" by fastforce
  note fs = build_secrets_files [OF b]
  from assms b obtain pubs where p: "file_hybrid_pubs V k = Inr pubs"
    by (auto simp: decrypt_file_def decrypt_shared_file_def split: if_splits sum.splits)
  from assms b p fs obtain fs' where d: "file_decrypt_shared V path target secrets
      (map (\<lambda>(name, pub, _). (name, pub)) (friends k)) pubs (sv_files s) = (Inr msg, fs')" and s': "sv_files s' = fs'"
    by (auto simp: decrypt_file_def decrypt_shared_file_def on_files_ok split: if_splits)
  from d assms(2) obtain f secret owner plaintext where
    f: "split_shared_file data = Inr f" "map_of secrets (sf_fp f) = Some (secret, owner)"
    "gcm_dec (fe_msg V) (file_key V (sf_salt f) secret) (sf_nonce f) (sf_ct f) [] = Inr plaintext"
    and w: "write_file target plaintext (sv_files s) = (Inr (), fs')"
    by (auto simp: file_decrypt_shared_def Let_def split: sum.splits option.splits prod.splits)
  have "target \<notin> set (fs_denied (sv_files s))" using w by (auto simp: write_file_def split: if_splits)
  with b f p s' read_write [OF w] show thesis using that by blast
qed

section \<open>A reference instance\<close>

definition ref_file :: file_env where
  "ref_file =
     \<lparr>fe_key = ref_key_env,
      fe_msg = ref_msg\<lparr>rsa_pss_sign := \<lambda>priv seed m. 1 # priv @ m, rsa_pss_verify := \<lambda>pub s m. s = 1 # pub @ m\<rparr>,
      fe_hkdf = (\<lambda>salt info secret. replicate 32 (foldr (+) (salt @ info @ secret) 0)),
      fe_pbkdf2 = (\<lambda>n pw salt. replicate 32 (foldr (+) (pw @ salt) 0))\<rparr>"

lemma ref_file_simps [simp]:
  "gcm_enc (fe_msg ref_file) = ref_enc 12" "gcm_dec (fe_msg ref_file) = ref_dec 12"
  "sha256 (fe_msg ref_file) b = replicate 32 (foldr (+) b 0)"
  "rsa_pss_sign (fe_msg ref_file) priv seed m = 1 # priv @ m"
  "rsa_pss_verify (fe_msg ref_file) pub sg m \<longleftrightarrow> sg = 1 # pub @ m"
  "rsa_pub_pem (fe_msg ref_file) b = b" "mc_hybrid_available (fe_msg ref_file)"
  "ke_db (fe_key ref_file) = ref_db_crypto"
  "fe_hkdf ref_file salt info secret = replicate 32 (foldr (+) (salt @ info @ secret) 0)"
  by (simp_all add: ref_file_def ref_msg_def ref_key_env_def)

interpretation ref_files: file_laws ref_file
proof (rule file_laws.intro)
  show "msg_laws (fe_msg ref_file)"
    by (rule msg_laws.intro) (auto simp: ref_dec_def Let_def ref_aead split: if_splits)
  show "sig_laws (mc_sig (fe_msg ref_file))" by (simp add: ref_file_def ref_msg_def ref_sig.sig_laws_axioms)
  show "db_laws (ke_db (fe_key ref_file))" by (simp add: ref_db_laws)
qed simp

definition demo_file_rnd :: file_rnd where
  "demo_file_rnd = \<lparr>fr_salt = replicate 16 1, fr_nonce = replicate 12 2, fr_pss = [], fr_kdf_timeout = False, fr_read_timeout = False\<rparr>"

definition demo_keys :: key_store where
  "demo_keys = new_key_store\<lparr>global_secret := Some [7], my_priv := Some [5], friends := [(ustr ''bob'', [5], None)]\<rparr>"

definition demo_service :: file_service where
  "demo_service = \<lparr>cached_fingerprints = None, sv_files = \<lparr>fs_files = [(ustr ''a'', [72, 105])], fs_denied = []\<rparr>\<rparr>"

lemma demo_secrets:
  "compute_secrets ref_file demo_keys = [(replicate 16 7, [7], ustr ''Global'')]"
  by (simp add: compute_secrets_def demo_keys_def given_def file_fingerprint_def)

lemma demo_encrypts_file:
  "encrypt_file ref_file demo_file_rnd demo_keys (ustr ''a'') (ustr ''b'') ''global'' None None True s = (Inr (), snd
     (encrypt_file ref_file demo_file_rnd demo_keys (ustr ''a'') (ustr ''b'') ''global'' None None True s))"
  if "sv_files s = sv_files demo_service"
  using that by (simp add: encrypt_file_def file_secret_def demo_keys_def given_def on_files_def file_encrypt_shared_def read_file_def
      demo_service_def file_signature_def file_signing_of_def new_key_store_def ref_enc_def file_key_def Let_def pack_be_def
      write_file_def demo_file_rnd_def)

section \<open>Properties\<close>

text \<open>C24. A file that was encrypted for a shared secret is read, under any name, by every service that
  has seen the secret: the text is written as it was, and the message is that of the signature
  the sender made.\<close>

theorem shared_file_roundtrip:
  assumes "file_laws V" "encrypt_file V rnd k inp out method pw name sign s = (Inr (), s')" "method \<noteq> ''password''"
    and "read_file inp (sv_files s) = Inr plaintext" "length (fr_salt rnd) = 16" "length (fr_nonce rnd) = 12"
    and "file_secret k method name = Inr secret"
    and "build_secrets_dict V k2 s2 = (secrets, s3)" "map_of secrets (file_fingerprint V secret) = Some (secret, owner)"
    and "file_hybrid_pubs V k2 = Inr pubs" "read_file path (sv_files s2) = read_file out (sv_files s')"
    and "target \<notin> set (fs_denied (sv_files s2))"
  shows "\<exists>flags signature s4. file_signature V rnd (file_signing_of k sign) plaintext = Inr (flags, signature) \<and>
    decrypt_file V timeout k2 path target pw2 s2 =
      (Inr (file_banner_text (file_banner V flags plaintext signature
         (map (\<lambda>(name, pub, _). (name, pub)) (friends k2)) pubs)), s4) \<and>
    read_file target (sv_files s4) = Inr plaintext"
proof -
  have e: "file_encrypt_shared V rnd inp out secret (file_signing_of k sign) (sv_files s) = (Inr (), sv_files s')"
    using assms(2,3,7) by (auto simp: encrypt_file_def on_files_ok)
  obtain flags signature ct data where d:
    "file_signature V rnd (file_signing_of k sign) plaintext = Inr (flags, signature)"
    "gcm_dec (fe_msg V) (file_key V (fr_salt rnd) secret) (fr_nonce rnd) ct [] = Inr plaintext"
    "read_file out (sv_files s') = Inr data"
    "split_shared_file data = Inr \<lparr>sf_flags = flags, sf_fp = file_fingerprint V secret, sf_salt = fr_salt rnd,
       sf_nonce = fr_nonce rnd, sf_signature = signature, sf_ct = ct\<rparr>"
    "take (length FILE_MAGIC) data = FILE_MAGIC"
    by (rule file_laws.encrypted_shape [OF assms(1) e assms(4-6)])
  have "read_file path (sv_files s2) = Inr data" using d(3) assms(11) by simp
  from decrypt_shared_reads [OF this d(5) assms(8) d(4) _ assms(10) _ assms(12), of secret owner plaintext timeout pw2]
  show ?thesis using assms(9) d(1,2) by auto
qed

abbreviation demo_encrypted :: file_service where
  "demo_encrypted \<equiv>
     snd (encrypt_file ref_file demo_file_rnd demo_keys (ustr ''a'') (ustr ''b'') ''global'' None None True demo_service)"

lemmas demo_file_simps = demo_file_rnd_def demo_keys_def demo_service_def new_key_store_def given_def read_file_def

lemma demo_read: "read_file (ustr ''a'') (sv_files demo_service) = Inr [72, 105]"
  by (simp add: demo_file_simps)

lemma demo_secret: "file_secret demo_keys ''global'' None = Inr [7]"
  by (simp add: file_secret_def demo_file_simps)

lemma demo_hybrid_pubs: "file_hybrid_pubs ref_file demo_keys = Inr []"
  by (simp add: file_hybrid_pubs_def demo_file_simps)

lemma demo_signature:
  "file_signature ref_file demo_file_rnd (file_signing_of demo_keys True) [72, 105] = Inr (1, [1, 5, 72, 105])"
  by (simp add: file_signature_def file_signing_of_def demo_file_simps FILE_FLAG_RSA_SIGN_def)

lemma demo_build:
  "cached_fingerprints s = None \<Longrightarrow> build_secrets_dict ref_file demo_keys s =
     ([(replicate 16 7, [7], ustr ''Global'')], s\<lparr>cached_fingerprints := Some [(replicate 16 7, [7], ustr ''Global'')]\<rparr>)"
  by (simp add: build_secrets_dict_def demo_secrets)

lemma demo_encrypted_state: "cached_fingerprints demo_encrypted = None" "fs_denied (sv_files demo_encrypted) = []"
  by (simp_all add: encrypt_file_def file_secret_def demo_file_simps on_files_def file_encrypt_shared_def file_signature_def
      file_signing_of_def ref_enc_def file_key_def Let_def pack_be_def write_file_def)

theorem shared_file_roundtrip_witness:
  "\<exists>s4. decrypt_file ref_file False demo_keys (ustr ''b'') (ustr ''c'') None demo_encrypted =
     (Inr (file_banner_text (RsaVerified (ustr ''bob'') (sha256_fingerprint (fe_msg ref_file) [5]))), s4) \<and>
     read_file (ustr ''c'') (sv_files s4) = Inr [72, 105]"
proof -
  have len: "length (fr_salt demo_file_rnd) = 16" "length (fr_nonce demo_file_rnd) = 12"
    by (simp_all add: demo_file_rnd_def)
  have fp: "map_of [(replicate 16 7, [7], ustr ''Global'')] (file_fingerprint ref_file [7]) = Some ([7], ustr ''Global'')"
    by (simp add: file_fingerprint_def)
  have nd: "ustr ''c'' \<notin> set (fs_denied (sv_files demo_encrypted))" by (simp add: demo_encrypted_state)
  from shared_file_roundtrip [OF ref_files.file_laws_axioms demo_encrypts_file [OF refl] _ demo_read len demo_secret
      demo_build [OF demo_encrypted_state(1)] fp demo_hybrid_pubs refl nd, of False None]
  obtain flags signature s4 where r: "file_signature ref_file demo_file_rnd (file_signing_of demo_keys True) [72, 105] = Inr (flags, signature)"
    "decrypt_file ref_file False demo_keys (ustr ''b'') (ustr ''c'') None demo_encrypted =
      (Inr (file_banner_text (file_banner ref_file flags [72, 105] signature
         (map (\<lambda>(name, pub, _). (name, pub)) (friends demo_keys)) [])), s4)"
    "read_file (ustr ''c'') (sv_files s4) = Inr [72, 105]"
    by auto
  have "file_banner ref_file 1 [72, 105] [1, 5, 72, 105] (map (\<lambda>(name, pub, _). (name, pub)) (friends demo_keys)) [] =
      RsaVerified (ustr ''bob'') (sha256_fingerprint (fe_msg ref_file) [5])"
    by (simp add: file_banner_def flag_set_def FILE_FLAG_HYBRID_SIGN_def FILE_FLAG_RSA_SIGN_def demo_keys_def)
  with r demo_signature show ?thesis by auto
qed

definition strip_signature :: "bytes \<Rightarrow> bytes" where
  "strip_signature data =
     (case split_shared_file data of Inl _ \<Rightarrow> data
      | Inr f \<Rightarrow> shared_bytes 0 (sf_fp f) (sf_salt f) (sf_nonce f) [] (sf_ct f))"

lemma signed_file_lengths:
  assumes "split_shared_file data = Inr f" "sf_signature f \<noteq> []"
  shows "length (sf_fp f) = 16" "length (sf_salt f) = 16" "length (sf_nonce f) = 12"
proof -
  have "54 \<le> length data" using assms by (auto simp: split_shared_file_def Let_def split: if_splits)
  moreover have "sf_fp f = slice 8 24 data" "sf_salt f = slice 24 40 data" "sf_nonce f = slice 40 52 data"
    using assms(1) by (auto simp: split_shared_file_def Let_def split: if_splits)
  ultimately show "length (sf_fp f) = 16" "length (sf_salt f) = 16" "length (sf_nonce f) = 12" by auto
qed

text \<open>The signature of a file is neither encrypted nor authenticated: whoever gets hold of the file
  can take it off and clear the flag, without any key. The receiver reads the same text and no
  message, as if the sender had not signed.\<close>

theorem signature_strippable:
  assumes "decrypt_file V timeout k path target pw s = (Inr msg, s')" "read_file path (sv_files s) = Inr data"
    and "split_shared_file data = Inr f" "sf_signature f \<noteq> []"
    and "read_file path2 (sv_files s) = Inr (strip_signature data)"
  shows "\<exists>s2. decrypt_file V timeout k path2 target pw s = (Inr [], s2) \<and>
    read_file target (sv_files s2) = read_file target (sv_files s')"
proof -
  note len = signed_file_lengths [OF assms(3,4)]
  have m: "take (length FILE_MAGIC) data = FILE_MAGIC"
    using assms(3) by (auto simp: split_shared_file_def split: if_splits)
  obtain secrets s1 f' secret owner pubs plaintext where d:
    "build_secrets_dict V k s = (secrets, s1)" "split_shared_file data = Inr f'"
    "map_of secrets (sf_fp f') = Some (secret, owner)" "file_hybrid_pubs V k = Inr pubs"
    "gcm_dec (fe_msg V) (file_key V (sf_salt f') secret) (sf_nonce f') (sf_ct f') [] = Inr plaintext"
    "target \<notin> set (fs_denied (sv_files s))" "read_file target (sv_files s') = Inr plaintext"
    by (rule decrypt_shared_inversion [OF assms(1,2) m])
  have f': "f' = f" using d(2) assms(3) by simp
  have strip: "strip_signature data = shared_bytes 0 (sf_fp f) (sf_salt f) (sf_nonce f) [] (sf_ct f)"
    by (simp add: strip_signature_def assms(3))
  have "\<exists>s3. decrypt_file V timeout k path2 target pw s = (Inr (file_banner_text (file_banner V 0 plaintext []
      (map (\<lambda>(name, pub, _). (name, pub)) (friends k)) pubs)), s3) \<and> read_file target (sv_files s3) = Inr plaintext"
    using decrypt_shared_reads [OF assms(5) _ d(1) _ _ d(4) _ d(6), of _ secret owner plaintext timeout pw]
      d(3,5) split_unsigned [OF len, of "sf_ct f"] shared_bytes_parts(1) [OF len, of 0 "[]" "sf_ct f"]
    by (simp add: strip f')
  then show ?thesis using d(7) by (simp add: file_banner_def)
qed

definition signed_demo :: "bytes \<Rightarrow> bytes" where
  "signed_demo ct = shared_bytes 1 (replicate 16 7) (replicate 16 1) (replicate 12 2) ([0, 4] @ [1, 5, 72, 105]) ct"

definition signed_service :: "bytes \<Rightarrow> file_service" where
  "signed_service ct = \<lparr>cached_fingerprints = None, sv_files =
     \<lparr>fs_files = [(ustr ''b'', signed_demo ct), (ustr ''d'', strip_signature (signed_demo ct))], fs_denied = []\<rparr>\<rparr>"

theorem signature_strippable_witness:
  "\<exists>ct s1 s2. decrypt_file ref_file False demo_keys (ustr ''b'') (ustr ''c'') None (signed_service ct) =
       (Inr (file_banner_text (RsaVerified (ustr ''bob'') (sha256_fingerprint (fe_msg ref_file) [5]))), s1) \<and>
     decrypt_file ref_file False demo_keys (ustr ''d'') (ustr ''c'') None (signed_service ct) = (Inr [], s2) \<and>
     read_file (ustr ''c'') (sv_files s2) = read_file (ustr ''c'') (sv_files s1)"
proof -
  have "\<exists>ct. ref_enc 12 (file_key ref_file (replicate 16 1) [7]) (replicate 12 2) [72, 105] [] = Inr ct"
    by (simp add: ref_enc_def file_key_def)
  then obtain ct where ct: "ref_enc 12 (file_key ref_file (replicate 16 1) [7]) (replicate 12 2) [72, 105] [] = Inr ct"
    by blast
  have n: "pack_u16 (length [1, 5, 72, 105 :: byte]) = Inr [0, 4]" by (simp add: pack_be_def numeral_2_eq_2)
  note sp = split_signed [OF _ _ _ disjI1 [OF refl] n, of "replicate 16 7" "replicate 16 1" "replicate 12 2" ct, simplified]
  have magic: "take (length FILE_MAGIC) (signed_demo ct) = FILE_MAGIC"
    unfolding signed_demo_def by (rule shared_bytes_parts) simp_all
  have rd: "read_file (ustr ''b'') (sv_files (signed_service ct)) = Inr (signed_demo ct)"
      "read_file (ustr ''d'') (sv_files (signed_service ct)) = Inr (strip_signature (signed_demo ct))"
    by (simp_all add: signed_service_def read_file_def)
  have b: "file_banner ref_file 1 [72, 105] [1, 5, 72, 105] (map (\<lambda>(name, pub, _). (name, pub)) (friends demo_keys)) [] =
      RsaVerified (ustr ''bob'') (sha256_fingerprint (fe_msg ref_file) [5])"
    by (simp add: file_banner_def flag_set_def FILE_FLAG_HYBRID_SIGN_def FILE_FLAG_RSA_SIGN_def demo_keys_def)
  have sp': "split_shared_file (signed_demo ct) = Inr \<lparr>sf_flags = 1, sf_fp = replicate 16 7, sf_salt = replicate 16 1,
      sf_nonce = replicate 12 2, sf_signature = [1, 5, 72, 105], sf_ct = ct\<rparr>"
    using sp by (simp add: signed_demo_def)
  have st: "cached_fingerprints (signed_service ct) = None" "fs_denied (sv_files (signed_service ct)) = []"
    by (simp_all add: signed_service_def)
  have "\<exists>s1. decrypt_file ref_file False demo_keys (ustr ''b'') (ustr ''c'') None (signed_service ct) =
      (Inr (file_banner_text (file_banner ref_file 1 [72, 105] [1, 5, 72, 105]
         (map (\<lambda>(name, pub, _). (name, pub)) (friends demo_keys)) [])), s1) \<and>
      read_file (ustr ''c'') (sv_files s1) = Inr [72, 105]"
    using decrypt_shared_reads [OF rd(1) magic demo_build [OF st(1)] sp' _ demo_hybrid_pubs, of "[7]" "ustr ''Global''" "[72, 105]" "ustr ''c''" False None]
      ref_files.gcm_reads [of "file_key ref_file (replicate 16 1) [7]" "replicate 12 2" "[72, 105]" ct] ct st(2) by simp
  then obtain s1 where s1: "decrypt_file ref_file False demo_keys (ustr ''b'') (ustr ''c'') None (signed_service ct) =
      (Inr (file_banner_text (RsaVerified (ustr ''bob'') (sha256_fingerprint (fe_msg ref_file) [5]))), s1)"
    unfolding b by blast
  from signature_strippable [OF this rd(1) sp' _ rd(2)] s1 show ?thesis by auto
qed

lemma file_decrypt_error: "file_decrypt V t inp out pw fs = (Inl e, fs') \<Longrightarrow> fs' = fs"
  by (auto simp: file_decrypt_def dest: write_error split: sum.splits prod.splits)

lemma file_decrypt_shared_error: "file_decrypt_shared V inp out secrets fr hy fs = (Inl e, fs') \<Longrightarrow> fs' = fs"
  by (auto simp: file_decrypt_shared_def Let_def dest: write_error split: sum.splits option.splits prod.splits)

lemma decrypt_shared_file_error:
  assumes "decrypt_shared_file V k inp out s = (Inl e, s')"
  shows "sv_files s' = sv_files s"
proof -
  obtain secrets s1 where b: "build_secrets_dict V k s = (secrets, s1)" by fastforce
  with assms build_secrets_files [OF b] show ?thesis
    by (auto simp: decrypt_shared_file_def on_files_ok dest: file_decrypt_shared_error split: if_splits sum.splits)
qed

lemma unlink_written: "read_file p fs = Inl e \<Longrightarrow> write_file p b fs = (Inr (), fs') \<Longrightarrow> unlink_file p fs' = fs"
proof -
  assume "read_file p fs = Inl e" "write_file p b fs = (Inr (), fs')"
  then have n: "map_of (fs_files fs) p = None" and "fs' = fs\<lparr>fs_files := fs_files fs @ [(p, b)]\<rparr>"
    by (auto simp: read_file_def write_file_def update_absent split: if_splits option.splits)
  moreover have "AList.delete p (fs_files fs @ [(p, b)]) = fs_files fs"
    using n by (force simp: AList.delete_eq filter_id_conv map_of_eq_None_iff)
  ultimately show ?thesis by (simp add: unlink_file_def)
qed

lemma detected_decrypt_error:
  "detect_shared_fingerprint V k path s = (r, s1) \<Longrightarrow> file_decrypt V t inp out pw (sv_files s1) = (Inl e, fs') \<Longrightarrow>
   fs' = sv_files s"
  using detect_files file_decrypt_error by fastforce



text \<open>The service computes its fingerprints once, and nothing in the program empties the cache:
  a file that is encrypted for a secret which was set later cannot be decrypted, not even by the
  service that has just written it.\<close>

theorem stale_fingerprints_refuse:
  assumes "file_laws V" "encrypt_file V rnd k inp out method pw name sign s = (Inr (), s')" "method \<noteq> ''password''"
    and "read_file inp (sv_files s) = Inr plaintext" "length (fr_salt rnd) = 16" "length (fr_nonce rnd) = 12"
    and "file_secret k method name = Inr secret"
    and "cached_fingerprints s = Some secrets" "map_of secrets (file_fingerprint V secret) = None"
  shows "\<exists>e. decrypt_file V timeout k out target pw2 s' = (Inl e, s')"
proof -
  have e: "file_encrypt_shared V rnd inp out secret (file_signing_of k sign) (sv_files s) = (Inr (), sv_files s')"
    and c: "cached_fingerprints s' = Some secrets"
    using assms(2,3,7,8) by (auto simp: encrypt_file_def on_files_ok)
  obtain flags signature ct data where d:
    "read_file out (sv_files s') = Inr data"
    "split_shared_file data = Inr \<lparr>sf_flags = flags, sf_fp = file_fingerprint V secret, sf_salt = fr_salt rnd,
       sf_nonce = fr_nonce rnd, sf_signature = signature, sf_ct = ct\<rparr>"
    "take (length FILE_MAGIC) data = FILE_MAGIC"
    by (rule file_laws.encrypted_shape [OF assms(1) e assms(4-6)])
  have b: "build_secrets_dict V k s' = (secrets, s')" by (simp add: build_secrets_dict_def c)
  have "fst (file_decrypt_shared V out target secrets fr hy (sv_files s')) = Inl ValueError \<and>
    snd (file_decrypt_shared V out target secrets fr hy (sv_files s')) = sv_files s'" for fr hy
    using d assms(9) by (simp add: file_decrypt_shared_def)
  then show ?thesis using d(1,3)
    by (auto simp: decrypt_file_def decrypt_shared_file_def b on_files_def split: sum.splits)
qed

theorem stale_fingerprints_refuse_witness:
  "let s = demo_service\<lparr>cached_fingerprints := Some []\<rparr>;
       s' = snd (encrypt_file ref_file demo_file_rnd demo_keys (ustr ''a'') (ustr ''b'') ''global'' None None True s)
   in \<exists>e. decrypt_file ref_file False demo_keys (ustr ''b'') (ustr ''c'') None s' = (Inl e, s')"
  unfolding Let_def
proof (rule stale_fingerprints_refuse [OF ref_files.file_laws_axioms demo_encrypts_file])
  show "file_secret demo_keys ''global'' None = Inr [7]" by (rule demo_secret)
  show "map_of [] (file_fingerprint ref_file [7]) = None" by (rule map_of.simps(1) [THEN fun_cong])
qed (simp_all add: demo_file_simps)

text \<open>A file under a password, whose random salt does not happen to hold the fingerprint of a known
  secret, is read back with the password.\<close>

theorem password_file_roundtrip:
  assumes "file_laws V" "encrypt_file V rnd k inp out ''password'' (Some pw) name sign s = (Inr (), s')"
    and "read_file inp (sv_files s) = Inr plaintext" "length (fr_salt rnd) = 16" "length (fr_nonce rnd) = 12"
    and "build_secrets_dict V k2 s' = (secrets, s2)"
    and "map_of secrets (slice 1 17 (FILE_KDF_VERSION_ARGON2ID @ fr_salt rnd)) = None"
    and "target \<notin> set (fs_denied (sv_files s'))"
  shows "\<exists>s3. decrypt_file V False k2 out target (Some pw) s' = (Inr [], s3) \<and> read_file target (sv_files s3) = Inr plaintext"
proof -
  have v: "length FILE_KDF_VERSION_ARGON2ID = 4" by (simp add: FILE_KDF_VERSION_ARGON2ID_def ustr_def)
  have "file_encrypt V rnd inp out pw (sv_files s) = (Inr (), sv_files s')"
    using assms(2) by (auto simp: encrypt_file_def on_files_ok split: if_splits)
  then obtain ct where c: "gcm_enc (fe_msg V) (derive_key_argon2id (ke_db (fe_key V)) pw (fr_salt rnd)) (fr_nonce rnd) plaintext [] = Inr ct"
    and w: "write_file out (FILE_KDF_VERSION_ARGON2ID @ fr_salt rnd @ fr_nonce rnd @ ct) (sv_files s) = (Inr (), sv_files s')"
    using assms(3,4) by (auto simp: file_encrypt_def file_argon_def split: if_splits sum.splits)
  let ?data = "FILE_KDF_VERSION_ARGON2ID @ fr_salt rnd @ fr_nonce rnd @ ct"
  have r: "read_file out (sv_files s') = Inr ?data" by (rule read_write [OF w])
  have nm: "take (length FILE_MAGIC) ?data \<noteq> FILE_MAGIC"
    by (simp add: FILE_MAGIC_def FILE_KDF_VERSION_ARGON2ID_def ustr_def)
  have sp: "split_password_file ?data = (True, fr_salt rnd, fr_nonce rnd, ct)"
    using assms(4,5) v by (simp add: split_password_file_def slice_def)
  have fp: "slice 1 17 ?data = slice 1 17 (FILE_KDF_VERSION_ARGON2ID @ fr_salt rnd)"
    using assms(4) v by (simp add: slice_def)
  have "find (\<lambda>(stored_fp, _, _). stored_fp = slice 1 17 ?data) secrets = None"
    using assms(7) unfolding fp by (auto simp: find_None_iff map_of_eq_None_iff rev_image_eqI)
  then have dt: "detect_shared_fingerprint V k2 out s' = (None, s2)"
    using assms(4,5,6) v by (simp add: detect_shared_fingerprint_def r)
  obtain fs where w2: "write_file target plaintext (sv_files s') = (Inr (), fs)"
    using assms(8) by (auto simp: write_file_def)
  have "file_decrypt V False out target pw (sv_files s2) = (Inr (), fs)"
    using assms(4) file_laws.gcm_reads [OF assms(1) c] build_secrets_files [OF assms(6)] w2
    by (simp add: file_decrypt_def r sp file_argon_def)
  then show ?thesis using nm dt read_write [OF w2] by (simp add: decrypt_file_def r)
qed

theorem password_file_roundtrip_witness:
  "let s' = snd (encrypt_file ref_file demo_file_rnd demo_keys (ustr ''a'') (ustr ''b'') ''password'' (Some [65]) None False demo_service)
   in \<exists>s3. decrypt_file ref_file False demo_keys (ustr ''b'') (ustr ''c'') (Some [65]) s' = (Inr [], s3) \<and>
     read_file (ustr ''c'') (sv_files s3) = Inr [72, 105]"
proof -
  let ?s' = "snd (encrypt_file ref_file demo_file_rnd demo_keys (ustr ''a'') (ustr ''b'') ''password'' (Some [65]) None False demo_service)"
  have argon: "length (argon2id ref_db_crypto [65] (replicate 16 1)) = 32" by (rule ref_db.argon_length)
  have e: "encrypt_file ref_file demo_file_rnd demo_keys (ustr ''a'') (ustr ''b'') ''password'' (Some [65]) None False demo_service
      = (Inr (), ?s')"
    and st: "cached_fingerprints ?s' = None" "fs_denied (sv_files ?s') = []"
    by (simp_all add: encrypt_file_def demo_file_simps on_files_def file_encrypt_def file_argon_def derive_key_argon2id_def
        argon ref_enc_def write_file_def)
  have len: "length (fr_salt demo_file_rnd) = 16" "length (fr_nonce demo_file_rnd) = 12"
    by (simp_all add: demo_file_rnd_def)
  have fp: "map_of [(replicate 16 7, [7], ustr ''Global'')] (slice 1 17 (FILE_KDF_VERSION_ARGON2ID @ fr_salt demo_file_rnd)) = None"
  proof -
    have "hd (slice 1 17 (FILE_KDF_VERSION_ARGON2ID @ fr_salt demo_file_rnd)) = 50"
      by (simp add: slice_def FILE_KDF_VERSION_ARGON2ID_def ustr_def hd_take)
    moreover have "hd (replicate 16 (7 :: byte)) = 7" by simp
    ultimately have "slice 1 17 (FILE_KDF_VERSION_ARGON2ID @ fr_salt demo_file_rnd) \<noteq> replicate 16 7" by force
    then show ?thesis by simp
  qed
  have nd: "ustr ''c'' \<notin> set (fs_denied (sv_files ?s'))" by (simp add: st)
  from password_file_roundtrip [OF ref_files.file_laws_axioms e demo_read len demo_build [OF st(1)] fp nd]
  show ?thesis by (simp add: Let_def)
qed

end
