(* ===== verification/Backup.thy ===== *)
theory Backup
  imports Session Text_Codec "HOL-Library.List_Lexorder"
begin

text \<open>
  \<^verbatim>\<open>services/backup_service.py\<close>: export and import of an account, the versioned backup files and the
  reminder. A backup is the structure its JSON stands for: an entry may be missing or have the wrong
  type where the code checks for it; the values inside the lists have the types the export gives them.
  The derivation of the HMAC key and the HMAC over the canonical JSON are parameters. A directory is
  the list of its files with what \<^verbatim>\<open>json.load\<close> makes of them.
\<close>

section \<open>The data of a backup\<close>

datatype 'a entry = Absent | Malformed | Given 'a

text \<open>\<^verbatim>\<open>None\<close> stands for a missing entry and for \<^verbatim>\<open>null\<close>, which a column that is \<^verbatim>\<open>NOT NULL\<close> refuses.\<close>

record backup_friend =
  bf_name :: "ustr option"
  bf_public_key_pem :: "ustr option"
  bf_has_shared_secret :: "bool option"
  bf_shared_secret_encrypted :: "enc_dict option"
  bf_x25519_public_key_b64 :: "ustr option"

record backup =
  bk_version :: "int option"
  bk_exported_at :: "int option"
  bk_settings :: "(ustr \<times> setting) list entry"
  bk_friends :: "backup_friend list entry"
  bk_hmac :: "ustr entry"

record backup_payload =
  bp_version :: int
  bp_exported_at :: int
  bp_settings :: "(ustr \<times> setting) list"
  bp_friends :: "backup_friend list"

record backup_env =
  be_key :: key_env
  be_hkdf :: "bytes \<Rightarrow> bytes \<Rightarrow> bytes"
  be_mac :: "bytes \<Rightarrow> backup_payload \<Rightarrow> ustr"

definition BACKUP_VERSION :: int where "BACKUP_VERSION = 1"

definition backup_settings :: "ustr list" where
  "backup_settings = [ustr ''public_key'', ustr ''private_key_encrypted'', ustr ''global_secret'']"

definition validate_backup_schema :: "backup option \<Rightarrow> unit res" where
  "validate_backup_schema data =
     (case data of None \<Rightarrow> Inl ValueError
      | Some b \<Rightarrow>
          if bk_version b = None \<or> bk_exported_at b = None \<or> bk_settings b = Absent \<or> bk_friends b = Absent
             \<or> bk_hmac b = Absent then Inl ValueError
          else if bk_settings b = Malformed then Inl ValueError
          else if bk_friends b = Malformed then Inl ValueError
          else Inr ())"

definition derive_hmac_key :: "backup_env \<Rightarrow> bytes \<Rightarrow> bytes" where
  "derive_hmac_key V password = be_hkdf V (map of_nat (ustr ''enigma-backup-hmac-v1'')) password"

text \<open>\<^verbatim>\<open>hmac.compare_digest\<close> raises \<^verbatim>\<open>TypeError\<close> for texts that are not ASCII.\<close>

definition verify_hmac :: "backup_env \<Rightarrow> backup_payload \<Rightarrow> ustr \<Rightarrow> bytes \<Rightarrow> bool res" where
  "verify_hmac V payload expected_hmac hmac_key =
     (if \<exists>c\<in>set expected_hmac. 128 \<le> c then Inl TypeError else Inr (be_mac V hmac_key payload = expected_hmac))"

section \<open>Export\<close>

definition export_settings :: "db \<Rightarrow> (ustr \<times> setting) list res" where
  "export_settings d =
     map_res (\<lambda>key. case get_setting key d of None \<Rightarrow> Inl BackupServiceError | Some v \<Rightarrow> Inr (key, v)) backup_settings"

definition export_friend :: "friend_row \<Rightarrow> backup_friend" where
  "export_friend r =
     \<lparr>bf_name = Some (fr_name r), bf_public_key_pem = Some (fr_public_key_pem r),
      bf_has_shared_secret = Some (fr_has_shared_secret r),
      bf_shared_secret_encrypted = fr_shared_secret_encrypted r,
      bf_x25519_public_key_b64 = fr_x25519_public_key_b64 r\<rparr>"

text \<open>The exceptions of the verification are not caught.\<close>

definition export_backup :: "backup_env \<Rightarrow> rat \<Rightarrow> bytes \<Rightarrow> account \<Rightarrow> backup res \<times> account" where
  "export_backup V now password s =
     (case verify_master_password (be_key V) now password s of
        (Inl e, s1) \<Rightarrow> (Inl e, s1)
      | (Inr is_valid, s1) \<Rightarrow>
          if \<not> is_valid then (Inl BackupServiceError, s1)
          else (case export_settings (ac_db s1) of Inl e \<Rightarrow> (Inl e, s1)
            | Inr stored \<Rightarrow>
                (let fs = map export_friend (friends_tab (ac_db s1));
                     payload = \<lparr>bp_version = BACKUP_VERSION, bp_exported_at = trunc now, bp_settings = stored,
                                bp_friends = fs\<rparr>
                 in (Inr \<lparr>bk_version = Some BACKUP_VERSION, bk_exported_at = Some (trunc now), bk_settings = Given stored,
                          bk_friends = Given fs, bk_hmac = Given (be_mac V (derive_hmac_key V password) payload)\<rparr>, s1))))"

section \<open>Import\<close>

definition insert_backup_friend :: "backup_friend \<Rightarrow> friend_row list \<Rightarrow> friend_row list res" where
  "insert_backup_friend f rows =
     (case (bf_name f, bf_public_key_pem f, bf_has_shared_secret f) of
        (Some name, Some pem, Some has) \<Rightarrow>
          if name \<in> fr_name ` set rows then Inl SqliteError
          else Inr (rows @ [\<lparr>fr_name = name, fr_public_key_pem = pem, fr_has_shared_secret = has,
                 fr_shared_secret_encrypted = bf_shared_secret_encrypted f,
                 fr_x25519_public_key_b64 = bf_x25519_public_key_b64 f, fr_ecdh_priv_encrypted = None,
                 fr_ratchet_state_json = None, fr_capabilities_json = None, fr_pqc_combined_pub_b64 = None,
                 fr_hybrid_sig_pub_b64 = None\<rparr>])
      | _ \<Rightarrow> Inl KeyError)"

text \<open>One transaction: every exception rolls it back. Only two of the tables are replaced.\<close>

definition restore_db :: "(ustr \<times> setting) list \<Rightarrow> backup_friend list \<Rightarrow> db \<Rightarrow> db res" where
  "restore_db stored fs d =
     (case fold_res insert_backup_friend fs [] of Inl _ \<Rightarrow> Inl BackupServiceError
      | Inr rows \<Rightarrow> Inr (d\<lparr>settings := stored, friends_tab := rows\<rparr>))"

text \<open>What is checked before anything is touched: the payload, or the exception.\<close>

definition check_backup :: "backup_env \<Rightarrow> backup option \<Rightarrow> bytes \<Rightarrow> backup_payload res" where
  "check_backup V data password =
     (case validate_backup_schema data of Inl e \<Rightarrow> Inl e
      | Inr _ \<Rightarrow>
        (case data of None \<Rightarrow> Inl ValueError
         | Some b \<Rightarrow>
           if bk_version b \<noteq> Some BACKUP_VERSION then Inl BackupServiceError
           else (case (bk_hmac b, bk_settings b, bk_friends b, bk_exported_at b) of
              (Given stored_hmac, Given stored, Given fs, Some exported_at) \<Rightarrow>
                if stored_hmac = [] then Inl BackupServiceError
                else let payload = \<lparr>bp_version = BACKUP_VERSION, bp_exported_at = exported_at, bp_settings = stored,
                                    bp_friends = fs\<rparr> in
                  (case verify_hmac V payload stored_hmac (derive_hmac_key V password) of Inl e \<Rightarrow> Inl e
                   | Inr ok \<Rightarrow>
                       if \<not> ok then Inl BackupServiceError
                       else if \<exists>key\<in>set backup_settings. map_of stored key = None then Inl BackupServiceError
                       else Inr payload)
            | _ \<Rightarrow> Inl BackupServiceError)))"

text \<open>The memory is wiped before the database is opened.\<close>

definition import_backup ::
  "backup_env \<Rightarrow> load_rnd \<Rightarrow> rat \<Rightarrow> backup option \<Rightarrow> bytes \<Rightarrow> account \<Rightarrow> unit res \<times> account" where
  "import_backup V rnd now data password s =
     (case check_backup V data password of Inl e \<Rightarrow> (Inl e, s)
      | Inr payload \<Rightarrow>
          (let s1 = s\<lparr>ac_keys := ks_wipe (ac_keys s)\<rparr> in
           case restore_db (bp_settings payload) (bp_friends payload) (ac_db s1) of Inl e \<Rightarrow> (Inl e, s1)
           | Inr d \<Rightarrow>
               (case load (be_key V) rnd password now (ac_keys s1, d) of
                  (Inl e, (k, d')) \<Rightarrow> (Inl e, s1\<lparr>ac_keys := k, ac_db := d'\<rparr>)
                | (Inr ok, (k, d')) \<Rightarrow>
                    ((if ok then Inr () else Inl BackupServiceError), s1\<lparr>ac_keys := k, ac_db := d'\<rparr>))))"

section \<open>Backup files\<close>

type_synonym backup_dir = "(ustr \<times> backup option res) list"

definition is_backup_name :: "ustr \<Rightarrow> bool" where
  "is_backup_name n \<longleftrightarrow>
     (let p = ustr ''enigma_backup_''; q = ustr ''.json''
      in length p + length q \<le> length n \<and> take (length p) n = p \<and> drop (length n - length q) n = q)"

text \<open>The newest first: the names order as the time stamps in them.\<close>

definition list_backups :: "backup_dir \<Rightarrow> ustr list" where
  "list_backups dir = rev (sort (filter is_backup_name (map fst dir)))"

text \<open>A file that cannot be removed (\<open>denied\<close>) stays.\<close>

definition prune_old_backups :: "nat \<Rightarrow> ustr set \<Rightarrow> backup_dir \<Rightarrow> backup_dir" where
  "prune_old_backups max_backups denied dir =
     (let old = drop max_backups (list_backups dir) in filter (\<lambda>(n, _). n \<notin> set old \<or> n \<in> denied) dir)"

definition record_backup_timestamp :: "int \<Rightarrow> db \<Rightarrow> db" where
  "record_backup_timestamp ts d = put_setting (ustr ''last_backup_ts'') (Number (of_int ts)) d"

text \<open>\<open>stamp\<close> is the formatted local time and \<open>written\<close> whether the file can be written.\<close>

definition export_backup_to_file ::
  "backup_env \<Rightarrow> nat \<Rightarrow> ustr set \<Rightarrow> bool \<Rightarrow> ustr \<Rightarrow> rat \<Rightarrow> bytes \<Rightarrow> account \<times> backup_dir \<Rightarrow>
   ustr res \<times> (account \<times> backup_dir)" where
  "export_backup_to_file V max_backups denied written stamp now password s =
     (case s of (a, dir) \<Rightarrow>
      (case export_backup V now password a of
         (Inl e, a1) \<Rightarrow> (Inl e, (a1, dir))
       | (Inr data, a1) \<Rightarrow>
           (let filename = ustr ''enigma_backup_'' @ stamp @ ustr ''.json'' in
            if \<not> written then (Inl BackupServiceError, (a1, dir))
            else (Inr filename,
                  (a1\<lparr>ac_db := record_backup_timestamp (trunc now) (ac_db a1)\<rparr>,
                   prune_old_backups max_backups denied (AList.update filename (Inr (Some data)) dir))))))"

text \<open>\<^verbatim>\<open>JSONDecodeError\<close> is caught, the exception of a file that is not UTF-8 is not.\<close>

definition import_backup_from_file ::
  "backup_env \<Rightarrow> load_rnd \<Rightarrow> rat \<Rightarrow> ustr \<Rightarrow> bytes \<Rightarrow> account \<times> backup_dir \<Rightarrow> unit res \<times> (account \<times> backup_dir)" where
  "import_backup_from_file V rnd now filepath password s =
     (case s of (a, dir) \<Rightarrow>
      (case map_of dir filepath of None \<Rightarrow> (Inl BackupServiceError, s)
       | Some (Inl e) \<Rightarrow> (Inl (if e = UnicodeError then UnicodeError else BackupServiceError), s)
       | Some (Inr data) \<Rightarrow>
           (case import_backup V rnd now data password a of (r, a1) \<Rightarrow> (r, (a1, dir)))))"

section \<open>The reminder\<close>

definition get_last_backup_timestamp :: "bool \<Rightarrow> db \<Rightarrow> int option" where
  "get_last_backup_timestamp io_ok d =
     (if \<not> io_ok then None
      else case get_setting (ustr ''last_backup_ts'') d of Some (Number x) \<Rightarrow> Some (trunc x) | _ \<Rightarrow> None)"

definition should_remind_backup :: "bool \<Rightarrow> int \<Rightarrow> rat \<Rightarrow> db \<Rightarrow> bool \<times> int option" where
  "should_remind_backup io_ok reminder_days now d =
     (case get_last_backup_timestamp io_ok d of None \<Rightarrow> (True, None)
      | Some last_ts \<Rightarrow>
          (let elapsed_days = \<lfloor>(now - of_int last_ts) / 86400\<rfloor> in
           if reminder_days \<le> elapsed_days then (True, Some elapsed_days) else (False, None)))"

end
