(* ===== verification/Backup_Safety.thy ===== *)
theory Backup_Safety
  imports Backup Friend_View
begin

text \<open>
  What a backup brings back and what it loses: the identity, the global secret and the shared secrets
  are restored; every other setting and key is deleted by the import, which accepts nothing that was
  not authenticated under the password. Pruning keeps the newest files.
\<close>

section \<open>What loading does with the restored tables\<close>

definition own :: "key_store \<Rightarrow> bytes option \<times> bytes option \<times> bytes option" where
  "own k = (my_pub k, my_priv k, global_secret k)"

definition pqc_own :: "key_store \<Rightarrow> bytes option \<times> bytes option \<times> bytes option" where
  "pqc_own k = (my_kyber_priv k, my_ed_priv k, my_dil_priv k)"

definition restored_friend :: "key_env \<Rightarrow> bytes \<Rightarrow> friend_row \<Rightarrow> friend \<Rightarrow> bool" where
  "restored_friend E pw r f \<longleftrightarrow>
     (case f of (n, p, sec) \<Rightarrow>
       n = fr_name r \<and> pem_to_pubkey E (fr_public_key_pem r) = Inr p \<and>
       (if fr_has_shared_secret r then open_column E pw (fr_shared_secret_encrypted r) else Inr None) = Inr sec)"

lemma load_rsa_ok:
  assumes "load_rsa E pw now (k, d) = (Inr True, (k', d'))" "text_setting ''legacy_private_key_encrypted'' d = None"
  shows "d' = d \<and> (\<exists>pem pub pem' priv. text_setting ''public_key'' d = Some pem \<and> pem_to_pubkey E pem = Inr pub \<and>
    text_setting ''private_key_encrypted'' d = Some pem' \<and> pem_to_privkey E pem' pw = Inr priv \<and>
    my_pub k' = Some pub \<and> my_priv k' = Some priv)"
  using assms by (auto simp: load_rsa_def load_legacy_def Let_def split: option.splits sum.splits if_splits)

lemma load_global_ok:
  assumes "load_global E pw (k, d) = (Inr True, (k', d'))"
  shows "d' = d \<and> my_pub k' = my_pub k \<and> my_priv k' = my_priv k \<and>
    (\<forall>w. secret_setting ''global_secret'' d = Some w \<longrightarrow>
      (\<exists>g. decrypt_secret (ke_db E) w pw = Inr g \<and> global_secret k' = Some g))"
  using assms by (auto simp: load_global_def split: option.splits sum.splits if_splits)

lemma load_kyber_ok:
  assumes "load_kyber E pw (k, d) = (Inr True, (k', d'))" "secret_setting ''kyber_priv_encrypted'' d = None"
  shows "d' = d \<and> own k' = own k \<and> my_kyber_priv k' = None"
  using assms by (auto simp: load_kyber_def own_def Let_def)

lemma load_bundle_ok:
  assumes "load_bundle E pw (k, d) = (Inr True, (k', d'))" "text_setting ''pqc_combined_pub_b64'' d = None"
    and "my_kyber_priv k = None"
  shows "d' = d \<and> own k' = own k \<and> my_kyber_priv k' = None"
  using assms by (auto simp: load_bundle_def own_def given_def Let_def)

lemma load_hybrid_ok:
  assumes "load_hybrid E pw (k, d) = (Inr True, (k', d'))" "secret_setting ''ed25519_priv_encrypted'' d = None"
    and "text_setting ''hybrid_sig_combined_pub_b64'' d = None"
  shows "d' = d \<and> own k' = own k \<and> pqc_own k' = (my_kyber_priv k, None, None)"
  using assms by (auto simp: load_hybrid_def own_def pqc_own_def Let_def split: if_splits)

lemma load_friend_ok:
  assumes "load_friend E pw r k = (Inr u, k')"
  shows "own k' = own k \<and> pqc_own k' = pqc_own k \<and> (\<exists>f. restored_friend E pw r f \<and> friends k' = friends k @ [f])"
proof -
  obtain pub where pub: "pem_to_pubkey E (fr_public_key_pem r) = Inr pub"
    using assms by (auto simp: load_friend_def Let_def split: sum.splits)
  obtain sec where sec: "(if fr_has_shared_secret r then open_column E pw (fr_shared_secret_encrypted r) else Inr None) = Inr sec"
    using assms pub by (cases "if fr_has_shared_secret r then open_column E pw (fr_shared_secret_encrypted r) else Inr None")
      (simp_all add: load_friend_def Let_def)
  obtain ecdh where ecdh: "open_column E pw (fr_ecdh_priv_encrypted r) = Inr ecdh"
    using assms pub sec by (cases "open_column E pw (fr_ecdh_priv_encrypted r)") (simp_all add: load_friend_def Let_def)
  have f: "restored_friend E pw r (fr_name r, pub, sec)" by (simp add: restored_friend_def pub sec)
  have "own k' = own k \<and> pqc_own k' = pqc_own k \<and> friends k' = friends k @ [(fr_name r, pub, sec)]"
    using assms unfolding load_friend_def Let_def pub sec ecdh
    by (auto simp: own_def pqc_own_def split: if_splits sum.splits)
  with f show ?thesis by blast
qed

lemma load_friend_rows_ok:
  assumes "load_friend_rows E pw rows k = (Inr u, k')"
  shows "own k' = own k \<and> pqc_own k' = pqc_own k \<and> (\<exists>fs. list_all2 (restored_friend E pw) rows fs \<and> friends k' = friends k @ fs)"
  using assms
proof (induction rows arbitrary: k)
  case (Cons r rows)
  then obtain v k1 where 1: "load_friend E pw r k = (Inr v, k1)" "load_friend_rows E pw rows k1 = (Inr u, k')"
    by (auto simp: and_then_ok)
  obtain f where f: "restored_friend E pw r f" "friends k1 = friends k @ [f]" "own k1 = own k" "pqc_own k1 = pqc_own k"
    using load_friend_ok [OF 1(1)] by blast
  obtain fs where fs: "list_all2 (restored_friend E pw) rows fs" "friends k' = friends k1 @ fs" "own k' = own k1" "pqc_own k' = pqc_own k1"
    using Cons.IH [OF 1(2)] by blast
  have "list_all2 (restored_friend E pw) (r # rows) (f # fs)" "friends k' = friends k @ f # fs"
    using f fs by simp_all
  then show ?case using f(3,4) fs(3,4) by auto
qed simp

lemma load_friends_ok:
  assumes "load_friends E pw (k, d) = (Inr True, (k', d'))"
  shows "d' = d \<and> own k' = own k \<and> pqc_own k' = pqc_own k \<and> list_all2 (restored_friend E pw) (friends_tab d) (friends k')"
  using assms by (auto simp: load_friends_def Let_def own_def pqc_own_def dest: load_friend_rows_ok split: prod.splits sum.splits)

lemma load_ratchet_key_ok:
  assumes "load_ratchet_key E rnd pw (k, d) = (Inr True, (k', d'))"
    and "secret_setting ''ratchet_storage_key'' d = None" "text_setting ''ratchet_hkdf_salt'' d = None"
  shows "own k' = own k \<and> pqc_own k' = pqc_own k \<and> friends k' = friends k \<and>
    (\<exists>w. d' = delete_setting (ustr ''ratchet_hkdf_salt'') (put_setting (ustr ''ratchet_storage_key'') (Secret w) d))"
  using assms by (auto simp: load_ratchet_key_def Let_def own_def pqc_own_def split: sum.splits if_splits)

text \<open>All blocks together, on a database with none of the settings a backup does not hold.\<close>

lemma load_restored:
  assumes "load E rnd pw now (k, d) = (Inr True, (k', d'))"
    and none: "\<And>key. key \<notin> set backup_settings \<Longrightarrow> get_setting key d = None"
  shows "(\<exists>pem pub pem' priv. text_setting ''public_key'' d = Some pem \<and> pem_to_pubkey E pem = Inr pub \<and>
      text_setting ''private_key_encrypted'' d = Some pem' \<and> pem_to_privkey E pem' pw = Inr priv \<and>
      my_pub k' = Some pub \<and> my_priv k' = Some priv) \<and>
    (\<forall>w. secret_setting ''global_secret'' d = Some w \<longrightarrow>
      (\<exists>g. decrypt_secret (ke_db E) w pw = Inr g \<and> global_secret k' = Some g)) \<and>
    pqc_own k' = (None, None, None) \<and> list_all2 (restored_friend E pw) (friends_tab d) (friends k') \<and>
    (\<exists>w. d' = delete_setting (ustr ''ratchet_hkdf_salt'') (put_setting (ustr ''ratchet_storage_key'') (Secret w) d))"
proof -
  have absent: "text_setting s d = None" "secret_setting s d = None" if "ustr s \<notin> set backup_settings" for s
    using none [OF that] by (simp_all add: text_setting_def secret_setting_def)
  note absent' = absent [unfolded backup_settings_def, simplified]
  obtain k1 d1 k2 d2 k3 d3 k4 d4 k5 d5 k6 d6 where
    l1: "load_rsa E pw now (k, d) = (Inr True, (k1, d1))" and l2: "load_global E pw (k1, d1) = (Inr True, (k2, d2))"
    and l3: "load_kyber E pw (k2, d2) = (Inr True, (k3, d3))" and l4: "load_bundle E pw (k3, d3) = (Inr True, (k4, d4))"
    and l5: "load_hybrid E pw (k4, d4) = (Inr True, (k5, d5))" and l6: "load_friends E pw (k5, d5) = (Inr True, (k6, d6))"
    and l7: "load_ratchet_key E rnd pw (k6, d6) = (Inr True, (k', d'))"
    using assms(1) by (auto simp: load_def load_then_ok keystore_error_ok)
  have r1: "d1 = d" using load_rsa_ok [OF l1] absent' by simp
  have r2: "d2 = d" "my_pub k2 = my_pub k1" "my_priv k2 = my_priv k1" using load_global_ok [OF l2] r1 by simp_all
  have r3: "d3 = d" "own k3 = own k2" "my_kyber_priv k3 = None" using load_kyber_ok [OF l3] r2 absent' by simp_all
  have r4: "d4 = d" "own k4 = own k3" "my_kyber_priv k4 = None" using load_bundle_ok [OF l4] r3 absent' by simp_all
  have r5: "d5 = d" "own k5 = own k4" "pqc_own k5 = (None, None, None)" using load_hybrid_ok [OF l5] r4 absent' by simp_all
  have r6: "d6 = d" "own k6 = own k5" "pqc_own k6 = pqc_own k5" "list_all2 (restored_friend E pw) (friends_tab d) (friends k6)"
    using load_friends_ok [OF l6] r5 by simp_all
  have r7: "own k' = own k6" "pqc_own k' = pqc_own k6" "friends k' = friends k6"
    "\<exists>w. d' = delete_setting (ustr ''ratchet_hkdf_salt'') (put_setting (ustr ''ratchet_storage_key'') (Secret w) d)"
    using load_ratchet_key_ok [OF l7] r6 absent' by simp_all
  have own: "my_pub k' = my_pub k1" "my_priv k' = my_priv k1" "global_secret k' = global_secret k2"
    using r2 r3(2) r4(2) r5(2) r6(2) r7(1) by (simp_all add: own_def)
  show ?thesis using load_rsa_ok [OF l1] load_global_ok [OF l2] absent' r1 r5(3) r6 r7 own by simp
qed

section \<open>What the transaction writes\<close>

definition core_row :: "friend_row \<Rightarrow> friend_row" where
  "core_row r = r\<lparr>fr_ecdh_priv_encrypted := None, fr_ratchet_state_json := None, fr_capabilities_json := None,
     fr_pqc_combined_pub_b64 := None, fr_hybrid_sig_pub_b64 := None\<rparr>"

lemma insert_exported:
  "insert_backup_friend (export_friend r) rows = Inr rows' \<Longrightarrow> rows' = rows @ [core_row r]"
  by (cases r) (auto simp: insert_backup_friend_def export_friend_def core_row_def split: if_splits)

lemma insert_all_exported:
  "fold_res insert_backup_friend (map export_friend rs) rows = Inr rows' \<Longrightarrow> rows' = rows @ map core_row rs"
proof (induction rs arbitrary: rows)
  case (Cons r rs)
  obtain rows1 where i: "insert_backup_friend (export_friend r) rows = Inr rows1"
    and f: "fold_res insert_backup_friend (map export_friend rs) rows1 = Inr rows'"
    using Cons.prems by (auto split: sum.splits)
  show ?case using Cons.IH [OF f] insert_exported [OF i] by simp
qed simp

lemma restored_core: "restored_friend E pw (core_row r) f \<longleftrightarrow> restored_friend E pw r f"
  by (simp add: restored_friend_def core_row_def)

text \<open>The settings of an export, read from the table they are restored to.\<close>

lemma exported_settings:
  assumes "export_settings d = Inr stored"
  shows "get_setting key (d2\<lparr>settings := stored\<rparr>) =
    (if key \<in> set backup_settings then get_setting key d else None)"
proof -
  obtain a b c where v: "get_setting (ustr ''public_key'') d = Some a" "get_setting (ustr ''private_key_encrypted'') d = Some b"
    "get_setting (ustr ''global_secret'') d = Some c"
    and s: "stored = [(ustr ''public_key'', a), (ustr ''private_key_encrypted'', b), (ustr ''global_secret'', c)]"
    using assms by (auto simp: export_settings_def backup_settings_def split: option.splits sum.splits)
  have "get_setting key (d2\<lparr>settings := stored\<rparr>) =
      (if key = ustr ''public_key'' then Some a else if key = ustr ''private_key_encrypted'' then Some b
       else if key = ustr ''global_secret'' then Some c else None)"
    by (simp add: s get_setting_def select_key_def)
  then show ?thesis by (simp add: v backup_settings_def)
qed

lemma setting_views:
  "get_setting (ustr s) d = get_setting (ustr s) d' \<Longrightarrow> text_setting s d = text_setting s d'"
  "get_setting (ustr s) d = get_setting (ustr s) d' \<Longrightarrow> secret_setting s d = secret_setting s d'"
  by (simp_all add: text_setting_def secret_setting_def)

text \<open>An import that succeeds, in its parts.\<close>

lemma import_ok:
  assumes "import_backup V rnd now data pw a = (Inr (), a')"
  obtains payload d where "check_backup V data pw = Inr payload"
    "restore_db (bp_settings payload) (bp_friends payload) (ac_db a) = Inr d"
    "load (be_key V) rnd pw now (ks_wipe (ac_keys a), d) = (Inr True, (ac_keys a', ac_db a'))"
  using assms by (auto simp: import_backup_def Let_def split: sum.splits prod.splits if_splits)

lemma check_ok:
  assumes "check_backup V (Some b) pw = Inr payload"
  shows "bk_hmac b = Given (be_mac V (derive_hmac_key V pw) payload)" "bk_settings b = Given (bp_settings payload)"
    "bk_friends b = Given (bp_friends payload)"
  using assms by (auto simp: check_backup_def verify_hmac_def Let_def split: sum.splits entry.splits option.splits if_splits)

lemma export_ok:
  assumes "export_backup V now pw a = (Inr b, a1)"
  obtains stored where "export_settings (ac_db a1) = Inr stored" "bk_settings b = Given stored"
    "bk_friends b = Given (map export_friend (friends_tab (ac_db a1)))"
  using assms by (auto simp: export_backup_def Let_def split: prod.splits sum.splits if_splits)

lemma import_of_export:
  assumes "export_backup V now pw a = (Inr b, a1)" "import_backup V rnd now2 (Some b) pw2 a2 = (Inr (), a3)"
  shows "\<exists>d. (\<forall>key. get_setting key d = (if key \<in> set backup_settings then get_setting key (ac_db a1) else None)) \<and>
    friends_tab d = map core_row (friends_tab (ac_db a1)) \<and> trust_certificates d = trust_certificates (ac_db a2) \<and>
    load (be_key V) rnd pw2 now2 (ks_wipe (ac_keys a2), d) = (Inr True, (ac_keys a3, ac_db a3))"
proof -
  obtain stored where e: "export_settings (ac_db a1) = Inr stored" "bk_settings b = Given stored"
    "bk_friends b = Given (map export_friend (friends_tab (ac_db a1)))"
    by (rule export_ok [OF assms(1)])
  obtain payload d where i: "check_backup V (Some b) pw2 = Inr payload"
    "restore_db (bp_settings payload) (bp_friends payload) (ac_db a2) = Inr d"
    "load (be_key V) rnd pw2 now2 (ks_wipe (ac_keys a2), d) = (Inr True, (ac_keys a3, ac_db a3))"
    by (rule import_ok [OF assms(2)])
  from check_ok [OF i(1)] e have p: "bp_settings payload = stored" "bp_friends payload = map export_friend (friends_tab (ac_db a1))"
    by simp_all
  obtain rows where rows: "fold_res insert_backup_friend (map export_friend (friends_tab (ac_db a1))) [] = Inr rows"
    and d: "d = (ac_db a2)\<lparr>settings := stored, friends_tab := rows\<rparr>"
    using i(2) by (auto simp: restore_db_def p split: sum.splits)
  have "get_setting key d = (if key \<in> set backup_settings then get_setting key (ac_db a1) else None)" for key
    by (simp add: d exported_settings [OF e(1)])
  moreover have "friends_tab d = map core_row (friends_tab (ac_db a1))" "trust_certificates d = trust_certificates (ac_db a2)"
    using insert_all_exported [OF rows] by (simp_all add: d)
  ultimately show ?thesis using i(3) by blast
qed

section \<open>An example\<close>

definition ref_backup :: backup_env where
  "ref_backup = \<lparr>be_key = ref_key_env, be_hkdf = (\<lambda>info pw. pw), be_mac = (\<lambda>k p. map unat k @ [length (bp_friends p)])\<rparr>"

definition demo_owner :: account where
  "demo_owner = \<lparr>ac_lockout = \<lparr>failed_attempts = 0, locked_until = 0\<rparr>, ac_keys = new_key_store,
     ac_db = put_setting (ustr ''public_key'') (Text [80, 9]) (put_setting (ustr ''private_key_encrypted'') (Text [1, 65, 9])
       (put_setting (ustr ''global_secret'')
         (case encrypt_secret ref_db_crypto [1] (replicate 12 0) [42] [65] of Inr e \<Rightarrow> Secret e | Inl _ \<Rightarrow> Text [])
         (snd bob_saved)))\<rparr>"

definition new_owner :: account where
  "new_owner = \<lparr>ac_lockout = \<lparr>failed_attempts = 0, locked_until = 0\<rparr>, ac_keys = new_key_store, ac_db = empty_db\<rparr>"

definition demo_load_rnd :: load_rnd where
  "demo_load_rnd = \<lparr>lr_ratchet_key = [3], lr_salt = [4], lr_nonce = replicate 12 5, lr_blob_nonce = (\<lambda>_. [])\<rparr>"

definition demo_export :: "backup res \<times> account" where
  "demo_export = export_backup ref_backup 5 [65] demo_owner"

lemma demo_export_ok: "is_ok (fst demo_export)"
  by code_simp

lemma demo_import_ok:
  "fst (import_backup ref_backup demo_load_rnd 6 (case fst demo_export of Inr b \<Rightarrow> Some b | Inl _ \<Rightarrow> None) [65] new_owner) = Inr ()"
  by code_simp

definition demo_backup :: backup where
  "demo_backup = (case fst demo_export of Inr b \<Rightarrow> b | Inl _ \<Rightarrow> undefined)"

definition demo_imported :: "unit res \<times> account" where
  "demo_imported = import_backup ref_backup demo_load_rnd 6 (Some demo_backup) [65] new_owner"

lemma demo_exported: "export_backup ref_backup 5 [65] demo_owner = (Inr demo_backup, snd demo_export)"
  using demo_export_ok by (cases demo_export) (auto simp: demo_export_def demo_backup_def is_ok_iff)

lemma demo_imports: "import_backup ref_backup demo_load_rnd 6 (Some demo_backup) [65] new_owner = (Inr (), snd demo_imported)"
  using demo_import_ok demo_export_ok by (cases demo_imported) (auto simp: demo_imported_def demo_backup_def is_ok_iff)

section \<open>Properties\<close>

text \<open>C26. A backup brings an identity back: after the import, on any device, the RSA keys are those of the
  exported tables, opened with the password, so is the global secret, and every friend is there with
  its public key and its shared secret.\<close>

theorem backup_restores_identity:
  assumes "export_backup V now pw a = (Inr b, a1)" "import_backup V rnd now2 (Some b) pw2 a2 = (Inr (), a3)"
  shows "(\<exists>pem pub pem' priv. text_setting ''public_key'' (ac_db a1) = Some pem \<and> pem_to_pubkey (be_key V) pem = Inr pub \<and>
      text_setting ''private_key_encrypted'' (ac_db a1) = Some pem' \<and> pem_to_privkey (be_key V) pem' pw2 = Inr priv \<and>
      my_pub (ac_keys a3) = Some pub \<and> my_priv (ac_keys a3) = Some priv) \<and>
    (\<forall>w. secret_setting ''global_secret'' (ac_db a1) = Some w \<longrightarrow>
      (\<exists>g. decrypt_secret (ke_db (be_key V)) w pw2 = Inr g \<and> global_secret (ac_keys a3) = Some g)) \<and>
    list_all2 (restored_friend (be_key V) pw2) (friends_tab (ac_db a1)) (friends (ac_keys a3))"
proof -
  obtain d where d: "\<forall>key. get_setting key d = (if key \<in> set backup_settings then get_setting key (ac_db a1) else None)"
    "friends_tab d = map core_row (friends_tab (ac_db a1))"
    "load (be_key V) rnd pw2 now2 (ks_wipe (ac_keys a2), d) = (Inr True, (ac_keys a3, ac_db a3))"
    using import_of_export [OF assms] by blast
  have same: "text_setting ''public_key'' d = text_setting ''public_key'' (ac_db a1)"
    "text_setting ''private_key_encrypted'' d = text_setting ''private_key_encrypted'' (ac_db a1)"
    "secret_setting ''global_secret'' d = secret_setting ''global_secret'' (ac_db a1)"
    by (rule setting_views, simp add: d(1) backup_settings_def)+
  have none: "get_setting key d = None" if "key \<notin> set backup_settings" for key using that by (simp add: d(1))
  from load_restored [OF d(3) none] show ?thesis
    by (simp add: d(2) same list_all2_map1 restored_core)
qed

theorem backup_restores_identity_witness:
  "list_all2 (restored_friend ref_key_env [65]) (friends_tab (ac_db (snd demo_export))) (friends (ac_keys (snd demo_imported))) \<and>
   my_priv (ac_keys (snd demo_imported)) \<noteq> None"
  using backup_restores_identity [OF demo_exported demo_imports] by (auto simp: ref_backup_def)

text \<open>And it loses the rest: an import deletes the post-quantum and the signing keys, the session and
  every other key of a friend, and every setting but four, among them the secret of the
  one-time passwords, the duress password and the count of failed attempts. The
  certificates of the account that was there before stay.\<close>

theorem import_loses_the_rest:
  assumes "export_backup V now pw a = (Inr b, a1)" "import_backup V rnd now2 (Some b) pw2 a2 = (Inr (), a3)"
  shows "my_kyber_priv (ac_keys a3) = None \<and> my_ed_priv (ac_keys a3) = None \<and> my_dil_priv (ac_keys a3) = None \<and>
    friends_tab (ac_db a3) = map core_row (friends_tab (ac_db a1)) \<and>
    (\<forall>key. key \<in> set backup_settings \<or> key = ustr ''ratchet_storage_key'' \<or> get_setting key (ac_db a3) = None) \<and>
    snd (load_verifiers True (ac_db a3)) = None \<and>
    trust_certificates (ac_db a3) = trust_certificates (ac_db a2)"
proof -
  obtain d where d: "\<forall>key. get_setting key d = (if key \<in> set backup_settings then get_setting key (ac_db a1) else None)"
    "friends_tab d = map core_row (friends_tab (ac_db a1))" "trust_certificates d = trust_certificates (ac_db a2)"
    "load (be_key V) rnd pw2 now2 (ks_wipe (ac_keys a2), d) = (Inr True, (ac_keys a3, ac_db a3))"
    using import_of_export [OF assms] by blast
  have none: "get_setting key d = None" if "key \<notin> set backup_settings" for key using that by (simp add: d(1))
  from load_restored [OF d(4) none] obtain w where p: "pqc_own (ac_keys a3) = (None, None, None)"
    and w: "ac_db a3 = delete_setting (ustr ''ratchet_hkdf_salt'') (put_setting (ustr ''ratchet_storage_key'') (Secret w) d)"
    by blast
  have s: "key \<in> set backup_settings \<or> key = ustr ''ratchet_storage_key'' \<or> get_setting key (ac_db a3) = None" for key
    by (simp add: w d(1))
  have "get_setting (ustr ''duress_verifier'') (ac_db a3) = None"
    by (simp add: w none backup_settings_def)
  then have "snd (load_verifiers True (ac_db a3)) = None"
    by (simp add: load_verifiers_def Let_def split: option.split setting.split)
  with p s show ?thesis by (simp add: pqc_own_def w d(2,3))
qed

theorem import_loses_the_rest_witness:
  "friends_tab (ac_db (snd demo_imported)) = map core_row (friends_tab (ac_db (snd demo_export))) \<and>
   get_setting (ustr ''totp_secret_encrypted'') (ac_db (snd demo_imported)) = None"
proof -
  note r = import_loses_the_rest [OF demo_exported demo_imports]
  have "ustr ''totp_secret_encrypted'' \<notin> set backup_settings \<and> ustr ''totp_secret_encrypted'' \<noteq> ustr ''ratchet_storage_key''"
    by (simp add: backup_settings_def)
  with r show ?thesis by blast
qed

text \<open>An import changes nothing, in memory or on disk, unless the HMAC of the backup is that of its
  contents under the key derived from the password.\<close>

theorem import_needs_mac:
  assumes "import_backup V rnd now data pw a = (r, a')" "a' \<noteq> a \<or> r = Inr ()"
  shows "\<exists>b payload. data = Some b \<and> bk_hmac b = Given (be_mac V (derive_hmac_key V pw) payload) \<and>
    bk_settings b = Given (bp_settings payload) \<and> bk_friends b = Given (bp_friends payload)"
proof (cases "check_backup V data pw")
  case (Inl e)
  then show ?thesis using assms by (auto simp: import_backup_def)
next
  case (Inr payload)
  then obtain b where "data = Some b"
    by (cases data) (auto simp: check_backup_def validate_backup_schema_def)
  with Inr check_ok show ?thesis by blast
qed

theorem import_needs_mac_witness:
  "\<exists>payload. bk_hmac demo_backup = Given (be_mac ref_backup (derive_hmac_key ref_backup [65]) payload)"
  using import_needs_mac [OF demo_imports] by auto

lemma backup_names_distinct: "distinct (map fst dir) \<Longrightarrow> distinct (list_backups dir)"
  by (simp add: list_backups_def)

lemma filter_take_sorted:
  assumes "distinct xs"
  shows "filter (\<lambda>x. x \<notin> set (drop n xs)) xs = take n xs"
proof -
  have "set (take n xs) \<inter> set (drop n xs) = {}" using assms by (rule set_take_disj_set_drop_if_distinct) simp
  then have "filter (\<lambda>x. x \<notin> set (drop n xs)) (take n xs) = take n xs"
    "filter (\<lambda>x. x \<notin> set (drop n xs)) (drop n xs) = []"
    by (auto simp: filter_id_conv filter_empty_conv)
  then show ?thesis using filter_append [of _ "take n xs" "drop n xs"] by (metis append_take_drop_id append_Nil2)
qed

lemma list_backups_filter: "list_backups (filter (\<lambda>(m, _). P m) dir) = filter P (list_backups dir)"
proof -
  have "map fst (filter (\<lambda>(m, _). P m) dir) = filter P (map fst dir)" by (induction dir) auto
  then show ?thesis
    by (simp add: list_backups_def filter_sort rev_filter [symmetric] conj_commute)
qed

lemma map_of_filter_kept: "P name \<Longrightarrow> map_of (filter (\<lambda>(n, _). P n) xs) name = map_of xs name"
  by (induction xs) auto

text \<open>Pruning leaves exactly the newest backups, in the order of the time stamps in their names,
  and no other file is touched.\<close>

theorem pruning_keeps_newest:
  assumes "distinct (map fst dir)"
  shows "list_backups (prune_old_backups n {} dir) = take n (list_backups dir) \<and>
    (\<forall>name. is_backup_name name \<or> map_of (prune_old_backups n {} dir) name = map_of dir name)"
proof (intro conjI allI)
  let ?old = "set (drop n (list_backups dir))"
  have prune: "prune_old_backups n {} dir = filter (\<lambda>(m, _). m \<notin> ?old) dir"
    by (simp add: prune_old_backups_def Let_def)
  have "list_backups (prune_old_backups n {} dir) = filter (\<lambda>m. m \<notin> ?old) (list_backups dir)"
    unfolding prune by (rule list_backups_filter)
  also have "\<dots> = take n (list_backups dir)"
    by (rule filter_take_sorted [OF backup_names_distinct [OF assms]])
  finally show "list_backups (prune_old_backups n {} dir) = take n (list_backups dir)" .
  fix name
  have "is_backup_name m" if "m \<in> ?old" for m
    using that in_set_dropD by (fastforce simp: list_backups_def)
  then show "is_backup_name name \<or> map_of (prune_old_backups n {} dir) name = map_of dir name"
    unfolding prune using map_of_filter_kept [of "\<lambda>m. m \<notin> ?old" name dir] by blast
qed

definition backup_name :: "string \<Rightarrow> ustr" where
  "backup_name t = ustr ''enigma_backup_'' @ ustr t @ ustr ''.json''"

definition demo_dir :: backup_dir where
  "demo_dir = map (\<lambda>n. (n, Inl ValueError))
     [ustr ''notes.txt'', backup_name ''20250101_000000'', backup_name ''20250301_000000'', backup_name ''20250201_000000'']"

theorem pruning_keeps_newest_witness:
  "list_backups (prune_old_backups 2 {} demo_dir) = [backup_name ''20250301_000000'', backup_name ''20250201_000000''] \<and>
   map_of (prune_old_backups 2 {} demo_dir) (ustr ''notes.txt'') = Some (Inl ValueError)"
proof -
  have l: "list_backups demo_dir =
      [backup_name ''20250301_000000'', backup_name ''20250201_000000'', backup_name ''20250101_000000'']" by code_simp
  have d: "distinct (map fst demo_dir)" by code_simp
  have n: "\<not> is_backup_name (ustr ''notes.txt'')" by code_simp
  have m: "map_of demo_dir (ustr ''notes.txt'') = Some (Inl ValueError)" by (simp add: demo_dir_def)
  note r = pruning_keeps_newest [OF d, of 2]
  from r n have "map_of (prune_old_backups 2 {} demo_dir) (ustr ''notes.txt'') = map_of demo_dir (ustr ''notes.txt'')" by blast
  with conjunct1 [OF r] l m show ?thesis by simp
qed

end
