(* ===== verification/Event_Bus.thy ===== *)
theory Event_Bus
  imports Enigma_Prelude State_Machine
begin

text \<open>
  \<^verbatim>\<open>services/event_bus.py\<close>: subscriptions and the delivery of events. A handler is a number, its
  identity; what it does when it is called is the parameter \<open>H\<close>, which may raise, change the
  state of the application and call the bus again (the lock is reentrant and not held during a
  delivery). \<open>named\<close> tells which handlers have a \<^verbatim>\<open>__qualname__\<close>, which the bus logs. What is
  handed to the main loop of Tk is the list \<open>bus_pending\<close>.
\<close>

section \<open>Subscriptions\<close>

record subscription =
  su_handler :: nat
  su_thread_safe :: bool

record 'k event_bus =
  bus_subscribers :: "(ustr \<times> subscription list) list"
  bus_root :: bool
  bus_pending :: "(nat \<times> 'k) list"

definition new_event_bus :: "'k event_bus" where
  "new_event_bus = \<lparr>bus_subscribers = [], bus_root = False, bus_pending = []\<rparr>"

definition set_root :: "bool \<Rightarrow> 'k event_bus \<Rightarrow> 'k event_bus" where
  "set_root configured b = b\<lparr>bus_root := configured\<rparr>"

text \<open>\<^verbatim>\<open>self._subscribers.get(event, [])\<close>, which is also what the default dictionary yields.\<close>

definition entries_of :: "ustr \<Rightarrow> 'k event_bus \<Rightarrow> subscription list" where
  "entries_of event b = (case map_of (bus_subscribers b) event of Some es \<Rightarrow> es | None \<Rightarrow> [])"

definition put_entries :: "ustr \<Rightarrow> subscription list \<Rightarrow> 'k event_bus \<Rightarrow> 'k event_bus" where
  "put_entries event es b = b\<lparr>bus_subscribers := AList.update event es (bus_subscribers b)\<rparr>"

text \<open>A handler without a name is subscribed when the log call raises \<^verbatim>\<open>AttributeError\<close>.\<close>

definition subscribe ::
  "(nat \<Rightarrow> bool) \<Rightarrow> ustr \<Rightarrow> nat \<Rightarrow> bool \<Rightarrow> 'k event_bus \<Rightarrow> unit res \<times> 'k event_bus" where
  "subscribe named event handler thread_safe b =
     (if \<exists>e\<in>set (entries_of event b). su_handler e = handler then (Inr (), b)
      else ((if named handler then Inr () else Inl AttributeError),
            put_entries event (entries_of event b @ [\<lparr>su_handler = handler, su_thread_safe = thread_safe\<rparr>]) b))"

definition unsubscribe :: "(nat \<Rightarrow> bool) \<Rightarrow> ustr \<Rightarrow> nat \<Rightarrow> 'k event_bus \<Rightarrow> unit res \<times> 'k event_bus" where
  "unsubscribe named event handler b =
     ((if named handler then Inr () else Inl AttributeError),
      put_entries event (filter (\<lambda>e. su_handler e \<noteq> handler) (entries_of event b)) b)"

definition unsubscribe_all :: "nat \<Rightarrow> 'k event_bus \<Rightarrow> 'k event_bus" where
  "unsubscribe_all handler b =
     b\<lparr>bus_subscribers := map (\<lambda>(event, es). (event, filter (\<lambda>e. su_handler e \<noteq> handler) es)) (bus_subscribers b)\<rparr>"

definition bus_clear :: "'k event_bus \<Rightarrow> 'k event_bus" where
  "bus_clear b = b\<lparr>bus_subscribers := []\<rparr>"

definition subscriber_count :: "ustr option \<Rightarrow> 'k event_bus \<Rightarrow> nat" where
  "subscriber_count event b =
     (case event of
        Some ev \<Rightarrow> if ev \<noteq> [] then length (entries_of ev b) else sum_list (map (length \<circ> snd) (bus_subscribers b))
      | None \<Rightarrow> sum_list (map (length \<circ> snd) (bus_subscribers b)))"

section \<open>Delivery\<close>

type_synonym ('s, 'k) handlers = "nat \<Rightarrow> 'k \<Rightarrow> 's \<times> 'k event_bus \<Rightarrow> unit res \<times> ('s \<times> 'k event_bus)"

text \<open>One subscriber. An exception of a handler is logged with the name of the handler; without a
  name the log call raises.\<close>

definition deliver_one ::
  "('s, 'k) handlers \<Rightarrow> (nat \<Rightarrow> bool) \<Rightarrow> 'k \<Rightarrow> subscription \<Rightarrow> 's \<times> 'k event_bus \<Rightarrow> unit res \<times> ('s \<times> 'k event_bus)" where
  "deliver_one H named kwargs e w =
     (if su_thread_safe e \<and> bus_root (snd w) then
        (Inr (), (fst w, (snd w)\<lparr>bus_pending := bus_pending (snd w) @ [(su_handler e, kwargs)]\<rparr>))
      else case H (su_handler e) kwargs w of
        (Inr _, w') \<Rightarrow> (Inr (), w')
      | (Inl _, w') \<Rightarrow> ((if named (su_handler e) then Inr () else Inl AttributeError), w'))"

fun deliver ::
  "('s, 'k) handlers \<Rightarrow> (nat \<Rightarrow> bool) \<Rightarrow> 'k \<Rightarrow> subscription list \<Rightarrow> 's \<times> 'k event_bus \<Rightarrow> unit res \<times> ('s \<times> 'k event_bus)" where
  "deliver H named kwargs [] w = (Inr (), w)"
| "deliver H named kwargs (e # es) w =
     and_then (deliver_one H named kwargs e w) (\<lambda>_ w'. deliver H named kwargs es w')"

definition publish ::
  "('s, 'k) handlers \<Rightarrow> (nat \<Rightarrow> bool) \<Rightarrow> ustr \<Rightarrow> 'k \<Rightarrow> 's \<times> 'k event_bus \<Rightarrow> unit res \<times> ('s \<times> 'k event_bus)" where
  "publish H named event kwargs w = deliver H named kwargs (entries_of event (snd w)) w"

section \<open>What holds for every sequence of operations\<close>

inductive bus_step :: "(nat \<Rightarrow> bool) \<Rightarrow> 'k event_bus \<Rightarrow> 'k event_bus \<Rightarrow> bool" for named where
  step_subscribe: "bus_step named b (snd (subscribe named event handler ts b))"
| step_unsubscribe: "bus_step named b (snd (unsubscribe named event handler b))"
| step_unsubscribe_all: "bus_step named b (unsubscribe_all handler b)"
| step_clear: "bus_step named b (bus_clear b)"
| step_set_root: "bus_step named b (set_root configured b)"
| step_pending: "bus_step named b (b\<lparr>bus_pending := p\<rparr>)"

definition bus_inv :: "'k event_bus \<Rightarrow> bool" where
  "bus_inv b \<longleftrightarrow> distinct (map fst (bus_subscribers b)) \<and>
     (\<forall>(event, es) \<in> set (bus_subscribers b). distinct (map su_handler es))"

lemma entries_distinct: "bus_inv b \<Longrightarrow> distinct (map su_handler (entries_of event b))"
  by (auto simp: bus_inv_def entries_of_def dest: map_of_SomeD split: option.splits)

lemma entries_put: "entries_of ev (put_entries event es b) = (if ev = event then es else entries_of ev b)"
  by (simp add: entries_of_def put_entries_def update_conv')

lemma put_entries_inv:
  assumes "bus_inv b" "distinct (map su_handler es)"
  shows "bus_inv (put_entries event es b)"
proof -
  have sub: "set (AList.update event es m) \<subseteq> insert (event, es) (set m)" for m :: "(ustr \<times> subscription list) list"
    by (induction m) auto
  have "distinct (map su_handler es')" if "(ev, es') \<in> set (AList.update event es (bus_subscribers b))" for ev es'
    using that sub [of "bus_subscribers b"] assms unfolding bus_inv_def by fastforce
  then show ?thesis using assms(1) by (auto simp: bus_inv_def put_entries_def distinct_update)
qed

lemma filter_handlers_distinct: "distinct (map su_handler es) \<Longrightarrow> distinct (map su_handler (filter P es))"
  by (rule distinct_map_filter)

lemma bus_step_inv: "bus_step named b b' \<Longrightarrow> bus_inv b \<Longrightarrow> bus_inv b'"
proof (induction rule: bus_step.induct)
  case (step_subscribe b event handler ts)
  then show ?case using entries_distinct [of b event]
    by (auto simp: subscribe_def intro!: put_entries_inv)
next
  case (step_unsubscribe b event handler)
  then show ?case
    by (auto simp: unsubscribe_def intro!: put_entries_inv filter_handlers_distinct entries_distinct)
next
  case (step_unsubscribe_all b handler)
  then show ?case
    by (auto simp: unsubscribe_all_def bus_inv_def comp_def split_beta intro!: filter_handlers_distinct)
qed (auto simp: bus_clear_def set_root_def bus_inv_def)

interpretation bus_machine: state_machine "\<lambda>b. b = new_event_bus" "bus_step named" bus_inv for named
proof (rule state_machine.intro)
  show "b = new_event_bus \<Longrightarrow> bus_inv b" for b :: "'a event_bus" by (simp add: new_event_bus_def bus_inv_def)
qed (rule bus_step_inv)

section \<open>What a delivery does\<close>

text \<open>The handlers of \<open>H\<close>, with a record of the calls.\<close>

definition logging :: "('s, 'k) handlers \<Rightarrow> (nat list \<times> 's, 'k) handlers" where
  "logging H h kwargs w =
     (case H h kwargs (snd (fst w), snd w) of (r, (s, b)) \<Rightarrow> (r, ((fst (fst w) @ [h], s), b)))"

text \<open>A handler leaves the main loop of the application alone and takes nothing out of its queue.\<close>

definition keeps_loop :: "('s, 'k) handlers \<Rightarrow> bool" where
  "keeps_loop H \<longleftrightarrow>
     (\<forall>h kwargs w. bus_root (snd (snd (H h kwargs w))) = bus_root (snd w) \<and>
        (\<exists>more. bus_pending (snd (snd (H h kwargs w))) = bus_pending (snd w) @ more))"

definition deferred :: "bool \<Rightarrow> subscription \<Rightarrow> bool" where
  "deferred rt e \<longleftrightarrow> su_thread_safe e \<and> rt"

lemma deliver_one_logs:
  assumes "keeps_loop H" "named (su_handler e)"
  shows "\<exists>s' b' more. deliver_one (logging H) named kwargs e ((l, s), b) =
      (Inr (), ((l @ (if deferred (bus_root b) e then [] else [su_handler e]), s'), b')) \<and>
    bus_root b' = bus_root b \<and> bus_pending b' = bus_pending b @ more \<and>
    (deferred (bus_root b) e \<longrightarrow> (su_handler e, kwargs) \<in> set more)"
proof (cases "deferred (bus_root b) e")
  case True
  then show ?thesis by (simp add: deliver_one_def deferred_def)
next
  case False
  obtain r s' b' where h: "H (su_handler e) kwargs (s, b) = (r, (s', b'))" by (metis prod.collapse)
  have "deliver_one (logging H) named kwargs e ((l, s), b) = (Inr (), ((l @ [su_handler e], s'), b'))"
    using False assms(2) by (cases r) (simp_all add: deliver_one_def deferred_def logging_def h)
  moreover have "bus_root b' = bus_root b \<and> (\<exists>more. bus_pending b' = bus_pending b @ more)"
    using assms(1) h unfolding keeps_loop_def by (metis snd_conv)
  ultimately show ?thesis using False by auto
qed

lemma deliver_logs:
  assumes "keeps_loop H" "\<And>e. e \<in> set es \<Longrightarrow> named (su_handler e)"
  shows "\<exists>s' b' more. deliver (logging H) named kwargs es ((l, s), b) =
      (Inr (), ((l @ map su_handler (filter (\<lambda>e. \<not> deferred (bus_root b) e) es), s'), b')) \<and>
    bus_root b' = bus_root b \<and> bus_pending b' = bus_pending b @ more \<and>
    (\<forall>e\<in>set es. deferred (bus_root b) e \<longrightarrow> (su_handler e, kwargs) \<in> set more)"
  using assms(2)
proof (induction es arbitrary: l s b)
  case (Cons e es)
  obtain s1 b1 m1 where 1: "deliver_one (logging H) named kwargs e ((l, s), b) =
      (Inr (), ((l @ (if deferred (bus_root b) e then [] else [su_handler e]), s1), b1))"
    "bus_root b1 = bus_root b" "bus_pending b1 = bus_pending b @ m1"
    "deferred (bus_root b) e \<longrightarrow> (su_handler e, kwargs) \<in> set m1"
    using deliver_one_logs [OF assms(1), of named e kwargs l s b] Cons.prems by auto
  obtain s2 b2 m2 where 2: "deliver (logging H) named kwargs es
      ((l @ (if deferred (bus_root b) e then [] else [su_handler e]), s1), b1) =
      (Inr (), (((l @ (if deferred (bus_root b) e then [] else [su_handler e])) @
         map su_handler (filter (\<lambda>e. \<not> deferred (bus_root b1) e) es), s2), b2))"
    "bus_root b2 = bus_root b1" "bus_pending b2 = bus_pending b1 @ m2"
    "\<forall>e\<in>set es. deferred (bus_root b1) e \<longrightarrow> (su_handler e, kwargs) \<in> set m2"
    using Cons.IH Cons.prems by (metis list.set_intros(2))
  have "bus_pending b2 = bus_pending b @ (m1 @ m2)" using 1(3) 2(3) by simp
  moreover have "\<forall>x\<in>set (e # es). deferred (bus_root b) x \<longrightarrow> (su_handler x, kwargs) \<in> set (m1 @ m2)"
    using 1(2,4) 2(4) by auto
  ultimately show ?case using 1(1,2) 2(1,2) by auto
qed simp

section \<open>Properties\<close>

text \<open>In every state the bus can reach a handler is subscribed to an event at most once, however often
  it subscribes.\<close>

theorem handlers_subscribed_once:
  assumes "reachable (\<lambda>b. b = new_event_bus) (bus_step named) b"
  shows "distinct (map su_handler (entries_of event b))"
  by (rule entries_distinct [OF bus_machine.reachable_invariant [OF assms]])

theorem handlers_subscribed_once_witness:
  "distinct (map su_handler (entries_of (ustr ''unlocked'')
     (snd (subscribe (\<lambda>_. True) (ustr ''unlocked'') 7 True (snd (subscribe (\<lambda>_. True) (ustr ''unlocked'') 7 False new_event_bus))))))"
  by (rule handlers_subscribed_once [of "\<lambda>_. True"]) (rule next_state, rule next_state, rule start, rule refl, rule step_subscribe, rule step_subscribe)


text \<open>A handler that raises and takes itself and the next one off the event, for the example.\<close>

definition rude :: "(unit, nat) handlers" where
  "rude h kwargs w = (Inl ValueError, (fst w, unsubscribe_all (h + 1) (unsubscribe_all h (snd w))))"

definition demo_bus :: "nat event_bus" where
  "demo_bus = snd (subscribe (\<lambda>_. True) (ustr ''locked'') 8 False (snd (subscribe (\<lambda>_. True) (ustr ''locked'') 7 False new_event_bus)))"


end
