(* ===== verification/Ntp.thy ===== *)
theory Ntp
  imports Enigma_Prelude
begin

text \<open>
  \<^verbatim>\<open>ntp_client.py\<close>: the reading of a response and the time several servers agree on. What the socket
  delivers is an argument, the response with the times before and after it or the exception;
  times are rationals, so that the rounding of floating-point numbers is not modelled. \<open>median\<close>
  and \<open>mean\<close> are those of the module \<^verbatim>\<open>statistics\<close>.
\<close>

definition NTP_DELTA :: int where "NTP_DELTA = 2208988800"
definition MAX_SERVERS_TO_TRY :: nat where "MAX_SERVERS_TO_TRY = 5"

definition NTP_SERVERS :: "string list" where
  "NTP_SERVERS =
     [''time.cloudflare.com'', ''0.pool.ntp.org'', ''1.pool.ntp.org'', ''2.pool.ntp.org'', ''3.pool.ntp.org'',
      ''time.nist.gov'', ''ntp.ubuntu.com'', ''ntp.day.ir'', ''time.google.com'']"

section \<open>One server\<close>

text \<open>\<^verbatim>\<open>struct.unpack("!12I", data)\<close> needs exactly 48 bytes; words 10 and 11 are the seconds since
  1900 and the fraction of the time of transmission.\<close>

definition query_one :: "(bytes \<times> rat \<times> rat) res \<Rightarrow> rat res" where
  "query_one reply =
     (case reply of Inl e \<Rightarrow> Inl e
      | Inr (data, t_before, t_after) \<Rightarrow>
          if length data < 48 then Inl ValueError
          else if length data \<noteq> 48 then Inl StructError
          else let t = int (be_val (slice 40 44 data)); frac = int (be_val (slice 44 48 data));
                   server_time = of_int (t - NTP_DELTA) + of_int frac / 2 ^ 32; rtt = t_after - t_before
               in Inr (server_time + rtt / 2))"

section \<open>Several servers\<close>

definition median :: "rat list \<Rightarrow> rat" where
  "median xs =
     (let s = sort xs; n = length s in
      if odd n then s ! (n div 2) else (s ! (n div 2 - 1) + s ! (n div 2)) / 2)"

definition mean :: "rat list \<Rightarrow> rat" where
  "mean xs = sum_list xs / of_nat (length xs)"

definition consensus :: "rat list \<Rightarrow> rat" where
  "consensus timestamps =
     (if length timestamps = 1 then hd timestamps
      else let median_time = median timestamps;
               filtered = filter (\<lambda>t. \<bar>t - median_time\<bar> < 1 / 2) timestamps
           in if filtered \<noteq> [] then mean filtered else median_time)"

text \<open>Every exception of a server is caught. A single server that was asked for gets no consensus.\<close>

definition ntp_results :: "(string \<Rightarrow> (bytes \<times> rat \<times> rat) res) \<Rightarrow> string list \<Rightarrow> rat list" where
  "ntp_results net servers = List.map_filter (\<lambda>srv. case query_one (net srv) of Inr t \<Rightarrow> Some t | Inl _ \<Rightarrow> None) servers"

definition get_ntp_time :: "(string \<Rightarrow> (bytes \<times> rat \<times> rat) res) \<Rightarrow> string option \<Rightarrow> rat option" where
  "get_ntp_time net server =
     (case server of
        Some s \<Rightarrow> (case query_one (net s) of Inr t \<Rightarrow> Some t | Inl _ \<Rightarrow> None)
      | None \<Rightarrow>
          (let results = ntp_results net (take MAX_SERVERS_TO_TRY NTP_SERVERS)
           in if results = [] then None else Some (consensus results)))"

section \<open>A majority keeps the time\<close>

lemma sorted_count_below:
  fixes xs :: "rat list"
  assumes "sorted xs" "i < length xs" "xs ! i < lo"
  shows "i < length (filter (\<lambda>x. x < lo) xs)"
proof -
  have "xs ! j < lo" if "j \<le> i" for j
    using sorted_nth_mono [OF assms(1) that assms(2)] assms(3) by simp
  then have "\<forall>x\<in>set (take (Suc i) xs). x < lo"
    using assms(2) by (auto simp: in_set_conv_nth less_Suc_eq_le)
  then have "filter (\<lambda>x. x < lo) (take (Suc i) xs) = take (Suc i) xs" by (simp add: filter_id_conv)
  moreover have "length (filter (\<lambda>x. x < lo) (take (Suc i) xs)) \<le> length (filter (\<lambda>x. x < lo) xs)"
    by (metis append_take_drop_id filter_append le_add1 length_append)
  ultimately show ?thesis using assms(2) by simp
qed

lemma sorted_count_above:
  fixes xs :: "rat list"
  assumes "sorted xs" "i < length xs" "hi < xs ! i"
  shows "length xs - i \<le> length (filter (\<lambda>x. hi < x) xs)"
proof -
  have "\<forall>x\<in>set (drop i xs). hi < x"
  proof
    fix x
    assume "x \<in> set (drop i xs)"
    then obtain j where "j < length xs - i" "x = xs ! (i + j)" by (auto simp: in_set_conv_nth)
    moreover from this have "xs ! i \<le> xs ! (i + j)" by (intro sorted_nth_mono [OF assms(1)]) linarith+
    ultimately show "hi < x" using assms(3) by simp
  qed
  then have "filter (\<lambda>x. hi < x) (drop i xs) = drop i xs" by (simp add: filter_id_conv)
  moreover have "length (filter (\<lambda>x. hi < x) (drop i xs)) \<le> length (filter (\<lambda>x. hi < x) xs)"
    by (metis append_take_drop_id filter_append le_add2 length_append)
  ultimately show ?thesis by simp
qed

lemma filter_sort_length: "length (filter P (sort xs)) = length (filter P xs)" for xs :: "rat list"
  by (simp add: filter_sort)

lemma count_split:
  fixes lo hi :: rat
  assumes "lo \<le> hi"
  shows "length (filter (\<lambda>x. x < lo) xs) + length (filter (\<lambda>x. lo \<le> x \<and> x \<le> hi) xs) + length (filter (\<lambda>x. hi < x) xs) = length xs"
  using assms by (induction xs) auto

text \<open>The middle elements lie where more than half of the elements do.\<close>

lemma middle_in_majority:
  fixes xs :: "rat list"
  assumes "lo \<le> hi" "length xs < 2 * length (filter (\<lambda>x. lo \<le> x \<and> x \<le> hi) xs)"
    and "i < length xs" "length xs \<le> 2 * i + 2" "2 * i \<le> length xs"
  shows "lo \<le> sort xs ! i" "sort xs ! i \<le> hi"
proof -
  note split = count_split [OF assms(1), of xs]
  show "lo \<le> sort xs ! i"
  proof (rule ccontr)
    assume "\<not> lo \<le> sort xs ! i"
    then have "i < length (filter (\<lambda>x. x < lo) xs)"
      using sorted_count_below [of "sort xs" i lo] assms(3) by (simp add: filter_sort_length)
    then show False using split assms(2,4) by linarith
  qed
  show "sort xs ! i \<le> hi"
  proof (rule ccontr)
    assume "\<not> sort xs ! i \<le> hi"
    then have "length xs - i \<le> length (filter (\<lambda>x. hi < x) xs)"
      using sorted_count_above [of "sort xs" i hi] assms(3) by (simp add: filter_sort_length)
    then show False using split assms(2,3,5) by linarith
  qed
qed

lemma median_in_majority:
  fixes xs :: "rat list"
  assumes "lo \<le> hi" "length xs < 2 * length (filter (\<lambda>x. lo \<le> x \<and> x \<le> hi) xs)"
  shows "lo \<le> median xs" "median xs \<le> hi"
proof -
  have ne: "xs \<noteq> []" using assms(2) by auto
  then have n: "0 < length xs" by simp
  have "lo \<le> median xs \<and> median xs \<le> hi"
  proof (cases "odd (length xs)")
    case True
    then have "length xs = 2 * (length xs div 2) + 1" by simp
    then have "lo \<le> sort xs ! (length xs div 2)" "sort xs ! (length xs div 2) \<le> hi"
      by (intro middle_in_majority [OF assms]; linarith)+
    with True show ?thesis by (simp add: median_def Let_def)
  next
    case False
    then have m: "length xs = 2 * (length xs div 2)" by simp
    then have "lo \<le> sort xs ! (length xs div 2)" "sort xs ! (length xs div 2) \<le> hi"
      "lo \<le> sort xs ! (length xs div 2 - 1)" "sort xs ! (length xs div 2 - 1) \<le> hi"
      using n by (intro middle_in_majority [OF assms]; linarith)+
    with False show ?thesis by (simp add: median_def Let_def)
  qed
  then show "lo \<le> median xs" "median xs \<le> hi" by simp_all
qed

lemma mean_between:
  assumes "xs \<noteq> []" "\<And>x. x \<in> set xs \<Longrightarrow> lo \<le> x \<and> x \<le> hi"
  shows "lo \<le> mean xs" "mean xs \<le> hi"
proof -
  have "of_nat (length ys) * lo \<le> sum_list ys \<and> sum_list ys \<le> of_nat (length ys) * hi"
    if "set ys \<subseteq> set xs" for ys :: "rat list"
    using that assms(2) by (induction ys) (force simp: algebra_simps)+
  from this [of xs] show "lo \<le> mean xs" "mean xs \<le> hi"
    using assms(1) by (simp_all add: mean_def pos_le_divide_eq pos_divide_le_eq mult.commute)
qed

section \<open>Properties\<close>

text \<open>C28. Less than half of the servers cannot move the clock: when more than half of those that answered
  agree on an interval, the time that is returned is at most half a second outside of it,
  whatever the others answered.\<close>

theorem majority_keeps_time:
  assumes "get_ntp_time net None = Some t" "lo \<le> hi"
    and "length (ntp_results net (take MAX_SERVERS_TO_TRY NTP_SERVERS)) <
      2 * length (filter (\<lambda>x. lo \<le> x \<and> x \<le> hi) (ntp_results net (take MAX_SERVERS_TO_TRY NTP_SERVERS)))"
  shows "lo - 1 / 2 \<le> t \<and> t \<le> hi + 1 / 2"
proof -
  let ?ts = "ntp_results net (take MAX_SERVERS_TO_TRY NTP_SERVERS)"
  have t: "t = consensus ?ts" and ne: "?ts \<noteq> []"
    using assms(1) by (auto simp: get_ntp_time_def Let_def split: if_splits)
  note m = median_in_majority [OF assms(2,3)]
  have near: "lo - 1 / 2 \<le> x \<and> x \<le> hi + 1 / 2" if "\<bar>x - c\<bar> < 1 / 2" "lo \<le> c" "c \<le> hi" for x c :: rat
    using that by linarith
  show ?thesis
  proof (cases "length ?ts = 1")
    case True
    then obtain x where x: "?ts = [x]" by (auto simp: length_Suc_conv)
    with assms(3) have "lo \<le> x \<and> x \<le> hi" by (simp split: if_splits)
    then show ?thesis by (simp add: t x consensus_def)
  next
    case False
    let ?f = "filter (\<lambda>t. \<bar>t - median ?ts\<bar> < 1 / 2) ?ts"
    show ?thesis
    proof (cases "?f = []")
      case True
      then have "t = median ?ts" using False by (simp add: t consensus_def Let_def)
      with m show ?thesis by simp
    next
      case nonempty: False
      have "t = mean ?f" using False nonempty by (simp add: t consensus_def Let_def del: filter_empty_conv)
      moreover have "lo - 1 / 2 \<le> x \<and> x \<le> hi + 1 / 2" if "x \<in> set ?f" for x
        by (rule near) (use that m in auto)
      ultimately show ?thesis using mean_between [OF nonempty, of "lo - 1 / 2" "hi + 1 / 2"] by simp
    qed
  qed
qed

text \<open>Two servers that agree and one that is eighteen hours ahead, for the example.\<close>

definition demo_net :: "string \<Rightarrow> (bytes \<times> rat \<times> rat) res" where
  "demo_net srv =
     (if srv = ''time.cloudflare.com'' then Inr (replicate 40 0 @ [0, 1, 0, 0] @ replicate 4 0, 0, 0)
      else if srv = ''0.pool.ntp.org'' \<or> srv = ''1.pool.ntp.org'' then Inr (replicate 48 0, 0, 0)
      else Inl OSErr)"

lemma demo_results:
  "ntp_results demo_net (take MAX_SERVERS_TO_TRY NTP_SERVERS) = [65536 - of_int NTP_DELTA, - of_int NTP_DELTA, - of_int NTP_DELTA]"
proof -
  have "take MAX_SERVERS_TO_TRY NTP_SERVERS =
      [''time.cloudflare.com'', ''0.pool.ntp.org'', ''1.pool.ntp.org'', ''2.pool.ntp.org'', ''3.pool.ntp.org'']"
    by (simp add: MAX_SERVERS_TO_TRY_def NTP_SERVERS_def)
  moreover have "slice 40 44 (replicate 40 0 @ [0, 1, 0, 0] @ replicate 4 0 :: bytes) = [0, 1, 0, 0]"
    "slice 44 48 (replicate 40 0 @ [0, 1, 0, 0] @ replicate 4 0 :: bytes) = replicate 4 0"
    "slice 40 44 (replicate 48 0 :: bytes) = replicate 4 0" "slice 44 48 (replicate 48 0 :: bytes) = replicate 4 0"
    by (simp_all add: slice_def)
  moreover have "replicate 4 (0 :: byte) = [0, 0, 0, 0]" by (simp add: numeral_eq_Suc)
  then have "be_val [0, 1, 0, 0] = 65536" "be_val (replicate 4 0) = 0" by (simp_all add: be_val_def)
  moreover have "query_one (Inr (replicate 40 0 @ [0, 1, 0, 0] @ replicate 4 0, 0, 0)) = Inr (65536 - of_int NTP_DELTA)"
    "query_one (Inr (replicate 48 0, 0, 0)) = Inr (- of_int NTP_DELTA)"
    using calculation by (simp_all only: query_one_def sum.case prod.case Let_def) simp_all
  ultimately show ?thesis
    by (simp add: ntp_results_def List.map_filter_def demo_net_def query_one_def [of "Inl _"])
qed

theorem majority_keeps_time_witness:
  "\<exists>t. get_ntp_time demo_net None = Some t \<and> \<bar>t + of_int NTP_DELTA\<bar> \<le> 1 / 2"
proof -
  obtain t where t: "get_ntp_time demo_net None = Some t" by (simp add: get_ntp_time_def Let_def demo_results)
  have "- of_int NTP_DELTA - 1 / 2 \<le> t \<and> t \<le> - of_int NTP_DELTA + 1 / 2"
    by (rule majority_keeps_time [OF t]) (simp_all add: demo_results)
  then have "\<bar>t + of_int NTP_DELTA\<bar> \<le> 1 / 2" by linarith
  with t show ?thesis by blast
qed

end
