(* ===== verification/Auth_Controller.thy ===== *)
theory Auth_Controller
  imports Totp Session Password_Change
begin

text \<open>
  \<^verbatim>\<open>controllers/auth_controller.py\<close>, with the creation of an account in
  \<^verbatim>\<open>src/key_generation.py\<close>. The dialogs are what is entered in them (\<open>None\<close> or the empty password:
  cancelled); \<^verbatim>\<open>PasswordHasher\<close> of \<^verbatim>\<open>argon2\<close> is a parameter. Messages, logging, the event of the
  duress mode and the wiping of local passwords change nothing here.
\<close>

section \<open>The first keys\<close>

record gen_rnd =
  gr_priv :: bytes
  gr_global :: bytes
  gr_hybrid :: "hybrid_keys res"
  gr_salts :: "nat \<Rightarrow> bytes \<times> bytes"

text \<open>\<^verbatim>\<open>INSERT INTO settings\<close>: a key that is there already is an integrity error.\<close>

definition insert_setting :: "string \<Rightarrow> setting \<Rightarrow> db \<Rightarrow> db res" where
  "insert_setting key v d =
     (if get_setting (ustr key) d = None then Inr (put_setting (ustr key) v d) else Inl SqliteError)"

definition create_account_keys :: "key_env \<Rightarrow> gen_rnd \<Rightarrow> bytes \<Rightarrow> db \<Rightarrow> db res" where
  "create_account_keys E rnd password d =
     (case privkey_to_encrypted_pem E (gr_priv rnd) password of Inl e \<Rightarrow> Inl e | Inr pem \<Rightarrow>
      case insert_setting ''public_key'' (Text (pubkey_to_pem E (public_key E (gr_priv rnd)))) d of Inl e \<Rightarrow> Inl e | Inr d1 \<Rightarrow>
      case insert_setting ''private_key_encrypted'' (Text pem) d1 of Inl e \<Rightarrow> Inl e | Inr d2 \<Rightarrow>
      case encrypt_secret (ke_db E) (fst (gr_salts rnd 0)) (snd (gr_salts rnd 0)) (gr_global rnd) password of Inl e \<Rightarrow> Inl e
      | Inr enc \<Rightarrow> insert_setting ''global_secret'' (Secret enc) d2)"

definition create_hybrid_keys :: "key_env \<Rightarrow> gen_rnd \<Rightarrow> bytes \<Rightarrow> db \<Rightarrow> db res" where
  "create_hybrid_keys E rnd password d =
     (let enc = (\<lambda>i b. encrypt_secret (ke_db E) (fst (gr_salts rnd i)) (snd (gr_salts rnd i)) b password) in
      case gr_hybrid rnd of Inl e \<Rightarrow> Inl e | Inr hk \<Rightarrow>
      case enc 1 (hk_ed_priv hk) of Inl e \<Rightarrow> Inl e | Inr ed \<Rightarrow>
      case enc 2 (hk_dil_priv hk) of Inl e \<Rightarrow> Inl e | Inr dil \<Rightarrow>
        Inr (put_setting (ustr ''hybrid_sig_combined_pub_b64'') (Text (b64encode (hk_combined_pub hk)))
              (put_setting (ustr ''dilithium_priv_encrypted'') (Secret dil)
                (put_setting (ustr ''ed25519_priv_encrypted'') (Secret ed) d))))"

text \<open>Each of the two blocks is a transaction: what it raises leaves the database as it was before it.
  The second catches value, type and SQLite errors. The result tells whether keys were generated.\<close>

definition key_init_db :: "key_env \<Rightarrow> gen_rnd \<Rightarrow> bytes \<Rightarrow> db \<Rightarrow> bool res \<times> db" where
  "key_init_db E rnd password d =
     (let new_keys = (get_setting (ustr ''private_key_encrypted'') d = None) in
      case (if new_keys then create_account_keys E rnd password d else Inr d) of
        Inl e \<Rightarrow> (Inl e, d)
      | Inr d1 \<Rightarrow>
          if hybrid_sig_available E \<and> get_setting (ustr ''hybrid_sig_combined_pub_b64'') d1 = None then
            (case create_hybrid_keys E rnd password d1 of
               Inr d2 \<Rightarrow> (Inr new_keys, d2)
             | Inl e \<Rightarrow> if caught e \<or> e = SqliteError then (Inr new_keys, d1) else (Inl e, d1))
          else (Inr new_keys, d1))"

section \<open>The controller\<close>

text \<open>\<open>ph_verify\<close> is \<open>Inr False\<close> for \<^verbatim>\<open>VerifyMismatchError\<close> and an error for what else it raises.\<close>

record hasher =
  ph_hash :: "bytes \<Rightarrow> bytes \<Rightarrow> ustr res"
  ph_verify :: "ustr \<Rightarrow> bytes \<Rightarrow> bool res"

record auth_env =
  ae_keys :: key_env
  ae_hasher :: hasher
  ae_digit :: "nat \<Rightarrow> bool"

text \<open>The time and the random values of one attempt.\<close>

record attempt_rnd =
  at_now :: rat
  at_load :: load_rnd
  at_salt :: bytes
  at_decoy :: bytes
  at_token :: bytes
  at_secret :: bytes
  at_wrap :: "bytes \<times> bytes"
  at_test1 :: rat
  at_test2 :: rat

text \<open>The account of the active key store, the TOTP service, the hash of the master password and the
  master password of \<^verbatim>\<open>database.py\<close>.\<close>

record controller =
  ct_account :: account
  ct_totp :: totp
  ct_hash :: "ustr option"
  ct_master :: "bytes option"

definition DURESS_PLACEHOLDER :: bytes where
  "DURESS_PLACEHOLDER = map of_nat (ustr ''duress_placeholder'')"

definition ct_db :: "controller \<Rightarrow> db" where "ct_db c = ac_db (ct_account c)"

definition set_ct_db :: "db \<Rightarrow> controller \<Rightarrow> controller" where
  "set_ct_db d c = c\<lparr>ct_account := (ct_account c)\<lparr>ac_db := d\<rparr>\<rparr>"

definition set_ct_keys :: "key_store \<times> db \<Rightarrow> controller \<Rightarrow> controller" where
  "set_ct_keys s c = c\<lparr>ct_account := (ct_account c)\<lparr>ac_keys := fst s, ac_db := snd s\<rparr>\<rparr>"

text \<open>\<^verbatim>\<open>KeyStore()\<close> reads the lockout state from the database; \<^verbatim>\<open>set_key_store\<close> installs one.\<close>

type_synonym opened = "lockout \<times> key_store \<times> totp"

definition set_key_store :: "lockout \<times> key_store \<Rightarrow> controller \<Rightarrow> controller" where
  "set_key_store s c = c\<lparr>ct_account := (ct_account c)\<lparr>ac_lockout := fst s, ac_keys := snd s\<rparr>\<rparr>"

definition set_master_hash :: "auth_env \<Rightarrow> bytes \<Rightarrow> bytes \<Rightarrow> controller \<Rightarrow> unit res \<times> controller" where
  "set_master_hash A salt pw c =
     (case ph_hash (ae_hasher A) salt pw of Inl e \<Rightarrow> (Inl e, c) | Inr h \<Rightarrow> (Inr (), c\<lparr>ct_hash := Some h\<rparr>))"

text \<open>\<^verbatim>\<open>auth_manager.verify_password\<close> on the active key store: valid, duress.\<close>

definition manager_verify :: "auth_env \<Rightarrow> rat \<Rightarrow> bytes \<Rightarrow> account \<Rightarrow> (bool \<times> bool) \<times> account" where
  "manager_verify A now pw s =
     (case manager_verify_password (ke_db (ae_keys A)) True now pw
             \<lparr>au_lockout = ac_lockout s, au_duress_mode = duress_mode (ac_keys s), au_db = ac_db s\<rparr> of
        (r, _, a) \<Rightarrow> (r, \<lparr>ac_lockout = au_lockout a, ac_keys = (ac_keys s)\<lparr>duress_mode := au_duress_mode a\<rparr>, ac_db = au_db a\<rparr>))"

definition enter_duress_mode :: "auth_env \<Rightarrow> attempt_rnd \<Rightarrow> bytes \<Rightarrow> controller \<Rightarrow> unit res \<times> controller" where
  "enter_duress_mode A rnd pw c =
     (case load_duress_decoy (ae_keys A) (at_decoy rnd) (at_token rnd) (Some pw) (ac_keys (ct_account c), ct_db c) of
        (_, s) \<Rightarrow>
          (case set_master_hash A (at_salt rnd) DURESS_PLACEHOLDER (set_ct_keys s c) of
             (Inl e, c1) \<Rightarrow> (Inl e, c1)
           | (Inr _, c1) \<Rightarrow> (Inr (), c1\<lparr>ct_totp := clear_secret (ct_totp c1)\<rparr>)))"

definition wipe_sensitive_data :: "controller \<Rightarrow> controller" where
  "wipe_sensitive_data c =
     c\<lparr>ct_totp := clear_secret (ct_totp c),
       ct_account := (ct_account c)\<lparr>ac_keys := ks_wipe (ac_keys (ct_account c))\<rparr>\<rparr>"

section \<open>Start-up\<close>

text \<open>What follows a successful load: the hash and TOTP.\<close>

definition after_load :: "auth_env \<Rightarrow> attempt_rnd \<Rightarrow> bytes \<Rightarrow> controller \<Rightarrow> bool res \<times> controller" where
  "after_load A rnd pw c =
     (case set_master_hash A (at_salt rnd) pw c of (Inl e, c1) \<Rightarrow> (Inl e, c1)
      | (Inr _, c1) \<Rightarrow>
        (case init_totp (ae_digit A) (ke_db (ae_keys A)) (at_test1 rnd) (at_test2 rnd) (at_wrap rnd) (at_secret rnd) (Some pw)
                (global_secret (ac_keys (ct_account c1))) (ct_totp c1, ct_db c1) of
           (r, (t, d)) \<Rightarrow> (case r of Inl e \<Rightarrow> Inl e | Inr _ \<Rightarrow> Inr True, set_ct_db d (c1\<lparr>ct_totp := t\<rparr>))))"

definition load_into :: "auth_env \<Rightarrow> attempt_rnd \<Rightarrow> bytes \<Rightarrow> controller \<Rightarrow> bool res \<times> controller" where
  "load_into A rnd pw c =
     (case load (ae_keys A) (at_load rnd) pw (at_now rnd) (ac_keys (ct_account c), ct_db c) of
        (Inr True, s) \<Rightarrow> after_load A rnd pw (set_ct_keys s c)
      | (r, s) \<Rightarrow> (r, set_ct_keys s c))"

definition first_run_setup ::
  "auth_env \<Rightarrow> gen_rnd \<Rightarrow> attempt_rnd \<Rightarrow> bytes option \<Rightarrow> controller \<Rightarrow> bool res \<times> controller" where
  "first_run_setup A gen rnd pw c =
     (if \<not> given pw then (Inr False, c)
      else case key_init_db (ae_keys A) gen (the pw) (ct_db c) of
             (Inl e, d) \<Rightarrow> (Inl e, set_ct_db d c)
           | (Inr _, d) \<Rightarrow> load_into A rnd (the pw) (set_ct_db d c))"

text \<open>The recovery: the dialog hands over a new password, or not. The hash is the last thing set, and
  what it raises is caught after the success has been noted.\<close>

definition request_recovery_unlock ::
  "auth_env \<Rightarrow> reset_rnd \<Rightarrow> bytes \<Rightarrow> ustr option \<Rightarrow> controller \<Rightarrow> opened option \<times> controller" where
  "request_recovery_unlock A rnd salt new_password c =
     (case new_password of None \<Rightarrow> (None, c)
      | Some text \<Rightarrow>
        (case utf8_encode text of Inl _ \<Rightarrow> (None, c)
         | Inr pw \<Rightarrow>
           (case reset_with_recovery_key (ae_keys A) rnd pw ((new_key_store, ct_db c), ct_master c) of
              (r, ((k, d), m)) \<Rightarrow>
                let c1 = set_ct_db d (c\<lparr>ct_master := m\<rparr>) in
                if \<not> is_ok r then (None, c1)
                else (Some (load_state True (ct_db c), k, new_totp), snd (set_master_hash A salt pw c1)))))"

datatype login_entry =
    Password "bytes option" attempt_rnd
  | Recover "ustr option" reset_rnd bytes

text \<open>The three attempts.\<close>

fun login_loop :: "auth_env \<Rightarrow> nat \<Rightarrow> login_entry list \<Rightarrow> controller \<Rightarrow> bool res \<times> controller" where
  "login_loop A 0 es c = (Inr False, c)"
| "login_loop A (Suc n) [] c = (Inr False, c)"
| "login_loop A (Suc n) (Recover new_password rnd salt # es) c =
     (case request_recovery_unlock A rnd salt new_password c of
        (Some (l, k, t), c1) \<Rightarrow> (Inr True, set_key_store (l, k) c1\<lparr>ct_totp := t\<rparr>)
      | (None, c1) \<Rightarrow> login_loop A n es c1)"
| "login_loop A (Suc n) (Password pw rnd # es) c =
     (if \<not> given pw then (Inr False, c)
      else case manager_verify A (at_now rnd) (the pw) (ct_account c) of
        ((valid, duress), acc) \<Rightarrow>
          if \<not> valid then login_loop A n es (c\<lparr>ct_account := acc\<rparr>)
          else if duress then
            (case enter_duress_mode A rnd (the pw) (c\<lparr>ct_account := acc\<rparr>) of
               (Inl e, c1) \<Rightarrow> (Inl e, c1) | (Inr _, c1) \<Rightarrow> (Inr True, c1))
          else load_into A rnd (the pw) (c\<lparr>ct_account := acc\<rparr>))"

definition existing_user_login :: "auth_env \<Rightarrow> login_entry list \<Rightarrow> controller \<Rightarrow> bool res \<times> controller" where
  "existing_user_login A es c = login_loop A 3 es c"

definition load_keys ::
  "auth_env \<Rightarrow> gen_rnd \<Rightarrow> attempt_rnd \<Rightarrow> bool \<Rightarrow> bytes option \<Rightarrow> login_entry list \<Rightarrow> controller \<Rightarrow> bool res \<times> controller" where
  "load_keys A gen rnd is_first_run pw es c =
     (if is_first_run then first_run_setup A gen rnd pw c else existing_user_login A es c)"

section \<open>Unlocking\<close>

text \<open>The verification is done by a new key store: its lockout state is read from the database and only
  what it writes there remains.\<close>

definition recover_password_hash :: "auth_env \<Rightarrow> attempt_rnd \<Rightarrow> bytes option \<Rightarrow> controller \<Rightarrow> bool res \<times> controller" where
  "recover_password_hash A rnd pw c =
     (if \<not> given pw then (Inr False, c)
      else case ks_verify_password (ae_keys A) (at_now rnd) (the pw)
                  \<lparr>ac_lockout = load_state True (ct_db c), ac_keys = new_key_store, ac_db = ct_db c\<rparr> of
        (Inl e, temp) \<Rightarrow> (Inl e, set_ct_db (ac_db temp) c)
      | (Inr False, temp) \<Rightarrow> (Inr False, set_ct_db (ac_db temp) c)
      | (Inr True, temp) \<Rightarrow>
          (case load (ae_keys A) (at_load rnd) (the pw) (at_now rnd) (ac_keys temp, ac_db temp) of
             (Inl e, (k, d)) \<Rightarrow> (Inl e, set_ct_db d c)
           | (Inr False, (k, d)) \<Rightarrow> (Inr False, set_ct_db d c)
           | (Inr True, (k, d)) \<Rightarrow>
               (case set_master_hash A (at_salt rnd) (the pw) (set_ct_db d c) of
                  (Inl e, c1) \<Rightarrow> (Inl e, c1) | (Inr _, c1) \<Rightarrow> (Inr True, c1))))"

text \<open>The branches after the password has been entered: the hash does not match, or it matches and the
  keys and TOTP follow.\<close>

definition unlock_mismatch :: "auth_env \<Rightarrow> attempt_rnd \<Rightarrow> bytes \<Rightarrow> controller \<Rightarrow> opened option res \<times> controller" where
  "unlock_mismatch A rnd pw c =
     (case manager_verify A (at_now rnd) pw (ct_account c) of
        ((valid, duress), acc) \<Rightarrow>
          if valid \<and> duress then
            (case load_duress_decoy (ae_keys A) (at_decoy rnd) (at_token rnd) (Some pw) (new_key_store, ac_db acc) of
               (_, (k, d)) \<Rightarrow>
                 (case set_master_hash A (at_salt rnd) DURESS_PLACEHOLDER (set_ct_db d (c\<lparr>ct_account := acc\<rparr>)) of
                    (Inl e, c1) \<Rightarrow> (Inl e, c1)
                  | (Inr _, c1) \<Rightarrow> (Inr (Some (load_state True (ac_db acc), k, new_totp)), c1)))
          else (Inr None, c\<lparr>ct_account := acc\<rparr>))"

definition unlock_match ::
  "auth_env \<Rightarrow> attempt_rnd \<Rightarrow> bytes \<Rightarrow> (ustr \<times> rat) list \<Rightarrow> controller \<Rightarrow> opened option res \<times> controller" where
  "unlock_match A rnd pw codes c =
     (case load (ae_keys A) (at_load rnd) pw (at_now rnd) (new_key_store, ct_db c) of
        (Inl e, (k, d)) \<Rightarrow> (Inl e, set_ct_db d c)
      | (Inr False, (k, d)) \<Rightarrow> (Inr None, set_ct_db d c)
      | (Inr True, (k, d)) \<Rightarrow>
          (case unlock_totp (ae_digit A) (ke_db (ae_keys A)) (at_test1 rnd) (at_test2 rnd) pw (global_secret k) codes d of
             (Inl e, d1) \<Rightarrow> (Inl e, set_ct_db d1 c)
           | (Inr None, d1) \<Rightarrow> (Inr None, set_ct_db d1 c)
           | (Inr (Some t), d1) \<Rightarrow> (Inr (Some (load_state True (ct_db c), k, t)), set_ct_db d1 c)))"

definition unlock_with ::
  "auth_env \<Rightarrow> attempt_rnd \<Rightarrow> bytes option \<Rightarrow> (ustr \<times> rat) list \<Rightarrow> controller \<Rightarrow> opened option res \<times> controller" where
  "unlock_with A rnd pw codes c =
     (if \<not> given pw then (Inr None, c)
      else case (case ct_hash c of None \<Rightarrow> Inl TypeError | Some h \<Rightarrow> ph_verify (ae_hasher A) h (the pw)) of
        Inl _ \<Rightarrow> (Inr None, c)
      | Inr False \<Rightarrow> unlock_mismatch A rnd (the pw) c
      | Inr True \<Rightarrow> unlock_match A rnd (the pw) codes c)"

definition request_unlock ::
  "auth_env \<Rightarrow> attempt_rnd \<times> bytes option \<Rightarrow> attempt_rnd \<Rightarrow> bytes option \<Rightarrow> (ustr \<times> rat) list \<Rightarrow> controller \<Rightarrow>
   opened option res \<times> controller" where
  "request_unlock A first rnd pw codes c =
     (case (if ct_hash c = None then recover_password_hash A (fst first) (snd first) c else (Inr True, c)) of
        (Inl e, c1) \<Rightarrow> (Inl e, c1)
      | (Inr False, c1) \<Rightarrow> (Inr None, c1)
      | (Inr True, c1) \<Rightarrow> unlock_with A rnd pw codes c1)"

section \<open>Passwords\<close>

definition controller_change_password ::
  "auth_env \<Rightarrow> attempt_rnd \<Rightarrow> change_rnd \<Rightarrow> bytes option \<Rightarrow> bytes option \<Rightarrow> controller \<Rightarrow> bool res \<times> controller" where
  "controller_change_password A rnd change old_pw new_pw c =
     (if \<not> given old_pw then (Inr False, c)
      else case manager_verify A (at_now rnd) (the old_pw) (ct_account c) of
        ((valid, duress), acc) \<Rightarrow>
          (let c1 = c\<lparr>ct_account := acc\<rparr> in
           if \<not> valid \<or> duress \<or> \<not> given new_pw \<or> the old_pw = the new_pw then (Inr False, c1)
           else case change_password (ae_keys A) change (the old_pw) (the new_pw) (ac_keys acc, ac_db acc) of
                  (Inl e, s) \<Rightarrow> (Inl e, set_ct_keys s c1)
                | (Inr False, s) \<Rightarrow> (Inr False, set_ct_keys s c1)
                | (Inr True, s) \<Rightarrow>
                    (case set_master_hash A (at_salt rnd) (the new_pw) (set_ct_keys s c1) of
                       (Inl e, c2) \<Rightarrow> (Inl e, c2)
                     | (Inr _, c2) \<Rightarrow>
                         (Inr True, set_ct_db (repersist_totp (ke_db (ae_keys A)) (at_wrap rnd) (the new_pw)
                            (global_secret (ac_keys (ct_account c2))) (ct_totp c2, ct_db c2)) c2))))"

definition controller_set_duress ::
  "auth_env \<Rightarrow> attempt_rnd \<Rightarrow> bytes \<times> bytes \<times> bytes \<Rightarrow> bytes option \<Rightarrow> bytes option \<Rightarrow> controller \<Rightarrow> bool res \<times> controller" where
  "controller_set_duress A rnd dummy master_pw duress_pw c =
     (if \<not> given master_pw then (Inr False, c)
      else case manager_verify A (at_now rnd) (the master_pw) (ct_account c) of
        ((valid, duress), acc) \<Rightarrow>
          (let c1 = c\<lparr>ct_account := acc\<rparr> in
           if \<not> valid \<or> duress \<or> \<not> given duress_pw \<or> the duress_pw = the master_pw then (Inr False, c1)
           else case set_duress_password (ae_keys A) dummy (at_decoy rnd) (the duress_pw) (ac_keys acc, ac_db acc) of
                  (Inl e, s) \<Rightarrow> (Inr False, set_ct_keys s c1) | (Inr _, s) \<Rightarrow> (Inr True, set_ct_keys s c1)))"

end
