(* ===== verification/Password_Entry.thy ===== *)
theory Password_Entry
  imports Text_Codec
begin

text \<open>
  How passwords come in: the strength check of \<^verbatim>\<open>views/utils.py\<close>, the dialog of
  \<^verbatim>\<open>views/dialogs.py\<close> around it, and the dialog of
  \<^verbatim>\<open>components/recovery_unlock_dialog.py\<close> is in the theory of the recovery. A dialog is the list of
  what is entered each time its button is pressed; the end of the list is the cancel button. The
  tables of Unicode above ASCII (decimal digits, lower case) are parameters.
\<close>

section \<open>The strength of a password\<close>

definition MIN_PASSWORD_LENGTH :: nat where "MIN_PASSWORD_LENGTH = 16"

record unicode_tables =
  decimal_digit :: "nat \<Rightarrow> bool"
  lower_text :: "ustr \<Rightarrow> ustr"

text \<open>\<^verbatim>\<open>str.lower\<close> and the character classes of the regular expressions.\<close>

definition py_lower :: "unicode_tables \<Rightarrow> ustr \<Rightarrow> ustr" where
  "py_lower U s =
     (if list_all (\<lambda>c. c < 128) s then map (\<lambda>c. if 65 \<le> c \<and> c \<le> 90 then c + 32 else c) s else lower_text U s)"

definition upper_letter :: "nat \<Rightarrow> bool" where "upper_letter c \<longleftrightarrow> 65 \<le> c \<and> c \<le> 90"
definition lower_letter :: "nat \<Rightarrow> bool" where "lower_letter c \<longleftrightarrow> 97 \<le> c \<and> c \<le> 122"

definition regex_digit :: "unicode_tables \<Rightarrow> nat \<Rightarrow> bool" where
  "regex_digit U c \<longleftrightarrow> 48 \<le> c \<and> c \<le> 57 \<or> 128 \<le> c \<and> decimal_digit U c"

definition special_chars :: ustr where
  "special_chars = ustr ''!@#$%^&*()-_=+[]{}|;:,.<>/?`~'' @ [39, 34, 92]"

definition common_passwords :: "ustr list" where
  "common_passwords = map ustr [''password'', ''123456'', ''qwerty'', ''admin'', ''letmein'', ''welcome'', ''monkey'',
     ''master'', ''dragon'', ''login'', ''princess'', ''football'', ''shadow'', ''sunshine'', ''trustno1'']"

text \<open>\<^verbatim>\<open>(.)\1{3,}\<close>: four equal characters in a row, none of them a newline.\<close>

fun repeated_run :: "ustr \<Rightarrow> bool" where
  "repeated_run (a # b # c # d # rest) \<longleftrightarrow> a \<noteq> 10 \<and> a = b \<and> b = c \<and> c = d \<or> repeated_run (b # c # d # rest)"
| "repeated_run _ \<longleftrightarrow> False"

definition sequences :: "ustr list" where
  "sequences = map ustr [''012'', ''123'', ''234'', ''345'', ''456'', ''567'', ''678'', ''789'', ''890'',
     ''abc'', ''bcd'', ''cde'', ''def'']"

fun sequential :: "ustr \<Rightarrow> bool" where
  "sequential [] \<longleftrightarrow> False"
| "sequential (c # cs) \<longleftrightarrow> list_ex (\<lambda>p. take 3 (c # cs) = p) sequences \<or> sequential cs"

text \<open>The checks in their order: one that fails adds its text, and the score is added up on the way.\<close>

type_synonym assessment = "ustr list \<times> int"

definition require :: "bool \<Rightarrow> int \<Rightarrow> ustr \<Rightarrow> assessment \<Rightarrow> assessment" where
  "require ok points issue s = (if ok then (fst s, snd s + points) else (fst s @ [issue], snd s))"

definition penalise :: "bool \<Rightarrow> ustr \<Rightarrow> assessment \<Rightarrow> assessment" where
  "penalise bad issue s = (if bad then (fst s @ [issue], snd s - 10) else s)"

definition assess :: "unicode_tables \<Rightarrow> ustr \<Rightarrow> assessment" where
  "assess U pw =
     (let s = require (length pw \<ge> MIN_PASSWORD_LENGTH) (int (min 40 (length pw * 2)))
                (ustr ''Minimum '' @ dec MIN_PASSWORD_LENGTH @ ustr '' characters required (have '' @ dec (length pw) @ ustr '')'')
                ([], 0);
          s = require (list_ex upper_letter pw) 15 (ustr ''Must contain at least one uppercase letter'') s;
          s = require (list_ex lower_letter pw) 15 (ustr ''Must contain at least one lowercase letter'') s;
          s = require (list_ex (regex_digit U) pw) 15 (ustr ''Must contain at least one digit'') s;
          s = require (list_ex (\<lambda>c. c \<in> set special_chars) pw) 15 (ustr ''Must contain at least one special character'') s;
          s = (if py_lower U pw \<in> set common_passwords then (fst s @ [ustr ''Password is too common''], 0) else s);
          s = penalise (repeated_run pw) (ustr ''Contains excessive repeated characters'') s
      in penalise (sequential (py_lower U pw)) (ustr ''Contains sequential patterns'') s)"

definition join_issues :: "ustr list \<Rightarrow> ustr" where
  "join_issues xs = (case xs of [] \<Rightarrow> [] | x # rest \<Rightarrow> x @ concat (map (\<lambda>y. ustr ''; '' @ y) rest))"

definition validate_password_strength :: "unicode_tables \<Rightarrow> ustr \<Rightarrow> bool \<times> ustr \<times> int" where
  "validate_password_strength U pw =
     (let (issues, score) = assess U pw; is_valid = (issues = [])
      in (is_valid, if is_valid then ustr ''Strong password'' else join_issues issues, max 0 (min 100 score)))"

text \<open>The bar of twelve blocks, the word and the colour.\<close>

definition strength_bar :: "nat \<Rightarrow> string \<Rightarrow> ustr" where
  "strength_bar n word = replicate n 9608 @ replicate (12 - n) 9617 @ ustr word"

definition get_strength_label :: "int \<Rightarrow> ustr \<times> ustr" where
  "get_strength_label score =
     (if score \<ge> 80 then (strength_bar 12 '' STRONG'', ustr ''#00cc00'')
      else if score \<ge> 60 then (strength_bar 8 '' GOOD'', ustr ''#66cc00'')
      else if score \<ge> 40 then (strength_bar 4 '' FAIR'', ustr ''#cccc00'')
      else if score \<ge> 20 then (strength_bar 2 '' WEAK'', ustr ''#cc6600'')
      else (strength_bar 0 '' CRITICAL'', ustr ''#cc0000''))"

section \<open>The dialog\<close>

text \<open>A press of OK with the contents of the two fields, or of the button for the recovery, which is
  there only with a callback. What \<^verbatim>\<open>SecureString\<close> raises for a text that does not encode leaves the
  dialog open.\<close>

datatype dialog_event = Ok_Pressed ustr ustr | Recover_Pressed

datatype dialog_result = Entered bytes | Cancelled | Recovering

fun password_dialog :: "unicode_tables \<Rightarrow> bool \<Rightarrow> bool \<Rightarrow> bool \<Rightarrow> dialog_event list \<Rightarrow> dialog_result" where
  "password_dialog U confirm enforce can_recover [] = Cancelled"
| "password_dialog U confirm enforce can_recover (Recover_Pressed # es) =
     (if can_recover then Recovering else password_dialog U confirm enforce can_recover es)"
| "password_dialog U confirm enforce can_recover (Ok_Pressed pw confirm_pw # es) =
     (if confirm \<and> pw \<noteq> confirm_pw then password_dialog U confirm enforce can_recover es
      else if confirm \<and> enforce \<and> \<not> fst (validate_password_strength U pw) then password_dialog U confirm enforce can_recover es
      else case utf8_encode pw of Inr b \<Rightarrow> Entered b | Inl _ \<Rightarrow> password_dialog U confirm enforce can_recover es)"

section \<open>Properties\<close>

lemma require_fst: "fst (require ok p i s) = [] \<longleftrightarrow> ok \<and> fst s = []"
  by (simp add: require_def)

lemma penalise_fst: "fst (penalise bad i s) = [] \<longleftrightarrow> \<not> bad \<and> fst s = []"
  by (simp add: penalise_def)

text \<open>A password passes exactly when it meets the six conditions; then the score is that of the length
  and of the four classes.\<close>

lemma assess_accepts:
  "fst (assess U pw) = [] \<longleftrightarrow>
     MIN_PASSWORD_LENGTH \<le> length pw \<and> list_ex upper_letter pw \<and> list_ex lower_letter pw \<and> list_ex (regex_digit U) pw \<and>
     list_ex (\<lambda>c. c \<in> set special_chars) pw \<and> py_lower U pw \<notin> set common_passwords \<and> \<not> repeated_run pw \<and>
     \<not> sequential (py_lower U pw)"
  by (simp add: assess_def Let_def require_fst penalise_fst) blast

lemma assess_score:
  assumes "fst (assess U pw) = []"
  shows "snd (assess U pw) = int (min 40 (length pw * 2)) + 60"
  using assms unfolding assess_accepts by (simp add: assess_def require_def penalise_def Let_def)

lemma accepted_score:
  assumes "validate_password_strength U pw = (True, msg, score)"
  shows "16 \<le> length pw \<and> 92 \<le> score \<and> score \<le> 100"
proof -
  have a: "fst (assess U pw) = []" and s: "score = max 0 (min 100 (snd (assess U pw)))"
    using assms by (auto simp: validate_password_strength_def Let_def split: prod.splits)
  from a have len: "16 \<le> length pw" by (simp add: assess_accepts MIN_PASSWORD_LENGTH_def)
  with s assess_score [OF a] show ?thesis by auto
qed

lemma dialog_enforces:
  "password_dialog U True True rec es = Entered b \<Longrightarrow>
     \<exists>pw. Ok_Pressed pw pw \<in> set es \<and> utf8_encode pw = Inr b \<and> fst (validate_password_strength U pw)"
  by (induction U "True" "True" rec es rule: password_dialog.induct) (auto split: if_splits sum.splits)

text \<open>A password that was set in a dialog with confirmation meets every requirement and is shown as
  strong.\<close>

theorem accepted_password_is_strong:
  assumes "password_dialog U True True rec es = Entered b"
  shows "\<exists>pw. utf8_encode pw = Inr b \<and> 16 \<le> length pw \<and> list_ex upper_letter pw \<and> list_ex lower_letter pw \<and>
    list_ex (regex_digit U) pw \<and> list_ex (\<lambda>c. c \<in> set special_chars) pw \<and> \<not> repeated_run pw \<and>
    \<not> sequential (py_lower U pw) \<and>
    get_strength_label (snd (snd (validate_password_strength U pw))) = (strength_bar 12 '' STRONG'', ustr ''#00cc00'')"
proof -
  obtain pw where pw: "utf8_encode pw = Inr b" "fst (validate_password_strength U pw)"
    using dialog_enforces [OF assms] by blast
  then have a: "fst (assess U pw) = []"
    by (auto simp: validate_password_strength_def Let_def split: prod.splits)
  obtain msg score where v: "validate_password_strength U pw = (True, msg, score)"
    using pw(2) by (metis prod.collapse)
  have "get_strength_label score = (strength_bar 12 '' STRONG'', ustr ''#00cc00'')"
    using accepted_score [OF v] by (simp add: get_strength_label_def)
  with pw(1) a v show ?thesis unfolding assess_accepts MIN_PASSWORD_LENGTH_def by auto
qed

definition ascii_tables :: unicode_tables where
  "ascii_tables = \<lparr>decimal_digit = (\<lambda>_. False), lower_text = (\<lambda>s. s)\<rparr>"

definition demo_typed :: "dialog_event list" where
  "demo_typed = [Ok_Pressed (ustr ''secret'') (ustr ''secret''), Ok_Pressed (ustr ''Xk7#mQ9$vL2@pR5!'') (ustr ''Xk7#mQ9$vL2@pR5!'')]"

lemma demo_typed_ok: "case password_dialog ascii_tables True True False demo_typed of Entered b \<Rightarrow> True | _ \<Rightarrow> False"
  by code_simp

theorem accepted_password_is_strong_witness:
  "\<exists>b pw. password_dialog ascii_tables True True False demo_typed = Entered b \<and> utf8_encode pw = Inr b \<and> 16 \<le> length pw \<and>
    get_strength_label (snd (snd (validate_password_strength ascii_tables pw))) = (strength_bar 12 '' STRONG'', ustr ''#00cc00'')"
proof -
  obtain b where "password_dialog ascii_tables True True False demo_typed = Entered b"
    using demo_typed_ok by (auto split: dialog_result.splits)
  with accepted_password_is_strong [OF this] show ?thesis by blast
qed

end
