(* ===== verification/App_Session.thy ===== *)
theory App_Session
  imports Auth_Controller Password_Entry Shamir Ratchet_Service
begin

text \<open>
  The recovery dialog of \<^verbatim>\<open>components/recovery_unlock_dialog.py\<close>, the start of the program in
  \<^verbatim>\<open>builders/app_builder.py\<close>, and locking and unlocking in \<^verbatim>\<open>app.py\<close> with
  \<^verbatim>\<open>views/lock_screen.py\<close> and the part of \<^verbatim>\<open>ServiceOrchestrator.rebuild_services\<close> that
  keeps a secret. Widgets, the references of the tabs and the services that hold no state of their own
  are not modelled.
\<close>

section \<open>The recovery dialog\<close>

text \<open>The presses of its buttons: reconstruct, with the fields of the shares, and apply, with the two
  fields of the password and the answer to the question. The state is the key that was reconstructed.
  The spinboxes for the threshold and the number of shares are read by nothing.\<close>

datatype recovery_event =
    Reconstruct "(nat \<times> ustr) list"
  | Apply_Recovery ustr ustr bool

definition do_reconstruct :: "(nat \<times> ustr) list \<Rightarrow> bytes option \<Rightarrow> bytes option" where
  "do_reconstruct entries key =
     (let raw_shares = filter (\<lambda>s. snd s \<noteq> []) (map (\<lambda>(idx, text). (idx, strip text)) entries) in
      if length raw_shares < 2 then key
      else case map_res (\<lambda>(idx, text). case b64decode text of Inl e \<Rightarrow> Inl e | Inr b \<Rightarrow> Inr (idx, b)) raw_shares of
        Inl _ \<Rightarrow> key
      | Inr parsed \<Rightarrow>
          if card ((\<lambda>s. length (snd s)) ` set parsed) \<noteq> 1 then key
          else case reconstruct_secret parsed (length (snd (hd parsed))) of Inl _ \<Rightarrow> key | Inr k \<Rightarrow> Some k)"

definition MIN_RECOVERY_PASSWORD :: nat where "MIN_RECOVERY_PASSWORD = 8"

text \<open>The password handed to the callback; the callback catches what it raises, and the dialog closes.\<close>

definition apply_recovery :: "bytes option \<Rightarrow> ustr \<Rightarrow> ustr \<Rightarrow> bool \<Rightarrow> ustr option" where
  "apply_recovery key new_pw confirm_pw confirmed =
     (if key = None \<or> new_pw = [] \<or> new_pw \<noteq> confirm_pw \<or> length new_pw < MIN_RECOVERY_PASSWORD \<or> \<not> confirmed
      then None else Some new_pw)"

fun recovery_dialog :: "bytes option \<Rightarrow> recovery_event list \<Rightarrow> ustr option" where
  "recovery_dialog key [] = None"
| "recovery_dialog key (Reconstruct entries # es) = recovery_dialog (do_reconstruct entries key) es"
| "recovery_dialog key (Apply_Recovery new_pw confirm_pw confirmed # es) =
     (case apply_recovery key new_pw confirm_pw confirmed of
        Some pw \<Rightarrow> Some pw | None \<Rightarrow> recovery_dialog key es)"

section \<open>The start of the program\<close>

text \<open>\<^verbatim>\<open>step5_authenticate\<close>: what the dialogs of TOTP need follows the inputs of \<open>load_keys\<close>.\<close>

record totp_inputs =
  ti_wrap :: "bytes \<times> bytes"
  ti_secret :: bytes
  ti_drawn :: "(bytes \<times> (bytes \<times> bytes)) list"
  ti_confirmed :: bool
  ti_codes :: "(ustr \<times> rat) list"

definition wipe_keys :: "controller \<Rightarrow> controller" where
  "wipe_keys c = c\<lparr>ct_account := (ct_account c)\<lparr>ac_keys := ks_wipe (ac_keys (ct_account c))\<rparr>\<rparr>"

definition startup_totp :: "auth_env \<Rightarrow> totp_inputs \<Rightarrow> controller \<Rightarrow> bool res \<times> controller" where
  "startup_totp A ti c =
     (case enforce_mandatory_totp_setup (ke_db (ae_keys A)) (ti_wrap ti) (ti_secret ti) (global_secret (ac_keys (ct_account c)))
             (ti_drawn ti) (ti_confirmed ti) (ct_totp c, ct_db c) of
        (Inl e, (t, d)) \<Rightarrow> (Inl e, set_ct_db d (c\<lparr>ct_totp := t\<rparr>))
      | (Inr False, (t, d)) \<Rightarrow> (Inr False, wipe_keys (set_ct_db d (c\<lparr>ct_totp := t\<rparr>)))
      | (Inr True, (t, d)) \<Rightarrow>
          (case verify_startup_totp (ae_digit A) (ti_codes ti) (t, d) of
             (True, (t', d')) \<Rightarrow> (Inr True, set_ct_db d' (c\<lparr>ct_totp := t'\<rparr>))
           | (False, (t', d')) \<Rightarrow> (Inr False, wipe_keys (set_ct_db d' (c\<lparr>ct_totp := t'\<rparr>)))))"

definition step5_authenticate ::
  "auth_env \<Rightarrow> gen_rnd \<Rightarrow> attempt_rnd \<Rightarrow> bool \<Rightarrow> bytes option \<Rightarrow> login_entry list \<Rightarrow> totp_inputs \<Rightarrow> controller \<Rightarrow>
   bool res \<times> controller" where
  "step5_authenticate A gen rnd is_first_run pw es ti c =
     (case load_keys A gen rnd is_first_run pw es c of
        (Inr True, c1) \<Rightarrow> startup_totp A ti c1 | (r, c1) \<Rightarrow> (r, c1))"

text \<open>\<^verbatim>\<open>_db_has_keys\<close>, and what the cleanup leaves of the database: on a first run without keys the
  file is deleted.\<close>

definition db_has_keys :: "db \<Rightarrow> bool" where
  "db_has_keys d \<longleftrightarrow> get_setting (ustr ''private_key_encrypted'') d \<noteq> None"

definition cleanup_partial_startup :: "bool \<Rightarrow> db \<Rightarrow> db option" where
  "cleanup_partial_startup is_first_run d = (if is_first_run \<and> \<not> db_has_keys d then None else Some d)"

section \<open>Locking and unlocking\<close>

text \<open>The program: the controller, the flag, whether the overlay of the lock screen is shown, and the
  ratchet service, whose storage key and unsaved states are class variables that no lock touches.\<close>

record app =
  ap_controller :: controller
  ap_is_locked :: bool
  ap_overlay :: bool
  ap_ratchet :: ratchet_service

definition lock_screen_lock :: "app \<Rightarrow> app" where "lock_screen_lock a = a\<lparr>ap_overlay := True\<rparr>"
definition lock_screen_unlock :: "app \<Rightarrow> app" where "lock_screen_unlock a = a\<lparr>ap_overlay := False\<rparr>"

definition emergency_lock :: "app \<Rightarrow> app" where
  "emergency_lock a =
     (if ap_is_locked a then a
      else lock_screen_lock (a\<lparr>ap_is_locked := True, ap_controller := wipe_sensitive_data (ap_controller a)\<rparr>))"

definition init_ratchet_storage_key :: "key_store \<Rightarrow> app \<Rightarrow> unit res \<times> app" where
  "init_ratchet_storage_key k a =
     (case ratchet_storage_key k of None \<Rightarrow> (Inr (), a)
      | Some key \<Rightarrow> (case set_ratchet_storage_key key (ap_ratchet a) of (r, s) \<Rightarrow> (r, a\<lparr>ap_ratchet := s\<rparr>)))"

text \<open>The steps after a successful unlock or recovery.\<close>

definition restore :: "opened \<Rightarrow> app \<Rightarrow> unit res \<times> app" where
  "restore x a =
     (case x of (l, k, t) \<Rightarrow>
        (case init_ratchet_storage_key k (a\<lparr>ap_controller := (set_key_store (l, k) (ap_controller a))\<lparr>ct_totp := t\<rparr>\<rparr>) of
           (Inl e, a1) \<Rightarrow> (Inl e, a1)
         | (Inr _, a1) \<Rightarrow> (Inr (), lock_screen_unlock (a1\<lparr>ap_is_locked := False\<rparr>))))"

definition app_request_unlock ::
  "auth_env \<Rightarrow> attempt_rnd \<times> bytes option \<Rightarrow> attempt_rnd \<Rightarrow> bytes option \<Rightarrow> (ustr \<times> rat) list \<Rightarrow> app \<Rightarrow> unit res \<times> app" where
  "app_request_unlock A first rnd pw codes a =
     (if \<not> ap_is_locked a then (Inr (), a)
      else case request_unlock A first rnd pw codes (ap_controller a) of
        (Inl e, c) \<Rightarrow> (Inl e, a\<lparr>ap_controller := c\<rparr>)
      | (Inr None, c) \<Rightarrow> (Inr (), a\<lparr>ap_controller := c\<rparr>)
      | (Inr (Some x), c) \<Rightarrow> restore x (a\<lparr>ap_controller := c\<rparr>))"

definition app_recovery_unlock ::
  "auth_env \<Rightarrow> reset_rnd \<Rightarrow> bytes \<Rightarrow> recovery_event list \<Rightarrow> app \<Rightarrow> unit res \<times> app" where
  "app_recovery_unlock A rnd salt events a =
     (if \<not> ap_is_locked a then (Inr (), a)
      else case request_recovery_unlock A rnd salt (recovery_dialog None events) (ap_controller a) of
        (None, c) \<Rightarrow> (Inr (), a\<lparr>ap_controller := c\<rparr>)
      | (Some x, c) \<Rightarrow> restore x (a\<lparr>ap_controller := c\<rparr>))"

text \<open>\<^verbatim>\<open>on_close\<close>, as far as keys go.\<close>

definition on_close :: "app \<Rightarrow> app" where
  "on_close a = a\<lparr>ap_controller := wipe_sensitive_data (ap_controller a)\<rparr>"

text \<open>The controller as the start-up finds it.\<close>

definition start_controller :: "db \<Rightarrow> controller" where
  "start_controller d =
     \<lparr>ct_account = \<lparr>ac_lockout = load_state True d, ac_keys = new_key_store, ac_db = d\<rparr>,
      ct_totp = new_totp, ct_hash = None, ct_master = None\<rparr>"

end
