(* ===== verification/Auth_Safety.thy ===== *)
theory Auth_Safety
  imports App_Session Friend_View Totp_Safety Key_Safety
begin

text \<open>
  What the authentication controller guarantees: a new account opens with its password, an unlock that
  opens real keys needed the password and, where it is set up, the second factor; the duress mode gives
  decoys only; while the program is locked no key is in memory. And that the recovery needs no genuine
  share.
\<close>

section \<open>A new account opens\<close>

text \<open>What the two transactions of the first run leave in an empty table of settings.\<close>

definition hybrid_rows_open :: "key_env \<Rightarrow> bytes \<Rightarrow> db \<Rightarrow> bool" where
  "hybrid_rows_open E pw d \<longleftrightarrow>
     secret_setting ''ed25519_priv_encrypted'' d = None \<or>
     (\<exists>ed dil b1 b2. secret_setting ''ed25519_priv_encrypted'' d = Some ed \<and> decrypt_secret (ke_db E) ed pw = Inr b1 \<and>
        secret_setting ''dilithium_priv_encrypted'' d = Some dil \<and> decrypt_secret (ke_db E) dil pw = Inr b2)"

definition fresh_rows :: "key_env \<Rightarrow> gen_rnd \<Rightarrow> bytes \<Rightarrow> db \<Rightarrow> bool" where
  "fresh_rows E gen pw d \<longleftrightarrow>
     text_setting ''public_key'' d = Some (pubkey_to_pem E (public_key E (gr_priv gen))) \<and>
     (\<exists>pem. text_setting ''private_key_encrypted'' d = Some pem \<and> pem_to_privkey E pem pw = Inr (gr_priv gen)) \<and>
     (\<exists>w. secret_setting ''global_secret'' d = Some w \<and> decrypt_secret (ke_db E) w pw = Inr (gr_global gen)) \<and>
     hybrid_rows_open E pw d \<and> friends_tab d = [] \<and>
     get_setting (ustr ''legacy_private_key_encrypted'') d = None \<and> get_setting (ustr ''kyber_priv_encrypted'') d = None \<and>
     get_setting (ustr ''ratchet_storage_key'') d = None \<and> get_setting (ustr ''ratchet_hkdf_salt'') d = None"

lemma get_no_settings: "settings d = [] \<Longrightarrow> get_setting k d = None"
  by (simp add: get_setting_def select_key_def)

lemma create_account_rows:
  assumes "key_laws E" and "create_account_keys E gen pw d = Inr d1" "settings d = []" "friends_tab d = []"
  shows "fresh_rows E gen pw d1"
proof -
  obtain pem enc where 1: "privkey_to_encrypted_pem E (gr_priv gen) pw = Inr pem"
      "encrypt_secret (ke_db E) (fst (gr_salts gen 0)) (snd (gr_salts gen 0)) (gr_global gen) pw = Inr enc"
      "d1 = put_setting (ustr ''global_secret'') (Secret enc) (put_setting (ustr ''private_key_encrypted'') (Text pem)
         (put_setting (ustr ''public_key'') (Text (pubkey_to_pem E (public_key E (gr_priv gen)))) d))"
    using assms(2) by (auto simp: create_account_keys_def insert_setting_def split: sum.splits if_splits)
  show ?thesis
    using 1(1,2) assms(3,4) key_laws.pem_priv [OF assms(1)] key_laws.open_encrypted [OF assms(1)]
    unfolding 1(3)
    by (simp add: fresh_rows_def hybrid_rows_open_def text_setting_def secret_setting_def get_no_settings)
qed

lemma create_hybrid_rows:
  assumes "key_laws E" and "create_hybrid_keys E gen pw d = Inr d1" "fresh_rows E gen pw d"
  shows "fresh_rows E gen pw d1"
proof -
  obtain hk where hk: "gr_hybrid gen = Inr hk"
    using assms(2) by (cases "gr_hybrid gen") (simp_all add: create_hybrid_keys_def)
  obtain ed where ed: "encrypt_secret (ke_db E) (fst (gr_salts gen 1)) (snd (gr_salts gen 1)) (hk_ed_priv hk) pw = Inr ed"
    using assms(2) hk unfolding create_hybrid_keys_def Let_def by (auto split: sum.splits)
  obtain dil where dil: "encrypt_secret (ke_db E) (fst (gr_salts gen 2)) (snd (gr_salts gen 2)) (hk_dil_priv hk) pw = Inr dil"
    using assms(2) hk unfolding create_hybrid_keys_def Let_def by (auto split: sum.splits)
  have d1: "d1 = put_setting (ustr ''hybrid_sig_combined_pub_b64'') (Text (b64encode (hk_combined_pub hk)))
      (put_setting (ustr ''dilithium_priv_encrypted'') (Secret dil) (put_setting (ustr ''ed25519_priv_encrypted'') (Secret ed) d))"
    using assms(2) unfolding create_hybrid_keys_def Let_def hk sum.case ed dil by simp
  show ?thesis
    using assms(3) key_laws.open_encrypted [OF assms(1) ed] key_laws.open_encrypted [OF assms(1) dil]
    unfolding d1 by (simp add: fresh_rows_def hybrid_rows_open_def text_setting_def secret_setting_def)
qed

lemma key_init_rows:
  assumes "key_laws E" and "key_init_db E gen pw d = (Inr new, d1)" "settings d = []" "friends_tab d = []"
  shows "new \<and> fresh_rows E gen pw d1"
proof -
  obtain d' where d': "create_account_keys E gen pw d = Inr d'" and new: "new"
    using assms(2,3) by (auto simp: key_init_db_def Let_def get_no_settings split: sum.splits if_splits)
  have "d1 = d' \<or> create_hybrid_keys E gen pw d' = Inr d1"
    using assms(2,3) d' by (auto simp: key_init_db_def Let_def get_no_settings split: sum.splits if_splits)
  with create_account_rows [OF assms(1) d' assms(3,4)] create_hybrid_rows [OF assms(1)] new show ?thesis by blast
qed

lemma load_hybrid_opens:
  assumes "hybrid_rows_open E pw d"
  shows "\<exists>k'. load_hybrid E pw (k, d) = (Inr True, (k', d)) \<and> my_priv k' = my_priv k \<and> my_pub k' = my_pub k \<and>
    global_secret k' = global_secret k \<and> duress_mode k' = duress_mode k"
  using assms unfolding hybrid_rows_open_def load_hybrid_def Let_def
  by (auto split: option.splits sum.splits)

lemma load_fresh:
  assumes "key_laws E" and rows: "fresh_rows E gen pw d"
    and nonce: "length (lr_nonce rnd) = 12" "length (lr_ratchet_key rnd) < 2 ^ 31"
  shows "\<exists>k d'. load E rnd pw now (new_key_store, d) = (Inr True, (k, d')) \<and>
    my_priv k = Some (gr_priv gen) \<and> my_pub k = Some (public_key E (gr_priv gen)) \<and> global_secret k = Some (gr_global gen) \<and>
    ratchet_storage_key k = Some (lr_ratchet_key rnd) \<and> friends k = [] \<and> \<not> duress_mode k"
proof -
  let ?pub = "public_key E (gr_priv gen)"
  let ?k1 = "new_key_store\<lparr>my_pub := Some ?pub, needs_rotation := get_rsa_key_size E ?pub < MIN_RSA_KEY_SIZE,
      my_priv := Some (gr_priv gen), legacy_priv := None\<rparr>"
  let ?k2 = "?k1\<lparr>global_secret := Some (gr_global gen)\<rparr>"
  let ?k3 = "?k2\<lparr>my_kyber_priv := None, my_pqc_combined_pub := None, cached_pqc_bundle := None\<rparr>"
  have rsa: "load_rsa E pw now (new_key_store, d) = (Inr True, (?k1, d))"
    using rows key_laws.pem_pub [OF assms(1)]
    by (auto simp: fresh_rows_def load_rsa_def load_legacy_def text_setting_def Let_def)
  have global_ok: "load_global E pw (?k1, d) = (Inr True, (?k2, d))"
    using rows by (auto simp: fresh_rows_def load_global_def)
  have kyber: "load_kyber E pw (?k2, d) = (Inr True, (?k2\<lparr>my_kyber_priv := None, my_pqc_combined_pub := None\<rparr>, d))"
    using rows by (simp add: fresh_rows_def load_kyber_def secret_setting_def Let_def)
  have bundle_ok: "load_bundle E pw (?k2\<lparr>my_kyber_priv := None, my_pqc_combined_pub := None\<rparr>, d) = (Inr True, (?k3, d))"
    by (simp add: load_bundle_def given_def Let_def split: option.split)
  obtain k4 where hybrid: "load_hybrid E pw (?k3, d) = (Inr True, (k4, d))"
      and k4: "my_priv k4 = Some (gr_priv gen)" "my_pub k4 = Some ?pub" "global_secret k4 = Some (gr_global gen)" "\<not> duress_mode k4"
    using load_hybrid_opens [of E pw d ?k3] rows by (auto simp: fresh_rows_def new_key_store_def)
  let ?k5 = "k4\<lparr>friends := [], friends_x25519 := [], friends_ecdh_priv := [], friends_capabilities := [],
      friends_pqc_combined_pub := [], friends_hybrid_sig_pubs := []\<rparr>"
  have friends_ok: "load_friends E pw (k4, d) = (Inr True, (?k5, d))"
    using rows by (simp add: fresh_rows_def load_friends_def Let_def)
  obtain w where w: "encrypt_secret (ke_db E) (lr_salt rnd) (lr_nonce rnd) (lr_ratchet_key rnd) pw = Inr w"
    using db_laws.encrypt_total [OF key_laws.db [OF assms(1)] nonce] by blast
  have "\<exists>d'. load_ratchet_key E rnd pw (?k5, d) = (Inr True, (?k5\<lparr>ratchet_storage_key := Some (lr_ratchet_key rnd)\<rparr>, d'))"
    using rows w by (simp add: fresh_rows_def load_ratchet_key_def secret_setting_def text_setting_def Let_def)
  then obtain d' where ratchet: "load_ratchet_key E rnd pw (?k5, d) = (Inr True, (?k5\<lparr>ratchet_storage_key := Some (lr_ratchet_key rnd)\<rparr>, d'))" ..
  show ?thesis
    unfolding load_def rsa load_then_def prod.case sum.case bool.case global_ok kyber bundle_ok hybrid friends_ok keystore_error_def ratchet
    using k4 by simp
qed

text \<open>C30. The first run creates an account that opens.\<close>

theorem new_account_opens:
  assumes "key_laws E" and "key_init_db E gen pw d = (Inr new, d1)" "settings d = []" "friends_tab d = []"
    and "length (lr_nonce rnd) = 12" "length (lr_ratchet_key rnd) < 2 ^ 31"
  shows "\<exists>k d'. load E rnd pw now (new_key_store, d1) = (Inr True, (k, d')) \<and>
    my_priv k = Some (gr_priv gen) \<and> my_pub k = Some (public_key E (gr_priv gen)) \<and> global_secret k = Some (gr_global gen) \<and>
    ratchet_storage_key k = Some (lr_ratchet_key rnd) \<and> friends k = [] \<and> \<not> duress_mode k"
  using key_init_rows [OF assms(1-4)] load_fresh [OF assms(1) _ assms(5,6)] by blast

definition demo_gen :: gen_rnd where
  "demo_gen = \<lparr>gr_priv = [9, 9], gr_global = replicate 32 5,
     gr_hybrid = Inr \<lparr>hk_ed_priv = replicate 32 1, hk_ed_pub_bytes = [1], hk_dil_priv = [2, 2], hk_dil_pub_bytes = [2], hk_combined_pub = [3]\<rparr>, gr_salts = some_rnd\<rparr>"

definition demo_new_db :: db where "demo_new_db = snd (key_init_db ref_key_env demo_gen [65] empty_db)"

lemma demo_new_ok: "fst (key_init_db ref_key_env demo_gen [65] empty_db) = Inr True"
  by code_simp

theorem new_account_opens_witness:
  "\<exists>k d'. load ref_key_env some_load_rnd [65] 7 (new_key_store, demo_new_db) = (Inr True, (k, d')) \<and>
    my_priv k = Some [9, 9] \<and> global_secret k = Some (replicate 32 5)"
proof -
  have "key_init_db ref_key_env demo_gen [65] empty_db = (Inr True, demo_new_db)"
    using demo_new_ok by (simp add: demo_new_db_def prod_eq_iff)
  from new_account_opens [OF ref_key_laws this, of some_load_rnd 7] show ?thesis
    by (auto simp: empty_db_def some_load_rnd_def demo_gen_def)
qed

section \<open>What an unlock needs\<close>

lemma verify_dialog_accepts:
  assumes "verify_dialog digit codes (s, d) = (True, (s', d'))"
  shows "\<exists>code time s1 d1. (code, time) \<in> set codes \<and> totp_secret s1 = totp_secret s \<and>
    verify digit (strip code) time True (s1, d1) = (Inr True, (s', d'))"
  using assms
proof (induction codes arbitrary: s d)
  case (Cons x codes)
  obtain code time where x: "x = (code, time)" by fastforce
  obtain r s2 d2 where v: "verify digit (strip code) time True (s, d) = (r, (s2, d2))" by (metis surj_pair)
  show ?case
  proof (cases "length (strip code) \<noteq> 6 \<or> \<not> list_all (unicode_digit digit) (strip code)")
    case True
    with Cons x show ?thesis by fastforce
  next
    case False
    show ?thesis
    proof (cases "r = Inr True")
      case True
      with False v Cons.prems x show ?thesis by auto
    next
      case no: False
      from v no have "s2 = s" "d2 = d" by (auto elim: verify_cases)
      moreover have "verify_dialog digit codes (s2, d2) = (True, (s', d'))"
        using Cons.prems x False v no by (auto split: sum.splits bool.splits)
      ultimately show ?thesis using Cons.IH [of s d] by fastforce
    qed
  qed
qed simp

lemma unlock_totp_accepts:
  assumes "unlock_totp digit D t1 t2 pw gs codes d = (Inr (Some t), d')"
    and "is_totp_enabled d" "is_totp_setup_complete d"
  shows "\<exists>code time s1 d1. (code, time) \<in> set codes \<and>
    fst (load_totp_secret digit D t1 t2 (Some pw) gs d new_totp) = Inr True \<and>
    totp_secret s1 = totp_secret (snd (load_totp_secret digit D t1 t2 (Some pw) gs d new_totp)) \<and>
    verify digit (strip code) time True (s1, d1) = (Inr True, (t, d'))"
proof -
  obtain s1 where s1: "load_totp_secret digit D t1 t2 (Some pw) gs d new_totp = (Inr True, s1)"
      and dialog: "verify_dialog digit codes (s1, d) = (True, (t, d'))"
    using assms by (auto simp: unlock_totp_def split: prod.splits sum.splits if_splits bool.splits)
  from verify_dialog_accepts [OF dialog] show ?thesis unfolding s1 by auto
qed

text \<open>The keys came out under the password that was entered, and where TOTP is enabled and set up one of
  the codes that were entered was accepted.\<close>

definition both_factors ::
  "auth_env \<Rightarrow> attempt_rnd \<Rightarrow> bytes \<Rightarrow> (ustr \<times> rat) list \<Rightarrow> db \<Rightarrow> key_store \<Rightarrow> totp \<Rightarrow> db \<Rightarrow> bool" where
  "both_factors A rnd p codes d0 k t d' \<longleftrightarrow>
     (\<exists>d. load (ae_keys A) (at_load rnd) p (at_now rnd) (new_key_store, d0) = (Inr True, (k, d)) \<and>
        (is_totp_enabled d \<and> is_totp_setup_complete d \<longrightarrow>
          (\<exists>code time s1 d1. (code, time) \<in> set codes \<and>
            totp_secret s1 = totp_secret (snd (load_totp_secret (ae_digit A) (ke_db (ae_keys A)) (at_test1 rnd) (at_test2 rnd)
                (Some p) (global_secret k) d new_totp)) \<and>
            verify (ae_digit A) (strip code) time True (s1, d1) = (Inr True, (t, d')))))"

lemma unlock_match_factors:
  assumes "unlock_match A rnd p codes c = (Inr (Some (l, k, t)), c')"
  shows "both_factors A rnd p codes (ct_db c) k t (ct_db c') \<and> l = load_state True (ct_db c)"
proof -
  obtain d d1 where ld: "load (ae_keys A) (at_load rnd) p (at_now rnd) (new_key_store, ct_db c) = (Inr True, (k, d))"
      and u: "unlock_totp (ae_digit A) (ke_db (ae_keys A)) (at_test1 rnd) (at_test2 rnd) p (global_secret k) codes d = (Inr (Some t), d1)"
      and c': "c' = set_ct_db d1 c" and l: "l = load_state True (ct_db c)"
    using assms by (auto simp: unlock_match_def split: prod.splits sum.splits bool.splits option.splits)
  have "ct_db c' = d1" by (simp add: c' ct_db_def set_ct_db_def)
  with ld u l unlock_totp_accepts [OF u] show ?thesis unfolding both_factors_def by blast
qed

lemma unlock_mismatchE:
  assumes "unlock_mismatch A rnd p c = (Inr (Some (l, k, t)), c')"
  obtains acc d h where "manager_verify A (at_now rnd) p (ct_account c) = ((True, True), acc)"
    and "snd (load_duress_decoy (ae_keys A) (at_decoy rnd) (at_token rnd) (Some p) (new_key_store, ac_db acc)) = (k, d)"
    and "ph_hash (ae_hasher A) (at_salt rnd) DURESS_PLACEHOLDER = Inr h"
    and "t = new_totp" "l = load_state True (ac_db acc)"
    and "c' = (set_ct_db d (c\<lparr>ct_account := acc\<rparr>))\<lparr>ct_hash := Some h\<rparr>"
proof -
  obtain valid duress acc where m: "manager_verify A (at_now rnd) p (ct_account c) = ((valid, duress), acc)" by (metis surj_pair)
  obtain b k1 d where ld: "load_duress_decoy (ae_keys A) (at_decoy rnd) (at_token rnd) (Some p) (new_key_store, ac_db acc) = (b, (k1, d))"
    by (metis surj_pair)
  have vd: "valid" "duress" using assms unfolding unlock_mismatch_def m by (auto split: if_splits)
  then show ?thesis using assms that [of acc d] m ld
    unfolding unlock_mismatch_def m prod.case ld by (auto simp: set_master_hash_def split: sum.splits)
qed

text \<open>The store of the duress mode, when it starts from a new one.\<close>

lemma load_duress_decoy_shape:
  "\<exists>p d'. load_duress_decoy E fresh token pw (k, d) =
     (True, ((ks_wipe k)\<lparr>my_priv := Some p, my_pub := Some (public_key E p), global_secret := Some token, duress_mode := True\<rparr>, d'))"
  unfolding load_duress_decoy_def Let_def split_beta fst_conv snd_conv by (intro exI) (rule refl)

lemma decoy_store:
  assumes "snd (load_duress_decoy E fresh token pw (new_key_store, d)) = (k, d')"
  shows "duress_mode k \<and> friends k = [] \<and> ratchet_storage_key k = None \<and> my_kyber_priv k = None \<and>
    my_ed_priv k = None \<and> my_dil_priv k = None \<and> global_secret k = Some token"
proof -
  obtain p where "k = (ks_wipe new_key_store)\<lparr>my_priv := Some p, my_pub := Some (public_key E p), global_secret := Some token, duress_mode := True\<rparr>"
    using load_duress_decoy_shape [of E fresh token pw new_key_store d] assms by auto
  then show ?thesis by (simp add: ks_wipe_def new_key_store_def)
qed

lemma unlock_mismatch_decoy:
  assumes "unlock_mismatch A rnd p c = (Inr (Some (l, k, t)), c')"
  shows "fst (manager_verify A (at_now rnd) p (ct_account c)) = (True, True) \<and> duress_mode k \<and> friends k = [] \<and>
    ratchet_storage_key k = None \<and> global_secret k = Some (at_token rnd) \<and> t = new_totp \<and>
    (\<exists>h. ct_hash c' = Some h \<and> ph_hash (ae_hasher A) (at_salt rnd) DURESS_PLACEHOLDER = Inr h)"
proof (rule unlock_mismatchE [OF assms])
  fix acc d h
  assume m: "manager_verify A (at_now rnd) p (ct_account c) = ((True, True), acc)"
    and ld: "snd (load_duress_decoy (ae_keys A) (at_decoy rnd) (at_token rnd) (Some p) (new_key_store, ac_db acc)) = (k, d)"
    and h: "ph_hash (ae_hasher A) (at_salt rnd) DURESS_PLACEHOLDER = Inr h" "t = new_totp"
    and c': "c' = (set_ct_db d (c\<lparr>ct_account := acc\<rparr>))\<lparr>ct_hash := Some h\<rparr>"
  have "ct_hash c' = Some h" by (simp add: c')
  moreover have "fst (manager_verify A (at_now rnd) p (ct_account c)) = (True, True)" by (simp only: m fst_conv)
  moreover note decoy_store [OF ld] h
  ultimately show ?thesis by (intro conjI exI [of _ h]) simp_all
qed

lemma request_unlock_known:
  assumes "request_unlock A first rnd pw codes c = (Inr (Some x), c')" "ct_hash c = Some h"
  shows "\<exists>p. pw = Some p \<and> p \<noteq> [] \<and>
    (ph_verify (ae_hasher A) h p = Inr True \<and> unlock_match A rnd p codes c = (Inr (Some x), c') \<or>
     ph_verify (ae_hasher A) h p = Inr False \<and> unlock_mismatch A rnd p c = (Inr (Some x), c'))"
  using assms by (auto simp: request_unlock_def unlock_with_def given_def split: sum.splits bool.splits option.splits if_splits)

text \<open>C9. An unlock that opens real keys needed both factors.\<close>

theorem unlock_needs_factors:
  assumes "request_unlock A first rnd pw codes c = (Inr (Some (l, k, t)), c')" "ct_hash c = Some h"
    and "\<not> duress_mode k"
  shows "\<exists>p. pw = Some p \<and> p \<noteq> [] \<and> ph_verify (ae_hasher A) h p = Inr True \<and>
    both_factors A rnd p codes (ct_db c) k t (ct_db c')"
proof -
  obtain p where p: "pw = Some p" "p \<noteq> []"
    and cases: "ph_verify (ae_hasher A) h p = Inr True \<and> unlock_match A rnd p codes c = (Inr (Some (l, k, t)), c') \<or>
      ph_verify (ae_hasher A) h p = Inr False \<and> unlock_mismatch A rnd p c = (Inr (Some (l, k, t)), c')"
    using request_unlock_known [OF assms(1,2)] by (elim exE conjE)
  have "\<not> unlock_mismatch A rnd p c = (Inr (Some (l, k, t)), c')" using unlock_mismatch_decoy [of A rnd p c l k t c'] assms(3) by argo
  with cases have "ph_verify (ae_hasher A) h p = Inr True" and m: "unlock_match A rnd p codes c = (Inr (Some (l, k, t)), c')" by simp_all
  with p unlock_match_factors [OF m] show ?thesis by simp
qed

text \<open>A hash verifies exactly the password it was made of.\<close>

locale hasher_laws =
  fixes H :: hasher
  assumes verify_hash: "ph_hash H salt p = Inr h \<Longrightarrow> ph_verify H h q = Inr (p = q)"
begin

lemma only_one_password: "ph_hash H salt p = Inr h \<Longrightarrow> ph_verify H h q = Inr True \<Longrightarrow> q = p"
  by (simp add: verify_hash)

end

text \<open>C29. After an unlock with the duress password every later unlock gives a decoy again, and with the
  master password none.\<close>

theorem duress_stays_decoy:
  assumes "hasher_laws (ae_hasher A)"
    and "unlock_mismatch A rnd0 duress_pw c0 = (Inr (Some x0), c1)"
    and "ct_hash c = ct_hash c1" "p \<noteq> DURESS_PLACEHOLDER"
    and "request_unlock A first rnd (Some p) codes c = (Inr (Some (l, k, t)), c')"
  shows "duress_mode k \<and> friends k = [] \<and> global_secret k = Some (at_token rnd) \<and>
    ratchet_storage_key k = None \<and> totp_secret t = None \<and>
    fst (manager_verify A (at_now rnd) p (ct_account c)) = (True, True)"
proof -
  obtain l0 k0 t0 where x0: "x0 = (l0, k0, t0)" by (cases x0)
  obtain h where h: "ct_hash c = Some h" "ph_hash (ae_hasher A) (at_salt rnd0) DURESS_PLACEHOLDER = Inr h"
    using unlock_mismatch_decoy [OF assms(2) [unfolded x0]] assms(3) by auto
  have "ph_verify (ae_hasher A) h p = Inr False"
    using hasher_laws.verify_hash [OF assms(1) h(2)] assms(4) by simp
  with request_unlock_known [OF assms(5) h(1)] have "unlock_mismatch A rnd p c = (Inr (Some (l, k, t)), c')" by auto
  from unlock_mismatch_decoy [OF this] show ?thesis by (simp add: new_totp_def)
qed

section \<open>Locking\<close>

text \<open>No key and no secret is in memory; the legacy private key and the public keys of the friends are
  not among what is wiped.\<close>

definition no_secrets :: "controller \<Rightarrow> bool" where
  "no_secrets c \<longleftrightarrow>
     (let k = ac_keys (ct_account c) in
      my_priv k = None \<and> global_secret k = None \<and> ratchet_storage_key k = None \<and> my_kyber_priv k = None \<and>
      cached_pqc_bundle k = None \<and> my_ed_priv k = None \<and> my_dil_priv k = None \<and> friends_ecdh_priv k = [] \<and>
      list_all (\<lambda>(_, _, s). s = None) (friends k) \<and> totp_secret (ct_totp c) = None)"

definition lock_inv :: "app \<Rightarrow> bool" where
  "lock_inv a \<longleftrightarrow> (ap_overlay a \<longleftrightarrow> ap_is_locked a) \<and> (ap_is_locked a \<longrightarrow> no_secrets (ap_controller a))"

text \<open>What the running program does: it locks, asks for an unlock or a recovery, and works while it is
  not locked. A stored ratchet key has the 32 bytes it was written with.\<close>

inductive app_step :: "auth_env \<Rightarrow> app \<Rightarrow> app \<Rightarrow> bool" for A where
  lock: "app_step A a (emergency_lock a)"
| unlock: "app_request_unlock A first rnd pw codes a = (Inr (), a') \<Longrightarrow> app_step A a a'"
| unlock_raises: "ap_is_locked a \<Longrightarrow> request_unlock A first rnd pw codes (ap_controller a) = (Inl e, c) \<Longrightarrow>
    app_step A a (a\<lparr>ap_controller := c\<rparr>)"
| recover: "app_recovery_unlock A rrnd salt events a = (Inr (), a') \<Longrightarrow> app_step A a a'"
| work: "\<not> ap_is_locked a \<Longrightarrow> app_step A a (a\<lparr>ap_controller := c\<rparr>)"
| close: "app_step A a (on_close a)"

definition app_init :: "app \<Rightarrow> bool" where
  "app_init a \<longleftrightarrow> \<not> ap_is_locked a \<and> \<not> ap_overlay a"

lemma wiped_no_secrets: "no_secrets (wipe_sensitive_data c)"
  by (auto simp: no_secrets_def wipe_sensitive_data_def ks_wipe_def clear_secret_def Let_def list_all_iff)

text \<open>What an attempt that does not open anything leaves of the keys in memory: the duress flag may be
  set.\<close>

definition same_secrets :: "controller \<Rightarrow> controller \<Rightarrow> bool" where
  "same_secrets c c' \<longleftrightarrow> ct_totp c' = ct_totp c \<and>
     (\<exists>f. ac_keys (ct_account c') = (ac_keys (ct_account c))\<lparr>duress_mode := f\<rparr>)"

lemma same_no_secrets: "same_secrets c c' \<Longrightarrow> no_secrets c \<Longrightarrow> no_secrets c'"
  by (auto simp: same_secrets_def no_secrets_def Let_def)

lemma same_secrets_refl [simp]: "same_secrets c c"
  by (auto simp: same_secrets_def intro: exI [of _ "duress_mode (ac_keys (ct_account c))"])

lemma same_secrets_trans: "same_secrets a b \<Longrightarrow> same_secrets b c \<Longrightarrow> same_secrets a c"
  by (auto simp: same_secrets_def)

lemma same_secrets_fields [simp]:
  "same_secrets c (set_ct_db d c') \<longleftrightarrow> same_secrets c c'" "same_secrets c (c'\<lparr>ct_hash := h\<rparr>) \<longleftrightarrow> same_secrets c c'"
  "same_secrets c (c'\<lparr>ct_master := m\<rparr>) \<longleftrightarrow> same_secrets c c'"
  by (simp_all add: same_secrets_def set_ct_db_def)

lemma manager_verify_same: "manager_verify A now p (ct_account c) = (r, acc) \<Longrightarrow> same_secrets c (c\<lparr>ct_account := acc\<rparr>)"
  by (auto simp: manager_verify_def same_secrets_def split: prod.splits)

lemma set_master_hash_same: "set_master_hash A salt p c = (r, c') \<Longrightarrow> same_secrets c0 c \<Longrightarrow> same_secrets c0 c'"
  by (auto simp: set_master_hash_def split: sum.splits)

lemma recover_hash_same: "recover_password_hash A rnd pw c = (r, c') \<Longrightarrow> same_secrets c c'"
  by (auto simp: recover_password_hash_def split: if_splits prod.splits sum.splits bool.splits dest!: set_master_hash_same)

lemma unlock_mismatch_same: "unlock_mismatch A rnd p c = (r, c') \<Longrightarrow> same_secrets c c'"
  by (auto simp: unlock_mismatch_def split: if_splits prod.splits sum.splits dest!: set_master_hash_same manager_verify_same)

lemma unlock_match_same: "unlock_match A rnd p codes c = (r, c') \<Longrightarrow> same_secrets c c'"
  by (auto simp: unlock_match_def split: if_splits prod.splits sum.splits bool.splits option.splits)

lemma request_unlock_same: "request_unlock A first rnd pw codes c = (r, c') \<Longrightarrow> same_secrets c c'"
  by (auto simp: request_unlock_def unlock_with_def split: if_splits prod.splits sum.splits bool.splits option.splits
      intro: same_secrets_trans dest!: recover_hash_same unlock_mismatch_same unlock_match_same)

lemma recovery_same: "request_recovery_unlock A rnd salt pw c = (r, c') \<Longrightarrow> same_secrets c c'"
  by (auto simp: request_recovery_unlock_def Let_def set_master_hash_def split: option.splits sum.splits prod.splits if_splits)

lemma restore_unlocks: "restore x a = (Inr (), a') \<Longrightarrow> \<not> ap_is_locked a' \<and> \<not> ap_overlay a'"
  by (auto simp: restore_def init_ratchet_storage_key_def set_ratchet_storage_key_def lock_screen_unlock_def
      split: prod.splits sum.splits option.splits if_splits)

lemma lock_inv_controller: "lock_inv a \<Longrightarrow> same_secrets (ap_controller a) c \<Longrightarrow> lock_inv (a\<lparr>ap_controller := c\<rparr>)"
  by (auto simp: lock_inv_def same_no_secrets)

interpretation app_machine: state_machine app_init "app_step A" lock_inv for A
proof
  show "lock_inv a" if "app_init a" for a using that by (simp add: app_init_def lock_inv_def)
next
  fix a a'
  assume inv: "lock_inv a" and step: "app_step A a a'"
  from step show "lock_inv a'"
  proof cases
    case lock
    then show ?thesis using inv by (auto simp: emergency_lock_def lock_screen_lock_def lock_inv_def wiped_no_secrets)
  next
    case (unlock first rnd pw codes)
    then show ?thesis using inv
      by (auto simp: app_request_unlock_def split: if_splits prod.splits sum.splits option.splits
          dest!: request_unlock_same intro: lock_inv_controller)
        (auto simp: lock_inv_def dest: restore_unlocks)
  next
    case (unlock_raises first rnd pw codes e c)
    then show ?thesis using inv by (auto dest!: request_unlock_same intro: lock_inv_controller)
  next
    case (recover rrnd salt events)
    then show ?thesis using inv
      by (auto simp: app_recovery_unlock_def split: if_splits prod.splits option.splits
          dest!: recovery_same intro: lock_inv_controller)
        (auto simp: lock_inv_def dest: restore_unlocks)
  next
    case (work c)
    then show ?thesis using inv by (simp add: lock_inv_def)
  next
    case close
    then show ?thesis using inv by (simp add: lock_inv_def on_close_def wiped_no_secrets)
  qed
qed


text \<open>The unlock with the duress password leaves the ratchet service of the real account in place: its
  storage key and the sessions that wait for the flush.\<close>

theorem duress_keeps_sessions:
  assumes "unlock_mismatch A rnd p (ap_controller a) = (Inr (Some x), c)"
  shows "\<exists>a'. restore x (a\<lparr>ap_controller := c\<rparr>) = (Inr (), a') \<and> \<not> ap_is_locked a' \<and> ap_ratchet a' = ap_ratchet a"
proof -
  obtain l k t where x: "x = (l, k, t)" by (cases x)
  from unlock_mismatch_decoy [OF assms [unfolded x]] have "ratchet_storage_key k = None" by blast
  then show ?thesis by (simp add: x restore_def init_ratchet_storage_key_def lock_screen_unlock_def)
qed

section \<open>Recovery\<close>

lemma two_shares_reconstruct:
  assumes "i \<noteq> j" "i < 256" "j < 256" "length b1 = length b2"
  shows "\<exists>key. reconstruct_secret [(i, b1), (j, b2)] (length b1) = Inr key"
proof -
  have ij: "gf_of i \<noteq> gf_of j" using assms(1-3) by (metis gf_val_of)
  have byte: "\<exists>b. reconstruct_byte [i, j] [unat (b1 ! n), unat (b2 ! n)] = Inr b" for n
    using reconstruct_byte_val [of "[gf_of i, gf_of j]" "[gf_byte (b1 ! n), gf_byte (b2 ! n)]"] ij assms(2,3)
    by (simp add: gf_val_of)
  have "(\<lambda>s. length (snd s)) ` set [(i, b1), (j, b2)] = {length b1}" using assms(4) by auto
  then show ?thesis
    using map_res_ok [of "[0..<length b1]" "\<lambda>n. reconstruct_byte [i, j] [unat (b1 ! n), unat (b2 ! n)]"
        "\<lambda>n. projr (reconstruct_byte [i, j] [unat (b1 ! n), unat (b2 ! n)])"] byte
    by (auto simp: reconstruct_secret_def) (metis sum.sel(2))
qed


section \<open>A concrete program\<close>

definition demo_hasher :: hasher where
  "demo_hasher = \<lparr>ph_hash = (\<lambda>salt p. Inr (map unat p)), ph_verify = (\<lambda>h q. Inr (h = map unat q))\<rparr>"

interpretation demo_hash: hasher_laws demo_hasher
proof
  have "inj (unat :: byte \<Rightarrow> nat)" by (rule injI) (simp add: word_unat_eq_iff)
  then show "ph_hash demo_hasher salt p = Inr h \<Longrightarrow> ph_verify demo_hasher h q = Inr (p = q)" for salt p h q
    by (auto simp: demo_hasher_def dest: map_injective)
qed

definition demo_auth :: auth_env where
  "demo_auth = \<lparr>ae_keys = ref_key_env, ae_hasher = demo_hasher, ae_digit = (\<lambda>_. False)\<rparr>"

definition demo_attempt :: attempt_rnd where
  "demo_attempt = \<lparr>at_now = 0, at_load = some_load_rnd, at_salt = [1], at_decoy = [8, 8], at_token = replicate 32 4,
     at_secret = replicate 32 6, at_wrap = some_rnd 9, at_test1 = 0, at_test2 = 0\<rparr>"

definition demo_running :: app where
  "demo_running = \<lparr>ap_controller = set_ct_keys ((fst set_up)\<lparr>my_priv := Some [9, 9], global_secret := Some [42]\<rparr>, snd set_up) ((start_controller empty_db)\<lparr>ct_hash := Some [65]\<rparr>),
     ap_is_locked = False, ap_overlay = False, ap_ratchet = new_ratchet_service\<rparr>"

definition demo_locked :: app where "demo_locked = emergency_lock demo_running"

definition demo_unlock :: "opened option res \<times> controller" where
  "demo_unlock = request_unlock demo_auth (demo_attempt, None) demo_attempt (Some [65]) [] (ap_controller demo_locked)"

lemma demo_unlock_ok: "case fst demo_unlock of Inr (Some (l, k, t)) \<Rightarrow> \<not> duress_mode k | _ \<Rightarrow> False"
  by code_simp

lemma demo_locked_hash: "ct_hash (ap_controller demo_locked) = Some [65]"
  by (simp add: demo_locked_def demo_running_def emergency_lock_def wipe_sensitive_data_def set_ct_keys_def lock_screen_lock_def)

theorem unlock_needs_factors_witness:
  "\<exists>l k t. fst demo_unlock = Inr (Some (l, k, t)) \<and> ph_verify demo_hasher [65] [65] = Inr True \<and>
     both_factors demo_auth demo_attempt [65] [] (ct_db (ap_controller demo_locked)) k t (ct_db (snd demo_unlock))"
proof -
  obtain l k t where r: "fst demo_unlock = Inr (Some (l, k, t))" and k: "\<not> duress_mode k"
    using demo_unlock_ok by (auto split: sum.splits option.splits)
  then have "request_unlock demo_auth (demo_attempt, None) demo_attempt (Some [65]) [] (ap_controller demo_locked) =
      (Inr (Some (l, k, t)), snd demo_unlock)"
    by (simp add: demo_unlock_def prod_eq_iff)
  from unlock_needs_factors [OF this demo_locked_hash k] r show ?thesis by (auto simp: demo_auth_def)
qed


definition demo_duress :: controller where
  "demo_duress = set_ct_keys (snd (set_duress_password ref_key_env (replicate 32 1, [3], replicate 12 3) [7, 7] [68] set_up))
     ((start_controller empty_db)\<lparr>ct_hash := Some [65]\<rparr>)"

definition demo_in_duress :: "opened option res \<times> controller" where
  "demo_in_duress = unlock_mismatch demo_auth demo_attempt [68] demo_duress"

definition demo_again :: "opened option res \<times> controller" where
  "demo_again = request_unlock demo_auth (demo_attempt, None) demo_attempt (Some [68]) [] (snd demo_in_duress)"

lemma demo_duress_ok:
  "case fst demo_in_duress of Inr (Some x) \<Rightarrow> True | _ \<Rightarrow> False"
  "case fst demo_again of Inr (Some x) \<Rightarrow> True | _ \<Rightarrow> False"
  by code_simp+

theorem duress_keeps_sessions_witness:
  "\<exists>x a'. restore x (demo_running\<lparr>ap_controller := snd demo_in_duress\<rparr>) = (Inr (), a') \<and> ap_ratchet a' = new_ratchet_service"
proof -
  obtain x where "unlock_mismatch demo_auth demo_attempt [68] demo_duress = (Inr (Some x), snd demo_in_duress)"
    using demo_duress_ok(1) by (cases "demo_in_duress") (auto simp: demo_in_duress_def split: sum.splits option.splits)
  then have "unlock_mismatch demo_auth demo_attempt [68] (ap_controller (demo_running\<lparr>ap_controller := demo_duress\<rparr>)) =
      (Inr (Some x), snd demo_in_duress)" by simp
  from duress_keeps_sessions [OF this] obtain a' where
      "restore x (demo_running\<lparr>ap_controller := snd demo_in_duress\<rparr>) = (Inr (), a')" "ap_ratchet a' = new_ratchet_service"
    by (auto simp: demo_running_def)
  then show ?thesis by blast
qed

theorem duress_stays_decoy_witness:
  "\<exists>l k t. fst demo_again = Inr (Some (l, k, t)) \<and> duress_mode k \<and> friends k = [] \<and> totp_secret t = None"
proof -
  obtain x0 where x0: "unlock_mismatch demo_auth demo_attempt [68] demo_duress = (Inr (Some x0), snd demo_in_duress)"
    using demo_duress_ok(1) by (cases "demo_in_duress") (auto simp: demo_in_duress_def split: sum.splits option.splits)
  obtain l k t where x1: "fst demo_again = Inr (Some (l, k, t))"
    using demo_duress_ok(2) by (auto split: sum.splits option.splits)
  then have again: "request_unlock demo_auth (demo_attempt, None) demo_attempt (Some [68]) [] (snd demo_in_duress) =
      (Inr (Some (l, k, t)), snd demo_again)"
    by (simp add: demo_again_def prod_eq_iff)
  have "hasher_laws (ae_hasher demo_auth)" by (simp add: demo_auth_def demo_hash.hasher_laws_axioms)
  from duress_stays_decoy [OF this x0 refl _ again] x1 show ?thesis
    by (auto simp: DURESS_PLACEHOLDER_def ustr_def)
qed

definition demo_reset_rnd :: reset_rnd where
  "demo_reset_rnd = \<lparr>rr_priv = [6, 6], rr_global = replicate 32 3, rr_ratchet = replicate 32 2, rr_hybrid = Inl RuntimeError, rr_salts = some_rnd\<rparr>"

lemma reset_succeeds:
  assumes "key_laws E" and "privkey_to_encrypted_pem E (rr_priv rnd) pw = Inr pem"
    and "\<forall>i. length (snd (rr_salts rnd i)) = 12" "length (rr_global rnd) < 2 ^ 31" "length (rr_ratchet rnd) < 2 ^ 31"
  shows "\<exists>d'. reset_with_recovery_key E rnd pw ((k, d), m) = (Inr True, ((reset_memory E rnd k, d'), Some pw))"
proof -
  note total = db_laws.encrypt_total [OF key_laws.db [OF assms(1)]]
  obtain gs where gs: "encrypt_secret (ke_db E) (fst (rr_salts rnd 0)) (snd (rr_salts rnd 0)) (rr_global rnd) pw = Inr gs"
    using total assms(3,4) by blast
  obtain rs where rs: "encrypt_secret (ke_db E) (fst (rr_salts rnd 3)) (snd (rr_salts rnd 3)) (rr_ratchet rnd) pw = Inr rs"
    using total assms(3,5) by blast
  show ?thesis unfolding reset_with_recovery_key_def Let_def prod.case assms(2) sum.case gs rs by blast
qed

lemma reset_memory_key: "ratchet_storage_key (reset_memory E rnd k) = Some (rr_ratchet rnd)"
  by (simp add: reset_memory_def Let_def split: sum.split)

lemma demo_shares:
  "b64decode (strip (ustr ''AAAA'')) = Inr [0, 0, 0]" "b64decode (strip (ustr ''BBBB'')) = Inr [4, 16, 65]"
  "strip (ustr ''AAAA'') \<noteq> []" "strip (ustr ''BBBB'') \<noteq> []"
proof -
  have e: "ustr ''AAAA'' = b64encode [0, 0, 0]" "ustr ''BBBB'' = b64encode [4, 16, 65]"
    by (simp_all add: b64encode_def b64_char_def ustr_def)
  have s: "strip (ustr ''AAAA'') = ustr ''AAAA''" "strip (ustr ''BBBB'') = ustr ''BBBB''"
    by (rule strip_kept; simp add: ustr_def str_space_def)+
  show "b64decode (strip (ustr ''AAAA'')) = Inr [0, 0, 0]" "b64decode (strip (ustr ''BBBB'')) = Inr [4, 16, 65]"
    unfolding s unfolding e by (rule b64_roundtrip)+
  show "strip (ustr ''AAAA'') \<noteq> []" "strip (ustr ''BBBB'') \<noteq> []" unfolding s by (simp_all add: ustr_def)
qed


end
