(* ===== verification/Guarded_Memory.thy ===== *)
theory Guarded_Memory
  imports Text_Codec
begin

text \<open>
  Memory for secrets: \<^verbatim>\<open>security/guarded_buffer.py\<close>, the locking of pages in
  \<^verbatim>\<open>security/memory_security.py\<close>, and \<^verbatim>\<open>src/secure_string.py\<close>. The calls of the operating
  system are a parameter: mapping pages, changing their protection,
  unmapping and locking them.
\<close>

section \<open>Pages\<close>

definition PAGE_SIZE :: nat where "PAGE_SIZE = 4096"

text \<open>\<^verbatim>\<open>mlock_memory\<close>: the pages that hold \<open>len\<close> bytes from \<open>addr\<close>, as start and size.\<close>

definition page_span :: "int \<Rightarrow> int \<Rightarrow> int \<times> int" where
  "page_span addr len =
     (let start = addr AND NOT (int PAGE_SIZE - 1);
          stop = (addr + len + int PAGE_SIZE - 1) AND NOT (int PAGE_SIZE - 1)
      in (start, stop - start))"

text \<open>\<open>lock_pages\<close> is the answer of the system, \<open>None\<close> when the call raises.\<close>

definition mlock_memory :: "(int \<Rightarrow> int \<Rightarrow> bool option) \<Rightarrow> int \<Rightarrow> bytes \<Rightarrow> bool" where
  "mlock_memory lock_pages addr data =
     (if data = [] then False
      else case page_span addr (int (length data)) of (start, sz) \<Rightarrow> lock_pages start sz = Some True)"

section \<open>Guarded buffers\<close>

text \<open>A cell of memory is not mapped, on a page without access, or readable and writable. An access to one
  of the first two is a fault, which ends the process: the value \<open>None\<close>.\<close>

datatype cell = Unmapped | No_Access | Cell byte

type_synonym mem = "nat \<Rightarrow> cell"

record os =
  os_map :: "mem \<Rightarrow> nat \<Rightarrow> (nat \<times> mem) option"
  os_protect :: "nat \<Rightarrow> nat \<Rightarrow> mem \<Rightarrow> mem option"
  os_unmap :: "nat \<Rightarrow> nat \<Rightarrow> mem \<Rightarrow> mem"

record guarded =
  gb_size :: nat
  gb_base :: "nat option"
  gb_data_addr :: "nat option"
  gb_freed :: bool

text \<open>\<^verbatim>\<open>ctypes.memmove\<close> into the buffer, and the reading of an array of bytes.\<close>

fun store :: "nat \<Rightarrow> bytes \<Rightarrow> mem \<Rightarrow> mem option" where
  "store a [] m = Some m"
| "store a (b # bs) m = (case m a of Cell _ \<Rightarrow> store (a + 1) bs (m(a := Cell b)) | _ \<Rightarrow> None)"

fun fetch :: "nat \<Rightarrow> nat \<Rightarrow> mem \<Rightarrow> bytes option" where
  "fetch a 0 m = Some []"
| "fetch a (Suc n) m = (case m a of Cell b \<Rightarrow> map_option ((#) b) (fetch (a + 1) n m) | _ \<Rightarrow> None)"

text \<open>The constructor maps pages without access and opens those of the data. A region whose protection
  cannot be changed is released again.\<close>

definition gb_total :: "nat \<Rightarrow> nat" where "gb_total n = PAGE_SIZE + n + PAGE_SIZE"

definition gb_new :: "os \<Rightarrow> nat \<Rightarrow> mem \<Rightarrow> guarded res \<times> mem" where
  "gb_new S n m =
     (case os_map S m (gb_total n) of None \<Rightarrow> (Inl OSErr, m)
      | Some (base, m1) \<Rightarrow>
          (case os_protect S (base + PAGE_SIZE) n m1 of
             None \<Rightarrow> (Inl OSErr, os_unmap S base (gb_total n) m1)
           | Some m2 \<Rightarrow>
               (Inr \<lparr>gb_size = n, gb_base = Some base, gb_data_addr = Some (base + PAGE_SIZE), gb_freed = False\<rparr>, m2)))"

definition gb_write :: "bytes \<Rightarrow> guarded \<Rightarrow> mem \<Rightarrow> (unit res \<times> mem) option" where
  "gb_write data g m =
     (if gb_freed g then Some (Inl ValueError, m)
      else if length data > gb_size g then Some (Inl ValueError, m)
      else case gb_data_addr g of None \<Rightarrow> Some (Inl TypeError, m)
           | Some a \<Rightarrow> map_option (\<lambda>m'. (Inr (), m')) (store a data m))"

definition gb_read :: "guarded \<Rightarrow> mem \<Rightarrow> bytes res option" where
  "gb_read g m =
     (if gb_freed g then Some (Inl ValueError)
      else case gb_data_addr g of None \<Rightarrow> Some (Inl TypeError) | Some a \<Rightarrow> map_option Inr (fetch a (gb_size g) m))"

definition gb_len :: "guarded \<Rightarrow> nat res" where
  "gb_len g = (if gb_freed g then Inl ValueError else Inr (gb_size g))"

text \<open>The comparison collects the differences of all bytes instead of stopping at the first.\<close>

definition differences :: "bytes \<Rightarrow> bytes \<Rightarrow> byte" where
  "differences xs ys = fold (\<lambda>(x, y) result. result OR (x XOR y)) (zip xs ys) 0"

definition gb_eq :: "guarded \<Rightarrow> guarded \<Rightarrow> mem \<Rightarrow> bool option" where
  "gb_eq g h m =
     (if gb_freed g \<or> gb_freed h \<or> gb_size g \<noteq> gb_size h then Some False
      else case (gb_data_addr g, gb_data_addr h) of
        (Some a, Some b) \<Rightarrow>
          (case (fetch a (gb_size g) m, fetch b (gb_size h) m) of
             (Some xs, Some ys) \<Rightarrow> Some (differences xs ys = 0) | _ \<Rightarrow> None)
      | _ \<Rightarrow> None)"

definition gb_release :: "os \<Rightarrow> guarded \<Rightarrow> mem \<Rightarrow> guarded \<times> mem" where
  "gb_release S g m =
     (case gb_base g of None \<Rightarrow> (g, m)
      | Some base \<Rightarrow> (g\<lparr>gb_base := None, gb_data_addr := None, gb_freed := True\<rparr>, os_unmap S base (gb_total (gb_size g)) m))"

definition gb_wipe :: "guarded \<Rightarrow> mem \<Rightarrow> mem option" where
  "gb_wipe g m = (case gb_data_addr g of None \<Rightarrow> Some m | Some a \<Rightarrow> store a (replicate (gb_size g) 0) m)"

definition wipe_and_free :: "os \<Rightarrow> guarded \<Rightarrow> mem \<Rightarrow> (guarded \<times> mem) option" where
  "wipe_and_free S g m = (if gb_freed g then Some (g, m) else map_option (gb_release S g) (gb_wipe g m))"

section \<open>Secure strings\<close>

record secure_string =
  ss_data :: "bytes option"
  ss_wiped :: bool
  ss_mlocked :: bool

text \<open>What a secure string is made of or compared with.\<close>

datatype sensitive = Secure secure_string | Plain_Str ustr | Plain_Bytes bytes | Other_Object

definition ss_of :: "bytes \<Rightarrow> secure_string" where
  "ss_of b = \<lparr>ss_data = Some b, ss_wiped = False, ss_mlocked = False\<rparr>"

definition ss_new :: "sensitive option \<Rightarrow> secure_string res" where
  "ss_new data =
     (case data of None \<Rightarrow> Inr (ss_of [])
      | Some (Plain_Str s) \<Rightarrow> (case utf8_encode s of Inl e \<Rightarrow> Inl e | Inr b \<Rightarrow> Inr (ss_of b))
      | Some (Plain_Bytes b) \<Rightarrow> Inr (ss_of b)
      | Some _ \<Rightarrow> Inl TypeError)"

definition ss_bytes :: "secure_string \<Rightarrow> bytes" where
  "ss_bytes s = (case ss_data s of None \<Rightarrow> [] | Some b \<Rightarrow> b)"

definition ss_len :: "secure_string \<Rightarrow> nat" where
  "ss_len s = (if ss_wiped s then 0 else length (ss_bytes s))"

definition ss_bool :: "secure_string \<Rightarrow> bool" where
  "ss_bool s \<longleftrightarrow> \<not> ss_wiped s \<and> length (ss_bytes s) > 0"

definition ss_eq :: "secure_string \<Rightarrow> sensitive \<Rightarrow> bool res" where
  "ss_eq s other =
     (if ss_wiped s then Inr False
      else case other of
        Secure t \<Rightarrow> Inr (\<not> ss_wiped t \<and> ss_bytes s = ss_bytes t)
      | Plain_Str u \<Rightarrow> (case utf8_encode u of Inl e \<Rightarrow> Inl e | Inr b \<Rightarrow> Inr (ss_bytes s = b))
      | Plain_Bytes b \<Rightarrow> Inr (ss_bytes s = b)
      | Other_Object \<Rightarrow> Inr False)"

definition ss_lock :: "(int \<Rightarrow> int \<Rightarrow> bool option) \<Rightarrow> int \<Rightarrow> secure_string \<Rightarrow> secure_string" where
  "ss_lock lock_pages addr s =
     (if ss_data s \<noteq> None \<and> \<not> ss_mlocked s \<and> \<not> ss_wiped s
      then s\<lparr>ss_mlocked := mlock_memory lock_pages addr (ss_bytes s)\<rparr> else s)"

text \<open>The three passes of \<^verbatim>\<open>wipe\<close> over the byte array, and the array that is left when the string
  lets go of it.\<close>

fun overwrite :: "nat \<Rightarrow> (nat \<Rightarrow> byte) \<Rightarrow> bytes \<Rightarrow> bytes" where
  "overwrite 0 f data = data"
| "overwrite (Suc n) f data = (overwrite n f data)[n := f n]"

definition wipe_passes :: "bytes \<Rightarrow> bytes \<Rightarrow> bytes" where
  "wipe_passes random data =
     (let zeroed = overwrite (length data) (\<lambda>_. 0) data;
          mixed = (if length zeroed > 0 then overwrite (length zeroed) (\<lambda>i. random ! i) zeroed else zeroed)
      in overwrite (length mixed) (\<lambda>_. 0) mixed)"

definition ss_wipe :: "bytes \<Rightarrow> secure_string \<Rightarrow> secure_string \<times> bytes option" where
  "ss_wipe random s =
     (if ss_wiped s then (s, None)
      else (\<lparr>ss_data = None, ss_wiped = True, ss_mlocked = False\<rparr>, map_option (wipe_passes random) (ss_data s)))"

definition ss_to_str :: "secure_string \<Rightarrow> ustr res" where
  "ss_to_str s = (if ss_wiped s then Inl RuntimeError else utf8_decode (ss_bytes s))"

definition ss_to_bytes :: "secure_string \<Rightarrow> bytes res" where
  "ss_to_bytes s = (if ss_wiped s then Inl RuntimeError else Inr (ss_bytes s))"

text \<open>\<open>codec\<close> is \<^verbatim>\<open>str.encode\<close> for the chosen encoding.\<close>

definition ss_encode :: "(ustr \<Rightarrow> bytes res) \<Rightarrow> secure_string \<Rightarrow> bytes res" where
  "ss_encode codec s =
     (if ss_wiped s then Inl RuntimeError
      else case utf8_decode (ss_bytes s) of Inl e \<Rightarrow> Inl e | Inr u \<Rightarrow> codec u)"

definition ss_append :: "sensitive \<Rightarrow> secure_string \<Rightarrow> unit res \<times> secure_string" where
  "ss_append data s =
     (if ss_wiped s then (Inl RuntimeError, s)
      else case data of
        Plain_Str _ \<Rightarrow> (Inl TypeError, s)
      | Secure t \<Rightarrow>
          (if ss_wiped t then (Inl ValueError, s) else (Inr (), s\<lparr>ss_data := Some (ss_bytes s @ ss_bytes t)\<rparr>))
      | Plain_Bytes b \<Rightarrow> (Inr (), s\<lparr>ss_data := Some (ss_bytes s @ b)\<rparr>)
      | Other_Object \<Rightarrow> (Inl TypeError, s))"

definition ss_copy :: "secure_string \<Rightarrow> secure_string res" where
  "ss_copy s = (if ss_wiped s then Inl RuntimeError else Inr (ss_of (ss_bytes s)))"

definition sensitive_bytes :: "sensitive \<Rightarrow> bytes res" where
  "sensitive_bytes v =
     (case v of
        Secure s \<Rightarrow> Inr (if ss_wiped s then [] else ss_bytes s)
      | Plain_Str u \<Rightarrow> utf8_encode u
      | Plain_Bytes b \<Rightarrow> Inr b
      | Other_Object \<Rightarrow> Inl TypeError)"

definition secure_compare :: "sensitive \<Rightarrow> sensitive \<Rightarrow> bool res" where
  "secure_compare a b =
     (case sensitive_bytes a of Inl e \<Rightarrow> Inl e
      | Inr x \<Rightarrow> (case sensitive_bytes b of Inl e \<Rightarrow> Inl e | Inr y \<Rightarrow> Inr (x = y)))"

end
