(* ===== verification/Guarded_Safety.thy ===== *)
theory Guarded_Safety
  imports Guarded_Memory
begin

text \<open>
  What the memory for secrets guarantees: guarded buffers on pages of the operating system behave like
  independent byte arrays, over every sequence of operations; secure strings compare and convert like
  their contents until they are wiped.
\<close>

section \<open>The system\<close>

text \<open>Calls on pages work on whole pages: \<open>in_pages a n\<close> are the addresses of the pages of \<open>n\<close> bytes
  from \<open>a\<close>.\<close>

definition whole_pages :: "nat \<Rightarrow> nat" where "whole_pages n = (n + PAGE_SIZE - 1) div PAGE_SIZE * PAGE_SIZE"

definition in_pages :: "nat \<Rightarrow> nat \<Rightarrow> nat \<Rightarrow> bool" where
  "in_pages a n x \<longleftrightarrow> a \<le> x \<and> x < a + whole_pages n"

text \<open>What the manual pages of the system calls promise: a mapping is fresh and without access, opened
  pages of a fresh mapping are zero, unmapped pages are gone.\<close>

locale os_laws =
  fixes S :: os
  assumes map_fresh: "os_map S m n = Some (b, m') \<Longrightarrow> in_pages b n x \<Longrightarrow> m x = Unmapped"
    and map_pages: "os_map S m n = Some (b, m') \<Longrightarrow> m' x = (if in_pages b n x then No_Access else m x)"
    and protect_pages: "os_protect S a n m = Some m' \<Longrightarrow>
      m' x = (if in_pages a n x \<and> m x = No_Access then Cell 0 else m x)"
    and unmap_pages: "os_unmap S b n m x = (if in_pages b n x then Unmapped else m x)"

lemma page_pos: "0 < PAGE_SIZE" by (simp add: PAGE_SIZE_def)

lemma whole_pages_ge: "n \<le> whole_pages n"
  unfolding whole_pages_def PAGE_SIZE_def by simp

lemma whole_pages_total: "whole_pages (gb_total n) = PAGE_SIZE + whole_pages n + PAGE_SIZE"
proof -
  have "gb_total n + PAGE_SIZE - 1 = (n + PAGE_SIZE - 1) + PAGE_SIZE * 2" by (simp add: gb_total_def PAGE_SIZE_def)
  then have "(gb_total n + PAGE_SIZE - 1) div PAGE_SIZE = 2 + (n + PAGE_SIZE - 1) div PAGE_SIZE"
    using page_pos by (simp only: div_mult_self2)
  then show ?thesis by (simp add: whole_pages_def algebra_simps)
qed

text \<open>The pages of the data lie between a page before and a page behind.\<close>

lemma data_inside:
  assumes "in_pages (b + PAGE_SIZE) n x"
  shows "in_pages b (gb_total n) x"
  using assms by (auto simp: in_pages_def whole_pages_total)

lemma data_in_pages: "i < n \<Longrightarrow> in_pages (b + PAGE_SIZE) n (b + PAGE_SIZE + i)"
  using whole_pages_ge [of n] by (simp add: in_pages_def)

section \<open>Memory accesses\<close>

lemma store_iff:
  "store a bs m = Some m' \<longleftrightarrow>
     (\<forall>i<length bs. \<exists>b. m (a + i) = Cell b) \<and>
     m' = (\<lambda>x. if a \<le> x \<and> x < a + length bs then Cell (bs ! (x - a)) else m x)"
proof (induction bs arbitrary: a m)
  case Nil
  have "(\<lambda>x. if a \<le> x \<and> x < a + length [] then Cell ([] ! (x - a)) else m x) = m" by (rule ext) auto
  then show ?case by auto
next
  case (Cons c bs)
  have split: "(\<forall>i<length (c # bs). \<exists>b. m (a + i) = Cell b) \<longleftrightarrow>
      (\<exists>b. m a = Cell b) \<and> (\<forall>i<length bs. \<exists>b. (m(a := Cell c)) (a + 1 + i) = Cell b)"
    by (auto simp: less_Suc_eq_0_disj)
  have fn: "(\<lambda>x. if a + 1 \<le> x \<and> x < a + 1 + length bs then Cell (bs ! (x - (a + 1))) else (m(a := Cell c)) x) =
      (\<lambda>x. if a \<le> x \<and> x < a + length (c # bs) then Cell ((c # bs) ! (x - a)) else m x)"
    by (rule ext) (auto simp: nth_Cons')
  show ?case
  proof (cases "m a")
    case (Cell b)
    then have "store a (c # bs) m = Some m' \<longleftrightarrow> store (a + 1) bs (m(a := Cell c)) = Some m'" by simp
    also note Cons.IH
    also note fn
    finally show ?thesis unfolding split using Cell by blast
  qed (use split in auto)
qed

lemma fetch_iff: "fetch a n m = Some bs \<longleftrightarrow> length bs = n \<and> (\<forall>i<n. m (a + i) = Cell (bs ! i))"
proof (induction n arbitrary: a bs)
  case (Suc n)
  show ?case
  proof (cases bs)
    case Nil
    then show ?thesis by (auto split: cell.split)
  next
    case (Cons c cs)
    then show ?thesis using Suc.IH [of "a + 1" cs]
      by (auto simp: less_Suc_eq_0_disj split: cell.split)
  qed
qed auto

lemma or_zero_byte: "(a :: byte) OR b = 0 \<longleftrightarrow> a = 0 \<and> b = 0"
  by (auto simp: bit_eq_iff bit_or_iff)

lemma xor_zero_byte: "(a :: byte) XOR b = 0 \<longleftrightarrow> a = b"
  by (auto simp: bit_eq_iff bit_xor_iff)

lemma differences_zero:
  assumes "length xs = length ys"
  shows "differences xs ys = 0 \<longleftrightarrow> xs = ys"
proof -
  have "fold (\<lambda>(x, y) result. result OR (x XOR y)) (zip xs ys) r = 0 \<longleftrightarrow> r = 0 \<and> xs = ys" for r
    using assms
    by (induction xs ys arbitrary: r rule: list_induct2) (auto simp: or_zero_byte xor_zero_byte)
  then show ?thesis by (simp add: differences_def)
qed

section \<open>Buffers as byte arrays\<close>

text \<open>A program over several buffers, each known by its position, and what it sees.\<close>

datatype gb_op = New nat | Write nat bytes | Read nat | Compare nat nat | Free nat

datatype gb_out = Created bool | Written "unit res" | Got "bytes res" | Compared bool | Released | No_Such_Buffer | Fault

type_synonym buffers = "guarded list \<times> mem"

definition gb_step :: "os \<Rightarrow> gb_op \<Rightarrow> buffers \<Rightarrow> gb_out \<times> buffers" where
  "gb_step S op s =
     (case s of (gs, m) \<Rightarrow>
        (case op of
           New n \<Rightarrow> (case gb_new S n m of (Inl _, m') \<Rightarrow> (Created False, (gs, m')) | (Inr g, m') \<Rightarrow> (Created True, (gs @ [g], m')))
         | Write i d \<Rightarrow>
             if i \<ge> length gs then (No_Such_Buffer, s)
             else (case gb_write d (gs ! i) m of None \<Rightarrow> (Fault, s) | Some (r, m') \<Rightarrow> (Written r, (gs, m')))
         | Read i \<Rightarrow>
             if i \<ge> length gs then (No_Such_Buffer, s)
             else (case gb_read (gs ! i) m of None \<Rightarrow> (Fault, s) | Some r \<Rightarrow> (Got r, s))
         | Compare i j \<Rightarrow>
             if i \<ge> length gs \<or> j \<ge> length gs then (No_Such_Buffer, s)
             else (case gb_eq (gs ! i) (gs ! j) m of None \<Rightarrow> (Fault, s) | Some r \<Rightarrow> (Compared r, s))
         | Free i \<Rightarrow>
             if i \<ge> length gs then (No_Such_Buffer, s)
             else (case wipe_and_free S (gs ! i) m of None \<Rightarrow> (Fault, s) | Some (g, m') \<Rightarrow> (Released, (gs[i := g], m')))))"

text \<open>The specification: a buffer is its bytes, or freed. Whether a new one was created is the answer of
  the system.\<close>

fun spec_step :: "bool \<Rightarrow> gb_op \<Rightarrow> bytes option list \<Rightarrow> gb_out \<times> bytes option list" where
  "spec_step ok (New n) bs = (Created ok, if ok then bs @ [Some (replicate n 0)] else bs)"
| "spec_step ok (Write i d) bs =
     (if i \<ge> length bs then (No_Such_Buffer, bs)
      else case bs ! i of None \<Rightarrow> (Written (Inl ValueError), bs)
           | Some c \<Rightarrow> if length d > length c then (Written (Inl ValueError), bs)
                       else (Written (Inr ()), bs[i := Some (d @ drop (length d) c)]))"
| "spec_step ok (Read i) bs =
     (if i \<ge> length bs then (No_Such_Buffer, bs)
      else (Got (case bs ! i of None \<Rightarrow> Inl ValueError | Some c \<Rightarrow> Inr c), bs))"
| "spec_step ok (Compare i j) bs =
     (if i \<ge> length bs \<or> j \<ge> length bs then (No_Such_Buffer, bs)
      else (Compared (case (bs ! i, bs ! j) of (Some c, Some d) \<Rightarrow> c = d | _ \<Rightarrow> False), bs))"
| "spec_step ok (Free i) bs =
     (if i \<ge> length bs then (No_Such_Buffer, bs) else (Released, bs[i := None]))"

text \<open>A buffer with its pages holds the bytes.\<close>

definition extent :: "guarded \<Rightarrow> nat set" where
  "extent g = (case gb_base g of None \<Rightarrow> {} | Some b \<Rightarrow> {x. in_pages b (gb_total (gb_size g)) x})"

definition holds :: "mem \<Rightarrow> guarded \<Rightarrow> bytes option \<Rightarrow> bool" where
  "holds m g c \<longleftrightarrow>
     (case c of None \<Rightarrow> gb_freed g \<and> gb_base g = None
      | Some bs \<Rightarrow> \<not> gb_freed g \<and> gb_size g = length bs \<and>
          (\<exists>b. gb_base g = Some b \<and> gb_data_addr g = Some (b + PAGE_SIZE) \<and>
             fetch (b + PAGE_SIZE) (length bs) m = Some bs \<and> (\<forall>x\<in>extent g. m x \<noteq> Unmapped)))"

definition sim :: "buffers \<Rightarrow> bytes option list \<Rightarrow> bool" where
  "sim s bs \<longleftrightarrow> (case s of (gs, m) \<Rightarrow>
     length gs = length bs \<and> (\<forall>i<length gs. holds m (gs ! i) (bs ! i)) \<and>
     (\<forall>i<length gs. \<forall>j<length gs. i \<noteq> j \<longrightarrow> extent (gs ! i) \<inter> extent (gs ! j) = {}))"

lemma data_in_extent:
  "gb_base g = Some b \<Longrightarrow> i < gb_size g \<Longrightarrow> b + PAGE_SIZE + i \<in> extent g"
  by (simp add: extent_def data_inside data_in_pages)

text \<open>What happens outside of the pages of a buffer does not touch it.\<close>

lemma holds_frame:
  assumes "holds m g c" and "\<And>x. x \<in> extent g \<Longrightarrow> m' x = m x"
  shows "holds m' g c"
proof (cases c)
  case None
  with assms(1) show ?thesis by (simp add: holds_def)
next
  case (Some bs)
  with assms(1) obtain b where b: "gb_base g = Some b" "gb_data_addr g = Some (b + PAGE_SIZE)" "\<not> gb_freed g" "gb_size g = length bs"
      "fetch (b + PAGE_SIZE) (length bs) m = Some bs" "\<forall>x\<in>extent g. m x \<noteq> Unmapped"
    by (auto simp: holds_def)
  have "m' (b + PAGE_SIZE + i) = m (b + PAGE_SIZE + i)" if "i < length bs" for i
    using assms(2) data_in_extent [OF b(1), of i] that b(4) by simp
  with b(5) have "fetch (b + PAGE_SIZE) (length bs) m' = Some bs" by (simp add: fetch_iff)
  with b assms(2) Some show ?thesis by (auto simp: holds_def)
qed

lemma holds_extent_mapped: "holds m g c \<Longrightarrow> x \<in> extent g \<Longrightarrow> m x \<noteq> Unmapped"
  by (auto simp: holds_def extent_def split: option.splits)

lemma holds_store:
  assumes "holds m g (Some c)" "gb_data_addr g = Some a" "length d \<le> length c"
  shows "\<exists>m'. store a d m = Some m' \<and> holds m' g (Some (d @ drop (length d) c)) \<and> (\<forall>x. x \<notin> extent g \<longrightarrow> m' x = m x)"
proof -
  obtain b where b: "gb_base g = Some b" "a = b + PAGE_SIZE" "\<not> gb_freed g" "gb_size g = length c"
      "fetch a (length c) m = Some c" "\<forall>x\<in>extent g. m x \<noteq> Unmapped" "gb_data_addr g = Some (b + PAGE_SIZE)"
    using assms(1,2) by (auto simp: holds_def)
  define m' where "m' = (\<lambda>x. if a \<le> x \<and> x < a + length d then Cell (d ! (x - a)) else m x)"
  have cells: "m (a + i) = Cell (c ! i)" if "i < length c" for i using b(5) that by (simp add: fetch_iff)
  have st: "store a d m = Some m'" using assms(3) cells by (auto simp: store_iff m'_def)
  have "m' (a + i) = Cell ((d @ drop (length d) c) ! i)" if "i < length c" for i
    using that cells assms(3) by (auto simp: m'_def nth_append)
  then have "fetch a (length c) m' = Some (d @ drop (length d) c)" using assms(3) by (simp add: fetch_iff)
  moreover have "\<forall>x\<in>extent g. m' x \<noteq> Unmapped" using b(6) by (simp add: m'_def)
  ultimately have "holds m' g (Some (d @ drop (length d) c))" using b assms(3) by (simp add: holds_def)
  moreover have "m' x = m x" if "x \<notin> extent g" for x
  proof (rule ccontr)
    assume "m' x \<noteq> m x"
    then have "a \<le> x" "x < a + length d" by (auto simp: m'_def split: if_splits)
    then have "x = a + (x - a)" "x - a < length c" using assms(3) by auto
    with data_in_extent [OF b(1), of "x - a"] that b(2,4) show False by simp
  qed
  ultimately show ?thesis using st by blast
qed

lemma sim_update:
  assumes "sim (gs, m) bs" "i < length gs" and g: "holds m' g c" "extent g \<subseteq> extent (gs ! i)"
    and frame: "\<And>x. x \<notin> extent (gs ! i) \<Longrightarrow> m' x = m x"
  shows "sim (gs[i := g], m') (bs[i := c])"
  unfolding sim_def prod.case
proof (intro conjI allI impI)
  show "length (gs[i := g]) = length (bs[i := c])" using assms(1) by (simp add: sim_def)
next
  fix j assume j: "j < length (gs[i := g])"
  show "holds m' (gs[i := g] ! j) (bs[i := c] ! j)"
  proof (cases "j = i")
    case True
    with assms(1,2) g show ?thesis by (simp add: sim_def)
  next
    case False
    then have "holds m (gs ! j) (bs ! j)" "extent (gs ! j) \<inter> extent (gs ! i) = {}"
      using assms(1,2) j by (auto simp: sim_def)
    with holds_frame [of m "gs ! j" "bs ! j" m'] frame False show ?thesis by auto
  qed
next
  fix j k assume "j < length (gs[i := g])" "k < length (gs[i := g])" "j \<noteq> k"
  moreover have disj: "extent (gs ! p) \<inter> extent (gs ! q) = {}" if "p < length gs" "q < length gs" "p \<noteq> q" for p q
    using assms(1) that unfolding sim_def prod.case by blast
  moreover have "extent (gs[i := g] ! p) \<subseteq> extent (gs ! p)" if "p < length gs" for p
    using g(2) that by (cases "p = i") auto
  ultimately show "extent (gs[i := g] ! j) \<inter> extent (gs[i := g] ! k) = {}" by (simp, blast)
qed

text \<open>The constructor: fresh pages, the data zero.\<close>

lemma gb_new_holds:
  assumes "os_laws S" and "gb_new S n m = (Inr g, m')"
  shows "holds m' g (Some (replicate n 0)) \<and> (\<forall>x\<in>extent g. m x = Unmapped) \<and> (\<forall>x. x \<notin> extent g \<longrightarrow> m' x = m x)"
proof -
  note laws = os_laws.map_fresh [OF assms(1)] os_laws.map_pages [OF assms(1)] os_laws.protect_pages [OF assms(1)]
  obtain b m1 where map: "os_map S m (gb_total n) = Some (b, m1)" and prot: "os_protect S (b + PAGE_SIZE) n m1 = Some m'"
    and g: "g = \<lparr>gb_size = n, gb_base = Some b, gb_data_addr = Some (b + PAGE_SIZE), gb_freed = False\<rparr>"
    using assms(2) by (auto simp: gb_new_def split: option.splits)
  have ext: "x \<in> extent g \<longleftrightarrow> in_pages b (gb_total n) x" for x by (simp add: extent_def g)
  have m1: "m1 x = (if in_pages b (gb_total n) x then No_Access else m x)" for x using laws(2) [OF map] .
  have m': "m' x = (if in_pages (b + PAGE_SIZE) n x \<and> m1 x = No_Access then Cell 0 else m1 x)" for x
    using laws(3) [OF prot] .
  have "m' (b + PAGE_SIZE + i) = Cell 0" if "i < n" for i
    using data_in_pages [OF that, of b] data_inside [of b n "b + PAGE_SIZE + i"] by (simp add: m' m1)
  then have "fetch (b + PAGE_SIZE) n m' = Some (replicate n 0)" by (simp add: fetch_iff)
  moreover have "\<forall>x\<in>extent g. m' x \<noteq> Unmapped" by (auto simp: ext m' m1)
  moreover have "m x = Unmapped" if "x \<in> extent g" for x using laws(1) [OF map] that by (simp add: ext)
  moreover have "m' x = m x" if "x \<notin> extent g" for x
    using that data_inside [of b n x] by (auto simp: ext m' m1)
  ultimately show ?thesis by (simp add: holds_def g)
qed

lemma gb_new_fails:
  assumes "os_laws S" and "gb_new S n m = (Inl e, m')" and "m x \<noteq> Unmapped"
  shows "m' x = m x"
proof (cases "os_map S m (gb_total n)")
  case None
  with assms(2) show ?thesis by (simp add: gb_new_def)
next
  case (Some p)
  obtain b m1 where p: "os_map S m (gb_total n) = Some (b, m1)" using Some by (cases p) auto
  have "\<not> in_pages b (gb_total n) x" using os_laws.map_fresh [OF assms(1) p] assms(3) by blast
  moreover have "m' = os_unmap S b (gb_total n) m1" using assms(2) p by (auto simp: gb_new_def split: option.splits)
  ultimately show ?thesis using os_laws.map_pages [OF assms(1) p, of x] os_laws.unmap_pages [OF assms(1), of b "gb_total n" m1 x] by simp
qed

lemma sim_append:
  assumes "sim (gs, m) bs" "holds m' g c" "\<forall>x\<in>extent g. m x = Unmapped" "\<forall>x. x \<notin> extent g \<longrightarrow> m' x = m x"
  shows "sim (gs @ [g], m') (bs @ [c])"
proof -
  have len: "length gs = length bs" and h: "\<And>i. i < length gs \<Longrightarrow> holds m (gs ! i) (bs ! i)"
    and disj: "\<And>i j. i < length gs \<Longrightarrow> j < length gs \<Longrightarrow> i \<noteq> j \<Longrightarrow> extent (gs ! i) \<inter> extent (gs ! j) = {}"
    using assms(1) by (auto simp: sim_def)
  have apart: "extent (gs ! i) \<inter> extent g = {}" if "i < length gs" for i
    using holds_extent_mapped [OF h [OF that]] assms(3) by blast
  have "holds m' (gs ! i) (bs ! i)" if "i < length gs" for i
    using holds_frame [OF h [OF that], of m'] apart [OF that] assms(4) by blast
  with assms(2) len have "\<forall>i<length (gs @ [g]). holds m' ((gs @ [g]) ! i) ((bs @ [c]) ! i)"
    by (auto simp: nth_append less_Suc_eq)
  moreover have "extent ((gs @ [g]) ! i) \<inter> extent ((gs @ [g]) ! j) = {}"
    if "i < length (gs @ [g])" "j < length (gs @ [g])" "i \<noteq> j" for i j
    using that disj [of i j] apart [of i] apart [of j] by (auto simp: nth_append less_Suc_eq)
  ultimately show ?thesis using len by (simp add: sim_def)
qed

lemma sim_frame:
  assumes "sim (gs, m) bs" "\<And>x. m x \<noteq> Unmapped \<Longrightarrow> m' x = m x"
  shows "sim (gs, m') bs"
proof -
  have "holds m' (gs ! i) (bs ! i)" if "i < length gs" for i
  proof (rule holds_frame)
    show h: "holds m (gs ! i) (bs ! i)" using assms(1) that by (simp add: sim_def)
    show "m' x = m x" if "x \<in> extent (gs ! i)" for x using holds_extent_mapped [OF h that] assms(2) by blast
  qed
  with assms(1) show ?thesis by (simp add: sim_def)
qed

lemma sim_nth: "sim (gs, m) bs \<Longrightarrow> i < length gs \<Longrightarrow> holds m (gs ! i) (bs ! i)"
  by (simp add: sim_def)

lemma sim_length: "sim (gs, m) bs \<Longrightarrow> length gs = length bs"
  by (simp add: sim_def)

text \<open>The operations on one buffer that holds its bytes.\<close>

lemma holds_read: "holds m g c \<Longrightarrow> gb_read g m = Some (case c of None \<Rightarrow> Inl ValueError | Some bs \<Rightarrow> Inr bs)"
  by (auto simp: holds_def gb_read_def split: option.splits)

lemma holds_eq:
  assumes "holds m g c" "holds m h d"
  shows "gb_eq g h m = Some (case (c, d) of (Some x, Some y) \<Rightarrow> x = y | _ \<Rightarrow> False)"
proof (cases "c = None \<or> d = None")
  case True
  with assms show ?thesis by (auto simp: holds_def gb_eq_def split: option.splits)
next
  case False
  then obtain x y where xy: "c = Some x" "d = Some y" by auto
  with assms show ?thesis
    by (cases "length x = length y") (auto simp: holds_def gb_eq_def differences_zero)
qed

lemma holds_write:
  assumes "holds m g c"
  shows "gb_write d g m =
      (case c of None \<Rightarrow> Some (Inl ValueError, m)
       | Some bs \<Rightarrow> if length d > length bs then Some (Inl ValueError, m)
                    else map_option (\<lambda>m'. (Inr (), m')) (store (the (gb_data_addr g)) d m))"
  using assms by (auto simp: holds_def gb_write_def split: option.splits)

text \<open>Before the pages are given back every byte of the data is zero.\<close>

lemma holds_wipe:
  assumes "os_laws S" "holds m g (Some c)"
  shows "\<exists>zeroed b m'. store (the (gb_data_addr g)) (replicate (length c) 0) m = Some zeroed \<and>
    holds zeroed g (Some (replicate (length c) 0)) \<and> gb_base g = Some b \<and>
    wipe_and_free S g m = Some (g\<lparr>gb_base := None, gb_data_addr := None, gb_freed := True\<rparr>, m') \<and>
    m' = os_unmap S b (gb_total (length c)) zeroed \<and> (\<forall>x. m' x = (if x \<in> extent g then Unmapped else m x))"
proof -
  obtain b where b: "gb_base g = Some b" "gb_data_addr g = Some (b + PAGE_SIZE)" "\<not> gb_freed g" "gb_size g = length c"
    using assms(2) by (auto simp: holds_def)
  obtain z where z: "store (b + PAGE_SIZE) (replicate (length c) 0) m = Some z"
      "holds z g (Some (replicate (length c) 0))" "\<forall>x. x \<notin> extent g \<longrightarrow> z x = m x"
    using holds_store [OF assms(2) b(2), of "replicate (length c) 0"] by auto
  have "os_unmap S b (gb_total (length c)) z x = (if x \<in> extent g then Unmapped else m x)" for x
    using os_laws.unmap_pages [OF assms(1), of b "gb_total (length c)" z x] z(3) by (auto simp: extent_def b)
  with b z show ?thesis by (auto simp: wipe_and_free_def gb_wipe_def gb_release_def)
qed

lemma gb_step_refines:
  assumes laws: "os_laws S" and sim: "sim (gs, m) bs" and step: "gb_step S op (gs, m) = (out, s')"
  shows "\<exists>ok bs'. spec_step ok op bs = (out, bs') \<and> sim s' bs'"
proof (cases op)
  case (New n)
  show ?thesis
  proof (cases "gb_new S n m")
    case (Pair r m')
    show ?thesis
    proof (cases r)
      case (Inl e)
      with Pair have "gb_new S n m = (Inl e, m')" by simp
      from gb_new_fails [OF laws this] sim_frame [OF sim, of m'] have "sim (gs, m') bs" by blast
      with step New Pair Inl show ?thesis by (auto simp: gb_step_def intro: exI [of _ False])
    next
      case (Inr g)
      with Pair have "gb_new S n m = (Inr g, m')" by simp
      from gb_new_holds [OF laws this] sim_append [OF sim, of m' g] have "sim (gs @ [g], m') (bs @ [Some (replicate n 0)])" by blast
      with step New Pair Inr show ?thesis by (auto simp: gb_step_def intro: exI [of _ True])
    qed
  qed
next
  case (Write i d)
  show ?thesis
  proof (cases "i < length gs")
    case True
    note h = sim_nth [OF sim True]
    show ?thesis
    proof (cases "bs ! i")
      case None
      with holds_write [OF h] step Write True sim sim_length [OF sim] show ?thesis by (auto simp: gb_step_def)
    next
      case (Some c)
      show ?thesis
      proof (cases "length d > length c")
        case long: True
        with holds_write [OF h] Some step Write True sim sim_length [OF sim] show ?thesis by (auto simp: gb_step_def)
      next
        case False
        obtain a where a: "gb_data_addr (gs ! i) = Some a" using h Some by (auto simp: holds_def)
        obtain m' where m': "store a d m = Some m'" "holds m' (gs ! i) (Some (d @ drop (length d) c))"
            "\<forall>x. x \<notin> extent (gs ! i) \<longrightarrow> m' x = m x"
          using holds_store [OF h [unfolded Some] a, of d] False by auto
        have "sim (gs[i := gs ! i], m') (bs[i := Some (d @ drop (length d) c)])"
          using m' by (intro sim_update [OF sim True]) auto
        then have "sim (gs, m') (bs[i := Some (d @ drop (length d) c)])" by simp
        with holds_write [OF h, of d] Some False a m'(1) step Write True sim_length [OF sim]
        show ?thesis by (auto simp: gb_step_def)
      qed
    qed
  next
    case False
    with step Write sim sim_length [OF sim] show ?thesis by (auto simp: gb_step_def)
  qed
next
  case (Read i)
  with step sim sim_length [OF sim] holds_read [OF sim_nth [OF sim]] show ?thesis
    by (cases "i < length gs") (auto simp: gb_step_def)
next
  case (Compare i j)
  with step sim sim_length [OF sim] holds_eq [OF sim_nth [OF sim] sim_nth [OF sim]] show ?thesis
    by (cases "i < length gs \<and> j < length gs") (auto simp: gb_step_def not_less)
next
  case (Free i)
  show ?thesis
  proof (cases "i < length gs")
    case True
    note h = sim_nth [OF sim True]
    show ?thesis
    proof (cases "bs ! i")
      case None
      then have "wipe_and_free S (gs ! i) m = Some (gs ! i, m)" using h by (simp add: holds_def wipe_and_free_def)
      moreover have "bs[i := None] = bs" using None by (metis list_update_id)
      ultimately show ?thesis using step Free True sim sim_length [OF sim] by (auto simp: gb_step_def)
    next
      case (Some c)
      obtain m' where w: "wipe_and_free S (gs ! i) m = Some ((gs ! i)\<lparr>gb_base := None, gb_data_addr := None, gb_freed := True\<rparr>, m')"
          "\<forall>x. m' x = (if x \<in> extent (gs ! i) then Unmapped else m x)"
        using holds_wipe [OF laws h [unfolded Some]] by blast
      have "sim (gs[i := (gs ! i)\<lparr>gb_base := None, gb_data_addr := None, gb_freed := True\<rparr>], m') (bs[i := None])"
        using w(2) by (intro sim_update [OF sim True]) (auto simp: holds_def extent_def)
      with step Free True w(1) sim_length [OF sim] show ?thesis by (auto simp: gb_step_def)
    qed
  next
    case False
    with step Free sim sim_length [OF sim] show ?thesis by (auto simp: gb_step_def)
  qed
qed

fun gb_run :: "os \<Rightarrow> gb_op list \<Rightarrow> buffers \<Rightarrow> gb_out list" where
  "gb_run S [] s = []"
| "gb_run S (op # ops) s = (case gb_step S op s of (out, s') \<Rightarrow> out # gb_run S ops s')"

fun spec_run :: "(bool \<times> gb_op) list \<Rightarrow> bytes option list \<Rightarrow> gb_out list" where
  "spec_run [] bs = []"
| "spec_run ((ok, op) # ops) bs = (case spec_step ok op bs of (out, bs') \<Rightarrow> out # spec_run ops bs')"

lemma gb_run_refines:
  assumes "os_laws S" "sim s bs"
  shows "\<exists>oks. length oks = length ops \<and> gb_run S ops s = spec_run (zip oks ops) bs"
  using assms(2)
proof (induction ops arbitrary: s bs)
  case (Cons op ops)
  obtain gs m out s' where s: "s = (gs, m)" and step: "gb_step S op (gs, m) = (out, s')"
    by (metis surj_pair)
  obtain ok bs' where 1: "spec_step ok op bs = (out, bs')" "sim s' bs'"
    using gb_step_refines [OF assms(1) Cons.prems [unfolded s] step] by blast
  from Cons.IH [OF 1(2)] obtain oks where "length oks = length ops" "gb_run S ops s' = spec_run (zip oks ops) bs'" by blast
  then show ?case using s step 1(1) by (intro exI [of _ "ok # oks"]) simp
qed simp


text \<open>A system with room for one buffer.\<close>

definition ref_os :: os where
  "ref_os =
     \<lparr>os_map = (\<lambda>m n. if list_all (\<lambda>x. m x = Unmapped) [65536..<65536 + whole_pages n]
        then Some (65536, \<lambda>x. if in_pages 65536 n x then No_Access else m x) else None),
      os_protect = (\<lambda>a n m. Some (\<lambda>x. if in_pages a n x \<and> m x = No_Access then Cell 0 else m x)),
      os_unmap = (\<lambda>b n m x. if in_pages b n x then Unmapped else m x)\<rparr>"

interpretation ref_os: os_laws ref_os
  by unfold_locales (auto simp: ref_os_def list_all_iff in_pages_def split: if_splits)


text \<open>The page that is locked for a secret covers it.\<close>

lemma int_and_not_page: "(x :: int) AND NOT (int PAGE_SIZE - 1) = x div 4096 * 4096"
proof -
  have "x AND NOT (mask 12) = push_bit 12 (drop_bit 12 x)"
    by (rule bit_eqI) (auto simp: bit_and_iff bit_not_iff bit_mask_iff bit_push_bit_iff bit_drop_bit_eq)
  then show ?thesis by (simp add: push_bit_eq_mult drop_bit_eq_div mask_eq_exp_minus_1 PAGE_SIZE_def)
qed

lemma page_span_covers:
  assumes "page_span addr len = (start, sz)" "0 \<le> len"
  shows "start \<le> addr \<and> addr + len \<le> start + sz \<and> start mod 4096 = 0 \<and> sz mod 4096 = 0 \<and> sz < len + 2 * 4096"
proof -
  have p: "start = addr div 4096 * 4096" "start + sz = (addr + len + 4095) div 4096 * 4096"
    using assms(1) unfolding page_span_def Let_def int_and_not_page by (auto simp: PAGE_SIZE_def)
  have "sz = ((addr + len + 4095) div 4096 - addr div 4096) * 4096" using p by (simp add: algebra_simps)
  then have "sz mod 4096 = 0" by simp
  with p assms(2) show ?thesis by (auto simp: minus_mod_eq_div_mult [symmetric])
qed

text \<open>The guard pages trap an access just before the buffer; the bytes behind it up to the end of its
  last page are open.\<close>

theorem overrun_reaches_page_end:
  assumes "os_laws S" "gb_new S n m = (Inr g, m')" "gb_data_addr g = Some a"
  shows "m' (a - 1) = No_Access \<and> m' (a + whole_pages n) = No_Access \<and>
    (\<forall>i. i < whole_pages n \<longrightarrow> m' (a + i) = Cell 0)"
proof -
  obtain b m1 where map: "os_map S m (gb_total n) = Some (b, m1)" and prot: "os_protect S (b + PAGE_SIZE) n m1 = Some m'"
    and a: "a = b + PAGE_SIZE"
    using assms(2,3) by (auto simp: gb_new_def split: option.splits)
  have inside: "in_pages b (gb_total n) x \<longleftrightarrow> b \<le> x \<and> x < a + whole_pages n + PAGE_SIZE" for x
    by (simp add: in_pages_def whole_pages_total a add.assoc)
  have data: "in_pages a n x \<longleftrightarrow> a \<le> x \<and> x < a + whole_pages n" for x by (simp add: in_pages_def)
  have m': "m' x = (if a \<le> x \<and> x < a + whole_pages n then Cell 0 else No_Access)"
    if "b \<le> x" "x < a + whole_pages n + PAGE_SIZE" for x
    using os_laws.protect_pages [OF assms(1) prot, of x] os_laws.map_pages [OF assms(1) map, of x] that
    by (simp add: inside data [unfolded a] a)
  show ?thesis using m' [of "a - 1"] m' [of "a + whole_pages n"] m' page_pos by (auto simp: a)
qed

theorem overrun_reaches_page_end_witness:
  "\<exists>g m' a. gb_new ref_os 3 (\<lambda>_. Unmapped) = (Inr g, m') \<and> gb_data_addr g = Some a \<and> m' (a + 4095) = Cell 0 \<and> m' (a - 1) = No_Access"
proof -
  obtain g m' where g: "gb_new ref_os 3 (\<lambda>_. Unmapped) = (Inr g, m')" by (simp add: gb_new_def ref_os_def list_all_iff)
  obtain a where a: "gb_data_addr g = Some a" using g by (auto simp: gb_new_def split: option.splits)
  have "whole_pages 3 = 4096" by (simp add: whole_pages_def PAGE_SIZE_def)
  with overrun_reaches_page_end [OF ref_os.os_laws_axioms g a] g a show ?thesis by auto
qed

section \<open>Secure strings\<close>

lemma overwrite_length [simp]: "length (overwrite n f data) = length data"
  by (induction n) auto

lemma overwrite_Nil [simp]: "overwrite n f data = [] \<longleftrightarrow> data = []"
  by (metis length_0_conv overwrite_length)

lemma overwrite_nth: "i < length data \<Longrightarrow> overwrite n f data ! i = (if i < n then f i else data ! i)"
  by (induction n) (auto simp: nth_list_update less_Suc_eq)

lemma wipe_passes_zero: "wipe_passes random data = replicate (length data) 0"
proof (rule nth_equalityI)
  show "length (wipe_passes random data) = length (replicate (length data) (0 :: byte))"
    by (simp add: wipe_passes_def Let_def)
  show "wipe_passes random data ! i = replicate (length data) 0 ! i" if "i < length (wipe_passes random data)" for i
  proof -
    have i: "i < length data" using that by (simp add: wipe_passes_def Let_def split: if_splits)
    then have "data \<noteq> []" by auto
    with i show ?thesis by (simp add: wipe_passes_def Let_def overwrite_nth)
  qed
qed

text \<open>A secure string is its contents until it is wiped.\<close>

theorem secure_string_contents:
  assumes "utf8_encode u = Inr b" "ss_new (Some (Plain_Str u)) = Inr s"
  shows "ss_to_str s = Inr u \<and> ss_to_bytes s = Inr b \<and> ss_len s = length b \<and>
    ss_eq s (Plain_Str v) = (case utf8_encode v of Inl e \<Rightarrow> Inl e | Inr c \<Rightarrow> Inr (b = c)) \<and>
    (\<exists>w. ss_wipe random s = (w, Some (replicate (length b) 0)) \<and> ss_to_str w = Inl RuntimeError \<and>
      ss_to_bytes w = Inl RuntimeError \<and> ss_len w = 0 \<and> \<not> ss_bool w \<and> ss_eq w x = Inr False)"
proof -
  have "s = ss_of b" using assms by (simp add: ss_new_def)
  then show ?thesis using utf8_roundtrip [OF assms(1)]
    by (simp add: ss_of_def ss_to_str_def ss_to_bytes_def ss_len_def ss_eq_def ss_bytes_def ss_wipe_def ss_bool_def wipe_passes_zero
        split: sum.split)
qed

theorem secure_string_contents_witness:
  "\<exists>s. ss_new (Some (Plain_Str (ustr ''pw''))) = Inr s \<and> ss_to_str s = Inr (ustr ''pw'') \<and>
    ss_eq s (Plain_Str (ustr ''pw'')) = Inr True \<and> ss_to_str (fst (ss_wipe [1, 2] s)) = Inl RuntimeError"
proof -
  have b: "utf8_encode (ustr ''pw'') = Inr [112, 119]" by (simp add: ustr_def utf8_char_def)
  then have s: "ss_new (Some (Plain_Str (ustr ''pw''))) = Inr (ss_of [112, 119])" by (simp add: ss_new_def)
  from secure_string_contents [OF b s, of "ustr ''pw''" "[1, 2]" Other_Object] s b show ?thesis by auto
qed

text \<open>A wiped string compares equal to the empty one in \<^verbatim>\<open>secure_compare\<close>, though not to itself
  under \<^verbatim>\<open>==\<close>.\<close>

theorem wiped_compares_empty:
  "ss_wiped s \<Longrightarrow> secure_compare (Secure s) (Plain_Bytes []) = Inr True \<and> ss_eq s (Secure s) = Inr False"
  by (simp add: secure_compare_def sensitive_bytes_def ss_eq_def)

theorem wiped_compares_empty_witness:
  "secure_compare (Secure (fst (ss_wipe [] (ss_of [1])))) (Plain_Bytes []) = Inr True"
  using wiped_compares_empty [of "fst (ss_wipe [] (ss_of [1]))"] by (simp add: ss_wipe_def ss_of_def)

end
