(* ===== verification/Task_Queue.thy ===== *)
theory Task_Queue
  imports State_Machine "HOL-Library.Multiset"
begin

text \<open>
  Background work: \<^verbatim>\<open>services/crypto_task_queue.py\<close>, \<^verbatim>\<open>src/timeout.py\<close> and
  \<^verbatim>\<open>src/crypto_task_helper.py\<close>. A pool of threads is its queue, first in first out, and the tasks its
  threads are busy with; which thread goes on next is the choice of a step. A task is what its function
  will do: return or raise, or never come back.
\<close>

section \<open>Tasks\<close>

text \<open>The number of the submission, the function, its effective timeout, whether the two callbacks are given,
  and the pool that has the task.\<close>

datatype work = Finishes "nat res" | Hangs

record task =
  tk_id :: nat
  tk_work :: work
  tk_timeout :: "rat option"
  tk_on_success :: bool
  tk_on_error :: bool
  tk_pool :: nat

text \<open>What reaches the main thread.\<close>

datatype callback = On_Success nat nat | On_Error nat enigma_error

section \<open>The queue\<close>

text \<open>\<open>cq_executor\<close> is the outer pool that takes tasks, by the number of its creation: the threads of one that
  was shut down without waiting still empty its queue. \<open>cq_inner\<close> is the executor for timeouts, with one thread, once it exists: its queue and the task its
  thread is busy with. A thread of the outer pool that waits for it is in \<open>cq_active\<close>.\<close>

record task_queue =
  cq_max_workers :: nat
  cq_default_timeout :: "rat option"
  cq_running :: bool
  cq_executor :: "nat option"
  cq_created :: nat
  cq_waiting :: "task list"
  cq_active :: "task list"
  cq_inner :: "(task list \<times> task option) option"
  cq_task_count :: nat
  cq_completed_count :: nat
  cq_dispatched :: "callback list"

definition new_task_queue :: "nat \<Rightarrow> rat option \<Rightarrow> task_queue" where
  "new_task_queue max_workers default_timeout =
     \<lparr>cq_max_workers = max_workers, cq_default_timeout = default_timeout, cq_running = False, cq_executor = None,
      cq_created = 0, cq_waiting = [], cq_active = [], cq_inner = None, cq_task_count = 0, cq_completed_count = 0, cq_dispatched = []\<rparr>"

definition pending_tasks :: "task_queue \<Rightarrow> int" where
  "pending_tasks q = int (cq_task_count q) - int (cq_completed_count q)"

definition queue_start :: "task_queue \<Rightarrow> task_queue" where
  "queue_start q =
     (if cq_running q then q
      else q\<lparr>cq_executor := Some (cq_created q), cq_created := cq_created q + 1, cq_running := True\<rparr>)"

text \<open>Work that was submitted goes on after a shutdown, which itself returns only when the pool is empty if it
  waits. The timeout of the method is read by nothing.\<close>

definition queue_shutdown :: "task_queue \<Rightarrow> task_queue" where
  "queue_shutdown q = (if \<not> cq_running q then q else q\<lparr>cq_running := False, cq_executor := None\<rparr>)"

definition shutdown_returns :: "bool \<Rightarrow> task_queue \<Rightarrow> bool" where
  "shutdown_returns wait q \<longleftrightarrow>
     (case cq_executor q of None \<Rightarrow> True
      | Some n \<Rightarrow> \<not> cq_running q \<or> \<not> wait \<or> (\<forall>t\<in>set (cq_waiting q @ cq_active q). tk_pool t \<noteq> n))"

text \<open>\<^verbatim>\<open>submit\<close>; the priority is read by nothing.\<close>

definition queue_submit :: "work \<Rightarrow> rat option \<Rightarrow> bool \<Rightarrow> bool \<Rightarrow> nat \<Rightarrow> task_queue \<Rightarrow> nat res \<times> task_queue" where
  "queue_submit f timeout on_success on_error priority q =
     (case (cq_running q, cq_executor q) of
        (True, Some pool) \<Rightarrow>
          (let n = cq_task_count q;
               t = \<lparr>tk_id = n, tk_work = f,
                    tk_timeout = (case timeout of Some x \<Rightarrow> Some x | None \<Rightarrow> cq_default_timeout q),
                    tk_on_success = on_success, tk_on_error = on_error, tk_pool = pool\<rparr>
           in (Inr n, q\<lparr>cq_waiting := cq_waiting q @ [t], cq_task_count := n + 1\<rparr>))
      | _ \<Rightarrow> (Inl RuntimeError, q))"

definition submit_priority :: "nat \<Rightarrow> work \<Rightarrow> rat option \<Rightarrow> bool \<Rightarrow> bool \<Rightarrow> task_queue \<Rightarrow> nat res \<times> task_queue" where
  "submit_priority priority f timeout on_success on_error q = queue_submit f timeout on_success on_error priority q"

text \<open>\<^verbatim>\<open>_on_done\<close>: the count and one callback, if it is given.\<close>

definition on_done :: "task \<Rightarrow> nat res \<Rightarrow> task_queue \<Rightarrow> task_queue" where
  "on_done t r q =
     (let q1 = q\<lparr>cq_completed_count := cq_completed_count q + 1\<rparr> in
      case r of
        Inr x \<Rightarrow> if tk_on_success t then q1\<lparr>cq_dispatched := cq_dispatched q1 @ [On_Success (tk_id t) x]\<rparr> else q1
      | Inl e \<Rightarrow> if tk_on_error t then q1\<lparr>cq_dispatched := cq_dispatched q1 @ [On_Error (tk_id t) e]\<rparr> else q1)"

definition task_done :: "task \<Rightarrow> nat res \<Rightarrow> task_queue \<Rightarrow> task_queue" where
  "task_done t r q = on_done t r (q\<lparr>cq_active := remove1 t (cq_active q)\<rparr>)"

definition limited :: "task \<Rightarrow> bool" where
  "limited t \<longleftrightarrow> (case tk_timeout t of None \<Rightarrow> False | Some x \<Rightarrow> 0 < x)"

text \<open>A thread of a pool takes the oldest task of its pool; one with a timeout is handed to the inner executor,
  which is created on the way. The look at the attribute, the creation and the submission are one step here:
  in the code two threads may both find it missing, and the later of the two executors stays.\<close>

definition pool_load :: "nat \<Rightarrow> task_queue \<Rightarrow> nat" where
  "pool_load pool q = length (filter (\<lambda>t. tk_pool t = pool) (cq_active q))"

definition take_task :: "nat \<Rightarrow> task_queue \<Rightarrow> task_queue option" where
  "take_task pool q =
     (case find (\<lambda>t. tk_pool t = pool) (cq_waiting q) of None \<Rightarrow> None
      | Some t \<Rightarrow>
          if pool_load pool q \<ge> cq_max_workers q then None
          else let q1 = q\<lparr>cq_waiting := remove1 t (cq_waiting q), cq_active := cq_active q @ [t]\<rparr> in
               if \<not> limited t then Some q1
               else case (case cq_inner q1 of None \<Rightarrow> ([], None) | Some i \<Rightarrow> i) of
                      (queued, busy) \<Rightarrow> Some (q1\<lparr>cq_inner := Some (queued @ [t], busy)\<rparr>))"

text \<open>The thread of the inner executor takes its oldest task when it is free.\<close>

definition inner_take :: "task_queue \<Rightarrow> task_queue option" where
  "inner_take q =
     (case cq_inner q of Some (t # rest, None) \<Rightarrow> Some (q\<lparr>cq_inner := Some (rest, Some t)\<rparr>) | _ \<Rightarrow> None)"

text \<open>The function of a task without a timeout ends in its thread; that of a task with one ends in the inner
  thread, and its result reaches the waiting thread unless that has given up.\<close>

definition finish_direct :: "task \<Rightarrow> task_queue \<Rightarrow> task_queue option" where
  "finish_direct t q =
     (case tk_work t of Hangs \<Rightarrow> None
      | Finishes r \<Rightarrow> if t \<in> set (cq_active q) \<and> \<not> limited t then Some (task_done t r q) else None)"

definition finish_inner :: "task_queue \<Rightarrow> task_queue option" where
  "finish_inner q =
     (case cq_inner q of Some (queued, Some t) \<Rightarrow>
        (case tk_work t of Hangs \<Rightarrow> None
         | Finishes r \<Rightarrow>
             (let q1 = q\<lparr>cq_inner := Some (queued, None)\<rparr> in
              Some (if t \<in> set (cq_active q) then task_done t r q1 else q1)))
      | _ \<Rightarrow> None)"

text \<open>The waiting thread gives up: the function is neither cancelled nor taken out of the inner queue.\<close>

definition give_up :: "task \<Rightarrow> task_queue \<Rightarrow> task_queue option" where
  "give_up t q = (if t \<in> set (cq_active q) \<and> limited t then Some (task_done t (Inl CryptoTimeoutError) q) else None)"

text \<open>\<^verbatim>\<open>drain\<close>: the numbers of pending tasks it sees while it polls, until the time is up.\<close>

fun drain :: "int list \<Rightarrow> bool" where
  "drain [] = False"
| "drain (pending # later) = (if pending > 0 then drain later else True)"

inductive queue_step :: "task_queue \<Rightarrow> task_queue \<Rightarrow> bool" where
  step_start: "queue_step q (queue_start q)"
| step_shutdown: "queue_step q (queue_shutdown q)"
| step_submit: "queue_submit f timeout s e p q = (r, q') \<Longrightarrow> queue_step q q'"
| step_take: "take_task pool q = Some q' \<Longrightarrow> queue_step q q'"
| step_inner: "inner_take q = Some q' \<Longrightarrow> queue_step q q'"
| step_direct: "finish_direct t q = Some q' \<Longrightarrow> queue_step q q'"
| step_finish: "finish_inner q = Some q' \<Longrightarrow> queue_step q q'"
| step_give_up: "give_up t q = Some q' \<Longrightarrow> queue_step q q'"

inductive_cases queue_stepE: "queue_step q q'"

section \<open>Handing callbacks to the main thread\<close>

text \<open>\<^verbatim>\<open>_dispatch_to_main\<close>: with a root the callback is queued there; when the root is gone, or there is
  none, it is called at once and what it raises is logged. The result tells where it ran.\<close>

datatype place = Main_Thread | Calling_Thread

definition dispatch_to_main :: "bool \<Rightarrow> bool \<Rightarrow> place" where
  "dispatch_to_main has_root after_works = (if has_root \<and> after_works then Main_Thread else Calling_Thread)"

text \<open>The helper of the views: through the queue, or in a thread of its own. What the thread calls, and
  where; \<open>frame\<close> and \<open>task_queue\<close> tell whether they were given.\<close>

datatype legacy_call = Call_Success nat | Show_Error enigma_error | Call_Error enigma_error

definition legacy_task :: "bool \<Rightarrow> bool \<Rightarrow> bool \<Rightarrow> nat res \<Rightarrow> (place \<times> legacy_call) list" where
  "legacy_task frame task_queue on_error result =
     (case result of
        Inr r \<Rightarrow> if frame \<or> task_queue then [(Main_Thread, Call_Success r)] else []
      | Inl e \<Rightarrow> (if frame \<or> task_queue then [(Main_Thread, Show_Error e)] else []) @
                 (if on_error then [(Calling_Thread, Call_Error e)] else []))"

definition submit_crypto_task ::
  "task_queue option \<Rightarrow> work \<Rightarrow> bool \<Rightarrow> bool \<Rightarrow> rat \<Rightarrow> bool \<Rightarrow> bool \<Rightarrow>
   (nat res \<times> task_queue) option \<times> (place \<times> legacy_call) list" where
  "submit_crypto_task cq f on_success on_error fallback_timeout frame task_queue =
     (case cq of Some q \<Rightarrow> (Some (queue_submit f (Some fallback_timeout) on_success on_error 0 q), [])
      | None \<Rightarrow> (None, case f of Hangs \<Rightarrow> [] | Finishes r \<Rightarrow> legacy_task frame task_queue on_error r))"

section \<open>The shared executor\<close>

text \<open>\<^verbatim>\<open>src/timeout.py\<close>: the executor by the number of its creation.\<close>

record shared_executor =
  se_executor :: "nat option"
  se_shutdown :: bool
  se_created :: nat

definition get_executor :: "shared_executor \<Rightarrow> nat \<times> shared_executor" where
  "get_executor s =
     (case (se_executor s, se_shutdown s) of
        (Some n, False) \<Rightarrow> (n, s)
      | _ \<Rightarrow> (se_created s, s\<lparr>se_executor := Some (se_created s), se_shutdown := False, se_created := se_created s + 1\<rparr>))"

definition shutdown_timeout_executor :: "shared_executor \<Rightarrow> shared_executor" where
  "shutdown_timeout_executor s =
     (if se_executor s \<noteq> None then s\<lparr>se_executor := None, se_shutdown := True\<rparr> else s)"

text \<open>\<open>run\<close> is when the function ends after it was submitted, and with what; \<open>None\<close> if never.\<close>

definition run_with_timeout :: "rat \<Rightarrow> (rat \<times> 'a res) option \<Rightarrow> shared_executor \<Rightarrow> 'a res \<times> shared_executor" where
  "run_with_timeout timeout_seconds run s =
     (case get_executor s of (_, s1) \<Rightarrow>
        (case run of
           None \<Rightarrow> (Inl CryptoTimeoutError, s1)
         | Some (duration, r) \<Rightarrow> (if duration \<le> timeout_seconds then r else Inl CryptoTimeoutError, s1)))"

section \<open>Counting\<close>

definition callback_id :: "callback \<Rightarrow> nat" where
  "callback_id c = (case c of On_Success n _ \<Rightarrow> n | On_Error n _ \<Rightarrow> n)"

text \<open>Every task that was submitted waits, is active or is completed; the callbacks are of completed tasks,
  each at most once.\<close>

definition open_ids :: "task_queue \<Rightarrow> nat list" where
  "open_ids q = map tk_id (cq_waiting q @ cq_active q)"

definition tracked :: "task_queue \<Rightarrow> nat list" where
  "tracked q = open_ids q @ map callback_id (cq_dispatched q)"

definition queue_inv :: "task_queue \<Rightarrow> bool" where
  "queue_inv q \<longleftrightarrow>
     cq_task_count q = cq_completed_count q + length (open_ids q) \<and> (\<forall>pool. pool_load pool q \<le> cq_max_workers q) \<and>
     distinct (tracked q) \<and> (\<forall>n\<in>set (tracked q). n < cq_task_count q)"

definition queue_init :: "task_queue \<Rightarrow> bool" where
  "queue_init q \<longleftrightarrow> (\<exists>w d. q = new_task_queue w d)"

lemma length_remove1_Suc: "x \<in> set xs \<Longrightarrow> length xs = Suc (length (remove1 x xs))"
  by (induction xs) auto

lemma tracked_done:
  assumes "t \<in> set (cq_active q)"
  shows "mset (tracked q) = mset (tracked (task_done t r q)) \<or>
    mset (tracked q) = add_mset (tk_id t) (mset (tracked (task_done t r q)))"
proof -
  have "mset (map tk_id (cq_active q)) = add_mset (tk_id t) (mset (map tk_id (remove1 t (cq_active q))))"
    using assms by (metis image_mset_add_mset insert_DiffM mset_map mset_remove1 set_mset_mset)
  then show ?thesis
    by (auto simp: tracked_def open_ids_def task_done_def on_done_def callback_id_def Let_def split: sum.split)
qed

lemma task_done_inv:
  assumes "queue_inv q" "t \<in> set (cq_active q)"
  shows "queue_inv (task_done t r q)"
proof -
  have len: "length (remove1 t (cq_active q)) = length (cq_active q) - 1" "0 < length (cq_active q)"
    using assms(2) by (auto simp: length_remove1)
  have "length (filter P (remove1 t xs)) \<le> length (filter P xs)" for P and xs :: "task list" by (induction xs) auto
  then have load: "pool_load pool (task_done t r q) \<le> pool_load pool q" for pool
    by (auto simp: pool_load_def task_done_def on_done_def Let_def split: sum.split)
  have fields: "cq_task_count (task_done t r q) = cq_task_count q" "cq_waiting (task_done t r q) = cq_waiting q"
    "cq_completed_count (task_done t r q) = cq_completed_count q + 1" "cq_max_workers (task_done t r q) = cq_max_workers q"
    "cq_active (task_done t r q) = remove1 t (cq_active q)"
    by (auto simp: task_done_def on_done_def Let_def split: sum.split)
  have d: "distinct (tracked q)" "\<forall>n\<in>set (tracked q). n < cq_task_count q" using assms(1) by (auto simp: queue_inv_def)
  have "distinct (tracked (task_done t r q)) \<and> set (tracked (task_done t r q)) \<subseteq> set (tracked q)"
    using tracked_done [OF assms(2), of r]
  proof
    assume e: "mset (tracked q) = mset (tracked (task_done t r q))"
    then show ?thesis using d(1) mset_eq_imp_distinct_iff [OF e] mset_eq_setD [OF e] by simp
  next
    assume "mset (tracked q) = add_mset (tk_id t) (mset (tracked (task_done t r q)))"
    then have e: "mset (tracked q) = mset (tk_id t # tracked (task_done t r q))" by simp
    then show ?thesis using d(1) mset_eq_imp_distinct_iff [OF e] mset_eq_setD [OF e] by auto
  qed
  moreover have "pool_load pool (task_done t r q) \<le> cq_max_workers q" for pool
    using load [of pool] assms(1) by (simp add: queue_inv_def) (meson order_trans)
  ultimately show ?thesis using assms(1) d(2) len by (auto simp: queue_inv_def fields open_ids_def)
qed

text \<open>An operation that moves tasks around, and one that leaves them where they are.\<close>

lemma inv_moved:
  assumes "queue_inv q" "mset (tracked q') = mset (tracked q)" "length (open_ids q') = length (open_ids q)"
    "\<And>pool. pool_load pool q' \<le> cq_max_workers q'" "cq_task_count q' = cq_task_count q" "cq_completed_count q' = cq_completed_count q"
  shows "queue_inv q'"
proof -
  have "distinct (tracked q')" "\<forall>n\<in>set (tracked q'). n < cq_task_count q"
    using assms(1) mset_eq_imp_distinct_iff [OF assms(2)] mset_eq_setD [OF assms(2)] by (auto simp: queue_inv_def)
  then show ?thesis using assms(1,3-6) by (simp add: queue_inv_def)
qed

lemma inv_same:
  assumes "queue_inv q" "cq_waiting q' = cq_waiting q" "cq_active q' = cq_active q" "cq_dispatched q' = cq_dispatched q"
    "cq_task_count q' = cq_task_count q" "cq_completed_count q' = cq_completed_count q" "cq_max_workers q' = cq_max_workers q"
  shows "queue_inv q'"
proof (rule inv_moved [OF assms(1)])
  show "pool_load pool q' \<le> cq_max_workers q'" for pool using assms by (simp add: queue_inv_def pool_load_def)
qed (simp_all add: tracked_def open_ids_def assms)

lemma submit_inv:
  assumes "queue_inv q" "queue_submit f timeout s e p q = (r, q')"
  shows "queue_inv q'"
proof (cases "cq_running q \<and> cq_executor q \<noteq> None")
  case True
  then have m: "mset (tracked q') = mset (cq_task_count q # tracked q)" and o: "length (open_ids q') = length (open_ids q) + 1"
    and f: "cq_task_count q' = cq_task_count q + 1" "cq_completed_count q' = cq_completed_count q" "cq_active q' = cq_active q"
      "cq_max_workers q' = cq_max_workers q"
    using assms(2) by (auto simp: queue_submit_def tracked_def open_ids_def Let_def)
  have d: "distinct (tracked q)" "\<forall>n\<in>set (tracked q). n < cq_task_count q" using assms(1) by (auto simp: queue_inv_def)
  then have "distinct (cq_task_count q # tracked q)" by auto
  then have "distinct (tracked q')" using mset_eq_imp_distinct_iff [OF m] by simp
  moreover have "\<forall>n\<in>set (tracked q'). n < cq_task_count q'" using mset_eq_setD [OF m] d(2) f by (simp add: less_SucI)
  ultimately show ?thesis using assms(1) o f by (simp add: queue_inv_def pool_load_def)
next
  case False
  then have "q' = q" using assms(2) by (auto simp: queue_submit_def split: bool.splits option.splits)
  with assms(1) show ?thesis by simp
qed

lemma take_taskE:
  assumes "take_task pool q = Some q'"
  obtains t where "t \<in> set (cq_waiting q)" "tk_pool t = pool" "pool_load pool q < cq_max_workers q"
    "cq_waiting q' = remove1 t (cq_waiting q)"
    "cq_active q' = cq_active q @ [t]" "cq_dispatched q' = cq_dispatched q" "cq_task_count q' = cq_task_count q"
    "cq_completed_count q' = cq_completed_count q" "cq_max_workers q' = cq_max_workers q"
    "cq_inner q' = cq_inner q \<or> (\<exists>queued busy. cq_inner q' = Some (queued, busy) \<and>
       busy = (case cq_inner q of None \<Rightarrow> None | Some i \<Rightarrow> snd i))"
proof -
  obtain t where t: "find (\<lambda>t. tk_pool t = pool) (cq_waiting q) = Some t"
    using assms by (cases "find (\<lambda>t. tk_pool t = pool) (cq_waiting q)") (auto simp: take_task_def)
  then have "t \<in> set (cq_waiting q)" "tk_pool t = pool" by (auto simp: find_Some_iff)
  with t show ?thesis using assms that [of t]
    by (auto simp: take_task_def Let_def split: if_splits prod.splits option.splits)
qed

lemma take_task_inv:
  assumes "queue_inv q" "take_task pool q = Some q'"
  shows "queue_inv q'"
proof (rule take_taskE [OF assms(2)], rule inv_moved [OF assms(1)])
  fix t
  assume t: "t \<in> set (cq_waiting q)" "tk_pool t = pool" "pool_load pool q < cq_max_workers q"
    and f: "cq_waiting q' = remove1 t (cq_waiting q)" "cq_active q' = cq_active q @ [t]" "cq_dispatched q' = cq_dispatched q"
      "cq_max_workers q' = cq_max_workers q"
  have "mset (cq_waiting q) = add_mset t (mset (remove1 t (cq_waiting q)))" using t(1) by simp
  then have m: "mset (map tk_id (cq_waiting q)) = add_mset (tk_id t) (mset (map tk_id (remove1 t (cq_waiting q))))"
    by (metis image_mset_add_mset mset_map)
  then show "mset (tracked q') = mset (tracked q)" by (simp add: tracked_def open_ids_def f)
  have "length (cq_waiting q) = length (remove1 t (cq_waiting q)) + 1"
    using length_remove1_Suc [OF t(1)] by simp
  then show "length (open_ids q') = length (open_ids q)" by (simp add: open_ids_def f)
  show "pool_load p q' \<le> cq_max_workers q'" for p using t assms(1) by (auto simp: pool_load_def f queue_inv_def Suc_le_eq)
qed

lemma give_up_inv: "queue_inv q \<Longrightarrow> give_up t q = Some q' \<Longrightarrow> queue_inv q'"
  by (auto simp: give_up_def task_done_inv split: if_splits)

lemma finish_direct_inv: "queue_inv q \<Longrightarrow> finish_direct t q = Some q' \<Longrightarrow> queue_inv q'"
  by (auto simp: finish_direct_def task_done_inv split: work.splits if_splits)

lemma finish_inner_inv:
  assumes "queue_inv q" "finish_inner q = Some q'"
  shows "queue_inv q'"
proof -
  obtain queued t r where t: "cq_inner q = Some (queued, Some t)" "tk_work t = Finishes r"
    using assms(2) by (auto simp: finish_inner_def split: option.splits prod.splits work.splits)
  let ?q = "q\<lparr>cq_inner := Some (queued, None)\<rparr>"
  have "queue_inv ?q" by (rule inv_same [OF assms(1)]) simp_all
  with assms(2) t task_done_inv [of ?q t r] show ?thesis by (auto simp: finish_inner_def Let_def split: if_splits)
qed

interpretation crypto_queue: state_machine queue_init queue_step queue_inv
proof
  show "queue_inv q" if "queue_init q" for q
    using that by (auto simp: queue_init_def queue_inv_def new_task_queue_def tracked_def open_ids_def pool_load_def)
next
  show "queue_inv q'" if "queue_inv q" "queue_step q q'" for q q'
    using that(2,1)
  proof cases
    case step_start
    then show ?thesis using that(1) by (auto simp: queue_start_def intro: inv_same)
  next
    case step_shutdown
    then show ?thesis using that(1) by (auto simp: queue_shutdown_def intro: inv_same)
  next
    case step_inner
    then show ?thesis using that(1)
      by (auto simp: inner_take_def split: option.splits prod.splits list.splits intro: inv_same)
  qed (use that(1) submit_inv take_task_inv finish_direct_inv finish_inner_inv give_up_inv in blast)+
qed

lemma each_task_called_back_once_inv:
  "reachable queue_init queue_step q \<Longrightarrow> pending_tasks q = int (length (cq_waiting q) + length (cq_active q))"
  using crypto_queue.reachable_invariant [of q] by (auto simp: queue_inv_def open_ids_def pending_tasks_def)

text \<open>C33. No task is lost and no callback comes twice: whatever the order of submissions, threads,
  timeouts and restarts, the pending tasks are those that wait or are in a thread, no pool has more tasks than
  threads, and a task that is still open has had no callback.\<close>

theorem each_task_called_back_once:
  assumes "reachable queue_init queue_step q"
  shows "pending_tasks q = int (length (cq_waiting q) + length (cq_active q)) \<and>
    (\<forall>pool. pool_load pool q \<le> cq_max_workers q) \<and> distinct (map callback_id (cq_dispatched q)) \<and>
    set (map callback_id (cq_dispatched q)) \<inter> set (open_ids q) = {} \<and>
    (\<forall>c\<in>set (cq_dispatched q). callback_id c < cq_task_count q)"
  using crypto_queue.reachable_invariant [OF assms]
  by (auto simp: queue_inv_def tracked_def open_ids_def pending_tasks_def)

section \<open>Progress\<close>

text \<open>A thread is never blocked for good by a task that ends or has a timeout.\<close>

definition live_task :: "task \<Rightarrow> bool" where
  "live_task t \<longleftrightarrow> limited t \<or> tk_work t \<noteq> Hangs"

lemma some_step:
  assumes "0 < cq_max_workers q" "\<forall>t\<in>set (cq_waiting q @ cq_active q). live_task t"
    and "cq_waiting q @ cq_active q \<noteq> []"
  shows "\<exists>q'. queue_step q q' \<and> 2 * length (cq_waiting q') + length (cq_active q') < 2 * length (cq_waiting q) + length (cq_active q) \<and>
    cq_max_workers q' = cq_max_workers q \<and> set (cq_waiting q' @ cq_active q') \<subseteq> set (cq_waiting q @ cq_active q)"
proof (cases "cq_active q")
  case Nil
  then obtain t rest where w: "cq_waiting q = t # rest" using assms(3) by (cases "cq_waiting q") auto
  then have "take_task (tk_pool t) q \<noteq> None"
    using Nil assms(1) by (auto simp: take_task_def pool_load_def Let_def split: prod.split option.split)
  then obtain q' where q': "take_task (tk_pool t) q = Some q'" by blast
  show ?thesis
  proof (rule take_taskE [OF q'], rule exI [of _ q'])
    fix u
    assume u: "u \<in> set (cq_waiting q)" "cq_waiting q' = remove1 u (cq_waiting q)" "cq_active q' = cq_active q @ [u]"
      "cq_max_workers q' = cq_max_workers q"
    have "queue_step q q'" by (rule step_take) (rule q')
    moreover have "length (remove1 u (cq_waiting q)) < length (cq_waiting q)" using length_remove1_Suc [OF u(1)] by simp
    ultimately show "queue_step q q' \<and> 2 * length (cq_waiting q') + length (cq_active q') < 2 * length (cq_waiting q) + length (cq_active q) \<and>
        cq_max_workers q' = cq_max_workers q \<and> set (cq_waiting q' @ cq_active q') \<subseteq> set (cq_waiting q @ cq_active q)"
      using u Nil set_remove1_subset [of u "cq_waiting q"] by auto
  qed
next
  case (Cons t rest)
  then have live: "live_task t" using assms(2) by simp
  obtain r where r: "queue_step q (task_done t r q)"
  proof (cases "limited t")
    case True
    then have "give_up t q = Some (task_done t (Inl CryptoTimeoutError) q)" using Cons by (simp add: give_up_def)
    with that show ?thesis by (blast intro: queue_step.intros)
  next
    case False
    then obtain r where "tk_work t = Finishes r" using live by (cases "tk_work t") (auto simp: live_task_def)
    then have "finish_direct t q = Some (task_done t r q)" using False Cons by (simp add: finish_direct_def)
    with that show ?thesis by (blast intro: queue_step.intros)
  qed
  have "cq_waiting (task_done t r q) = cq_waiting q" "cq_active (task_done t r q) = rest" "cq_max_workers (task_done t r q) = cq_max_workers q"
    using Cons by (auto simp: task_done_def on_done_def Let_def split: sum.split)
  with r Cons show ?thesis by (intro exI [of _ "task_done t r q"]) auto
qed

text \<open>From every state the queue can reach, the work can be drained, as long as every task in it ends or has a
  timeout.\<close>

theorem queue_can_drain:
  assumes "reachable queue_init queue_step q" "0 < cq_max_workers q"
    and "\<forall>t\<in>set (cq_waiting q @ cq_active q). live_task t"
  shows "\<exists>q'. queue_step\<^sup>*\<^sup>* q q' \<and> pending_tasks q' = 0"
  using assms
proof (induction "2 * length (cq_waiting q) + length (cq_active q)" arbitrary: q rule: less_induct)
  case less
  show ?case
  proof (cases "cq_waiting q @ cq_active q = []")
    case True
    then have "pending_tasks q = 0" using each_task_called_back_once_inv [OF less.prems(1)] by simp
    then show ?thesis by blast
  next
    case False
    obtain q' where q': "queue_step q q'" "2 * length (cq_waiting q') + length (cq_active q') < 2 * length (cq_waiting q) + length (cq_active q)"
        "cq_max_workers q' = cq_max_workers q" "set (cq_waiting q' @ cq_active q') \<subseteq> set (cq_waiting q @ cq_active q)"
      using some_step [OF less.prems(2,3) False] by blast
    have "\<exists>q''. queue_step\<^sup>*\<^sup>* q' q'' \<and> pending_tasks q'' = 0"
      using q' less.prems by (intro less.hyps) (auto intro: next_state)
    with q'(1) show ?thesis by (blast intro: converse_rtranclp_into_rtranclp)
  qed
qed

section \<open>A task that never ends\<close>

text \<open>The thread of the inner executor is busy with a task that hangs.\<close>

definition stuck :: "task_queue \<Rightarrow> bool" where
  "stuck q \<longleftrightarrow> (\<exists>queued t. cq_inner q = Some (queued, Some t) \<and> tk_work t = Hangs)"

text \<open>What stays true of a task with a timeout from then on: it has not succeeded.\<close>

definition starved :: "task \<Rightarrow> task_queue \<Rightarrow> bool" where
  "starved t q \<longleftrightarrow> stuck q \<and> tk_id t < cq_task_count q \<and> (\<forall>x. On_Success (tk_id t) x \<notin> set (cq_dispatched q)) \<and>
     (\<forall>u\<in>set (cq_waiting q @ cq_active q). tk_id u = tk_id t \<longrightarrow> u = t)"

lemma starved_done:
  assumes "starved t q" "u \<in> set (cq_active q)" "u = t \<longrightarrow> r = Inl CryptoTimeoutError"
  shows "starved t (task_done u r q)"
proof -
  have u: "tk_id u = tk_id t \<longrightarrow> u = t" using assms(1,2) by (auto simp: starved_def)
  have "stuck (task_done u r q)" using assms(1)
    by (auto simp: starved_def stuck_def task_done_def on_done_def Let_def split: sum.split)
  moreover have "On_Success (tk_id t) x \<notin> set (cq_dispatched (task_done u r q))" for x
    using assms(1,3) u by (auto simp: starved_def task_done_def on_done_def Let_def split: sum.split)
  moreover have "set (cq_waiting (task_done u r q) @ cq_active (task_done u r q)) \<subseteq> set (cq_waiting q @ cq_active q)"
    using set_remove1_subset [of u "cq_active q"] by (auto simp: task_done_def on_done_def Let_def split: sum.split)
  moreover have "cq_task_count (task_done u r q) = cq_task_count q"
    by (simp add: task_done_def on_done_def Let_def split: sum.split)
  ultimately show ?thesis using assms(1) unfolding starved_def by (simp only:) blast
qed

lemma starved_step:
  assumes "starved t q" "limited t" "queue_step q q'"
  shows "starved t q'"
  using assms(3)
proof cases
  case step_start
  then show ?thesis using assms(1) by (auto simp: queue_start_def starved_def stuck_def)
next
  case step_shutdown
  then show ?thesis using assms(1) by (auto simp: queue_shutdown_def starved_def stuck_def)
next
  case (step_submit f timeout s e p r)
  then show ?thesis using assms(1)
    by (auto simp: queue_submit_def starved_def stuck_def Let_def split: bool.splits option.splits)
next
  case step_take
  then show ?thesis
  proof (rule take_taskE)
    fix v
    assume v: "v \<in> set (cq_waiting q)" "cq_waiting q' = remove1 v (cq_waiting q)" "cq_active q' = cq_active q @ [v]"
      "cq_dispatched q' = cq_dispatched q" "cq_task_count q' = cq_task_count q"
      and inner: "cq_inner q' = cq_inner q \<or> (\<exists>queued busy. cq_inner q' = Some (queued, busy) \<and>
        busy = (case cq_inner q of None \<Rightarrow> None | Some i \<Rightarrow> snd i))"
    have "stuck q'" using assms(1) inner by (auto simp: starved_def stuck_def)
    moreover have "set (cq_waiting q' @ cq_active q') \<subseteq> set (cq_waiting q @ cq_active q)"
      using v(1-3) set_remove1_subset [of v "cq_waiting q"] by auto
    ultimately show ?thesis using assms(1) v(4,5) unfolding starved_def by (simp only:) blast
  qed
next
  case step_inner
  then show ?thesis using assms(1) by (auto simp: inner_take_def starved_def stuck_def split: list.splits)
next
  case (step_direct u)
  then have "u \<in> set (cq_active q)" "\<not> limited u" and q': "\<exists>r. q' = task_done u r q"
    by (auto simp: finish_direct_def split: work.splits if_splits)
  with starved_done [OF assms(1), of u] assms(2) show ?thesis by blast
next
  case step_finish
  then show ?thesis using assms(1) by (auto simp: finish_inner_def starved_def stuck_def)
next
  case (step_give_up u)
  then have "u \<in> set (cq_active q)" "q' = task_done u (Inl CryptoTimeoutError) q"
    by (auto simp: give_up_def split: if_splits)
  with starved_done [OF assms(1), of u "Inl CryptoTimeoutError"] show ?thesis by blast
qed


section \<open>A concrete queue\<close>

text \<open>Two threads; the first task hangs, the second would return at once.\<close>

definition demo_submitted :: task_queue where
  "demo_submitted =
     snd (queue_submit (Finishes (Inr 5)) (Some 1) True True 10
       (snd (queue_submit Hangs (Some 1) True True 20 (queue_start (new_task_queue 2 None)))))"

definition demo_busy :: task_queue where
  "demo_busy = the (inner_take (the (take_task 0 (the (take_task 0 demo_submitted)))))"

definition demo_second :: task where
  "demo_second = \<lparr>tk_id = 1, tk_work = Finishes (Inr 5), tk_timeout = Some 1, tk_on_success = True, tk_on_error = True, tk_pool = 0\<rparr>"

definition demo_late :: task_queue where "demo_late = the (give_up demo_second demo_busy)"

lemma option_the: "x \<noteq> None \<Longrightarrow> x = Some (the x)"
  by (cases x) simp_all

lemma demo_defined:
  "take_task 0 demo_submitted \<noteq> None" "take_task 0 (the (take_task 0 demo_submitted)) \<noteq> None"
  "inner_take (the (take_task 0 (the (take_task 0 demo_submitted)))) \<noteq> None" "give_up demo_second demo_busy \<noteq> None"
  by code_simp+

lemma demo_busy_reachable: "reachable queue_init queue_step demo_busy"
proof -
  have "queue_init (new_task_queue 2 None)" by (auto simp: queue_init_def)
  then have "reachable queue_init queue_step (new_task_queue 2 None)" by (rule start)
  then have "reachable queue_init queue_step (queue_start (new_task_queue 2 None))" by (rule next_state) (rule step_start)
  then have "reachable queue_init queue_step (snd (queue_submit Hangs (Some 1) True True 20 (queue_start (new_task_queue 2 None))))"
    by (rule next_state) (rule step_submit [OF surjective_pairing])
  then have "reachable queue_init queue_step demo_submitted"
    unfolding demo_submitted_def by (rule next_state) (rule step_submit [OF surjective_pairing])
  then have "reachable queue_init queue_step (the (take_task 0 demo_submitted))"
    by (rule next_state) (rule step_take, rule option_the [OF demo_defined(1)])
  then have "reachable queue_init queue_step (the (take_task 0 (the (take_task 0 demo_submitted))))"
    by (rule next_state) (rule step_take, rule option_the [OF demo_defined(2)])
  then show ?thesis
    unfolding demo_busy_def by (rule next_state) (rule step_inner, rule option_the [OF demo_defined(3)])
qed

lemma demo_busy_stuck: "stuck demo_busy \<and> demo_second \<in> set (cq_waiting demo_busy @ cq_active demo_busy) \<and> limited demo_second"
proof -
  have "case cq_inner demo_busy of Some (_, Some t) \<Rightarrow> tk_work t = Hangs | _ \<Rightarrow> False" by code_simp
  moreover have "demo_second \<in> set (cq_waiting demo_busy @ cq_active demo_busy)" "limited demo_second" by code_simp+
  ultimately show ?thesis by (auto simp: stuck_def split: option.splits)
qed


theorem each_task_called_back_once_witness:
  "pending_tasks demo_busy = 2 \<and> distinct (map callback_id (cq_dispatched demo_busy))"
proof -
  have "length (cq_waiting demo_busy) + length (cq_active demo_busy) = 2" by code_simp
  with each_task_called_back_once [OF demo_busy_reachable] show ?thesis by simp
qed

theorem queue_can_drain_witness: "\<exists>q. queue_step\<^sup>*\<^sup>* demo_busy q \<and> pending_tasks q = 0"
proof (rule queue_can_drain [OF demo_busy_reachable])
  show "0 < cq_max_workers demo_busy" by code_simp
  show "\<forall>t\<in>set (cq_waiting demo_busy @ cq_active demo_busy). live_task t" by code_simp
qed

end
