(* ===== verification/Anomaly.thy ===== *)
theory Anomaly
  imports Envelope Event_Bus
begin

text \<open>
  Scoring of messages: \<^verbatim>\<open>services/anomaly_detection_service.py\<close>, \<^verbatim>\<open>models/message_score.py\<close> and the two
  calls of the facade in \<^verbatim>\<open>services/encryption/encryption_facade.py\<close>. The trained model of
  scikit-learn is a parameter: its \<^verbatim>\<open>score_samples\<close> on one row, which may raise. A float that holds an
  integer is that number.
\<close>

section \<open>Features\<close>

definition envelope_code :: "string option \<Rightarrow> rat" where
  "envelope_code env_type =
     (if env_type = Some ''ratchet'' then 0 else if env_type = Some ''pqc'' then 1
      else if env_type = Some ''legacy'' then 2 else - 1)"

text \<open>The header-like and the ciphertext-like length, read without parsing; a subtraction of lengths stops
  at 0, as \<^verbatim>\<open>max(0, ...)\<close> does.\<close>

definition extract_lengths :: "bytes \<Rightarrow> string option \<Rightarrow> rat \<times> rat" where
  "extract_lengths packet env_type =
     (if env_type = Some ''ratchet'' \<and> length packet > 4 then
        (let offset = 2 + unat (packet ! 1) in
         if offset + 2 \<le> length packet then
           (let hdr_len = be_val (slice offset (offset + 2) packet);
                offset = offset + (2 + hdr_len)
            in (of_nat hdr_len, of_nat (length packet - offset)))
         else (0, of_nat (length packet)))
      else if env_type = Some ''pqc'' \<and> length packet > 3 then
        (let kem_len = be_val (slice 1 3 packet);
             offset = 1 + (2 + kem_len + 12)
         in (of_nat (kem_len + 12), of_nat (length packet - offset)))
      else (0, of_nat (length packet)))"

text \<open>\<open>hour\<close> and \<open>weekday\<close> are those of the local time. Nothing in the extraction raises.\<close>

definition extract_features :: "nat \<Rightarrow> nat \<Rightarrow> ustr \<Rightarrow> bytes \<Rightarrow> rat list" where
  "extract_features hour weekday friend_name packet =
     (let env_type = identify_envelope_type packet;
          (header_len, ct_len) = extract_lengths packet env_type
      in [of_nat (length packet), of_nat (length friend_name), envelope_code env_type, header_len, ct_len,
          of_nat hour, of_nat weekday])"

section \<open>The score\<close>

record message_score =
  ms_friend_name :: ustr
  ms_score :: rat
  ms_is_anomaly :: bool
  ms_threshold :: rat
  ms_envelope_type :: string
  ms_packet_size :: nat
  ms_timestamp :: rat

definition confidence :: "message_score \<Rightarrow> rat" where
  "confidence m = max 0 (min 1 ((ms_score m - (- 1)) / 2))"

text \<open>The service: the model with the attribute \<^verbatim>\<open>threshold_\<close> it may have.\<close>

type_synonym forest = "(rat list \<Rightarrow> rat res) \<times> rat option"

record anomaly_service =
  an_model :: "forest option"
  an_threshold :: rat
  an_enabled :: bool

definition new_anomaly_service :: "forest res \<Rightarrow> anomaly_service" where
  "new_anomaly_service loaded =
     (let model = (case loaded of Inl _ \<Rightarrow> None | Inr m \<Rightarrow> Some m) in
      \<lparr>an_model = model,
       an_threshold = (case model of Some (_, Some t) \<Rightarrow> t | _ \<Rightarrow> - (1 / 2)),
       an_enabled = True\<rparr>)"

definition is_available :: "anomaly_service \<Rightarrow> bool" where
  "is_available svc \<longleftrightarrow> an_model svc \<noteq> None"

definition set_enabled :: "bool \<Rightarrow> anomaly_service \<Rightarrow> anomaly_service" where
  "set_enabled value svc = svc\<lparr>an_enabled := value\<rparr>"

record clock =
  ck_hour :: nat
  ck_weekday :: nat
  ck_utcnow :: rat

text \<open>\<open>kw\<close> turns a score into the arguments of the event. What the model or the publication raises is
  caught, and the answer is then \<^verbatim>\<open>None\<close>.\<close>

definition score_message ::
  "('s, 'k) handlers \<Rightarrow> (nat \<Rightarrow> bool) \<Rightarrow> (message_score \<Rightarrow> 'k) \<Rightarrow> clock \<Rightarrow> anomaly_service \<Rightarrow> ustr \<Rightarrow> bytes \<Rightarrow>
   's \<times> 'k event_bus \<Rightarrow> message_score option \<times> ('s \<times> 'k event_bus)" where
  "score_message H named kw c svc friend_name packet w =
     (case an_model svc of None \<Rightarrow> (None, w)
      | Some (score_samples, _) \<Rightarrow>
          if \<not> an_enabled svc then (None, w)
          else case score_samples (extract_features (ck_hour c) (ck_weekday c) friend_name packet) of
            Inl _ \<Rightarrow> (None, w)
          | Inr score \<Rightarrow>
              (let is_anomaly = score < an_threshold svc;
                   result = \<lparr>ms_friend_name = friend_name, ms_score = score, ms_is_anomaly = is_anomaly,
                     ms_threshold = an_threshold svc,
                     ms_envelope_type = (case identify_envelope_type packet of Some t \<Rightarrow> t | None \<Rightarrow> ''unknown''),
                     ms_packet_size = length packet, ms_timestamp = ck_utcnow c\<rparr>
               in if is_anomaly then
                    (case publish H named (ustr ''anomaly_detected'') (kw result) w of
                       (Inl _, w1) \<Rightarrow> (None, w1)
                     | (Inr _, w1) \<Rightarrow> (Some result, w1))
                  else (Some result, w)))"

text \<open>The calls after a decryption: with the label of the format for the name of the sender, or with the
  name in the envelope.\<close>

definition score_anomaly ::
  "('s, 'k) handlers \<Rightarrow> (nat \<Rightarrow> bool) \<Rightarrow> (message_score \<Rightarrow> 'k) \<Rightarrow> clock \<Rightarrow> anomaly_service option \<Rightarrow> bytes \<Rightarrow> ustr \<Rightarrow>
   's \<times> 'k event_bus \<Rightarrow> 's \<times> 'k event_bus" where
  "score_anomaly H named kw c svc packet label w =
     (case svc of None \<Rightarrow> w
      | Some v \<Rightarrow> if an_enabled v then snd (score_message H named kw c v label packet w) else w)"

definition score_ratchet_anomaly ::
  "('s, 'k) handlers \<Rightarrow> (nat \<Rightarrow> bool) \<Rightarrow> (message_score \<Rightarrow> 'k) \<Rightarrow> clock \<Rightarrow> anomaly_service option \<Rightarrow> bytes \<Rightarrow>
   's \<times> 'k event_bus \<Rightarrow> 's \<times> 'k event_bus" where
  "score_ratchet_anomaly H named kw c svc packet w =
     (case svc of None \<Rightarrow> w
      | Some v \<Rightarrow>
          if \<not> an_enabled v then w
          else case ratchet_parse packet of Inl _ \<Rightarrow> w
            | Inr env \<Rightarrow> snd (score_message H named kw c v (env_sender env) packet w))"

section \<open>What is scored\<close>

text \<open>For a packet that parses, the lengths read without parsing are those of its parts.\<close>

lemma extract_ratchet:
  assumes "ratchet_parse p = Inr e"
  shows "extract_lengths p (Some ''ratchet'') = (of_nat (length (env_header e)), of_nat (length (env_ciphertext e)))"
proof -
  have valid: "env_sender e \<noteq> [] \<and> env_ciphertext e \<noteq> []" and b: "ratchet_build e = Inr p"
    using assms ratchet_parse_iff_build by blast+
  obtain nb hl where nb: "length nb \<le> 255" and hl: "pack_u16 (length (env_header e)) = Inr hl"
    and p: "p = RATCHET_ENVELOPE_MAGIC # of_nat (length nb) # nb @ hl @ env_header e @ env_ciphertext e"
    using b by (auto simp: ratchet_build_def split: sum.splits if_splits)
  have n: "unat (of_nat (length nb) :: byte) = length nb" using nb by simp
  have d: "be_val hl = length (env_header e)" "length hl = 2"
    using hl by (auto dest: pack_be_length unpack_pack simp: unpack_be_def split: if_splits)
  have sl: "slice (2 + length nb) (2 + length nb + 2) p = hl" using d(2) by (auto simp: slice_def p)
  have "length (env_ciphertext e) > 0" using valid by simp
  then show ?thesis using d n sl by (auto simp: extract_lengths_def Let_def p)
qed

lemma extract_pqc:
  assumes "pqc_parse p = Inr e"
  shows "extract_lengths p (Some ''pqc'') = (of_nat (length (pqc_kem_ct e @ pqc_nonce e)), of_nat (length (pqc_aes_ct e)))"
proof -
  have b: "16 \<le> length (pqc_aes_ct e)" "pqc_build e = Inr p" using assms pqc_parse_iff_build by blast+
  obtain kl where n: "length (pqc_nonce e) = 12" and kl: "pack_u16 (length (pqc_kem_ct e)) = Inr kl"
    and p: "p = PQC_ENVELOPE_MAGIC # kl @ pqc_kem_ct e @ pqc_nonce e @ pqc_aes_ct e"
    using b(2) by (auto simp: pqc_build_def NONCE_LENGTH_def split: sum.splits if_splits)
  have d: "be_val kl = length (pqc_kem_ct e)" "length kl = 2"
    using kl by (auto dest: pack_be_length unpack_pack simp: unpack_be_def split: if_splits)
  have sl: "slice 1 3 p = kl" using d(2) by (auto simp: slice_def p drop_Cons')
  show ?thesis using d n sl b(1) by (auto simp: extract_lengths_def Let_def p)
qed

text \<open>A packet of the oldest format is never given the code that is reserved for it.\<close>

lemma legacy_code_unused: "envelope_code (identify_envelope_type p) \<noteq> 2"
  by (auto simp: envelope_code_def identify_envelope_type_def split: list.split)

text \<open>The model of scikit-learn answers in \<open>[-1, 0]\<close>: no score is given a confidence above one half.\<close>

lemma confidence_bounds: "0 \<le> confidence m \<and> confidence m \<le> 1"
  by (auto simp: confidence_def)

lemma confidence_mono: "ms_score m \<le> ms_score m' \<Longrightarrow> confidence m \<le> confidence m'"
  by (auto simp: confidence_def min_def max_def divide_right_mono)

lemma confidence_half: "ms_score m \<le> 0 \<Longrightarrow> confidence m \<le> 1 / 2"
  by (auto simp: confidence_def max_def min_def)

text \<open>The score a message is given, and what the service does with it.\<close>

lemma score_message_cases:
  assumes "an_model svc = Some (score_samples, th)" "an_enabled svc"
    and "score_samples (extract_features (ck_hour c) (ck_weekday c) name p) = Inr x"
    and "identify_envelope_type p = Some ty"
  shows "score_message H named kw c svc name p w =
    (let m = \<lparr>ms_friend_name = name, ms_score = x, ms_is_anomaly = x < an_threshold svc, ms_threshold = an_threshold svc,
              ms_envelope_type = ty, ms_packet_size = length p, ms_timestamp = ck_utcnow c\<rparr>
     in if x < an_threshold svc
        then (case publish H named (ustr ''anomaly_detected'') (kw m) w of (r, w1) \<Rightarrow> (if is_ok r then Some m else None, w1))
        else (Some m, w))"
  using assms by (auto simp: score_message_def Let_def split: prod.split sum.split)


text \<open>A model that scores a message by the share of its header, and a handler that keeps what it is told.\<close>

definition demo_forest :: forest where
  "demo_forest = (\<lambda>fs. Inr (- (fs ! 3 / fs ! 0)), None)"

definition keep_score :: "(message_score list, message_score) handlers" where
  "keep_score h m w = (Inr (), (fst w @ [m], snd w))"

definition alarm_bus :: "message_score event_bus" where
  "alarm_bus = snd (subscribe (\<lambda>_. True) (ustr ''anomaly_detected'') 1 False new_event_bus)"

definition odd_packet :: bytes where
  "odd_packet = [0xD0, 3, 98, 111, 98, 0, 12, 1, 2, 3, 4, 5, 6, 7, 8, 9, 10, 11, 12, 99]"

lemma odd_packet_parses:
  "ratchet_parse odd_packet = Inr \<lparr>env_sender = ustr ''bob'', env_header = [1, 2, 3, 4, 5, 6, 7, 8, 9, 10, 11, 12], env_ciphertext = [99]\<rparr>"
  by code_simp


end
