(* ===== verification/Background_Agents.thy ===== *)
theory Background_Agents
  imports Friends Lock_Order Backup Event_Bus Task_Queue
begin

text \<open>
  \<^verbatim>\<open>services/background_agents.py\<close>: the four agents, what one cycle of each does over the services it
  asks, and their life cycle, with the part of \<^verbatim>\<open>controllers/service_orchestrator.py\<close> that starts and stops
  them. The events go through the model of the bus; the handlers of \<open>H\<close> are those of the user interface
  and do not change the ratchet service. Texts in a status are the constructors of a datatype.
\<close>

section \<open>What the agents publish\<close>

datatype health_issue = Queue_Not_Running | High_Lock_Count nat

record system_status =
  ss_timestamp :: rat
  ss_healthy :: bool
  ss_issues :: "health_issue list"
  ss_crypto_queue :: "(bool \<times> int) option"
  ss_total_subscribers :: nat
  ss_ratchet_locks :: "nat \<times> nat"

record local_key_info =
  li_has_public_key :: bool
  li_has_private_key :: bool
  li_has_global_secret :: bool
  li_needs_key_rotation :: bool
  li_public_key_fingerprint :: "ustr option option"

record friend_key_info =
  fi_name :: ustr
  fi_has_public_key :: bool
  fi_has_shared_secret :: bool
  fi_has_x25519_key :: bool
  fi_capabilities :: "json option"
  fi_has_active_ratchet :: bool

datatype key_info =
    No_Key_Store | No_Friends_Service | Friend_Not_Found ustr | Inspection_Failed enigma_error
  | Local_Key_Info local_key_info | Friend_Key_Info friend_key_info

datatype agent_event =
    Days_Since "int option" | Locks_Removed nat | Deadlock_Names "ustr list" | Lock_Stats "nat \<times> nat"
  | System_Status system_status bool
  | Key_Info "ustr option" key_info "ustr option" | Key_Fingerprint "ustr option" "ustr option"

section \<open>The backup reminder\<close>

text \<open>The parameters of the backup service: whether the database can be read, the days, the time.\<close>

definition format_reminder_message :: "int option \<Rightarrow> ustr" where
  "format_reminder_message days_since =
     (case days_since of None \<Rightarrow> ustr ''No backup found. Create your first backup now!''
      | Some n \<Rightarrow> ustr ''Last backup was '' @ json_int n @ ustr '' day(s) ago. Consider creating a new backup.'')"

definition check_backup_status ::
  "('s, agent_event) handlers \<Rightarrow> (nat \<Rightarrow> bool) \<Rightarrow> bool \<Rightarrow> int \<Rightarrow> rat \<Rightarrow> db \<Rightarrow>
   's \<times> agent_event event_bus \<Rightarrow> unit res \<times> ('s \<times> agent_event event_bus)" where
  "check_backup_status H named io_ok reminder_days now d w =
     (case should_remind_backup io_ok reminder_days now d of (remind, days_since) \<Rightarrow>
        if remind then publish H named (ustr ''backup_reminder'') (Days_Since days_since) w else (Inr (), w))"

definition check_now :: "bool \<Rightarrow> int \<Rightarrow> rat \<Rightarrow> db \<Rightarrow> bool \<times> int option \<times> ustr" where
  "check_now io_ok reminder_days now d =
     (case should_remind_backup io_ok reminder_days now d of (remind, days_since) \<Rightarrow>
        (remind, days_since, format_reminder_message days_since))"

section \<open>The maintenance of the locks\<close>

text \<open>\<open>fs\<close> is what \<^verbatim>\<open>get_friend_names\<close> of the friends service gives, if there is one.\<close>

definition active_friend_names :: "ustr list res option \<Rightarrow> ustr list" where
  "active_friend_names fs = (case fs of Some (Inr names) \<Rightarrow> names | _ \<Rightarrow> [])"

definition detect_deadlock :: "(ustr \<Rightarrow> ustr) \<Rightarrow> ustr list \<Rightarrow> ustr list \<Rightarrow> bool" where
  "detect_deadlock lower names_a names_b = detect_potential_deadlock lower names_a names_b"

definition run_maintenance ::
  "('s, agent_event) handlers \<Rightarrow> (nat \<Rightarrow> bool) \<Rightarrow> (ustr \<Rightarrow> ustr) \<Rightarrow> rat \<Rightarrow> nat \<Rightarrow> ustr list res option \<Rightarrow>
   ratchet_service \<times> 's \<times> agent_event event_bus \<Rightarrow> unit res \<times> (ratchet_service \<times> 's \<times> agent_event event_bus)" where
  "run_maintenance H named lower now t fs sw =
     (case sw of (s, w) \<Rightarrow>
      let active_names = active_friend_names fs;
          (removed, s1) = cleanup_friend_locks now t (Some active_names) s in
      case (if removed > 0 then publish H named (ustr ''ratchet_locks_cleaned'') (Locks_Removed removed) w
            else (Inr (), w)) of
        (Inl e, w1) \<Rightarrow> (Inl e, (s1, w1))
      | (Inr _, w1) \<Rightarrow>
          (let sorted_names = sort_key (\<lambda>n. (lower n, n)) active_names in
           case (if detect_deadlock lower active_names sorted_names
                 then publish H named (ustr ''ratchet_deadlock_detected'') (Deadlock_Names active_names) w1
                 else (Inr (), w1)) of
             (Inl e, w2) \<Rightarrow> (Inl e, (s1, w2))
           | (Inr _, w2) \<Rightarrow>
               (case publish H named (ustr ''ratchet_lock_stats'') (Lock_Stats (get_lock_stats s1)) w2 of
                  (r, w3) \<Rightarrow> (r, (s1, w3)))))"

section \<open>The system monitor\<close>

definition get_status :: "rat \<Rightarrow> task_queue option \<Rightarrow> 'k event_bus \<Rightarrow> ratchet_service \<Rightarrow> system_status" where
  "get_status now crypto_queue b s =
     (let stopped = (case crypto_queue of None \<Rightarrow> False | Some q \<Rightarrow> \<not> cq_running q);
          lock_stats = get_lock_stats s;
          crowded = fst lock_stats > 100
      in \<lparr>ss_timestamp = now, ss_healthy = (\<not> stopped \<and> \<not> crowded),
          ss_issues = (if stopped then [Queue_Not_Running] else []) @ (if crowded then [High_Lock_Count (fst lock_stats)] else []),
          ss_crypto_queue = map_option (\<lambda>q. (cq_running q, pending_tasks q)) crypto_queue,
          ss_total_subscribers = subscriber_count None b, ss_ratchet_locks = lock_stats\<rparr>)"

definition collect_and_publish_status ::
  "('s, agent_event) handlers \<Rightarrow> (nat \<Rightarrow> bool) \<Rightarrow> rat \<Rightarrow> task_queue option \<Rightarrow> ratchet_service \<Rightarrow>
   's \<times> agent_event event_bus \<Rightarrow> unit res \<times> ('s \<times> agent_event event_bus)" where
  "collect_and_publish_status H named now crypto_queue s w =
     (let status = get_status now crypto_queue (snd w) s in
      publish H named (ustr ''system_status'') (System_Status status (ss_healthy status)) w)"

section \<open>The key inspector\<close>

text \<open>The dictionary that \<^verbatim>\<open>get_friend_details\<close> returns, and \<^verbatim>\<open>get\<close>.\<close>

datatype detail = Text_Detail ustr | Flag_Detail bool

definition details :: "friend_summary \<Rightarrow> (ustr \<times> detail option) list" where
  "details su =
     [(ustr ''name'', Some (Text_Detail (su_name su))),
      (ustr ''has_shared_secret'', Some (Flag_Detail (su_has_shared_secret su))),
      (ustr ''rsa_fingerprint'', Some (Text_Detail (su_rsa_fingerprint su))),
      (ustr ''ecdh_fingerprint'', map_option Text_Detail (su_ecdh_fingerprint su)),
      (ustr ''public_key_pem'', Some (Text_Detail (su_public_key_pem su))),
      (ustr ''has_ratchet'', Some (Flag_Detail (su_has_ratchet su))),
      (ustr ''supports_double_ratchet'', Some (Flag_Detail (su_supports_double_ratchet su))),
      (ustr ''has_pqc_key'', Some (Flag_Detail (su_has_pqc_key su))),
      (ustr ''has_hybrid_sig_key'', Some (Flag_Detail (su_has_hybrid_sig_key su)))]"

definition details_get :: "string \<Rightarrow> friend_summary \<Rightarrow> detail option" where
  "details_get key su = (case map_of (details su) (ustr key) of Some v \<Rightarrow> v | None \<Rightarrow> None)"

record key_inspector =
  ki_key_store :: "key_store option"
  ki_friends_service :: "key_store option"

definition local_public_fingerprint :: "enc_env \<Rightarrow> key_inspector \<Rightarrow> ustr option" where
  "local_public_fingerprint V ki =
     (case ki_key_store ki of None \<Rightarrow> None
      | Some k \<Rightarrow> (case my_pub k of None \<Rightarrow> None
         | Some pub \<Rightarrow> (case utf8_encode (pubkey_to_pem (ev_key V) pub) of Inl _ \<Rightarrow> None
            | Inr b \<Rightarrow> Some (sha256_fingerprint (ev_msg V) b))))"

definition get_local_key_info :: "enc_env \<Rightarrow> key_inspector \<Rightarrow> key_store \<Rightarrow> local_key_info" where
  "get_local_key_info V ki k =
     \<lparr>li_has_public_key = (my_pub k \<noteq> None), li_has_private_key = (my_priv k \<noteq> None),
      li_has_global_secret = (global_secret k \<noteq> None), li_needs_key_rotation = needs_rotation k,
      li_public_key_fingerprint = (if my_pub k \<noteq> None then Some (local_public_fingerprint V ki) else None)\<rparr>"

definition get_friend_key_info :: "enc_env \<Rightarrow> db \<Rightarrow> key_inspector \<Rightarrow> ustr \<Rightarrow> key_info" where
  "get_friend_key_info V d ki friend_name =
     (case ki_friends_service ki of None \<Rightarrow> No_Friends_Service
      | Some k \<Rightarrow>
          (case get_friend_details V k d friend_name of
             Inl e \<Rightarrow> Inspection_Failed e
           | Inr None \<Rightarrow> Friend_Not_Found friend_name
           | Inr (Some su) \<Rightarrow>
               (let caps = (case details_get ''capabilities_json'' su of
                      Some (Text_Detail t) \<Rightarrow>
                        if t = [] then None else Some (case loads t of Inl _ \<Rightarrow> JObj [] | Inr j \<Rightarrow> j)
                    | Some (Flag_Detail b) \<Rightarrow> if b then Some (JBool b) else None
                    | None \<Rightarrow> None)
                in case has_active_ratchet d friend_name of
                     Inl e \<Rightarrow> Inspection_Failed e
                   | Inr active \<Rightarrow>
                       Friend_Key_Info
                         \<lparr>fi_name = friend_name, fi_has_public_key = (details_get ''public_key_pem'' su \<noteq> None),
                          fi_has_shared_secret = (details_get ''has_shared_secret'' su = Some (Flag_Detail True)),
                          fi_has_x25519_key = (details_get ''x25519_public_key_b64'' su \<noteq> None),
                          fi_capabilities = caps, fi_has_active_ratchet = active\<rparr>)))"

definition get_key_info :: "enc_env \<Rightarrow> db \<Rightarrow> key_inspector \<Rightarrow> ustr option \<Rightarrow> key_info" where
  "get_key_info V d ki friend_name =
     (case ki_key_store ki of None \<Rightarrow> No_Key_Store
      | Some k \<Rightarrow> (case friend_name of None \<Rightarrow> Local_Key_Info (get_local_key_info V ki k)
         | Some name \<Rightarrow> get_friend_key_info V d ki name))"

definition get_fingerprint :: "enc_env \<Rightarrow> db \<Rightarrow> key_inspector \<Rightarrow> ustr option \<Rightarrow> ustr option" where
  "get_fingerprint V d ki friend_name =
     (case ki_key_store ki of None \<Rightarrow> None
      | Some _ \<Rightarrow> (case friend_name of None \<Rightarrow> local_public_fingerprint V ki
         | Some name \<Rightarrow> (case ki_friends_service ki of None \<Rightarrow> None
            | Some k \<Rightarrow> (case get_friend_details V k d name of Inl _ \<Rightarrow> None | Inr None \<Rightarrow> None
               | Inr (Some su) \<Rightarrow>
                   (case details_get ''x25519_public_key_b64'' su of
                      Some (Text_Detail t) \<Rightarrow>
                        if t = [] then None
                        else (case b64decode t of Inl _ \<Rightarrow> None | Inr raw \<Rightarrow> Some (ecdh_fingerprint (ev_msg V) raw))
                    | _ \<Rightarrow> None)))))"

definition publish_key_info ::
  "('s, agent_event) handlers \<Rightarrow> (nat \<Rightarrow> bool) \<Rightarrow> enc_env \<Rightarrow> db \<Rightarrow> key_inspector \<Rightarrow> ustr option \<Rightarrow>
   's \<times> agent_event event_bus \<Rightarrow> unit res \<times> ('s \<times> agent_event event_bus)" where
  "publish_key_info H named V d ki friend_name w =
     (let info = get_key_info V d ki friend_name; fingerprint = get_fingerprint V d ki friend_name in
      case publish H named (ustr ''key_info'') (Key_Info friend_name info fingerprint) w of
        (Inl e, w1) \<Rightarrow> (Inl e, w1)
      | (Inr _, w1) \<Rightarrow> publish H named (ustr ''key_fingerprint'') (Key_Fingerprint friend_name fingerprint) w1)"

text \<open>A failure for one friend is logged and the next one follows.\<close>

definition run_key_inspection ::
  "('s, agent_event) handlers \<Rightarrow> (nat \<Rightarrow> bool) \<Rightarrow> enc_env \<Rightarrow> db \<Rightarrow> key_inspector \<Rightarrow>
   's \<times> agent_event event_bus \<Rightarrow> unit res \<times> ('s \<times> agent_event event_bus)" where
  "run_key_inspection H named V d ki w =
     (case publish_key_info H named V d ki None w of
        (Inl e, w1) \<Rightarrow> (Inl e, w1)
      | (Inr _, w1) \<Rightarrow>
          (case ki_friends_service ki of None \<Rightarrow> (Inr (), w1)
           | Some k \<Rightarrow> (Inr (), fold (\<lambda>name w. snd (publish_key_info H named V d ki (Some name) w)) (get_friend_names k) w1)))"

section \<open>The life of an agent\<close>

text \<open>The stop event, the flag, and how many threads run the loop of the agent. A thread ends when it sees
  the event after its wait; \<^verbatim>\<open>stop\<close> waits five seconds for that.\<close>

record agent =
  ag_stop_event :: bool
  ag_is_running :: bool
  ag_threads :: nat

definition new_agent :: agent where
  "new_agent = \<lparr>ag_stop_event = False, ag_is_running = False, ag_threads = 0\<rparr>"

definition agent_start :: "agent \<Rightarrow> agent" where
  "agent_start a =
     (if ag_is_running a then a
      else a\<lparr>ag_stop_event := False, ag_threads := ag_threads a + 1, ag_is_running := True\<rparr>)"

definition agent_stop :: "agent \<Rightarrow> agent" where
  "agent_stop a = (if \<not> ag_is_running a then a else a\<lparr>ag_stop_event := True, ag_is_running := False\<rparr>)"

definition loop_exit :: "agent \<Rightarrow> agent option" where
  "loop_exit a = (if ag_stop_event a \<and> 0 < ag_threads a then Some (a\<lparr>ag_threads := ag_threads a - 1\<rparr>) else None)"

inductive agent_step :: "agent \<Rightarrow> agent \<Rightarrow> bool" where
  step_agent_start: "agent_step a (agent_start a)"
| step_agent_stop: "agent_step a (agent_stop a)"
| step_loop_exit: "loop_exit a = Some a' \<Longrightarrow> agent_step a a'"

definition agent_inv :: "agent \<Rightarrow> bool" where
  "agent_inv a \<longleftrightarrow> (ag_is_running a \<longrightarrow> \<not> ag_stop_event a \<and> 0 < ag_threads a) \<and> (0 < ag_threads a \<longrightarrow> ag_is_running a \<or> ag_stop_event a)"

interpretation agents: state_machine "\<lambda>a. a = new_agent" agent_step agent_inv
proof
  show "agent_inv a" if "a = new_agent" for a using that by (simp add: agent_inv_def new_agent_def)
  show "agent_inv a'" if "agent_inv a" "agent_step a a'" for a a'
    using that(2,1) by cases (auto simp: agent_inv_def agent_start_def agent_stop_def loop_exit_def split: if_splits)
qed

text \<open>A running agent has a thread, and the threads of a stopped one have been told to end.\<close>

lemma agent_running_or_told:
  "reachable (\<lambda>a. a = new_agent) agent_step a \<Longrightarrow> 0 < ag_threads a \<longleftrightarrow> ag_is_running a \<or> (ag_stop_event a \<and> 0 < ag_threads a)"
  using agents.reachable_invariant [of a] by (auto simp: agent_inv_def)

text \<open>When \<^verbatim>\<open>start\<close> follows before the old thread has seen the event, the event is taken back and both
  threads run the loop.\<close>

lemma two_loops: "\<exists>a. reachable (\<lambda>a. a = new_agent) agent_step a \<and> ag_is_running a \<and> ag_threads a = 2"
proof (intro exI conjI)
  show "reachable (\<lambda>a. a = new_agent) agent_step (agent_start (agent_stop (agent_start new_agent)))"
    by (rule next_state, rule next_state, rule next_state, rule start)
      (rule refl step_agent_start step_agent_stop)+
qed (simp_all add: agent_start_def agent_stop_def new_agent_def)

text \<open>The orchestrator: the backup agent exists only after its service does; \<^verbatim>\<open>start\<close> and \<^verbatim>\<open>stop\<close> of an agent
  raise nothing here.\<close>

record orchestrated_agents =
  oa_backup :: "agent option"
  oa_maintenance :: agent
  oa_monitor :: agent
  oa_inspector :: agent

definition init_agents :: orchestrated_agents where
  "init_agents = \<lparr>oa_backup = None, oa_maintenance = new_agent, oa_monitor = new_agent, oa_inspector = new_agent\<rparr>"

definition set_backup_agent :: "orchestrated_agents \<Rightarrow> orchestrated_agents" where
  "set_backup_agent o' = o'\<lparr>oa_backup := Some new_agent\<rparr>"

definition set_backup_service :: "bool \<Rightarrow> orchestrated_agents \<Rightarrow> orchestrated_agents" where
  "set_backup_service service_given o' = (if service_given \<and> oa_backup o' = None then set_backup_agent o' else o')"

definition start_agents :: "orchestrated_agents \<Rightarrow> orchestrated_agents" where
  "start_agents o' =
     \<lparr>oa_backup = map_option agent_start (oa_backup o'), oa_maintenance = agent_start (oa_maintenance o'),
      oa_monitor = agent_start (oa_monitor o'), oa_inspector = agent_start (oa_inspector o')\<rparr>"

definition stop_agents :: "orchestrated_agents \<Rightarrow> orchestrated_agents" where
  "stop_agents o' =
     \<lparr>oa_backup = map_option agent_stop (oa_backup o'), oa_maintenance = agent_stop (oa_maintenance o'),
      oa_monitor = agent_stop (oa_monitor o'), oa_inspector = agent_stop (oa_inspector o')\<rparr>"

section \<open>What a maintenance cycle does\<close>

definition free_for :: "nat \<Rightarrow> rlock \<Rightarrow> bool" where
  "free_for t l \<longleftrightarrow> rl_owner l = None \<or> rl_owner l = Some t"

lemma try_acquire_free: "try_acquire t l \<noteq> None \<longleftrightarrow> free_for t l"
  by (simp add: try_acquire_def free_for_def)

lemma length_delete:
  "map_of xs n = Some l \<Longrightarrow> distinct (map fst xs) \<Longrightarrow> length xs = Suc (length (AList.delete n xs))"
proof (induction xs)
  case (Cons p xs)
  show ?case
  proof (cases "fst p = n")
    case True
    then have "n \<notin> fst ` set xs" using Cons.prems(2) by auto
    then have "AList.delete n xs = xs" by (force simp: AList.delete_eq filter_id_conv)
    with True show ?thesis by (cases p) simp
  next
    case False
    with Cons show ?thesis by (cases p) simp
  qed
qed simp

lemma cleanup_one_found:
  assumes "map_of (friend_locks s) name = Some l" "distinct (map fst (friend_locks s))"
    and "cleanup_one t name (k, s) = (k1, s1)"
  shows "s1 = s\<lparr>friend_locks := filter (\<lambda>(n, l). \<not> (n = name \<and> free_for t l)) (friend_locks s)\<rparr>"
    and "k1 + length (friend_locks s1) = k + length (friend_locks s)"
proof -
  have uniq: "l' = l" if "(name, l') \<in> set (friend_locks s)" for l'
    using that assms by (simp add: map_of_is_SomeI)
  have "filter (\<lambda>(n, l). \<not> (n = name \<and> free_for t l)) (friend_locks s) =
      (if free_for t l then AList.delete name (friend_locks s) else friend_locks s)"
    using uniq by (auto simp: AList.delete_eq filter_id_conv intro!: filter_cong)
  then show "s1 = s\<lparr>friend_locks := filter (\<lambda>(n, l). \<not> (n = name \<and> free_for t l)) (friend_locks s)\<rparr>"
    using assms(1,3) by (cases "free_for t l") (auto simp: cleanup_one_def try_acquire_free [symmetric])
  show "k1 + length (friend_locks s1) = k + length (friend_locks s)"
    using assms(1,3) length_delete [OF assms(1,2)]
    by (cases "free_for t l") (auto simp: cleanup_one_def try_acquire_free [symmetric])
qed

lemma cleanup_fold:
  assumes "distinct (map fst (friend_locks s))" "distinct names" "set names \<subseteq> fst ` set (friend_locks s)"
    and "fold (cleanup_one t) names (k, s) = (k1, s1)"
  shows "s1 = s\<lparr>friend_locks := filter (\<lambda>(n, l). \<not> (n \<in> set names \<and> free_for t l)) (friend_locks s)\<rparr> \<and>
    k1 + length (friend_locks s1) = k + length (friend_locks s)"
  using assms
proof (induction names arbitrary: k s)
  case Nil
  then show ?case by simp
next
  case (Cons name names)
  obtain l where l: "map_of (friend_locks s) name = Some l"
    using Cons.prems(3) by (cases "map_of (friend_locks s) name") (auto simp: map_of_eq_None_iff)
  obtain k2 s2 where two: "cleanup_one t name (k, s) = (k2, s2)" by fastforce
  note one = cleanup_one_found [OF l Cons.prems(1) two]
  have "distinct (map fst (friend_locks s2))" using Cons.prems(1) by (simp add: one(1) distinct_map_filter)
  moreover have "set names \<subseteq> fst ` set (friend_locks s2)"
  proof
    fix n
    assume n: "n \<in> set names"
    then obtain l' where "(n, l') \<in> set (friend_locks s)" using Cons.prems(3) by auto
    then have "(n, l') \<in> set (friend_locks s2)" using n Cons.prems(2) by (auto simp: one(1))
    then show "n \<in> fst ` set (friend_locks s2)" by force
  qed
  moreover have "fold (cleanup_one t) names (k2, s2) = (k1, s1)" using Cons.prems(4) two by simp
  ultimately have ih: "s1 = s2\<lparr>friend_locks := filter (\<lambda>(n, l). \<not> (n \<in> set names \<and> free_for t l)) (friend_locks s2)\<rparr>"
      "k1 + length (friend_locks s1) = k2 + length (friend_locks s2)"
    using Cons.IH Cons.prems(2) by simp_all
  have "filter (\<lambda>(n, l). \<not> (n \<in> set names \<and> free_for t l)) (friend_locks s2) =
      filter (\<lambda>(n, l). \<not> (n \<in> set (name # names) \<and> free_for t l)) (friend_locks s)"
    unfolding one(1) by (auto intro!: filter_cong)
  then have "s1 = s2\<lparr>friend_locks := filter (\<lambda>(n, l). \<not> (n \<in> set (name # names) \<and> free_for t l)) (friend_locks s)\<rparr>"
    using ih(1) by (simp only:)
  then have "s1 = s\<lparr>friend_locks := filter (\<lambda>(n, l). \<not> (n \<in> set (name # names) \<and> free_for t l)) (friend_locks s)\<rparr>"
    unfolding one(1) by (rule trans) simp
  moreover have "k1 + length (friend_locks s1) = k + length (friend_locks s)" using ih(2) one(2) by (rule trans)
  ultimately show ?case by (rule conjI)
qed

lemma cleanup_named:
  assumes "distinct (map fst (friend_locks s))" "cleanup_friend_locks now t (Some active) s = (removed, s1)"
  shows "s1 = s\<lparr>friend_locks := filter (\<lambda>(n, l). n \<in> set active \<or> \<not> free_for t l) (friend_locks s)\<rparr>"
    and "removed = length (friend_locks s) - length (friend_locks s1)"
proof -
  let ?names = "filter (\<lambda>n. n \<notin> set active) (map fst (friend_locks s))"
  have c: "s1 = s\<lparr>friend_locks := filter (\<lambda>(n, l). \<not> (n \<in> set ?names \<and> free_for t l)) (friend_locks s)\<rparr> \<and>
      removed + length (friend_locks s1) = 0 + length (friend_locks s)"
    using assms by (intro cleanup_fold) (auto simp: cleanup_friend_locks_def stale_locks_def)
  moreover have "filter (\<lambda>(n, l). \<not> (n \<in> set ?names \<and> free_for t l)) (friend_locks s) =
      filter (\<lambda>(n, l). n \<in> set active \<or> \<not> free_for t l) (friend_locks s)"
    by (intro filter_cong) force+
  ultimately show "s1 = s\<lparr>friend_locks := filter (\<lambda>(n, l). n \<in> set active \<or> \<not> free_for t l) (friend_locks s)\<rparr>" by simp
  show "removed = length (friend_locks s) - length (friend_locks s1)" using conjunct2 [OF c] by linarith
qed


text \<open>A user interface that keeps what it is told, subscribed to the two events.\<close>

definition keep_event :: "(agent_event list, agent_event) handlers" where
  "keep_event h m w = (Inr (), (fst w @ [m], snd w))"

definition agent_bus :: "agent_event event_bus" where
  "agent_bus = snd (subscribe (\<lambda>_. True) (ustr ''ratchet_lock_stats'') 2 False
     (snd (subscribe (\<lambda>_. True) (ustr ''ratchet_locks_cleaned'') 1 False new_event_bus)))"

definition three_locks :: ratchet_service where
  "three_locks = new_ratchet_service\<lparr>friend_locks :=
     [(ustr ''ann'', \<lparr>rl_owner = None, rl_depth = 0, rl_created = 0\<rparr>),
      (ustr ''bob'', \<lparr>rl_owner = None, rl_depth = 0, rl_created = 0\<rparr>),
      (ustr ''cat'', \<lparr>rl_owner = Some 5, rl_depth = 1, rl_created = 0\<rparr>)]\<rparr>"


section \<open>What the key inspector says of a friend\<close>

text \<open>The dictionary of a friend has neither of two keys that are asked for: the exchange key of a friend is
  never reported, its fingerprint is never published and its capabilities are never shown.\<close>

lemma details_get_missing: "details_get ''x25519_public_key_b64'' su = None" "details_get ''capabilities_json'' su = None"
  by (simp_all add: details_get_def details_def ustr_def)

lemma friend_fingerprint_missing: "get_fingerprint V d ki (Some name) = None"
  by (simp add: get_fingerprint_def details_get_missing split: option.split sum.split)

lemma friend_exchange_key_missing:
  "get_key_info V d ki (Some name) = Friend_Key_Info fi \<Longrightarrow> \<not> fi_has_x25519_key fi \<and> fi_capabilities fi = None"
  by (auto simp: get_key_info_def get_friend_key_info_def details_get_missing Let_def split: option.splits sum.splits)

text \<open>A status is healthy exactly when it has no issue.\<close>

lemma healthy_iff: "ss_healthy (get_status now q b s) \<longleftrightarrow> ss_issues (get_status now q b s) = []"
  by (simp add: get_status_def Let_def)

end
