(* ===== verification/Anti_Tamper.thy ===== *)
theory Anti_Tamper
  imports State_Machine Database Password_Entry Message
begin

text \<open>
  The search for debuggers: \<^verbatim>\<open>src/anti_tamper.py\<close>. What the operating system and the interpreter answer
  is the record \<open>tamper_env\<close>, with an exception as \<open>Inl\<close>; every check is a function of it that catches
  what the code catches. The seeker of the background thread is a state over a sequence of wake-ups.
  Nothing here runs unless the program is frozen.
\<close>

section \<open>What is asked of the system\<close>

datatype tasklist = Tasklist_Failed | Tasklist_Raised enigma_error | Tasklist_Output int ustr

record app_bundle =
  bd_exists :: bool
  bd_is_dir :: bool
  bd_file :: "ustr \<Rightarrow> bytes res option"

text \<open>\<open>te_debug_port\<close>, \<open>te_debug_flags\<close> and \<open>te_debug_object\<close> are the status and the value of the three
  queries; \<open>te_registers\<close> the four words that are read as the debug registers, if the real handle and the
  context were given; \<open>te_windows\<close> visibility, class and title of each window; \<open>te_modules\<close> the contents of the
  file of a critical module that is loaded from a compiled file.\<close>

record tamper_env =
  te_frozen :: bool
  te_win32 :: bool
  te_debugger_present :: "bool res"
  te_remote_debugger :: "(bool \<times> bool) res"
  te_debug_port :: "(int \<times> nat) res"
  te_debug_flags :: "(int \<times> nat) res"
  te_debug_object :: "int res"
  te_registers :: "nat list option res"
  te_trace :: "bool res"
  te_profile :: "bool res"
  te_windows :: "(bool \<times> ustr \<times> ustr) list"
  te_tasklist :: tasklist
  te_samples :: "nat list res"
  te_meipass :: "app_bundle option"
  te_import_hooks :: "(ustr \<times> ustr) list res"
  te_frida_paths :: "bool res list"
  te_module_names :: "ustr list res"
  te_environ :: "(ustr \<times> ustr) list res"
  te_modules :: "string \<Rightarrow> bytes res option"
  te_magic :: bytes
  te_executable :: "bytes res option"

section \<open>Names that are looked for\<close>

definition DEBUGGER_PROCESS_NAMES :: "string list" where
  "DEBUGGER_PROCESS_NAMES =
     [''ollydbg.exe'', ''olly64.exe'', ''x64dbg.exe'', ''x32dbg.exe'', ''ida.exe'', ''ida64.exe'',
      ''idag.exe'', ''idag64.exe'', ''idal.exe'', ''idal64.exe'', ''windbg.exe'', ''cdb.exe'', ''ntsd.exe'',
      ''processhacker.exe'', ''procmon.exe'', ''procmon64.exe'', ''cheatengine-x86_64.exe'',
      ''cheatengine-i386.exe'', ''cheatengine.exe'', ''dnSpy.exe'', ''dnSpy.UnityMod.exe'', ''de4dot.exe'',
      ''de4dot-blocker.exe'', ''httpdebuggerpro.exe'', ''fiddler.exe'', ''ruler.exe'', ''immunity.exe'',
      ''immunitydebugger.exe'', ''binaryninja.exe'', ''radare2.exe'', ''r2.exe'', ''ghidra.exe'',
      ''ghidraRun.exe'', ''jeb.exe'', ''jeb_winagent.exe'', ''x96dbg.exe'', ''pex.exe'', ''pestudio.exe'']"

definition DEBUGGER_WINDOW_CLASSES :: "string list" where
  "DEBUGGER_WINDOW_CLASSES =
     [''OLLYDBG'', ''x64dbg'', ''x32dbg'', ''ID'', ''WinDbgClass'', ''TfrmMain'', ''TIdaWindow'',
      ''TfrmDisasm'', ''ProcessHacker'', ''MainWindow'', ''DbgFrameClass'', ''Afx:400000:0'',
      ''TfrmCheatEngine'', ''TfrmMemoryView'', ''TfrmDisassembler'']"

definition DEBUGGER_WINDOW_TITLES :: "string list" where
  "DEBUGGER_WINDOW_TITLES =
     [''ollydbg'', ''x64dbg'', ''x32dbg'', ''immunity debugger'', ''idapro'', ''ida pro'', ''windbg'', ''cdb'',
      ''ntsd'', ''process hacker'', ''processhacker'', ''cheat engine'', ''cheatengine'', ''dnspy'',
      ''ghidra'', ''fiddler'', ''http debugger'', ''radare2'', ''r2'', ''binary ninja'', ''memory viewer'',
      ''disassembler'']"

definition HOOKING_FRAMEWORKS :: "string list" where
  "HOOKING_FRAMEWORKS =
     [''frida'', ''frida-agent'', ''frida-server'', ''frida-tracer'', ''cuckoo'', ''cuckoomon'',
      ''pythonhooker'', ''detours'', ''minhook'', ''easyhook'', ''speedhack'', ''speed-hack'']"

definition CRITICAL_FILE_HASHES :: "(ustr \<times> ustr) list" where "CRITICAL_FILE_HASHES = []"

definition TIMING_CHECK_THRESHOLD_NS :: nat where "TIMING_CHECK_THRESHOLD_NS = 500000"
definition SEEK_MIN_INTERVAL :: rat where "SEEK_MIN_INTERVAL = 5"
definition SEEK_MAX_INTERVAL :: rat where "SEEK_MAX_INTERVAL = 15"
definition SEEK_SUSPICION_THRESHOLD :: nat where "SEEK_SUSPICION_THRESHOLD = 3"
definition SEEK_ESCALATED_MIN_INTERVAL :: rat where "SEEK_ESCALATED_MIN_INTERVAL = 1"
definition SEEK_ESCALATED_MAX_INTERVAL :: rat where "SEEK_ESCALATED_MAX_INTERVAL = 3"

section \<open>The checks\<close>

text \<open>An exception that a check catches counts as nothing found.\<close>

definition caught_false :: "('a \<Rightarrow> bool) \<Rightarrow> 'a res \<Rightarrow> bool" where
  "caught_false found r = (case r of Inl _ \<Rightarrow> False | Inr x \<Rightarrow> found x)"

definition check_debugger_present :: "tamper_env \<Rightarrow> bool" where
  "check_debugger_present E = caught_false (\<lambda>present. present) (te_debugger_present E)"

definition check_remote_debugger :: "tamper_env \<Rightarrow> bool" where
  "check_remote_debugger E = caught_false (\<lambda>(result, is_debugged). result \<and> is_debugged) (te_remote_debugger E)"

definition check_peb_debugger_flag :: "tamper_env \<Rightarrow> bool" where
  "check_peb_debugger_flag E \<longleftrightarrow>
     caught_false (\<lambda>(status, debug_port). status = 0 \<and> debug_port \<noteq> 0) (te_debug_port E) \<or>
     caught_false (\<lambda>(status, debug_flags). status = 0 \<and> debug_flags = 0) (te_debug_flags E) \<or>
     caught_false (\<lambda>status. status = 0) (te_debug_object E)"

definition check_hardware_breakpoints :: "tamper_env \<Rightarrow> bool" where
  "check_hardware_breakpoints E =
     caught_false (\<lambda>registers. case registers of None \<Rightarrow> False | Some dr \<Rightarrow> list_ex (\<lambda>v. v \<noteq> 0) dr) (te_registers E)"

definition check_python_debugger_flags :: "tamper_env \<Rightarrow> bool" where
  "check_python_debugger_flags E \<longleftrightarrow> caught_false (\<lambda>set. set) (te_trace E) \<or> caught_false (\<lambda>set. set) (te_profile E)"

text \<open>A pattern of at most three characters has to be the whole name.\<close>

definition window_matches :: "ustr \<Rightarrow> ustr \<Rightarrow> bool" where
  "window_matches pattern name = (if length pattern \<le> 3 then pattern = name else contains pattern name)"

definition suspicious_window :: "unicode_tables \<Rightarrow> bool \<times> ustr \<times> ustr \<Rightarrow> bool" where
  "suspicious_window U w =
     (case w of (visible, cls, title) \<Rightarrow>
        visible \<and>
        (list_ex (\<lambda>c. window_matches (py_lower U (ustr c)) (py_lower U cls)) DEBUGGER_WINDOW_CLASSES \<or>
         list_ex (\<lambda>t. window_matches (ustr t) (py_lower U title)) DEBUGGER_WINDOW_TITLES))"

definition check_debugger_windows :: "unicode_tables \<Rightarrow> tamper_env \<Rightarrow> bool" where
  "check_debugger_windows U E = list_ex (suspicious_window U) (te_windows E)"

text \<open>Only three kinds of exceptions are caught here.\<close>

definition check_debugger_processes :: "unicode_tables \<Rightarrow> tamper_env \<Rightarrow> bool res" where
  "check_debugger_processes U E =
     (if \<not> te_win32 E then Inr False
      else case te_tasklist E of
        Tasklist_Failed \<Rightarrow> Inr False
      | Tasklist_Raised e \<Rightarrow> Inl e
      | Tasklist_Output returncode stdout \<Rightarrow>
          Inr (returncode = 0 \<and> list_ex (\<lambda>n. contains (ustr n) (py_lower U stdout)) DEBUGGER_PROCESS_NAMES))"

definition check_timing :: "tamper_env \<Rightarrow> bool" where
  "check_timing E =
     caught_false (\<lambda>times. times \<noteq> [] \<and> of_nat (sum_list times) / of_nat (length times) > (of_nat TIMING_CHECK_THRESHOLD_NS :: rat))
       (te_samples E)"

fun critical_files_changed :: "msg_crypto \<Rightarrow> app_bundle \<Rightarrow> (ustr \<times> ustr) list \<Rightarrow> bool res" where
  "critical_files_changed C b [] = Inr False"
| "critical_files_changed C b ((fname, expected_hash) # rest) =
     (case bd_file b fname of None \<Rightarrow> Inr True
      | Some (Inl e) \<Rightarrow> Inl e
      | Some (Inr data) \<Rightarrow> if hex (sha256 C data) \<noteq> expected_hash then Inr True else critical_files_changed C b rest)"

definition check_meipass :: "msg_crypto \<Rightarrow> tamper_env \<Rightarrow> bool" where
  "check_meipass C E =
     (case te_meipass E of None \<Rightarrow> False
      | Some b \<Rightarrow>
          if \<not> bd_exists b then True else if \<not> bd_is_dir b then True
          else caught_false (\<lambda>changed. changed) (critical_files_changed C b CRITICAL_FILE_HASHES))"

definition check_import_hooks :: "unicode_tables \<Rightarrow> tamper_env \<Rightarrow> bool" where
  "check_import_hooks U E =
     caught_false (list_ex (\<lambda>(hook_type, hook_str).
         list_ex (\<lambda>f. contains (ustr f) (py_lower U hook_str) \<or> contains (ustr f) (py_lower U hook_type)) HOOKING_FRAMEWORKS))
       (te_import_hooks E)"

definition mentions_frida :: "unicode_tables \<Rightarrow> ustr \<Rightarrow> bool" where
  "mentions_frida U s = contains (ustr ''frida'') (py_lower U s)"

definition check_frida :: "unicode_tables \<Rightarrow> tamper_env \<Rightarrow> bool" where
  "check_frida U E \<longleftrightarrow>
     list_ex (caught_false (\<lambda>found. found)) (te_frida_paths E) \<or>
     caught_false (list_ex (mentions_frida U)) (te_module_names E) \<or>
     caught_false (list_ex (\<lambda>(key, value). mentions_frida U key \<or> mentions_frida U value)) (te_environ E)"

definition critical_modules :: "string list" where
  "critical_modules = [''crypto'', ''database'', ''key_manager'', ''encryption_service'', ''double_ratchet'']"

definition check_module_integrity :: "tamper_env \<Rightarrow> bool" where
  "check_module_integrity E =
     list_ex (\<lambda>mod_name. case te_modules E mod_name of None \<Rightarrow> False
       | Some r \<Rightarrow> caught_false (\<lambda>data. length data < 16 \<or> take 4 data \<noteq> te_magic E) r) critical_modules"

definition unpack_le :: "nat \<Rightarrow> bytes \<Rightarrow> nat res" where
  "unpack_le n bs = unpack_be n (rev bs)"

text \<open>The header of an executable file; \<^verbatim>\<open>read\<close> and \<^verbatim>\<open>seek\<close> are slices. \<^verbatim>\<open>struct.error\<close> is caught outside.\<close>

definition bad_pe_header :: "bytes \<Rightarrow> bool res" where
  "bad_pe_header f =
     (let dos_header = take 64 f in
      if take 2 dos_header \<noteq> [0x4D, 0x5A] then Inr True
      else case unpack_le 4 (slice 60 64 dos_header) of Inl e \<Rightarrow> Inl e | Inr pe_offset \<Rightarrow>
      if slice pe_offset (pe_offset + 4) f \<noteq> [0x50, 0x45, 0, 0] then Inr True
      else let coff_header = slice (pe_offset + 4) (pe_offset + 24) f in
      case unpack_le 2 (slice 2 4 coff_header) of Inl e \<Rightarrow> Inl e | Inr num_sections \<Rightarrow>
      case unpack_le 4 (slice 4 8 coff_header) of Inl e \<Rightarrow> Inl e | Inr timestamp \<Rightarrow>
      if num_sections = 0 \<or> num_sections > 100 then Inr True
      else let opt_header = slice (pe_offset + 24) (pe_offset + 248) f in
      if length opt_header < 224 then Inr True
      else case unpack_le 4 (slice 16 20 opt_header) of Inl e \<Rightarrow> Inl e | Inr entry_point \<Rightarrow>
      case unpack_le 8 (slice 24 32 opt_header) of Inl e \<Rightarrow> Inl e | Inr image_base \<Rightarrow>
      Inr (entry_point = 0))"

definition check_pe_header :: "tamper_env \<Rightarrow> bool" where
  "check_pe_header E =
     (if \<not> te_frozen E then False
      else case te_executable E of None \<Rightarrow> True
        | Some (Inl _) \<Rightarrow> False
        | Some (Inr f) \<Rightarrow> caught_false (\<lambda>bad. bad) (bad_pe_header f))"

section \<open>All checks\<close>

text \<open>The first check that finds something, or raises, ends the loop.\<close>

definition checks :: "unicode_tables \<Rightarrow> msg_crypto \<Rightarrow> tamper_env \<Rightarrow> bool res list" where
  "checks U C E =
     [Inr (check_debugger_present E), Inr (check_remote_debugger E), Inr (check_peb_debugger_flag E),
      Inr (check_hardware_breakpoints E), Inr (check_python_debugger_flags E), Inr (check_debugger_windows U E),
      check_debugger_processes U E, Inr (check_timing E), Inr (check_meipass C E), Inr (check_import_hooks U E),
      Inr (check_frida U E), Inr (check_module_integrity E), Inr (check_pe_header E)]"

fun run_checks :: "bool res list \<Rightarrow> bool" where
  "run_checks [] = False"
| "run_checks (Inl e # cs) = True"
| "run_checks (Inr found # cs) = (if found then True else run_checks cs)"

definition run_all_checks :: "unicode_tables \<Rightarrow> msg_crypto \<Rightarrow> tamper_env \<Rightarrow> bool" where
  "run_all_checks U C E = run_checks (checks U C E)"

datatype fate = Goes_On | Exits

definition run_anti_tamper_checks :: "unicode_tables \<Rightarrow> msg_crypto \<Rightarrow> tamper_env \<Rightarrow> fate" where
  "run_anti_tamper_checks U C E = (if te_frozen E \<and> run_all_checks U C E then Exits else Goes_On)"

definition check_on_demand :: "unicode_tables \<Rightarrow> msg_crypto \<Rightarrow> tamper_env \<Rightarrow> bool" where
  "check_on_demand U C E \<longleftrightarrow> te_frozen E \<and> run_all_checks U C E"

section \<open>The scan of the memory\<close>

text \<open>One answer of \<^verbatim>\<open>VirtualQueryEx\<close>; \<open>None\<close> is its failure. The field \<^verbatim>\<open>BaseAddress\<close> is a \<^verbatim>\<open>c_void_p\<close>, which
  reads as \<^verbatim>\<open>None\<close> when it is null: adding a size to that raises, and the exception ends the scan without
  a finding.\<close>

record region =
  mb_base :: nat
  mb_size :: nat
  mb_committed :: bool
  mb_rwx :: bool
  mb_image :: bool

definition injected :: "region \<Rightarrow> bool" where
  "injected m \<longleftrightarrow> mb_committed m \<and> mb_rwx m \<and> \<not> mb_image m"

partial_function (option) scan_regions :: "(nat \<Rightarrow> region option) \<Rightarrow> nat \<Rightarrow> nat \<Rightarrow> bool option" where
  "scan_regions query address suspicious_regions =
     (if \<not> address < 256 * 1024 * 1024 then Some False
      else case query address of None \<Rightarrow> Some False
        | Some m \<Rightarrow>
            if injected m \<and> suspicious_regions + 1 \<ge> 3 then Some True
            else if mb_size m > 0 then
              (if mb_base m = 0 then Some False
               else scan_regions query (mb_base m + mb_size m) (if injected m then suspicious_regions + 1 else suspicious_regions))
            else scan_regions query (address + 65536) (if injected m then suspicious_regions + 1 else suspicious_regions))"

definition deep_scan :: "(nat \<Rightarrow> region option) \<Rightarrow> bool option" where
  "deep_scan query = scan_regions query 0 0"

section \<open>The seeker\<close>

record seeker =
  sk_suspicion_count :: nat
  sk_escalated :: bool
  sk_last_check_time :: rat

definition new_seeker :: seeker where
  "new_seeker = \<lparr>sk_suspicion_count = 0, sk_escalated = False, sk_last_check_time = 0\<rparr>"

definition seek_interval :: "seeker \<Rightarrow> rat \<times> rat" where
  "seek_interval s =
     (if sk_escalated s then (SEEK_ESCALATED_MIN_INTERVAL, SEEK_ESCALATED_MAX_INTERVAL)
      else (SEEK_MIN_INTERVAL, SEEK_MAX_INTERVAL))"

definition record_suspicion :: "seeker \<Rightarrow> seeker" where
  "record_suspicion s =
     (let s1 = s\<lparr>sk_suspicion_count := sk_suspicion_count s + 1\<rparr> in
      if sk_suspicion_count s1 \<ge> SEEK_SUSPICION_THRESHOLD \<and> \<not> sk_escalated s1 then s1\<lparr>sk_escalated := True\<rparr> else s1)"

definition clear_suspicion :: "seeker \<Rightarrow> seeker" where
  "clear_suspicion s =
     (let s1 = s\<lparr>sk_suspicion_count := sk_suspicion_count s - 1\<rparr> in
      if sk_suspicion_count s1 = 0 \<and> sk_escalated s1 then s1\<lparr>sk_escalated := False\<rparr> else s1)"

text \<open>One cycle at the time \<open>now\<close>: \<open>primary\<close> and \<open>confirm\<close> are what \<^verbatim>\<open>_run_all_checks\<close> gives at the first and
  at the second call. \<open>None\<close> is a scan of the memory that does not return.\<close>

definition seek :: "bool \<Rightarrow> bool \<Rightarrow> (nat \<Rightarrow> region option) \<Rightarrow> rat \<Rightarrow> seeker \<Rightarrow> (bool \<times> seeker) option" where
  "seek primary confirm query now s =
     (if now - sk_last_check_time s < SEEK_MIN_INTERVAL then Some (False, s)
      else let s1 = s\<lparr>sk_last_check_time := now\<rparr> in
        if primary then (if confirm then Some (True, s1) else Some (False, record_suspicion s1))
        else if sk_escalated s1 then
          (case deep_scan query of None \<Rightarrow> None
           | Some True \<Rightarrow> Some (True, s1)
           | Some False \<Rightarrow> Some (False, clear_suspicion s1))
        else Some (False, clear_suspicion s1))"

text \<open>A run of the background thread: the wake-ups, with the time of each; what they leave and the times at
  which a check was made.\<close>

record wake_up =
  wu_time :: rat
  wu_primary :: bool
  wu_confirm :: bool
  wu_query :: "nat \<Rightarrow> region option"

fun background_run :: "wake_up list \<Rightarrow> seeker \<Rightarrow> (fate \<times> seeker \<times> rat list) option" where
  "background_run [] s = Some (Goes_On, s, [])"
| "background_run (w # ws) s =
     (case seek (wu_primary w) (wu_confirm w) (wu_query w) (wu_time w) s of
        None \<Rightarrow> None
      | Some (True, s1) \<Rightarrow> Some (Exits, s1, [wu_time w])
      | Some (False, s1) \<Rightarrow>
          map_option (\<lambda>(f, s2, checked). (f, s2, if wu_time w - sk_last_check_time s < SEEK_MIN_INTERVAL then checked else wu_time w # checked))
            (background_run ws s1))"

section \<open>What the checks find\<close>

lemma run_checks_iff: "run_checks rs \<longleftrightarrow> (\<exists>r\<in>set rs. r = Inr True \<or> (\<exists>e. r = Inl e))"
  by (induction rs rule: run_checks.induct) auto

text \<open>A system of which no question is answered: the debugger interface, the list of processes, the windows
  and the files all fail.\<close>

definition no_answers :: "tamper_env \<Rightarrow> bool" where
  "no_answers E \<longleftrightarrow>
     \<not> is_ok (te_debugger_present E) \<and> \<not> is_ok (te_remote_debugger E) \<and> \<not> is_ok (te_debug_port E) \<and>
     \<not> is_ok (te_debug_flags E) \<and> \<not> is_ok (te_debug_object E) \<and> \<not> is_ok (te_registers E) \<and> \<not> is_ok (te_trace E) \<and>
     \<not> is_ok (te_profile E) \<and> te_windows E = [] \<and> te_tasklist E = Tasklist_Failed \<and> \<not> is_ok (te_samples E) \<and>
     (\<forall>b. te_meipass E = Some b \<longrightarrow> bd_exists b \<and> bd_is_dir b) \<and>
     \<not> is_ok (te_import_hooks E) \<and> list_all (\<lambda>r. \<not> is_ok r) (te_frida_paths E) \<and> \<not> is_ok (te_module_names E) \<and>
     \<not> is_ok (te_environ E) \<and> (\<forall>m r. te_modules E m = Some r \<longrightarrow> \<not> is_ok r) \<and>
     (\<exists>e. te_executable E = Some (Inl e))"

lemma caught_false_Inl: "\<not> is_ok r \<Longrightarrow> \<not> caught_false f r"
  by (cases r) (simp_all add: caught_false_def)

text \<open>The checks fail open: a system that answers no question, whose list of processes fails with one of the
  three caught exceptions, passes them all, and the program goes on.\<close>

theorem silent_system_passes:
  assumes "no_answers E"
  shows "run_anti_tamper_checks U C E = Goes_On \<and> \<not> check_on_demand U C E"
proof -
  have "\<not> check_debugger_present E \<and> \<not> check_remote_debugger E \<and> \<not> check_peb_debugger_flag E \<and>
      \<not> check_hardware_breakpoints E \<and> \<not> check_python_debugger_flags E \<and> \<not> check_timing E \<and> \<not> check_import_hooks U E"
    using assms by (simp add: no_answers_def caught_false_Inl check_debugger_present_def check_remote_debugger_def
        check_peb_debugger_flag_def check_hardware_breakpoints_def check_python_debugger_flags_def check_timing_def check_import_hooks_def)
  moreover have "\<not> check_debugger_windows U E" "check_debugger_processes U E = Inr False"
    using assms by (simp_all add: no_answers_def check_debugger_windows_def check_debugger_processes_def)
  moreover have "\<not> check_meipass C E"
    using assms by (auto simp: no_answers_def check_meipass_def CRITICAL_FILE_HASHES_def caught_false_def split: option.split)
  moreover have "\<not> list_ex (caught_false (\<lambda>found. found)) (te_frida_paths E)"
    using assms unfolding no_answers_def list_ex_iff list_all_iff by (blast dest: caught_false_Inl)
  then have "\<not> check_frida U E" using assms by (simp add: no_answers_def check_frida_def caught_false_Inl)
  moreover have "\<not> check_module_integrity E"
    using assms by (auto simp: no_answers_def check_module_integrity_def list_ex_iff caught_false_Inl split: option.splits)
  moreover have "\<not> check_pe_header E" using assms by (auto simp: no_answers_def check_pe_header_def)
  ultimately have "\<not> run_all_checks U C E" by (simp add: run_all_checks_def checks_def)
  then show ?thesis by (simp add: run_anti_tamper_checks_def check_on_demand_def)
qed

text \<open>An exception that leaves a check counts as a finding; only the list of processes can raise one.\<close>

lemma raised_tasklist_detected:
  "te_win32 E \<Longrightarrow> te_tasklist E = Tasklist_Raised e \<Longrightarrow> run_all_checks U C E"
  by (simp add: run_all_checks_def run_checks_iff checks_def check_debugger_processes_def)

text \<open>Three names of programs are written with capitals and looked for in a text without any.\<close>

lemma lower_no_capital:
  assumes "list_all (\<lambda>c. c < 128) s" "c \<in> set (py_lower U s)"
  shows "\<not> (65 \<le> c \<and> c \<le> 90)"
  using assms by (auto simp: py_lower_def split: if_splits)

lemma contains_subset: "contains p s \<Longrightarrow> set p \<subseteq> set s"
proof -
  have st: "starts_with p s \<Longrightarrow> set p \<subseteq> set s" for p s :: "'a list"
    by (induction p s rule: starts_with.induct) auto
  show "contains p s \<Longrightarrow> set p \<subseteq> set s"
  proof (induction s)
    case (Cons a s)
    then show ?case using st [of p "a # s"] by auto
  qed simp
qed

lemma capital_names_never_found:
  assumes "list_all (\<lambda>c. c < 128) stdout" "n \<in> {''dnSpy.exe'', ''dnSpy.UnityMod.exe'', ''ghidraRun.exe''}"
  shows "\<not> contains (ustr n) (py_lower U stdout)"
proof
  assume "contains (ustr n) (py_lower U stdout)"
  moreover have "83 \<in> set (ustr n) \<or> 82 \<in> set (ustr n)" using assms(2) by (auto simp: ustr_def)
  ultimately have "83 \<in> set (py_lower U stdout) \<or> 82 \<in> set (py_lower U stdout)" by (blast dest: contains_subset)
  with lower_no_capital [OF assms(1)] show False by fastforce
qed

text \<open>An executable that is cut off behind its first two bytes passes.\<close>

lemma truncated_executable_passes: "te_executable E = Some (Inr [0x4D, 0x5A]) \<Longrightarrow> \<not> check_pe_header E"
  by (simp add: check_pe_header_def bad_pe_header_def caught_false_def slice_def unpack_le_def unpack_be_def)

section \<open>What the seeker does\<close>

text \<open>The lowest region of the address space begins at its address 0.\<close>

definition low_region :: "(nat \<Rightarrow> region option) \<Rightarrow> bool" where
  "low_region query \<longleftrightarrow> (\<forall>m. query 0 = Some m \<longrightarrow> mb_base m = 0 \<and> 0 < mb_size m)"

lemma deep_scan_blind: "low_region query \<Longrightarrow> deep_scan query = Some False"
  unfolding deep_scan_def by (subst scan_regions.simps) (auto simp: low_region_def split: option.split)

definition seeker_inv :: "seeker \<Rightarrow> bool" where
  "seeker_inv s \<longleftrightarrow> (sk_escalated s \<longrightarrow> 0 < sk_suspicion_count s) \<and> (SEEK_SUSPICION_THRESHOLD \<le> sk_suspicion_count s \<longrightarrow> sk_escalated s)"

inductive seeker_step :: "seeker \<Rightarrow> seeker \<Rightarrow> bool" where
  step_seek: "seek p c query now s = Some (found, s') \<Longrightarrow> seeker_step s s'"

lemma record_suspicion_inv: "seeker_inv s \<Longrightarrow> seeker_inv (record_suspicion s)"
  by (auto simp: seeker_inv_def record_suspicion_def Let_def)

lemma clear_suspicion_inv: "seeker_inv s \<Longrightarrow> seeker_inv (clear_suspicion s)"
  by (auto simp: seeker_inv_def clear_suspicion_def Let_def SEEK_SUSPICION_THRESHOLD_def)

interpretation seeking: state_machine "\<lambda>s. s = new_seeker" seeker_step seeker_inv
proof
  show "seeker_inv s" if "s = new_seeker" for s
    using that by (simp add: seeker_inv_def new_seeker_def SEEK_SUSPICION_THRESHOLD_def)
next
  show "seeker_inv s'" if "seeker_inv s" "seeker_step s s'" for s s'
    using that(2)
  proof cases
    case (step_seek p c query now found)
    have "seeker_inv (s\<lparr>sk_last_check_time := now\<rparr>)" using that(1) by (simp add: seeker_inv_def)
    with step_seek that(1) show ?thesis
      by (auto simp: seek_def Let_def record_suspicion_inv clear_suspicion_inv split: if_splits option.splits bool.splits)
  qed
qed

lemma escalated_is_suspicious: "reachable (\<lambda>s. s = new_seeker) seeker_step s \<Longrightarrow> sk_escalated s \<Longrightarrow> 0 < sk_suspicion_count s"
  using seeking.reachable_invariant [of s] by (simp add: seeker_inv_def)

text \<open>The wake-up that follows a check in the escalated mode comes too early to check anything.\<close>

lemma escalated_wake_up_skips:
  assumes "sk_escalated s" "now \<le> sk_last_check_time s + snd (seek_interval s)"
  shows "seek p c query now s = Some (False, s)"
  using assms by (simp add: seek_def seek_interval_def SEEK_ESCALATED_MAX_INTERVAL_def SEEK_MIN_INTERVAL_def)

lemma seek_cases [consumes 1, case_names early found clean]:
  assumes "low_region query"
  obtains (early) "now - sk_last_check_time s < SEEK_MIN_INTERVAL" "seek p c query now s = Some (False, s)"
  | (found) "SEEK_MIN_INTERVAL \<le> now - sk_last_check_time s" "p" "c" "seek p c query now s = Some (True, s\<lparr>sk_last_check_time := now\<rparr>)"
  | (clean) s1 where "SEEK_MIN_INTERVAL \<le> now - sk_last_check_time s" "seek p c query now s = Some (False, s1)"
      "sk_last_check_time s1 = now"
proof -
  have d: "deep_scan query = Some False" by (rule deep_scan_blind [OF assms])
  have last: "sk_last_check_time (record_suspicion x) = sk_last_check_time x" "sk_last_check_time (clear_suspicion x) = sk_last_check_time x" for x
    by (simp_all add: record_suspicion_def clear_suspicion_def Let_def)
  consider "now - sk_last_check_time s < SEEK_MIN_INTERVAL" | "SEEK_MIN_INTERVAL \<le> now - sk_last_check_time s" by linarith
  then show thesis
  proof cases
    case 1
    then show thesis by (intro early) (simp_all add: seek_def)
  next
    case 2
    then show thesis using found clean by (cases p; cases c; cases "sk_escalated s") (simp_all add: seek_def Let_def d last)
  qed
qed


text \<open>A debugger that is found at each of three wake-ups one second apart, and a memory whose regions are
  all injected.\<close>

definition injected_memory :: "nat \<Rightarrow> region option" where
  "injected_memory a = Some \<lparr>mb_base = a div 4096 * 4096, mb_size = 4096, mb_committed = True, mb_rwx = True, mb_image = False\<rparr>"

definition three_wake_ups :: "wake_up list" where
  "three_wake_ups = map (\<lambda>t. \<lparr>wu_time = t, wu_primary = (t = 12), wu_confirm = True, wu_query = injected_memory\<rparr>) [10, 11, 12]"


definition silent_system :: tamper_env where
  "silent_system =
     \<lparr>te_frozen = True, te_win32 = True, te_debugger_present = Inl OSErr, te_remote_debugger = Inl OSErr, te_debug_port = Inl OSErr,
      te_debug_flags = Inl OSErr, te_debug_object = Inl OSErr, te_registers = Inl OSErr, te_trace = Inl RuntimeError,
      te_profile = Inl RuntimeError, te_windows = [], te_tasklist = Tasklist_Failed, te_samples = Inl OSErr, te_meipass = None,
      te_import_hooks = Inl RuntimeError, te_frida_paths = [Inl OSErr], te_module_names = Inl RuntimeError,
      te_environ = Inl OSErr, te_modules = (\<lambda>_. None), te_magic = [], te_executable = Some (Inl OSErr)\<rparr>"

theorem silent_system_passes_witness:
  "\<forall>U C. run_anti_tamper_checks U C silent_system = Goes_On \<and> run_anti_tamper_checks U C (silent_system\<lparr>te_trace := Inr True\<rparr>) = Exits"
proof (intro allI conjI)
  fix U C
  have "no_answers silent_system" by (simp add: no_answers_def silent_system_def)
  then show "run_anti_tamper_checks U C silent_system = Goes_On" using silent_system_passes by blast
  show "run_anti_tamper_checks U C (silent_system\<lparr>te_trace := Inr True\<rparr>) = Exits"
    by (simp add: run_anti_tamper_checks_def run_all_checks_def run_checks_iff checks_def check_python_debugger_flags_def
        caught_false_def silent_system_def)
qed

end
