(* ===== verification/Desktop.thy ===== *)
theory Desktop
  imports State_Machine "HOL-Library.AList"
begin

text \<open>
  The services between the program and the desktop: \<^verbatim>\<open>services/clipboard_service.py\<close> over the clipboard, its
  timers and the time, \<^verbatim>\<open>services/hotkey_service.py\<close>, and of \<^verbatim>\<open>controllers/application_controller.py\<close> the
  queue of the main thread and the synchronisation with a time server.
\<close>

section \<open>The clipboard\<close>

text \<open>A text that was copied with automatic clearing is marked with the time until which it may stay;
  nothing the program does depends on the mark.\<close>

datatype clip = No_Text | Plain ustr | Secret ustr rat

text \<open>\<open>cw_timers\<close> are the timers that have neither fired nor been cancelled, of this service and of the ones it
  replaced; \<open>cw_own\<close> is the timer this service knows. \<open>cw_failed\<close> records that the clipboard could not be cleared
  once.\<close>

record clipboard =
  cw_now :: rat
  cw_content :: clip
  cw_delay :: rat
  cw_timers :: "(nat \<times> rat) list"
  cw_created :: nat
  cw_own :: "nat option"
  cw_failed :: bool

definition new_clipboard :: "rat \<Rightarrow> rat \<Rightarrow> clip \<Rightarrow> clipboard" where
  "new_clipboard clear_delay now content =
     \<lparr>cw_now = now, cw_content = content, cw_delay = clear_delay, cw_timers = [], cw_created = 0, cw_own = None, cw_failed = False\<rparr>"

text \<open>\<^verbatim>\<open>clipboard_clear\<close> and \<^verbatim>\<open>clipboard_append\<close>; \<open>c\<close> and \<open>a\<close> tell whether they succeed.\<close>

definition replace_text :: "bool \<Rightarrow> bool \<Rightarrow> clip \<Rightarrow> clipboard \<Rightarrow> bool \<times> clipboard" where
  "replace_text c a content w =
     (if \<not> c then (False, w)
      else if \<not> a then (False, w\<lparr>cw_content := No_Text\<rparr>)
      else (True, w\<lparr>cw_content := content\<rparr>))"

definition cancel_own :: "clipboard \<Rightarrow> clipboard" where
  "cancel_own w = (case cw_own w of None \<Rightarrow> w | Some n \<Rightarrow> w\<lparr>cw_timers := filter (\<lambda>t. fst t \<noteq> n) (cw_timers w)\<rparr>)"

definition schedule_clear :: "clipboard \<Rightarrow> clipboard" where
  "schedule_clear w =
     (let w1 = cancel_own w in
      w1\<lparr>cw_timers := cw_timers w1 @ [(cw_created w1, cw_now w1 + cw_delay w1)], cw_own := Some (cw_created w1),
         cw_created := cw_created w1 + 1\<rparr>)"

definition clip_copy :: "bool \<Rightarrow> bool \<Rightarrow> ustr \<Rightarrow> bool \<Rightarrow> clipboard \<Rightarrow> bool \<times> clipboard" where
  "clip_copy c a text auto_clear w =
     (case replace_text c a (if auto_clear then Secret text (cw_now w + cw_delay w) else Plain text) w of
        (True, w1) \<Rightarrow> (True, if auto_clear then schedule_clear w1 else w1)
      | (False, w1) \<Rightarrow> (False, w1))"

definition clip_get :: "bool \<Rightarrow> clipboard \<Rightarrow> ustr option" where
  "clip_get ok w =
     (if \<not> ok then None else case cw_content w of No_Text \<Rightarrow> None | Plain t \<Rightarrow> Some t | Secret t _ \<Rightarrow> Some t)"

definition clip_clear :: "bool \<Rightarrow> bool \<Rightarrow> clipboard \<Rightarrow> clipboard" where
  "clip_clear c a w = (let w1 = snd (replace_text c a (Plain []) w) in w1\<lparr>cw_failed := cw_failed w1 \<or> \<not> c\<rparr>)"

definition clip_shutdown :: "bool \<Rightarrow> bool \<Rightarrow> clipboard \<Rightarrow> clipboard" where
  "clip_shutdown c a w = clip_clear c a ((cancel_own w)\<lparr>cw_own := None\<rparr>)"

text \<open>A timer fires when its time has come, in its own thread.\<close>

definition clip_fire :: "bool \<Rightarrow> bool \<Rightarrow> nat \<times> rat \<Rightarrow> clipboard \<Rightarrow> clipboard option" where
  "clip_fire c a t w =
     (if t \<in> set (cw_timers w) \<and> snd t \<le> cw_now w
      then Some (clip_clear c a (w\<lparr>cw_timers := remove1 t (cw_timers w)\<rparr>)) else None)"

text \<open>An unlock makes a new service and forgets the old one, whose timer goes on. Another program may change the
  clipboard at any time; time passes up to the next timer.\<close>

definition clip_rebuild :: "clipboard \<Rightarrow> clipboard" where
  "clip_rebuild w = w\<lparr>cw_own := None\<rparr>"

inductive clip_step :: "clipboard \<Rightarrow> clipboard \<Rightarrow> bool" where
  step_copy: "clip_step w (snd (clip_copy c a text auto_clear w))"
| step_clear: "clip_step w (clip_clear c a w)"
| step_clip_shutdown: "clip_step w (clip_shutdown c a w)"
| step_fire: "clip_fire c a t w = Some w' \<Longrightarrow> clip_step w w'"
| step_rebuild: "clip_step w (clip_rebuild w)"
| step_other_program: "clip_step w (w\<lparr>cw_content := (case text of None \<Rightarrow> No_Text | Some t \<Rightarrow> Plain t)\<rparr>)"
| step_time: "0 < dt \<Longrightarrow> \<forall>t\<in>set (cw_timers w). cw_now w + dt \<le> snd t \<Longrightarrow> clip_step w (w\<lparr>cw_now := cw_now w + dt\<rparr>)"

definition clip_inv :: "clipboard \<Rightarrow> bool" where
  "clip_inv w \<longleftrightarrow> 0 \<le> cw_delay w \<and> (\<forall>t\<in>set (cw_timers w). cw_now w \<le> snd t) \<and>
     (\<forall>text d. cw_content w = Secret text d \<longrightarrow> cw_failed w \<or> (\<exists>t\<in>set (cw_timers w). snd t \<le> d))"

definition clip_init :: "clipboard \<Rightarrow> bool" where
  "clip_init w \<longleftrightarrow> (\<exists>delay now content. 0 \<le> delay \<and> (\<forall>text d. content \<noteq> Secret text d) \<and> w = new_clipboard delay now content)"

lemma cancel_own_fields [simp]:
  "cw_now (cancel_own w) = cw_now w" "cw_content (cancel_own w) = cw_content w" "cw_delay (cancel_own w) = cw_delay w"
  "cw_failed (cancel_own w) = cw_failed w" "set (cw_timers (cancel_own w)) \<subseteq> set (cw_timers w)"
  by (auto simp: cancel_own_def split: option.split)

lemma clear_inv:
  assumes "0 \<le> cw_delay w" "\<forall>t\<in>set (cw_timers w). cw_now w \<le> snd t"
  shows "clip_inv (clip_clear c a w)"
  using assms by (auto simp: clip_inv_def clip_clear_def replace_text_def Let_def)

lemma schedule_inv:
  assumes "0 \<le> cw_delay w" "\<forall>t\<in>set (cw_timers w). cw_now w \<le> snd t" "cw_content w = Secret text (cw_now w + cw_delay w)"
  shows "clip_inv (schedule_clear w)"
proof -
  have "\<forall>t\<in>set (cw_timers (cancel_own w)). cw_now w \<le> snd t" using assms(2) cancel_own_fields(5) by blast
  then show ?thesis using assms(1,3) by (simp add: clip_inv_def schedule_clear_def Let_def)
qed

interpretation clip_machine: state_machine clip_init clip_step clip_inv
proof
  show "clip_inv w" if "clip_init w" for w
    using that by (auto simp: clip_init_def clip_inv_def new_clipboard_def)
next
  show "clip_inv w'" if inv: "clip_inv w" and step: "clip_step w w'" for w w'
  proof -
    have base: "0 \<le> cw_delay w" "\<forall>t\<in>set (cw_timers w). cw_now w \<le> snd t" using inv by (auto simp: clip_inv_def)
    show ?thesis using step
  proof cases
    case (step_copy c a str auto_clear)
    show ?thesis
    proof (cases "c \<and> a \<and> auto_clear")
      case True
      let ?w = "w\<lparr>cw_content := Secret str (cw_now w + cw_delay w)\<rparr>"
      have "clip_inv (schedule_clear ?w)"
        by (rule schedule_inv) (use inv in \<open>simp_all add: clip_inv_def\<close>)
      then show ?thesis using True step_copy by (simp add: clip_copy_def replace_text_def)
    next
      case False
      then show ?thesis using inv step_copy by (auto simp: clip_copy_def replace_text_def clip_inv_def)
    qed
  next
    case step_clear
    then show ?thesis using clear_inv [OF base] by simp
  next
    case (step_clip_shutdown c a)
    have "clip_inv (clip_clear c a ((cancel_own w)\<lparr>cw_own := None\<rparr>))"
      by (rule clear_inv) (use base(1) base(2) [THEN bspec, OF subsetD [OF cancel_own_fields(5)]] in \<open>simp_all add: Ball_def\<close>)
    then show ?thesis using step_clip_shutdown by (simp add: clip_shutdown_def)
  next
    case (step_fire c a t)
    have "clip_inv (clip_clear c a (w\<lparr>cw_timers := remove1 t (cw_timers w)\<rparr>))"
      by (rule clear_inv) (use base set_remove1_subset [of t "cw_timers w"] in auto)
    then show ?thesis using step_fire by (simp add: clip_fire_def split: if_splits)
  next
    case step_rebuild
    then show ?thesis using inv by (simp add: clip_rebuild_def clip_inv_def)
  next
    case step_other_program
    then show ?thesis using inv by (auto simp: clip_inv_def split: option.splits)
  next
    case step_time
    then show ?thesis using inv by (auto simp: clip_inv_def)
  qed
  qed
qed

text \<open>C38. A text that was copied with automatic clearing is gone when the delay is over, whatever is copied, locked,
  unlocked or replaced meanwhile, unless the clipboard could not be cleared.\<close>

theorem secret_leaves_clipboard:
  assumes "reachable clip_init clip_step w" "\<not> cw_failed w"
  shows "case cw_content w of Secret text d \<Rightarrow> cw_now w \<le> d | _ \<Rightarrow> True"
  using clip_machine.reachable_invariant [OF assms(1)] assms(2)
  by (fastforce simp: clip_inv_def split: clip.split)

text \<open>A failure to clear is only logged: the timer is gone and the text stays for ever.\<close>

lemma failed_clear_keeps_text:
  "clip_fire False a t w = Some w' \<Longrightarrow> cw_content w' = cw_content w \<and> cw_timers w' = remove1 t (cw_timers w)"
  by (auto simp: clip_fire_def clip_clear_def replace_text_def Let_def split: if_splits)

definition copied :: clipboard where
  "copied = snd (clip_copy True True (ustr ''secret'') True (new_clipboard 30 0 No_Text))"

lemma copied_reachable: "reachable clip_init clip_step copied"
proof -
  have "clip_init (new_clipboard 30 0 No_Text)"
    unfolding clip_init_def by (rule exI [of _ 30], rule exI [of _ 0], rule exI [of _ No_Text]) simp
  then have "reachable clip_init clip_step (new_clipboard 30 0 No_Text)" by (rule start)
  then show ?thesis unfolding copied_def by (rule next_state) (rule step_copy)
qed

theorem secret_leaves_clipboard_witness:
  "cw_content (copied\<lparr>cw_now := 30\<rparr>) = Secret (ustr ''secret'') 30 \<and>
   (case cw_content (copied\<lparr>cw_now := 30\<rparr>) of Secret text d \<Rightarrow> cw_now (copied\<lparr>cw_now := 30\<rparr>) \<le> d | _ \<Rightarrow> True)"
proof
  have c: "cw_content copied = Secret (ustr ''secret'') 30" "cw_timers copied = [(0, 30)]" "cw_now copied = 0" "\<not> cw_failed copied"
    by (simp_all add: copied_def clip_copy_def replace_text_def new_clipboard_def schedule_clear_def cancel_own_def Let_def)
  have "clip_step copied (copied\<lparr>cw_now := cw_now copied + 30\<rparr>)" by (rule step_time) (simp_all add: c)
  then have "reachable clip_init clip_step (copied\<lparr>cw_now := 30\<rparr>)" using next_state [OF copied_reachable] c(3) by simp
  then show "case cw_content (copied\<lparr>cw_now := 30\<rparr>) of Secret text d \<Rightarrow> cw_now (copied\<lparr>cw_now := 30\<rparr>) \<le> d | _ \<Rightarrow> True"
    by (rule secret_leaves_clipboard) (simp add: c)
  show "cw_content (copied\<lparr>cw_now := 30\<rparr>) = Secret (ustr ''secret'') 30" by (simp add: c)
qed

section \<open>The queue of the main thread\<close>

text \<open>A task by the number of its submission and what it does; \<^verbatim>\<open>Empty\<close> of a task is the exception of the
  queue.\<close>

datatype task_outcome = Returns | Raises_Empty | Raises enigma_error

record main_queue =
  mq_tasks :: "(nat \<times> task_outcome) list"
  mq_is_running :: bool
  mq_after :: bool
  mq_started :: "nat list"

text \<open>The loop over \<^verbatim>\<open>get_nowait\<close>: what is left in the queue, the tasks that were started, and what leaves the
  loop. What other threads put in the queue meanwhile is at its end.\<close>

fun queue_loop :: "(nat \<times> task_outcome) list \<Rightarrow> nat list \<Rightarrow> unit res \<times> (nat \<times> task_outcome) list \<times> nat list" where
  "queue_loop [] started = (Inr (), [], started)"
| "queue_loop ((n, Returns) # ts) started = queue_loop ts (started @ [n])"
| "queue_loop ((n, Raises_Empty) # ts) started = (Inr (), ts, started @ [n])"
| "queue_loop ((n, Raises e) # ts) started = (Inl e, ts, started @ [n])"

definition process_queue :: "main_queue \<Rightarrow> unit res \<times> main_queue" where
  "process_queue q =
     (if \<not> mq_is_running q then (Inr (), q)
      else case queue_loop (mq_tasks q) (mq_started q) of
        (Inl e, ts, started) \<Rightarrow> (Inl e, q\<lparr>mq_tasks := ts, mq_started := started\<rparr>)
      | (Inr _, ts, started) \<Rightarrow> (Inr (), q\<lparr>mq_tasks := ts, mq_started := started, mq_after := True\<rparr>))"

text \<open>The crypto queue that is started on the way has its own model.\<close>

definition start_queue_processing :: "main_queue \<Rightarrow> unit res \<times> main_queue" where
  "start_queue_processing q = process_queue (q\<lparr>mq_is_running := True\<rparr>)"

definition enqueue :: "nat \<times> task_outcome \<Rightarrow> main_queue \<Rightarrow> main_queue" where
  "enqueue t q = q\<lparr>mq_tasks := mq_tasks q @ [t]\<rparr>"

text \<open>The main loop of Tk calls the queue again after 100 ms; an exception of a callback is reported there.\<close>

definition after_callback :: "main_queue \<Rightarrow> main_queue option" where
  "after_callback q = (if mq_after q then Some (snd (process_queue (q\<lparr>mq_after := False\<rparr>))) else None)"

definition queue_cancelled :: "main_queue \<Rightarrow> main_queue" where
  "queue_cancelled q = q\<lparr>mq_is_running := False, mq_after := False\<rparr>"

inductive main_step :: "main_queue \<Rightarrow> main_queue \<Rightarrow> bool" where
  step_enqueue: "main_step q (enqueue t q)"
| step_after: "after_callback q = Some q' \<Longrightarrow> main_step q q'"
| step_cancelled: "main_step q (queue_cancelled q)"

lemma queue_loop_prefix:
  "(\<forall>t\<in>set ts. snd t = Returns) \<Longrightarrow> queue_loop (ts @ us) started = queue_loop us (started @ map fst ts)"
  by (induction ts arbitrary: started) auto

lemma queue_loop_all:
  "(\<forall>t\<in>set ts. snd t = Returns) \<Longrightarrow> queue_loop ts started = (Inr (), [], started @ map fst ts)"
  using queue_loop_prefix [of ts "[]" started] by simp

lemma stopped_stays:
  "main_step\<^sup>*\<^sup>* q q' \<Longrightarrow> \<not> mq_after q \<Longrightarrow> \<not> mq_after q' \<and> mq_started q' = mq_started q"
proof (induction rule: rtranclp_induct)
  case (step q1 q2)
  from step.hyps(2) step.IH step.prems show ?case
    by cases (auto simp: enqueue_def after_callback_def queue_cancelled_def)
qed simp

text \<open>C39. The queue of the main thread runs the tasks in the order they came; one task that raises stops it: no
  task behind it is ever started, whatever is put in the queue later.\<close>

theorem raising_task_stops_queue:
  assumes "mq_is_running q" "mq_after q" "mq_tasks q = ts @ (n, Raises e) # us" "\<forall>t\<in>set ts. snd t = Returns"
    and "after_callback q = Some q1" "main_step\<^sup>*\<^sup>* q1 q2"
  shows "mq_started q2 = mq_started q @ map fst ts @ [n]"
proof -
  have "queue_loop (mq_tasks q) (mq_started q) = (Inl e, us, mq_started q @ map fst ts @ [n])"
    using queue_loop_prefix [OF assms(4), of "(n, Raises e) # us" "mq_started q"] assms(3) by simp
  then have "\<not> mq_after q1" "mq_started q1 = mq_started q @ map fst ts @ [n]"
    using assms(1,2,5) by (auto simp: after_callback_def process_queue_def)
  with stopped_stays [OF assms(6)] show ?thesis by simp
qed

lemma good_tasks_all_run:
  assumes "mq_is_running q" "\<forall>t\<in>set (mq_tasks q). snd t = Returns"
  shows "process_queue q = (Inr (), q\<lparr>mq_tasks := [], mq_started := mq_started q @ map fst (mq_tasks q), mq_after := True\<rparr>)"
  using assms queue_loop_all [OF assms(2), of "mq_started q"] by (simp add: process_queue_def)

theorem raising_task_stops_queue_witness:
  "mq_started (enqueue (3, Returns) (the (after_callback
     \<lparr>mq_tasks = [(0, Returns), (1, Raises ValueError), (2, Returns)], mq_is_running = True, mq_after = True, mq_started = []\<rparr>))) = [0, 1]"
proof -
  let ?q = "\<lparr>mq_tasks = [(0, Returns), (1, Raises ValueError), (2, Returns)], mq_is_running = True, mq_after = True, mq_started = []\<rparr>"
  have a: "after_callback ?q = Some (the (after_callback ?q))" by (simp add: after_callback_def)
  have "main_step\<^sup>*\<^sup>* (the (after_callback ?q)) (enqueue (3, Returns) (the (after_callback ?q)))"
    by (rule r_into_rtranclp) (rule step_enqueue)
  from raising_task_stops_queue [OF _ _ _ _ a this, of "[(0, Returns)]" 1 ValueError "[(2, Returns)]"] show ?thesis by simp
qed

section \<open>The time server\<close>

text \<open>The encryption services by number, with the network time each was given; the thread keeps the one it was
  started with.\<close>

record time_sync =
  ts_current :: nat
  ts_ntp_time :: "nat \<Rightarrow> rat option"
  ts_thread :: "nat option"
  ts_running :: bool

definition start_ntp_thread :: "nat \<Rightarrow> time_sync \<Rightarrow> time_sync" where
  "start_ntp_thread encryption_service s = (if ts_thread s \<noteq> None then s else s\<lparr>ts_thread := Some encryption_service\<rparr>)"

text \<open>One round of the loop; \<open>answer\<close> is what \<^verbatim>\<open>get_ntp_time\<close> gives. An exception is caught and leaves the time
  as it was. The events that are published are the result.\<close>

datatype ntp_event = Ntp_Synced rat | Ntp_Sync_Failed

definition ntp_sync_round :: "rat option res \<Rightarrow> time_sync \<Rightarrow> ntp_event option \<times> time_sync" where
  "ntp_sync_round answer s =
     (case ts_thread s of None \<Rightarrow> (None, s)
      | Some service \<Rightarrow>
          if \<not> ts_running s then (None, s)
          else case answer of
            Inl _ \<Rightarrow> (Some Ntp_Sync_Failed, s)
          | Inr (Some t) \<Rightarrow> (Some (Ntp_Synced t), s\<lparr>ts_ntp_time := (ts_ntp_time s)(service := Some t)\<rparr>)
          | Inr None \<Rightarrow> (Some Ntp_Sync_Failed, s\<lparr>ts_ntp_time := (ts_ntp_time s)(service := None)\<rparr>))"

definition services_rebuilt :: "time_sync \<Rightarrow> time_sync" where
  "services_rebuilt s = s\<lparr>ts_current := ts_current s + 1, ts_ntp_time := (ts_ntp_time s)(ts_current s + 1 := None)\<rparr>"

text \<open>After an unlock no answer of a server reaches the service that is in use.\<close>

lemma rebuilt_service_never_synced:
  assumes "ts_thread s = Some n" "n \<le> ts_current s"
  shows "ts_ntp_time (fold (\<lambda>a s. snd (ntp_sync_round a s)) answers (services_rebuilt s)) (ts_current (services_rebuilt s)) = None"
proof -
  have "ts_ntp_time (fold (\<lambda>a s. snd (ntp_sync_round a s)) answers s') m = None"
    if "ts_thread s' = Some n" "n < m" "ts_ntp_time s' m = None" for s' :: time_sync and m
    using that
  proof (induction answers arbitrary: s')
    case (Cons a answers)
    then show ?case by (auto simp: ntp_sync_round_def split: sum.split option.split)
  qed simp
  from this [of "services_rebuilt s" "ts_current s + 1"] assms show ?thesis by (simp add: services_rebuilt_def)
qed

section \<open>Hot keys\<close>

text \<open>The callbacks are numbers. \<open>win32\<close> is the platform; \<open>grants\<close> tells which registrations the system accepts;
  the listener registers in its own thread and unregisters when it ends.\<close>

record hotkeys =
  hk_defs :: "(nat \<times> nat \<times> nat \<times> nat) list"
  hk_callbacks :: "(nat \<times> nat) list"
  hk_running :: bool
  hk_registered :: "nat list"

definition MOD_NOREPEAT :: nat where "MOD_NOREPEAT = 0x4000"

definition hk_register :: "nat \<Rightarrow> nat \<Rightarrow> nat \<Rightarrow> nat \<Rightarrow> hotkeys \<Rightarrow> hotkeys" where
  "hk_register hotkey_id modifiers vk callback h =
     h\<lparr>hk_defs := hk_defs h @ [(hotkey_id, or modifiers MOD_NOREPEAT, vk, callback)],
       hk_callbacks := AList.update hotkey_id callback (hk_callbacks h)\<rparr>"

definition hk_start :: "bool \<Rightarrow> (nat \<Rightarrow> bool) \<Rightarrow> hotkeys \<Rightarrow> hotkeys" where
  "hk_start win32 grants h =
     (if \<not> win32 \<or> hk_running h then h
      else h\<lparr>hk_running := True, hk_registered := hk_registered h @ filter grants (map fst (hk_defs h))\<rparr>)"

text \<open>A message of the system for a key; the callback that is called, whose exceptions are logged.\<close>

definition hk_pressed :: "nat \<Rightarrow> hotkeys \<Rightarrow> nat option" where
  "hk_pressed hid h = (if hk_running h \<and> hid \<in> set (hk_registered h) then map_of (hk_callbacks h) hid else None)"

definition hk_stop :: "bool \<Rightarrow> hotkeys \<Rightarrow> hotkeys" where
  "hk_stop win32 h =
     (if \<not> win32 then h else h\<lparr>hk_running := False, hk_registered := [], hk_defs := [], hk_callbacks := []\<rparr>)"

lemma stopped_keys_do_nothing: "hk_pressed hid (hk_stop True h) = None"
  by (simp add: hk_pressed_def hk_stop_def)

lemma registered_key_calls:
  "grants hid \<Longrightarrow> \<not> hk_running h \<Longrightarrow> hk_pressed hid (hk_start True grants (hk_register hid m vk cb h)) = Some cb"
  by (simp add: hk_pressed_def hk_start_def hk_register_def update_conv')

end
