(* ===== verification/Key_Recovery.thy ===== *)
theory Key_Recovery
  imports Friends App_Session Encryption_Safety
begin

text \<open>
  The dialog for recovery shares, \<^verbatim>\<open>components/key_recovery_dialog.py\<close>: splitting a key among friends, the files
  that carry the shares, the shares held for others and their return, and the reconstruction, over the
  models of the secret sharing, of the friends service and of the database. The widgets are left out; what
  was selected, typed and answered is an argument. A share file is a record of optional fields, because the
  imports read it with \<^verbatim>\<open>get\<close>. The fields of a file that nothing reads back (type, version, note, time) are
  left out.
\<close>

section \<open>Splitting\<close>

text \<open>The key that is drawn, the coefficients of the polynomials, and the seed of the padding for each share.\<close>

record recovery_rnd =
  rr_key :: bytes
  rr_poly :: "nat \<Rightarrow> nat \<Rightarrow> byte"
  rr_seed :: "nat \<Rightarrow> bytes"

text \<open>\<^verbatim>\<open>show\<close>: the dialog opens after the master password.\<close>

definition recovery_dialog_opens :: "key_env \<Rightarrow> rat \<Rightarrow> bytes option \<Rightarrow> account \<Rightarrow> bool res \<times> account" where
  "recovery_dialog_opens E now master_pw s =
     (if \<not> given master_pw then (Inr False, s) else verify_master_password E now (the master_pw) s)"

definition owner_of :: "ustr \<Rightarrow> ustr" where
  "owner_of own_name = (if own_name \<noteq> [] then own_name else ustr ''owner'')"

definition milliseconds :: "rat \<Rightarrow> ustr" where "milliseconds now = json_int (trunc (now * 1000))"

text \<open>The loop over the shares: one encryption and one row each, with no transaction around it.\<close>

fun save_shares ::
  "enc_env \<Rightarrow> recovery_rnd \<Rightarrow> rat \<Rightarrow> ustr \<Rightarrow> key_store \<Rightarrow> ustr list \<Rightarrow> nat \<Rightarrow> nat \<Rightarrow> (nat \<times> nat \<times> bytes) list \<Rightarrow> db \<Rightarrow>
   recovery_row list res \<times> db" where
  "save_shares V rnd now own_name k names n t [] d = (Inr [], d)"
| "save_shares V rnd now own_name k names n t ((idx, share_index, share_bytes) # rest) d =
     (let holder = (if idx < length names then names ! idx else ustr ''Share '' @ dec share_index) in
      case get_friend_rsa_pub k holder of None \<Rightarrow> (Inl AttributeError, d)
      | Some friend_pub \<Rightarrow>
          (case encrypt_share V (rr_seed rnd idx) share_bytes friend_pub of Inl e \<Rightarrow> (Inl e, d)
           | Inr encrypted_bytes \<Rightarrow>
               (let row = \<lparr>rs_share_id = milliseconds now @ ustr ''-'' @ dec share_index, rs_owner_name = owner_of own_name,
                     rs_share_index = share_index, rs_total_shares = n, rs_threshold = t,
                     rs_encrypted_share_b64 = b64encode encrypted_bytes, rs_holder_name = holder, rs_holder_pub_b64 = [],
                     rs_created_at = now\<rparr>
                in case save_recovery_share row d of Inl e \<Rightarrow> (Inl e, d)
                   | Inr d1 \<Rightarrow>
                       (case save_shares V rnd now own_name k names n t rest d1 of
                          (Inl e, d2) \<Rightarrow> (Inl e, d2) | (Inr rows, d2) \<Rightarrow> (Inr (row # rows), d2)))))"

datatype split_outcome =
    No_Friends_Selected | Invalid_Threshold | Not_Enough_Friends | Missing_Keys "ustr list"
  | Split_Failed enigma_error | Split_Done "recovery_row list"

definition do_split ::
  "enc_env \<Rightarrow> recovery_rnd \<Rightarrow> rat \<Rightarrow> ustr \<Rightarrow> key_store \<Rightarrow> ustr list \<Rightarrow> nat \<Rightarrow> nat \<Rightarrow> db \<Rightarrow> split_outcome \<times> db" where
  "do_split V rnd now own_name k selected_names n t d =
     (if selected_names = [] then (No_Friends_Selected, d)
      else if t > n then (Invalid_Threshold, d)
      else if length selected_names < n then (Not_Enough_Friends, d)
      else let missing = filter (\<lambda>name. get_friend_rsa_pub k name = None) selected_names in
        if missing \<noteq> [] then (Missing_Keys missing, d)
        else case split_secret (rr_key rnd) n t (rr_poly rnd) of Inl e \<Rightarrow> (Split_Failed e, d)
          | Inr shares \<Rightarrow>
              (case save_shares V rnd now own_name k selected_names n t (enumerate 0 shares) d of
                 (Inl e, d1) \<Rightarrow> (Split_Failed e, d1) | (Inr rows, d1) \<Rightarrow> (Split_Done rows, d1)))"

section \<open>Share files\<close>

record share_file =
  sf_share_id :: "ustr option"
  sf_owner_name :: "ustr option"
  sf_holder_name :: "ustr option"
  sf_share_index :: "nat option"
  sf_total_shares :: "nat option"
  sf_threshold :: "nat option"
  sf_encrypted_share_b64 :: "ustr option"

definition export_share :: "recovery_row \<Rightarrow> share_file" where
  "export_share r =
     \<lparr>sf_share_id = Some (rs_share_id r), sf_owner_name = Some (rs_owner_name r), sf_holder_name = Some (rs_holder_name r),
      sf_share_index = Some (rs_share_index r), sf_total_shares = Some (rs_total_shares r), sf_threshold = Some (rs_threshold r),
      sf_encrypted_share_b64 = Some (rs_encrypted_share_b64 r)\<rparr>"

definition get_or :: "'a option \<Rightarrow> 'a \<Rightarrow> 'a" where
  "get_or x y = (case x of Some v \<Rightarrow> v | None \<Rightarrow> y)"

text \<open>The encrypted bytes of a file, decrypted with the own key; every failure is shown and ends the import.\<close>

definition open_share :: "enc_env \<Rightarrow> key_store \<Rightarrow> share_file \<Rightarrow> bytes option" where
  "open_share V k f =
     (let enc_b64 = get_or (sf_encrypted_share_b64 f) [] in
      if enc_b64 = [] then None
      else case b64decode enc_b64 of Inl _ \<Rightarrow> None
        | Inr enc_bytes \<Rightarrow> (case decrypt_share V k enc_bytes of Inl _ \<Rightarrow> None | Inr plain_bytes \<Rightarrow> Some plain_bytes))"

definition import_held_share :: "enc_env \<Rightarrow> ustr \<Rightarrow> rat \<Rightarrow> key_store \<Rightarrow> share_file \<Rightarrow> db \<Rightarrow> held_row option \<times> db" where
  "import_held_share V own_name now k f d =
     (case open_share V k f of None \<Rightarrow> (None, d)
      | Some plain_bytes \<Rightarrow>
          (let row = \<lparr>hs_share_id = get_or (sf_share_id f) (ustr ''held-'' @ milliseconds now),
                 hs_owner_name = get_or (sf_owner_name f) (ustr ''unknown''),
                 hs_holder_name = get_or (sf_holder_name f) (if own_name \<noteq> [] then own_name else ustr ''me''),
                 hs_share_index = get_or (sf_share_index f) 0, hs_total_shares = get_or (sf_total_shares f) 0,
                 hs_threshold = get_or (sf_threshold f) 0, hs_plaintext_share_b64 = b64encode plain_bytes, hs_created_at = now\<rparr>
           in (Some row, save_held_share row d)))"

text \<open>\<open>proceed\<close> is the answer to the question whether to export without encryption; a file that is not written
  is \<open>None\<close>.\<close>

definition export_back :: "enc_env \<Rightarrow> bytes \<Rightarrow> key_store \<Rightarrow> held_row \<Rightarrow> bool \<Rightarrow> share_file option res" where
  "export_back V seed k row proceed =
     (case b64decode (hs_plaintext_share_b64 row) of Inl e \<Rightarrow> Inl e
      | Inr plain_bytes \<Rightarrow>
          (let file = (\<lambda>enc_b64. \<lparr>sf_share_id = Some (hs_share_id row), sf_owner_name = Some (hs_owner_name row),
                 sf_holder_name = Some (hs_holder_name row), sf_share_index = Some (hs_share_index row),
                 sf_total_shares = Some (hs_total_shares row), sf_threshold = Some (hs_threshold row),
                 sf_encrypted_share_b64 = Some enc_b64\<rparr>) in
           case get_friend_rsa_pub k (hs_owner_name row) of
             Some owner_pub \<Rightarrow>
               (case encrypt_share V seed plain_bytes owner_pub of Inl e \<Rightarrow> Inl e | Inr enc_bytes \<Rightarrow> Inr (Some (file (b64encode enc_bytes))))
           | None \<Rightarrow> Inr (if proceed then Some (file (hs_plaintext_share_b64 row)) else None)))"

definition delete_selected :: "ustr list \<Rightarrow> bool \<Rightarrow> db \<Rightarrow> db" where
  "delete_selected sel confirmed d = (if sel = [] \<or> \<not> confirmed then d else fold delete_held_share sel d)"

text \<open>The file of a returned share becomes a line of the reconstruction; \<open>entries\<close> is the number of lines.\<close>

definition import_share_file :: "enc_env \<Rightarrow> key_store \<Rightarrow> nat \<Rightarrow> share_file \<Rightarrow> (nat \<times> ustr) option" where
  "import_share_file V k entries f =
     (case open_share V k f of None \<Rightarrow> None
      | Some plain_bytes \<Rightarrow> Some (get_or (sf_share_index f) (entries + 1), b64encode plain_bytes))"

section \<open>The reconstructed key\<close>

text \<open>The lines are read as in the recovery dialog of the lock screen, \<open>do_reconstruct\<close>. The password is the
  one the dialog was opened with.\<close>

definition apply_as_master_key ::
  "key_env \<Rightarrow> msg_crypto \<Rightarrow> bytes \<times> bytes \<Rightarrow> rat \<Rightarrow> bytes option \<Rightarrow> bool \<Rightarrow> bytes \<Rightarrow> account \<Rightarrow> ustr res option \<times> account" where
  "apply_as_master_key E C rnd now key_bytes confirmed master_pw s =
     (case key_bytes of None \<Rightarrow> (None, s)
      | Some key \<Rightarrow>
          if length key \<noteq> 32 \<or> \<not> confirmed then (None, s)
          else case update_secret E C rnd now key master_pw s of (r, s1) \<Rightarrow> (Some r, s1))"

text \<open>The rows of the status tab.\<close>

definition load_status :: "key_store \<Rightarrow> db \<Rightarrow> recovery_row list" where
  "load_status k d = concat (map (\<lambda>name. get_recovery_shares_for name d) (get_friend_names k))"

section \<open>Base64 and strip\<close>

lemma b64_char_no_space: "n < 64 \<Longrightarrow> \<not> str_space (b64_char n)"
  by (auto simp: b64_char_def str_space_def)

lemma b64_groups_no_space: "list_all (\<lambda>x. x < 256) xs \<Longrightarrow> list_all (\<lambda>c. \<not> str_space c) (b64_groups xs)"
proof (induction xs rule: b64_groups.induct)
  case (1 x y z rest)
  then show ?case using six_bits [of x y] six_bits [of y z] by (simp add: b64_char_no_space)
next
  case (2 x y)
  then show ?case using six_bits [of x y] six_bits [of y 0] by (simp add: b64_char_no_space str_space_def [of 61])
next
  case (3 x)
  then show ?case using six_bits [of x 0] by (simp add: b64_char_no_space str_space_def [of 61])
qed simp

lemma strip_b64: "strip (b64encode bs) = b64encode bs"
proof (cases "b64encode bs = []")
  case False
  have "list_all (\<lambda>c. \<not> str_space c) (b64encode bs)"
    unfolding b64encode_def by (rule b64_groups_no_space) (simp add: list_all_iff)
  with False show ?thesis by (intro strip_kept) (auto simp: list_all_iff)
qed (simp add: strip_def)

lemma b64encode_Nil: "b64encode bs = [] \<longleftrightarrow> bs = []"
proof
  assume "b64encode bs = []"
  then have "b64decode [] = Inr bs" using b64_roundtrip [of bs] by simp
  then show "bs = []" by (simp add: b64decode_def)
qed (simp add: b64encode_def)

section \<open>What a split leaves\<close>

text \<open>Every row carries one share of the list, encrypted for the friend it names.\<close>

definition carries :: "enc_env \<Rightarrow> key_store \<Rightarrow> ustr \<Rightarrow> recovery_row \<Rightarrow> nat \<times> bytes \<Rightarrow> bool" where
  "carries V k own_name r s \<longleftrightarrow>
     rs_share_index r = fst s \<and> rs_owner_name r = owner_of own_name \<and>
     (\<exists>pub seed enc. get_friend_rsa_pub k (rs_holder_name r) = Some pub \<and>
        rsa_oaep_enc (ev_msg V) pub seed (snd s) = Inr enc \<and> rs_encrypted_share_b64 r = b64encode enc)"

lemma save_shares_rows:
  "save_shares V rnd now own_name k names n t shares d = (Inr rows, d1) \<Longrightarrow>
   list_all2 (carries V k own_name) rows (map snd shares) \<and> recovery_shares d1 = recovery_shares d @ rows"
proof (induction shares arbitrary: d rows d1)
  case (Cons p rest)
  obtain idx share_index share_bytes where p: "p = (idx, share_index, share_bytes)" by (cases p)
  note prems = Cons.prems [unfolded p]
  let ?holder = "if idx < length names then names ! idx else ustr ''Share '' @ dec share_index"
  obtain pub where pub: "get_friend_rsa_pub k ?holder = Some pub"
    using prems by (cases "get_friend_rsa_pub k ?holder") (simp_all add: Let_def)
  obtain enc where enc: "encrypt_share V (rr_seed rnd idx) share_bytes pub = Inr enc"
    using prems pub by (cases "encrypt_share V (rr_seed rnd idx) share_bytes pub") (simp_all add: Let_def)
  define row where "row = \<lparr>rs_share_id = milliseconds now @ ustr ''-'' @ dec share_index, rs_owner_name = owner_of own_name,
      rs_share_index = share_index, rs_total_shares = n, rs_threshold = t,
      rs_encrypted_share_b64 = b64encode enc, rs_holder_name = ?holder, rs_holder_pub_b64 = [], rs_created_at = now\<rparr>"
  obtain d2 where d2: "save_recovery_share row d = Inr d2"
    using prems pub enc by (cases "save_recovery_share row d") (simp_all add: Let_def row_def)
  have "save_shares V rnd now own_name k names n t ((idx, share_index, share_bytes) # rest) d =
      (case save_shares V rnd now own_name k names n t rest d2 of (Inl e, d') \<Rightarrow> (Inl e, d') | (Inr rows, d') \<Rightarrow> (Inr (row # rows), d'))"
    unfolding save_shares.simps(2) Let_def pub option.case enc sum.case row_def [symmetric] d2 ..
  from trans [OF sym [OF this] prems]
  obtain rows' where rows': "save_shares V rnd now own_name k names n t rest d2 = (Inr rows', d1)" "rows = row # rows'"
    by (auto split: prod.splits sum.splits)
  have ih: "list_all2 (carries V k own_name) rows' (map snd rest) \<and> recovery_shares d1 = recovery_shares d2 @ rows'"
    by (rule Cons.IH [OF rows'(1)])
  have "recovery_shares d2 = recovery_shares d @ [row]"
    using d2 by (auto simp: save_recovery_share_def split: if_splits)
  moreover have "carries V k own_name row (share_index, share_bytes)"
    using pub enc by (auto simp: carries_def row_def encrypt_share_def)
  ultimately show ?case using ih rows'(2) p by simp
qed simp

lemma do_split_rows:
  assumes "do_split V rnd now own_name k names n t d = (Split_Done rows, d1)"
  obtains shares where "split_secret (rr_key rnd) n t (rr_poly rnd) = Inr shares"
    "list_all2 (carries V k own_name) rows shares" "recovery_shares d1 = recovery_shares d @ rows"
proof -
  obtain shares where s: "split_secret (rr_key rnd) n t (rr_poly rnd) = Inr shares"
    "save_shares V rnd now own_name k names n t (enumerate 0 shares) d = (Inr rows, d1)"
    using assms by (auto simp: do_split_def Let_def split: if_splits sum.splits prod.splits)
  then show thesis using that save_shares_rows [OF s(2)] by simp
qed

section \<open>A share on its way back\<close>

text \<open>The owner's file goes to the holder, who imports it, keeps it, exports it for the owner, who imports it.\<close>

definition round_trip ::
  "enc_env \<Rightarrow> bytes \<Rightarrow> ustr \<Rightarrow> rat \<Rightarrow> key_store \<Rightarrow> key_store \<Rightarrow> db \<Rightarrow> recovery_row \<Rightarrow> (nat \<times> ustr) option" where
  "round_trip V seed holder_name now ko kh d row =
     (case import_held_share V holder_name now kh (export_share row) d of
        (Some h, _) \<Rightarrow> (case export_back V seed kh h False of Inr (Some f) \<Rightarrow> import_share_file V ko 0 f | _ \<Rightarrow> None)
      | (None, _) \<Rightarrow> None)"

definition can_return :: "enc_env \<Rightarrow> key_store \<Rightarrow> ustr \<Rightarrow> bytes \<Rightarrow> key_store \<Rightarrow> recovery_row \<Rightarrow> bool" where
  "can_return V ko owner opub kh row \<longleftrightarrow>
     (\<exists>hpriv hpub. my_priv kh = Some hpriv \<and> get_friend_rsa_pub ko (rs_holder_name row) = Some hpub \<and>
        rsa_pair (ev_msg V) hpriv hpub) \<and> get_friend_rsa_pub kh owner = Some opub"

lemma open_share_encrypted:
  assumes "sf_encrypted_share_b64 f = Some (b64encode enc)" "enc \<noteq> []" "my_priv k = Some priv" "rsa_oaep_dec (ev_msg V) priv enc = Inr b"
  shows "open_share V k f = Some b"
  using assms by (simp add: open_share_def get_or_def b64encode_Nil b64_roundtrip decrypt_share_def)

lemma share_returns:
  assumes "carries V ko own_name row s" "can_return V ko (owner_of own_name) opub kh row"
    and "my_priv ko = Some opriv" "rsa_pair (ev_msg V) opriv opub"
    and "\<And>pub seed enc. rsa_oaep_enc (ev_msg V) pub seed (snd s) = Inr enc \<Longrightarrow> enc \<noteq> []"
    and "is_ok (rsa_oaep_enc (ev_msg V) opub seed (snd s))"
  shows "round_trip V seed holder_name now ko kh d row = Some (fst s, b64encode (snd s))"
proof -
  obtain pub sd enc where c: "rs_share_index row = fst s" "rs_owner_name row = owner_of own_name"
    "get_friend_rsa_pub ko (rs_holder_name row) = Some pub" "rsa_oaep_enc (ev_msg V) pub sd (snd s) = Inr enc"
    "rs_encrypted_share_b64 row = b64encode enc"
    using assms(1) by (auto simp: carries_def)
  obtain hpriv where h: "my_priv kh = Some hpriv" "rsa_pair (ev_msg V) hpriv pub" "get_friend_rsa_pub kh (owner_of own_name) = Some opub"
    using assms(2) c(3) by (auto simp: can_return_def)
  have "rsa_oaep_dec (ev_msg V) hpriv enc = Inr (snd s)" using h(2) c(4) by (simp add: rsa_pair_def)
  with c(5) h(1) assms(5) [OF c(4)] have o1: "open_share V kh (export_share row) = Some (snd s)"
    by (intro open_share_encrypted) (simp_all add: export_share_def)
  obtain enc2 where e2: "rsa_oaep_enc (ev_msg V) opub seed (snd s) = Inr enc2" using assms(6) by (auto simp: is_ok_iff)
  then have "rsa_oaep_dec (ev_msg V) opriv enc2 = Inr (snd s)" using assms(4) by (simp add: rsa_pair_def)
  with assms(3,5) e2 have o2: "open_share V ko f = Some (snd s)" if "sf_encrypted_share_b64 f = Some (b64encode enc2)" for f
    using that by (intro open_share_encrypted) auto
  show ?thesis
    unfolding round_trip_def import_held_share_def o1 option.case Let_def prod.case export_back_def
    by (simp add: b64_roundtrip export_share_def get_or_def c h encrypt_share_def e2 import_share_file_def o2)
qed

lemma reconstruct_entries:
  assumes "split_secret secret n t poly = Inr shares" "set sel \<subseteq> set shares" "distinct sel" "t \<le> length sel"
  shows "do_reconstruct (map (\<lambda>s. (fst s, b64encode (snd s))) sel) key = Some secret"
proof -
  have p: "secret \<noteq> []" "2 \<le> t" using split_secret_params [OF assms(1)] by auto
  have len: "length (snd s) = length secret" if "s \<in> set sel" for s
    using split_secret_share [OF assms(1), of s] assms(2) that by auto
  let ?es = "map (\<lambda>s. (fst s, b64encode (snd s))) sel"
  have "b64encode (snd s) \<noteq> []" if "s \<in> set sel" for s using len [OF that] p(1) by (auto simp: b64encode_Nil)
  then have raw: "filter (\<lambda>s. snd s \<noteq> []) (map (\<lambda>(idx, txt). (idx, strip txt)) ?es) = ?es"
    by (auto simp: strip_b64 filter_id_conv)
  have parsed: "map_res (\<lambda>(idx, txt). case b64decode txt of Inl e \<Rightarrow> Inl e | Inr b \<Rightarrow> Inr (idx, b)) ?es = Inr sel"
    by (induction sel) (simp_all add: b64_roundtrip)
  have ne: "sel \<noteq> []" "\<not> length ?es < 2" using p(2) assms(4) by auto
  have "(\<lambda>s. length (snd s)) ` set sel = (\<lambda>_. length secret) ` set sel" using len by (intro image_cong) auto
  then have "(\<lambda>s. length (snd s)) ` set sel = {length secret}" using ne(1) by (simp add: image_constant_conv)
  then have "card ((\<lambda>s. length (snd s)) ` set sel) = 1" by simp
  moreover have "length (snd (hd sel)) = length secret" using len ne(1) by simp
  moreover have "reconstruct_secret sel (length secret) = Inr secret"
    by (rule reconstruct_shares [where t = t]) (use assms split_secret_share [OF assms(1)] split_secret_fst_inj [OF assms(1-3)] p(2) in fastforce)+
  ultimately show ?thesis unfolding do_reconstruct_def raw Let_def parsed using ne by simp
qed

lemma carried_shares:
  assumes "split_secret secret n t poly = Inr shares" "list_all2 (carries V ko own_name) rows shares"
    and "set sel \<subseteq> set rows" "distinct sel"
  obtains ss where "list_all2 (carries V ko own_name) sel ss" "set ss \<subseteq> set shares" "distinct ss"
proof -
  have "\<forall>r\<in>set sel. \<exists>s. s \<in> set shares \<and> carries V ko own_name r s"
  proof
    fix r assume "r \<in> set sel"
    then obtain i where "i < length rows" "rows ! i = r" using assms(3) by (metis in_set_conv_nth subsetD)
    then show "\<exists>s. s \<in> set shares \<and> carries V ko own_name r s"
      using assms(2) by (metis list_all2_conv_all_nth nth_mem)
  qed
  from bchoice [OF this] obtain f where f: "\<forall>r\<in>set sel. f r \<in> set shares \<and> carries V ko own_name r (f r)" ..
  have "split_secret secret n t poly = Inr (map (\<lambda>x. (x, share_at secret t poly x)) [1..<n + 1])"
    using split_secret_params [OF assms(1)] by (intro split_secret_val) auto
  then have "distinct (map fst shares)" using assms(1) by (auto simp: comp_def)
  moreover have "map rs_share_index rows = map fst shares"
    using assms(2) by (intro nth_equalityI) (auto simp: carries_def list_all2_conv_all_nth)
  ultimately have inj: "inj_on rs_share_index (set rows)" by (metis distinct_map)
  have "inj_on f (set sel)"
    using f inj assms(3) by (intro inj_onI) (metis carries_def inj_onD subsetD)
  then have "distinct (map f sel)" using assms(4) by (simp add: distinct_map)
  moreover have "list_all2 (carries V ko own_name) sel (map f sel)" using f by (simp add: list_all2_conv_all_nth)
  moreover have "set (map f sel) \<subseteq> set shares" using f by auto
  ultimately show thesis using that by blast
qed


text \<open>Two friends hold the two shares of a key of two bytes.\<close>

definition recovery_owner :: key_store where
  "recovery_owner = new_key_store\<lparr>my_priv := Some [9], friends := [(ustr ''ann'', [1], None), (ustr ''bob'', [2], None)]\<rparr>"

definition share_holder :: "recovery_row \<Rightarrow> key_store" where
  "share_holder r = new_key_store\<lparr>my_priv := Some (if rs_holder_name r = ustr ''ann'' then [1] else [2]),
     friends := [(ustr ''owner'', [9], None)]\<rparr>"

definition demo_recovery :: recovery_rnd where
  "demo_recovery = \<lparr>rr_key = [42, 7], rr_poly = (\<lambda>k c. 9), rr_seed = (\<lambda>_. [])\<rparr>"

lemma demo_split:
  "\<exists>rows d1. do_split demo_env demo_recovery 0 [] recovery_owner [ustr ''ann'', ustr ''bob''] 2 2 empty_db = (Split_Done rows, d1) \<and>
     length rows = 2 \<and> map rs_holder_name rows = [ustr ''ann'', ustr ''bob'']"
proof -
  have "[1..<2 + 1] = [1, 2 :: nat]" by code_simp
  then obtain a b where s: "split_secret [42, 7] 2 2 (\<lambda>k c. 9) = Inr [(1, a), (2, b)]"
    using split_secret_val [of "[42, 7]" 2 2 "\<lambda>k c. 9"] by auto
  have "dec 1 \<noteq> dec 2" by code_simp
  then show ?thesis
    by (simp add: do_split_def demo_recovery_def s recovery_owner_def get_friend_rsa_pub_def friend_entry_def new_key_store_def
        demo_env_def encrypt_share_def ref_msg_def save_recovery_share_def empty_db_def ustr_def Let_def)
qed


section \<open>What the shares are of\<close>

text \<open>The key that is split is drawn for the purpose: the rows depend on the friends alone, whatever secrets the
  user has, and no secret can be recovered with them.\<close>

lemma split_ignores_secrets:
  assumes "friends k' = friends k"
  shows "do_split V rnd now own_name k' names n t d = do_split V rnd now own_name k names n t d"
proof -
  have g: "get_friend_rsa_pub k' = get_friend_rsa_pub k"
    using assms by (intro ext) (simp add: get_friend_rsa_pub_def friend_entry_def)
  have "save_shares V rnd now own_name k' names n t ss d = save_shares V rnd now own_name k names n t ss d" for ss d
    by (induction ss arbitrary: d) (auto simp: g Let_def split: option.split sum.split prod.split)
  then show ?thesis by (simp only: do_split_def g)
qed

text \<open>The status tab lists the shares by the names of friends as owners; the own ones are not among them.\<close>

lemma own_shares_not_listed:
  assumes "do_split V rnd now own_name k names n t d = (Split_Done rows, d1)" "owner_of own_name \<notin> set (get_friend_names k)"
  shows "load_status k d1 = load_status k d"
proof -
  obtain shares where "list_all2 (carries V k own_name) rows shares" "recovery_shares d1 = recovery_shares d @ rows"
    by (rule do_split_rows [OF assms(1)])
  then have "\<forall>r\<in>set rows. rs_owner_name r = owner_of own_name" by (auto simp: carries_def list_all2_conv_all_nth in_set_conv_nth)
  then have "filter (\<lambda>r. rs_owner_name r = name) rows = []" if "name \<in> set (get_friend_names k)" for name
    using assms(2) that by (auto simp: filter_empty_conv)
  with \<open>recovery_shares d1 = _\<close> show ?thesis
    unfolding load_status_def get_recovery_shares_for_def by (intro arg_cong [where f = concat] map_cong) simp_all
qed

text \<open>A share that was exported without encryption cannot be imported by the owner unless it decrypts.\<close>

lemma plain_export_needs_decryption:
  assumes "sf_encrypted_share_b64 f = Some (b64encode b)" "decrypt_share V k b = Inl e"
  shows "import_share_file V k n f = None"
  using assms by (simp add: import_share_file_def open_share_def get_or_def Let_def b64_roundtrip)

end
