(* ===== verification/Spec2Isabelle.thy ===== *)
theory Spec2Isabelle
  imports Shamir Envelope Ratchet_Codec Key_Safety Trust_Safety Message_Safety Ratchet_Sessions Lock_Order
    Totp_Safety Friends_Safety File_Safety Backup_Safety Event_Bus Ntp Auth_Safety Guarded_Safety
    Task_Queue Anomaly Background_Agents Anti_Tamper Desktop Key_Recovery
begin

text \<open>
  Ultimate Enigma Messenger: a verification library for the core of the program.

  \<^bold>\<open>The program.\<close> A desktop messenger without a server: the user copies encrypted packets from
  one application to another. An account is an encrypted database (\<^verbatim>\<open>database.py\<close>) and, while
  it is unlocked, a key store in memory (\<^verbatim>\<open>key_manager.py\<close>). The services under
  \<^verbatim>\<open>services/\<close> work on both: messages for a shared secret or an RSA key (\<^verbatim>\<open>crypto.py\<close>),
  for a Double Ratchet session (\<^verbatim>\<open>ratchet_service.py\<close> over \<^verbatim>\<open>double_ratchet.py\<close>) or for a
  post-quantum key (\<^verbatim>\<open>pqc_service.py\<close>), one facade in front of the three
  (\<^verbatim>\<open>services/encryption\<close>), friends and their keys (\<^verbatim>\<open>services/friends\<close>), a web of
  trust with the recovery of keys from shares (\<^verbatim>\<open>trust_chain_service.py\<close>,
  \<^verbatim>\<open>shamir_service.py\<close>), one-time passwords (\<^verbatim>\<open>totp_service.py\<close>), files, backups and the
  clock. Controllers start, lock and unlock the program; the windows around them are not modelled.

  \<^bold>\<open>What is shared.\<close>
  \<^item> \<open>Enigma_Prelude\<close>: exceptions as a datatype, results as sums, the pair of a result and a state for
    what raises after it has assigned, byte strings, slices, \<^verbatim>\<open>struct\<close>, UTF-8; the locale
    \<open>prefix_codec\<close> of a field that is read back from the front of any byte string.
  \<^item> \<open>Text_Codec\<close>: \<^verbatim>\<open>hex\<close>, decimal numbers, base64 as the standard library reads them
    (leniently), \<^verbatim>\<open>str.strip\<close>; the locale \<open>text_codec\<close>. \<open>Json\<close>: \<^verbatim>\<open>json.dumps\<close> and
    \<^verbatim>\<open>json.loads\<close>, and that the second reads what the first writes. \<open>Hmac\<close>: SHA-1 and HMAC.
  \<^item> \<open>State_Machine\<close>: the locale of a component with operations, an invariant and the states it can
    reach; \<open>Lockout\<close>, \<open>Key_Invariant\<close>, \<open>Totp_Safety\<close> and \<open>Auth_Safety\<close> interpret it.

  \<^bold>\<open>The components, and where their definitions are.\<close>
  \<^item> Secret sharing, \<^verbatim>\<open>services/shamir_service.py\<close>: \<open>GF256\<close> builds the two tables as the module does
    and proves that their product is multiplication modulo the polynomial, so that the bytes are an
    instance of the class of fields; \<open>Interpolation\<close> has Lagrange interpolation over any
    field; \<open>Shamir\<close> has \<open>split_secret\<close> and \<open>reconstruct_secret\<close> with every check, proves
    that any \<open>k\<close> of \<open>n\<close> shares give the secret back, and that fewer say nothing about it.
  \<^item> Wire formats, \<^verbatim>\<open>models/envelope.py\<close>: \<open>Envelope\<close> (two formats, one locale \<open>envelope_format\<close>).
  \<^item> Ciphers: \<open>XChaCha\<close> has HChaCha20 on 32-bit words and the cipher of
    \<^verbatim>\<open>xchacha20_poly1305.py\<close>; it meets the contract \<open>aead\<close> when the inner cipher does.
  \<^item> Signatures, \<^verbatim>\<open>pqc_signatures.py\<close>: \<open>Hybrid_Signer\<close>. Key encapsulation, \<^verbatim>\<open>pqc_service.py\<close>:
    \<open>Hybrid_KEM\<close>. Key agreement, \<^verbatim>\<open>ecdh_service.py\<close>: \<open>Ecdh\<close>. Each has a locale for what the
    program expects of the scheme, one for what the libraries promise, and a sublocale from the second
    to the first.
  \<^item> The Double Ratchet: \<open>Double_Ratchet\<close> has every operation of \<^verbatim>\<open>double_ratchet.py\<close>, \<open>Ratchet_Codec\<close>
    the dictionary a state is stored as, \<open>Ratchet_Service\<close> the sessions at rest, the write buffer, the
    profiles and the locks of \<^verbatim>\<open>ratchet_service.py\<close>, \<^verbatim>\<open>friend_repository.py\<close> and
    \<^verbatim>\<open>friend_profile.py\<close>. \<open>Ratchet_Sessions\<close> proves that a message that is flushed is a message of
    the ratchet and what happens to one that is not; \<open>Lock_Order\<close> runs several threads that take the
    locks in the order of the names: some thread can always go on, and every run ends.
  \<^item> The database, \<^verbatim>\<open>database.py\<close>: \<open>Database\<close> (tables as lists of rows, the locale \<open>keyed_table\<close>,
    secrets and their migration, the key of the database).
  \<^item> Authentication: \<open>Lockout\<close> has \<^verbatim>\<open>security/lockout.py\<close> and \<^verbatim>\<open>KeyStore.verify_password\<close>,
    \<open>Totp\<close> and \<open>Totp_Safety\<close> the one-time passwords of \<^verbatim>\<open>totp_service.py\<close>,
    \<^verbatim>\<open>totp_persistence.py\<close> and the dialogs of \<^verbatim>\<open>auth_controller.py\<close> that call them,
    \<open>Session\<close> the verification of the master password by a service, and \<^verbatim>\<open>global_secret_service.py\<close>.
  \<^item> The key store, \<^verbatim>\<open>key_manager.py\<close>: \<open>Key_Store\<close> (the keys in memory, loading, friends,
    post-quantum keys), \<open>Password_Change\<close> (rotation, change and recovery of the password, duress
    mode), \<open>Key_Invariant\<close> (the invariant that ties the list of friends, its dictionaries and the
    table together, for every sequence of operations), \<open>Friend_View\<close> and \<open>Key_Safety\<close> (what one
    friend has before and after a restart, what a change of the password keeps).
  \<^item> The web of trust: \<open>Trust_Chain\<close> has the data of \<^verbatim>\<open>models/trust_chain.py\<close>, \<open>Trust_Service\<close>
    the operations of \<^verbatim>\<open>trust_chain_service.py\<close>, \<open>Trust_Safety\<close> what they guarantee.
  \<^item> Messages: \<open>Message\<close> has \<^verbatim>\<open>crypto.py\<close>, \<open>Message_Safety\<close> the round trip of every kind of
    message and what the line about the signature is worth.
  \<^item> The facade: \<open>Encryption\<close> has the three strategies and \<^verbatim>\<open>encryption_facade.py\<close>,
    \<open>Encryption_Safety\<close> follows a packet from the facade of the sender to that of the receiver.
  \<^item> Friends: \<open>Friends\<close> has \<^verbatim>\<open>services/friends\<close>, \<open>Friends_Safety\<close> what its operations keep and lose.
  \<^item> Files: \<open>File_Service\<close> has \<^verbatim>\<open>file_ops.py\<close> and \<^verbatim>\<open>file_service.py\<close> over a file system of paths and
    contents, \<open>File_Safety\<close> the round trips, what a failed decryption leaves and what a signature is worth.
  \<^item> Backups: \<open>Backup\<close> has \<^verbatim>\<open>backup_service.py\<close>, \<open>Backup_Safety\<close> what an import brings back and
    what it loses, and the pruning of old files.
  \<^item> Events and time: \<open>Event_Bus\<close> has \<^verbatim>\<open>event_bus.py\<close> over handlers that may do anything, \<open>Ntp\<close> has
    \<^verbatim>\<open>ntp_client.py\<close> and proves that a minority of servers cannot move the clock.
  \<^item> The running program: \<open>Password_Entry\<close> has the strength check of \<^verbatim>\<open>views/utils.py\<close> and the dialog
    around it, \<open>Auth_Controller\<close> the workflows of \<^verbatim>\<open>auth_controller.py\<close> (first run, login, unlock,
    recovery, passwords, duress mode) and the creation of the first keys in \<^verbatim>\<open>key_generation.py\<close>,
    \<open>App_Session\<close> the recovery dialog, the start in \<^verbatim>\<open>app_builder.py\<close>, and locking and unlocking in
    \<^verbatim>\<open>app.py\<close>. \<open>Auth_Safety\<close> proves that an unlock needs both factors, that a duress session
    stays one, and that no key is in memory while the program is locked.
  \<^item> Memory for secrets: \<open>Guarded_Memory\<close> has \<^verbatim>\<open>guarded_buffer.py\<close> over pages with protections,
    \<^verbatim>\<open>secure_string.py\<close> and the page arithmetic of \<^verbatim>\<open>memory_security.py\<close>; \<open>Guarded_Safety\<close> proves
    that buffers behave like independent byte arrays, by a simulation over every sequence of operations.
  \<^item> Work behind the windows: \<open>Task_Queue\<close> has \<^verbatim>\<open>crypto_task_queue.py\<close>, \<^verbatim>\<open>timeout.py\<close> and
    \<^verbatim>\<open>crypto_task_helper.py\<close> as a step relation over queues and threads, with the invariant that no
    task is lost or called back twice, the progress of the queue, and what one task that hangs does to the
    others. \<open>Background_Agents\<close> has a cycle of each agent of \<^verbatim>\<open>background_agents.py\<close> over the services it
    asks, and the start and stop of its threads; \<open>Anomaly\<close> the features, the score and the alarm of
    \<^verbatim>\<open>anomaly_detection_service.py\<close>.
  \<^item> The desktop: \<open>Desktop\<close> has the clipboard with its timers, the hot keys, the queue of the main
    thread and the network time of \<^verbatim>\<open>application_controller.py\<close>; a secret leaves the clipboard in time, and
    a task that raises stops the queue. \<open>Anti_Tamper\<close> has the checks of \<^verbatim>\<open>anti_tamper.py\<close> as functions of what
    the system answers, and the seeker of its background thread.
  \<^item> Recovery shares: \<open>Key_Recovery\<close> has \<^verbatim>\<open>key_recovery_dialog.py\<close> over the secret sharing, the friends and
    the database: shares that are split, handed out, kept and exported back reconstruct the key; and what the
    dialog does not do, because the key it splits protects nothing.

  \<^bold>\<open>How code becomes definitions.\<close> An operation keeps its name, its guards and their order. An
  exception is a value of \<open>enigma_error\<close>; its text is dropped, its class is kept, and an
  \<^verbatim>\<open>except\<close> clause is a test on the class. An operation that changes an object returns the object
  also when it raises. A Python string is the list of its code points (\<open>ustr\<close>), a dictionary an
  association list in the order of insertion, a table the list of its rows, a time a rational, an
  integer that wraps a word. Time, random bytes and fresh keys are arguments. Cryptography that
  comes from a package (RSA, AES-GCM, HKDF, Argon2id, X25519, Ed25519, Kyber, Dilithium, PEM) is a
  record of functions; what the program expects of it is the assumption of a locale
  (\<open>aead\<close>, \<open>db_laws\<close>, \<open>key_laws\<close>, \<open>ratchet_laws\<close>, \<open>sig_laws\<close>, \<open>kem_laws\<close>,
  \<open>ecdh_laws\<close>, \<open>msg_laws\<close>, \<open>hasher_laws\<close>, \<open>os_laws\<close>), and each has an interpretation on functions that meet it. Outside
  of its own theory a guarded buffer is its contents, which is what the simulation there justifies. Logging, events on the screen and message boxes are dropped; a dialog is
  the list of what was typed into it.

  \<^bold>\<open>Bounds and fuel.\<close> No operation needs fuel but the JSON reader, whose fuel is the length of the
  text: every nested call is on a shorter text, and the round trip shows that it is enough. Loops over data are
  structural; the others have a measure (the distance to the requested message number for skipped
  keys, the rest of the text for UTF-8, the number of the round for SHA-1). Integers that
  are packed keep their bound: \<open>pack_be\<close> raises where \<^verbatim>\<open>struct.pack\<close> does.

  \<^bold>\<open>What modelling showed.\<close> Some theorems state what the program does where its comments promise
  something else: a lockout that a correct password does not end, a change of the password that
  leaves keys behind, a recovery that accepts made-up shares, a code that is accepted twice after it, an import that undoes a revocation, one
  issuer that counts as two, two messages under one key, a message key that is burned by a forged
  packet, options that a strategy ignores. The texts before those theorems say so.

  \<^bold>\<open>Not modelled.\<close> The windows of \<^verbatim>\<open>views\<close>, \<^verbatim>\<open>components\<close> and \<^verbatim>\<open>app.py\<close> hold the state of Tk widgets;
  of the dialogs only the handlers that decide something are modelled. \<^verbatim>\<open>anti_dump.py\<close> and
  the calls behind \<^verbatim>\<open>anti_tamper.py\<close>, the hot keys and the clipboard are the operating system. The waiting times of the background agents and the
  trained model of the anomaly score, which a machine-learning library evaluates, are left out. The code analysis runs external tools. Of the modelled files, the
  connection to SQLite with its pragmas, the upgrade of old tables, and the import-time self test
  of the cipher are left out; concurrency is modelled in the locks, the task queue and the agents.
\<close>

end
